(* ===== verification/Prelude.thy ===== *)
theory Prelude
  imports Main "HOL-Library.Char_ord" "HOL-Library.List_Lexorder" "HOL-Library.Sublist"
begin

text \<open>
  Shared vocabulary of the development: the collections the component proofs are simplified with,
  association lists in the role of the insertion-ordered objects and maps of the source language,
  the removal of duplicates that a set built from an array performs, the decimal rendering of
  numbers, and the character classes of the regular expressions the code uses.
\<close>

named_theorems run_rules \<open>inversion equations of the state-and-exception calculus\<close>
named_theorems alist_simps \<open>equations of the ordered maps\<close>

section \<open>Ordered maps\<close>

text \<open>
  A JavaScript object or map keeps its keys in the order of their first insertion: writing a key
  that is present replaces the value in place, writing a new key appends it.
\<close>

type_synonym ('k, 'v) omap = "('k \<times> 'v) list"

fun oput :: "'k \<Rightarrow> 'v \<Rightarrow> ('k, 'v) omap \<Rightarrow> ('k, 'v) omap" where
  "oput k v [] = [(k, v)]"
| "oput k v ((k', v') # m) = (if k' = k then (k, v) # m else (k', v') # oput k v m)"

definition odel :: "'k \<Rightarrow> ('k, 'v) omap \<Rightarrow> ('k, 'v) omap" where
  "odel k m = filter (\<lambda>(k', v). k' \<noteq> k) m"

abbreviation oget :: "('k, 'v) omap \<Rightarrow> 'k \<Rightarrow> 'v option" where
  "oget m k \<equiv> map_of m k"

abbreviation okeys :: "('k, 'v) omap \<Rightarrow> 'k list" where
  "okeys m \<equiv> map fst m"

lemma oget_oput [simp, alist_simps]:
  "oget (oput k v m) k' = (if k' = k then Some v else oget m k')"
  by (induction m) auto

lemma oget_odel [simp, alist_simps]:
  "oget (odel k m) k' = (if k' = k then None else oget m k')"
  by (induction m) (auto simp: odel_def)

lemma oput_oput [simp, alist_simps]: "oput k v (oput k w m) = oput k v m"
  by (induction m) auto

lemma okeys_oput [alist_simps]:
  "okeys (oput k v m) = (if k \<in> set (okeys m) then okeys m else okeys m @ [k])"
  by (induction k v m rule: oput.induct) (auto simp: image_iff split: if_splits)

lemma set_okeys_oput [simp]: "fst ` set (oput k v m) = insert k (fst ` set m)"
  by (induction k v m rule: oput.induct) auto

lemma distinct_okeys_oput [intro]: "distinct (okeys m) \<Longrightarrow> distinct (okeys (oput k v m))"
  by (simp add: okeys_oput)

lemma okeys_odel [alist_simps]: "okeys (odel k m) = filter (\<lambda>k'. k' \<noteq> k) (okeys m)"
  by (induction m) (auto simp: odel_def)

lemma distinct_okeys_odel [intro]: "distinct (okeys m) \<Longrightarrow> distinct (okeys (odel k m))"
  by (simp add: okeys_odel)

lemma oget_None_iff: "oget m k = None \<longleftrightarrow> k \<notin> set (okeys m)"
  by (induction m) auto

lemma oget_Some_key: "oget m k = Some v \<Longrightarrow> k \<in> set (okeys m)"
  by (induction m) (auto split: if_splits)

lemma length_oput_present: "k \<in> set (okeys m) \<Longrightarrow> length (oput k v m) = length m"
  by (induction k v m rule: oput.induct) auto

lemma okey_has_value: "k \<in> set (okeys m) \<Longrightarrow> \<exists>v. oget m k = Some v"
  by (metis oget_None_iff not_None_eq)

text \<open>The contract of an ordered map, which both the object literals and the map objects of the
  code are used through.\<close>

locale keyed_table =
  fixes get :: "'m \<Rightarrow> 'k \<Rightarrow> 'v option"
    and put :: "'k \<Rightarrow> 'v \<Rightarrow> 'm \<Rightarrow> 'm"
    and del :: "'k \<Rightarrow> 'm \<Rightarrow> 'm"
    and keys :: "'m \<Rightarrow> 'k list"
  assumes get_put: "get (put k v m) k' = (if k' = k then Some v else get m k')"
    and get_del: "get (del k m) k' = (if k' = k then None else get m k')"
    and keys_put: "keys (put k v m) = (if k \<in> set (keys m) then keys m else keys m @ [k])"
    and get_keys: "(get m k = None) = (k \<notin> set (keys m))"
begin

lemma put_overwrites: "get (put k v (put k w m)) = get (put k v m)"
  by (rule ext) (simp add: get_put)

lemma put_commutes: "k \<noteq> l \<Longrightarrow> get (put k v (put l w m)) = get (put l w (put k v m))"
  by (rule ext) (auto simp: get_put)

lemma put_keeps_order: "k \<in> set (keys m) \<Longrightarrow> keys (put k v m) = keys m"
  by (simp add: keys_put)

lemma del_absent: "k \<notin> set (keys m) \<Longrightarrow> get (del k m) = get m"
  by (rule ext) (auto simp: get_del get_keys [symmetric])

lemma present_has_value: "k \<in> set (keys m) \<Longrightarrow> \<exists>v. get m k = Some v"
  using get_keys [of m k] by auto

end

interpretation omap: keyed_table map_of oput odel "map fst"
  by unfold_locales (auto simp: okeys_oput oget_None_iff)

section \<open>Sets built from arrays\<close>

text \<open>The iteration order of a set is the order in which its elements were first added.\<close>

fun js_set_from :: "'a list \<Rightarrow> 'a list \<Rightarrow> 'a list" where
  "js_set_from seen [] = seen"
| "js_set_from seen (x # xs) = js_set_from (if x \<in> set seen then seen else seen @ [x]) xs"

definition js_set :: "'a list \<Rightarrow> 'a list" where
  "js_set xs = js_set_from [] xs"

lemma set_js_set_from: "set (js_set_from seen xs) = set seen \<union> set xs"
  by (induction xs arbitrary: seen) auto

lemma distinct_js_set_from: "distinct seen \<Longrightarrow> distinct (js_set_from seen xs)"
  by (induction xs arbitrary: seen) auto

lemma set_js_set [simp]: "set (js_set xs) = set xs"
  by (simp add: js_set_def set_js_set_from)

lemma distinct_js_set [simp]: "distinct (js_set xs)"
  by (simp add: js_set_def distinct_js_set_from)

lemma js_set_from_distinct:
  "distinct (seen @ xs) \<Longrightarrow> js_set_from seen xs = seen @ xs"
  by (induction xs arbitrary: seen) auto

lemma js_set_distinct: "distinct xs \<Longrightarrow> js_set xs = xs"
  by (simp add: js_set_def js_set_from_distinct)

lemma length_js_set_from_le: "length (js_set_from seen xs) \<le> length seen + length xs"
proof (induction xs arbitrary: seen)
  case (Cons x xs)
  show ?case
    using Cons.IH [of seen] Cons.IH [of "seen @ [x]"] by auto
qed simp

lemma js_set_length_distinct: "length (js_set xs) = length xs \<longleftrightarrow> distinct xs"
proof
  assume "length (js_set xs) = length xs"
  then have "card (set xs) = length xs"
    using distinct_card [OF distinct_js_set [of xs]] by simp
  then show "distinct xs" by (rule card_distinct)
next
  assume "distinct xs"
  then show "length (js_set xs) = length xs" by (simp add: js_set_distinct)
qed

section \<open>Characters and numerals\<close>

definition char_between :: "char \<Rightarrow> char \<Rightarrow> char \<Rightarrow> bool" where
  "char_between lo hi c \<longleftrightarrow> lo \<le> c \<and> c \<le> hi"

definition is_digit :: "char \<Rightarrow> bool" where
  "is_digit c \<longleftrightarrow> char_between CHR ''0'' CHR ''9'' c"

definition is_lower :: "char \<Rightarrow> bool" where
  "is_lower c \<longleftrightarrow> char_between CHR ''a'' CHR ''z'' c"

definition is_upper :: "char \<Rightarrow> bool" where
  "is_upper c \<longleftrightarrow> char_between CHR ''A'' CHR ''Z'' c"

definition is_letter :: "char \<Rightarrow> bool" where
  "is_letter c \<longleftrightarrow> is_lower c \<or> is_upper c"

text \<open>The white space that \<open>trim\<close> and the class \<open>\s\<close> of the code remove, among
  the characters below 256: tab, line feed, vertical tab, form feed, carriage return, blank and the
  blank that does not break.\<close>

definition is_space :: "char \<Rightarrow> bool" where
  "is_space c \<longleftrightarrow> c \<in> set [CHR 0x09, CHR 0x0A, CHR 0x0B, CHR 0x0C, CHR 0x0D, CHR 0x20, CHR 0xA0]"

definition js_trim :: "string \<Rightarrow> string" where
  "js_trim s = rev (dropWhile is_space (rev (dropWhile is_space s)))"

definition blank :: "string \<Rightarrow> bool" where
  "blank s \<longleftrightarrow> list_all is_space s"

lemma js_trim_empty: "js_trim s = [] \<longleftrightarrow> blank s"
proof -
  have "js_trim s = [] \<longleftrightarrow> (\<forall>x \<in> set (dropWhile is_space s). is_space x)"
    by (simp add: js_trim_def)
  also have "\<dots> \<longleftrightarrow> dropWhile is_space s = []"
    by (metis dropWhile_eq_Nil_conv hd_dropWhile hd_in_set set_dropWhileD)
  finally show ?thesis by (simp add: blank_def list_all_iff)
qed

fun nat_str :: "nat \<Rightarrow> string" where
  "nat_str n = (if n < 10 then [char_of (48 + n)] else nat_str (n div 10) @ [char_of (48 + n mod 10)])"

declare nat_str.simps [simp del]

lemma nat_str_nonempty: "nat_str n \<noteq> []"
  by (subst nat_str.simps) simp

definition pad_start :: "nat \<Rightarrow> char \<Rightarrow> string \<Rightarrow> string" where
  "pad_start width c s = replicate (width - length s) c @ s"

lemma length_pad_start: "length (pad_start width c s) = max width (length s)"
  by (simp add: pad_start_def)

fun join_with :: "string \<Rightarrow> string list \<Rightarrow> string" where
  "join_with sep [] = []"
| "join_with sep [x] = x"
| "join_with sep (x # y # zs) = x @ sep @ join_with sep (y # zs)"

text \<open>Splitting at one separating character; as in the source language the result is never
  empty.\<close>

fun split_char :: "char \<Rightarrow> string \<Rightarrow> string list" where
  "split_char c [] = [[]]"
| "split_char c (x # xs) =
     (if x = c then [] # split_char c xs
      else (case split_char c xs of
              [] \<Rightarrow> [[x]]
            | seg # segs \<Rightarrow> (x # seg) # segs))"

lemma split_char_nonempty [simp]: "split_char c s \<noteq> []"
  by (induction s) (auto split: list.splits)

lemma join_split_char: "join_with [c] (split_char c s) = s"
proof (induction s)
  case Nil
  then show ?case by simp
next
  case (Cons x xs)
  obtain seg segs where sp: "split_char c xs = seg # segs"
    using split_char_nonempty [of c xs] by (cases "split_char c xs") auto
  with Cons show ?case by (cases segs) auto
qed

lemma split_char_no_sep: "seg \<in> set (split_char c s) \<Longrightarrow> c \<notin> set seg"
  by (induction s arbitrary: seg) (auto split: list.splits if_splits)

end
