(* ===== verification/Json.thy ===== *)
theory Json
  imports Prelude Complex_Main
begin

text \<open>
  Values read from JSON text, the only values of the source's type \<open>unknown\<close> that reach the
  parsers: a number is a rational or one of the three non-finite doubles, an object is an ordered
  map of its own enumerable properties. A property that is absent is \<open>undefined\<close>, here the value
  None of a lookup. The predicates are the type guards the parsers are written with.
\<close>

datatype jsnum = Fin rat | NotANumber | PosInf | NegInf

datatype json =
    JNull
  | JBool bool
  | JNum jsnum
  | JStr string
  | JArr "json list"
  | JObj "(string \<times> json) list"

fun is_finite_num :: "jsnum \<Rightarrow> bool" where
  "is_finite_num (Fin r) = True"
| "is_finite_num _ = False"

text \<open>\<open>Number.isInteger\<close> on a value of unknown type.\<close>

definition is_integer_value :: "json option \<Rightarrow> bool" where
  "is_integer_value v = (case v of Some (JNum (Fin r)) \<Rightarrow> r = of_int \<lfloor>r\<rfloor> | _ \<Rightarrow> False)"

fun is_record :: "json option \<Rightarrow> bool" where
  "is_record (Some (JObj m)) = True"
| "is_record _ = False"

fun record_entries :: "json option \<Rightarrow> (string \<times> json) list" where
  "record_entries (Some (JObj m)) = m"
| "record_entries _ = []"

text \<open>Reading a property of a value that has passed \<open>isRecord\<close>.\<close>

definition field :: "json option \<Rightarrow> string \<Rightarrow> json option" where
  "field v k = oget (record_entries v) k"

fun string_value :: "json option \<Rightarrow> string option" where
  "string_value (Some (JStr s)) = Some s"
| "string_value _ = None"

fun bool_value :: "json option \<Rightarrow> bool option" where
  "bool_value (Some (JBool b)) = Some b"
| "bool_value _ = None"

fun num_value :: "json option \<Rightarrow> jsnum option" where
  "num_value (Some (JNum x)) = Some x"
| "num_value _ = None"

fun array_value :: "json option \<Rightarrow> json list option" where
  "array_value (Some (JArr xs)) = Some xs"
| "array_value _ = None"

lemma string_value_Some [simp]: "string_value v = Some s \<longleftrightarrow> v = Some (JStr s)"
  by (cases v rule: string_value.cases) auto

lemma bool_value_Some [simp]: "bool_value v = Some b \<longleftrightarrow> v = Some (JBool b)"
  by (cases v rule: bool_value.cases) auto

lemma num_value_Some [simp]: "num_value v = Some x \<longleftrightarrow> v = Some (JNum x)"
  by (cases v rule: num_value.cases) auto

lemma array_value_Some [simp]: "array_value v = Some xs \<longleftrightarrow> v = Some (JArr xs)"
  by (cases v rule: array_value.cases) auto

lemma field_JObj [simp]: "field (Some (JObj m)) k = oget m k"
  by (simp add: field_def)

lemma is_record_iff: "is_record v \<longleftrightarrow> (\<exists>m. v = Some (JObj m))"
  by (cases v rule: is_record.cases) auto

section \<open>Text\<close>

definition hex_digit :: "nat \<Rightarrow> char" where
  "hex_digit n = (if n < 10 then char_of (48 + n) else char_of (87 + n))"

text \<open>\<open>JSON.stringify\<close> on the characters of a string.\<close>

definition json_escape :: "char \<Rightarrow> string" where
  "json_escape c =
     (if c = CHR 0x22 then [CHR 0x5C, CHR 0x22]
      else if c = CHR 0x5C then [CHR 0x5C, CHR 0x5C]
      else if c = CHR 0x08 then [CHR 0x5C, CHR ''b'']
      else if c = CHR 0x09 then [CHR 0x5C, CHR ''t'']
      else if c = CHR 0x0A then [CHR 0x5C, CHR ''n'']
      else if c = CHR 0x0C then [CHR 0x5C, CHR ''f'']
      else if c = CHR 0x0D then [CHR 0x5C, CHR ''r'']
      else if of_char c < (32 :: nat)
        then [CHR 0x5C, CHR ''u'', CHR ''0'', CHR ''0'', hex_digit (of_char c div 16), hex_digit (of_char c mod 16)]
      else [c])"

definition json_quote :: "string \<Rightarrow> string" where
  "json_quote s = CHR 0x22 # concat (map json_escape s) @ [CHR 0x22]"

end
