(* ===== verification/Pipeline_Types.thy ===== *)
theory Pipeline_Types
  imports Json
begin

text \<open>
  The data of the pipeline engine, \<open>src/shared/pipeline-types.ts\<close>: artifacts, diagnostics,
  stage results and outcomes, events, snapshots, execution targets and the retained task input.
  Timestamps are the milliseconds the code renders with \<open>toISOString\<close>.
\<close>

type_synonym time = int

datatype pipeline_run_status = RunRunning | RunCompleted | RunFailed | RunCancelled

datatype severity = Info | Warning | ErrorSeverity

text \<open>Severities are ordered as the source lists them, from information to error.\<close>

fun severity_rank :: "severity \<Rightarrow> nat" where
  "severity_rank Info = 0"
| "severity_rank Warning = 1"
| "severity_rank ErrorSeverity = 2"

instantiation severity :: linorder
begin

definition less_eq_severity :: "severity \<Rightarrow> severity \<Rightarrow> bool" where
  "a \<le> b \<longleftrightarrow> severity_rank a \<le> severity_rank b"

definition less_severity :: "severity \<Rightarrow> severity \<Rightarrow> bool" where
  "a < b \<longleftrightarrow> severity_rank a < severity_rank b"

instance
proof
  fix x y z :: severity
  show "(x < y) = (x \<le> y \<and> \<not> y \<le> x)"
    by (auto simp: less_eq_severity_def less_severity_def)
  show "x \<le> x" by (simp add: less_eq_severity_def)
  show "x \<le> y \<Longrightarrow> y \<le> z \<Longrightarrow> x \<le> z" by (simp add: less_eq_severity_def)
  show "x \<le> y \<Longrightarrow> y \<le> x \<Longrightarrow> x = y"
    by (cases x; cases y) (simp_all add: less_eq_severity_def)
  show "x \<le> y \<or> y \<le> x" by (auto simp: less_eq_severity_def)
qed

end

record artifact_hash =
  hash_algorithm :: string
  hash_value :: string

record pipeline_artifact =
  artifact_id :: string
  artifact_path :: string
  artifact_hash_of :: artifact_hash
  size_bytes :: jsnum
  media_type :: string
  artifact_role :: string

record diagnostic_cause =
  cause_name :: string
  cause_message :: string
  cause_stack :: "string option"

record entity_reference =
  entity_type :: string
  entity_id :: string

record artifact_reference =
  ref_artifact_id :: "string option"
  ref_path :: "string option"

record diagnostic =
  diag_code :: string
  diag_severity :: severity
  diag_message :: string
  diag_stage_id :: "string option"
  diag_operation :: string
  diag_entity_refs :: "entity_reference list"
  diag_artifact_refs :: "artifact_reference list"
  diag_cause_chain :: "diagnostic_cause list"
  diag_hint :: "string option"
  diag_retryable :: bool

type_synonym metrics = "(string \<times> json) list"

text \<open>The six variants of a stage result, over the fields every result has.\<close>

datatype stage_state =
    Pending
  | Running time
  | Completed json time time int
  | Skipped string time "time option" "int option"
  | Failed diagnostic time time int
  | Cancelled string time "time option" "int option"

record stage_result =
  result_stage_id :: string
  result_debug_dir :: string
  result_artifacts :: "pipeline_artifact list"
  result_diagnostics :: "diagnostic list"
  result_metrics :: metrics
  result_state :: stage_state

fun status_text :: "stage_state \<Rightarrow> string" where
  "status_text Pending = ''pending''"
| "status_text (Running _) = ''running''"
| "status_text (Completed _ _ _ _) = ''completed''"
| "status_text (Skipped _ _ _ _) = ''skipped''"
| "status_text (Failed _ _ _ _) = ''failed''"
| "status_text (Cancelled _ _ _ _) = ''cancelled''"

fun is_terminal :: "stage_state \<Rightarrow> bool" where
  "is_terminal Pending = False"
| "is_terminal (Running _) = False"
| "is_terminal _ = True"

fun is_completed :: "stage_state \<Rightarrow> bool" where
  "is_completed (Completed _ _ _ _) = True"
| "is_completed _ = False"

fun is_failed :: "stage_state \<Rightarrow> bool" where
  "is_failed (Failed _ _ _ _) = True"
| "is_failed _ = False"

fun is_cancelled :: "stage_state \<Rightarrow> bool" where
  "is_cancelled (Cancelled _ _ _ _) = True"
| "is_cancelled _ = False"

text \<open>What a stage's \<open>execute\<close> resolves to; the optional fields are None when absent.\<close>

record outcome_extras =
  out_artifacts :: "pipeline_artifact list option"
  out_diagnostics :: "diagnostic list option"
  out_metrics :: "metrics option"

datatype stage_outcome =
    OutcomeCompleted json bool outcome_extras  \<comment> \<open>the flag: \<open>commit_state\<close> is \<open>committed\<close>\<close>
  | OutcomeSkipped string outcome_extras

fun outcome_extras_of :: "stage_outcome \<Rightarrow> outcome_extras" where
  "outcome_extras_of (OutcomeCompleted _ _ x) = x"
| "outcome_extras_of (OutcomeSkipped _ x) = x"

datatype event_body =
    PipelineStarted
  | StageStarted string string
  | StageCompleted string string int
  | StageSkipped string string string
  | StageFailed string string diagnostic
  | StageCancelled string string string
  | PipelineFinished pipeline_run_status

record pipeline_event =
  event_body_of :: event_body
  event_sequence :: nat
  event_timestamp :: time

record run_snapshot =
  snap_status :: pipeline_run_status
  snap_sequence :: nat
  snap_started_at :: time
  snap_updated_at :: time
  snap_stage_results :: "(string, stage_result) omap"

text \<open>A stage definition; its \<open>execute\<close> method is part of the environment of a run.\<close>

record stage_definition =
  sid :: string
  depends_on :: "string list"

record pipeline_definition =
  def_pipeline_id :: string
  def_stages :: "stage_definition list"

datatype execution_target =
    TargetPipeline
  | TargetStage string "(string, json) omap"
  | TargetFromStage string "(string, json) omap"

text \<open>The retained, independently runnable input of one task.\<close>

record task_input =
  ti_pipeline_id :: string
  ti_task_id :: string
  ti_run_id :: string
  ti_execution_context :: "(string, json) omap"
  ti_depends_on :: "string list"
  ti_dependency_statuses :: "(string, string) omap"
  ti_dependency_outputs :: "(string, json) omap"
  ti_has_input_files :: bool

end
