(* ===== verification/Pipeline_Error.thy ===== *)
theory Pipeline_Error
  imports Pipeline_Types
begin

text \<open>
  Structured pipeline errors, \<open>src/server/pipeline/pipeline-error.ts\<close>. A thrown value is a graph:
  error objects refer to their causes and the graph may be cyclic, so an error is an address into a
  finite heap of error objects. The module collects cause chains, merges artifact references and
  converts whatever a stage throws into one diagnostic.
\<close>

section \<open>Thrown values\<close>

datatype js_value = JsUndefined | JsNull | JsError nat | JsOther string

record error_object =
  err_name :: string
  err_message :: string
  err_stack :: "string option"
  err_cause :: "js_value option"       \<comment> \<open>None: the object has no \<open>cause\<close> property\<close>
  err_code :: "string option"          \<comment> \<open>the \<open>code\<close> property, when it is a string\<close>
  err_diagnostic :: "diagnostic option" \<comment> \<open>present on instances of \<open>PipelineError\<close>\<close>
  err_refs :: "artifact_reference list" \<comment> \<open>the entry of \<open>supplementalArtifactReferences\<close>\<close>

type_synonym error_heap = "(nat, error_object) omap"

type_synonym exn = "error_heap \<times> js_value"

definition error_of :: "exn \<Rightarrow> error_object option" where
  "error_of x = (case snd x of JsError a \<Rightarrow> oget (fst x) a | _ \<Rightarrow> None)"

section \<open>Artifact references\<close>

fun merge_refs_from :: "(string option \<times> string option) list \<Rightarrow> artifact_reference list
    \<Rightarrow> artifact_reference list" where
  "merge_refs_from seen [] = []"
| "merge_refs_from seen (r # rs) =
     (let key = (ref_artifact_id r, ref_path r) in
      if key \<in> set seen then merge_refs_from seen rs
      else r # merge_refs_from (seen @ [key]) rs)"

definition merge_artifact_references :: "artifact_reference list option list \<Rightarrow> artifact_reference list" where
  "merge_artifact_references groups =
     merge_refs_from [] (concat (map (\<lambda>g. case g of None \<Rightarrow> [] | Some rs \<Rightarrow> rs) groups))"

definition add_pipeline_artifact_references ::
  "error_heap \<Rightarrow> nat \<Rightarrow> artifact_reference list \<Rightarrow> error_heap" where
  "add_pipeline_artifact_references h a references =
     (case oget h a of
        None \<Rightarrow> h
      | Some e \<Rightarrow> oput a (e\<lparr>err_refs := merge_artifact_references [Some (err_refs e), Some references]\<rparr>) h)"

section \<open>Diagnostics\<close>

record diagnostic_input =
  di_code :: string
  di_message :: string
  di_stage_id :: "string option"
  di_operation :: string
  di_severity :: "severity option"
  di_entity_refs :: "entity_reference list option"
  di_artifact_refs :: "artifact_reference list option"
  di_cause_chain :: "diagnostic_cause list option"
  di_hint :: "string option"
  di_retryable :: "bool option"

definition or_else :: "'a option \<Rightarrow> 'a \<Rightarrow> 'a" where
  "or_else x d = (case x of None \<Rightarrow> d | Some v \<Rightarrow> v)"

lemma or_else_simps [simp]: "or_else None d = d" "or_else (Some v) d = v"
  by (simp_all add: or_else_def)

definition freeze_diagnostic :: "diagnostic_input \<Rightarrow> diagnostic" where
  "freeze_diagnostic i =
     \<lparr> diag_code = di_code i,
       diag_severity = or_else (di_severity i) ErrorSeverity,
       diag_message = di_message i,
       diag_stage_id = di_stage_id i,
       diag_operation = di_operation i,
       diag_entity_refs = or_else (di_entity_refs i) [],
       diag_artifact_refs = or_else (di_artifact_refs i) [],
       diag_cause_chain = or_else (di_cause_chain i) [],
       diag_hint = di_hint i,
       diag_retryable = or_else (di_retryable i) False \<rparr>"

text \<open>An input with only the four fields every caller gives.\<close>

definition plain_input :: "string \<Rightarrow> string \<Rightarrow> string option \<Rightarrow> string \<Rightarrow> diagnostic_input" where
  "plain_input code message stage operation =
     \<lparr> di_code = code, di_message = message, di_stage_id = stage, di_operation = operation,
       di_severity = None, di_entity_refs = None, di_artifact_refs = None, di_cause_chain = None,
       di_hint = None, di_retryable = None \<rparr>"

section \<open>Cause chains\<close>

definition describe_error :: "error_object \<Rightarrow> diagnostic_cause" where
  "describe_error e =
     \<lparr> cause_name = (if err_name e = [] then ''Error'' else err_name e),
       cause_message = err_message e,
       cause_stack = err_stack e \<rparr>"

definition non_error_cause :: "string \<Rightarrow> diagnostic_cause" where
  "non_error_cause s = \<lparr> cause_name = ''NonErrorCause'', cause_message = s, cause_stack = None \<rparr>"

text \<open>The loop of \<open>getPipelineCauseChain\<close> with its set of visited objects, followed by the
  final entry for a cause that is not an error.\<close>

function cause_chain_from :: "error_heap \<Rightarrow> nat list \<Rightarrow> js_value \<Rightarrow> diagnostic_cause list" where
  "cause_chain_from h visited current =
     (case current of
        JsError a \<Rightarrow>
          (if a \<in> set visited then []
           else (case oget h a of
                   None \<Rightarrow> []
                 | Some e \<Rightarrow>
                     describe_error e # cause_chain_from h (a # visited) (or_else (err_cause e) JsUndefined)))
      | JsOther s \<Rightarrow> [non_error_cause s]
      | JsUndefined \<Rightarrow> []
      | JsNull \<Rightarrow> [])"
  by pat_completeness auto
termination
proof (relation "measure (\<lambda>(h, visited, current). card (set (okeys h) - set visited))", simp)
  fix h :: error_heap and visited current a and e :: error_object
  assume "a \<notin> set visited" "oget h a = Some e"
  then have a: "a \<in> set (okeys h) - set visited" by (simp add: oget_Some_key del: set_map)
  have "card (set (okeys h) - set (a # visited)) < card (set (okeys h) - set visited)"
    by (rule psubset_card_mono) (use a in auto)
  then show "((h, a # visited, or_else (err_cause e) JsUndefined), h, visited, current)
      \<in> measure (\<lambda>(h, visited, current). card (set (okeys h) - set visited))" by simp
qed

declare cause_chain_from.simps [simp del]

definition pipeline_cause_chain :: "exn \<Rightarrow> diagnostic_cause list" where
  "pipeline_cause_chain x = cause_chain_from (fst x) [] (snd x)"

section \<open>Constructing and converting errors\<close>

definition fresh_address :: "error_heap \<Rightarrow> nat" where
  "fresh_address h = Suc (foldr max (okeys h) 0)"

text \<open>\<open>new PipelineError(input, options)\<close>; the first argument is the stack the engine records.\<close>

definition new_pipeline_error :: "string option \<Rightarrow> diagnostic_input \<Rightarrow> exn option \<Rightarrow> exn" where
  "new_pipeline_error stk i cause =
     (let h = (case cause of None \<Rightarrow> [] | Some c \<Rightarrow> fst c);
          a = fresh_address h;
          chain = (case di_cause_chain i of
                     Some c \<Rightarrow> Some c
                   | None \<Rightarrow> (case cause of
                                None \<Rightarrow> None
                              | Some c \<Rightarrow> if snd c = JsUndefined then None else Some (pipeline_cause_chain c)));
          d = freeze_diagnostic (i\<lparr>di_cause_chain := chain\<rparr>)
      in (h @ [(a, \<lparr> err_name = ''PipelineError'', err_message = di_message i, err_stack = stk,
                     err_cause = map_option snd cause, err_code = None,
                     err_diagnostic = Some d, err_refs = [] \<rparr>)], JsError a))"

definition process_error_codes :: "string list" where
  "process_error_codes =
     [''process_spawn_failed'', ''process_exit_failed'', ''process_output_handler_failed'',
      ''process_transport_failed'', ''process_idle_timeout'', ''process_wall_timeout'',
      ''process_cancelled'']"

definition process_error_code :: "error_object option \<Rightarrow> string option" where
  "process_error_code e =
     (case e of
        None \<Rightarrow> None
      | Some ob \<Rightarrow> (case err_code ob of
                      None \<Rightarrow> None
                    | Some c \<Rightarrow> if c \<in> set process_error_codes then Some c else None))"

text \<open>The input of a conversion: the message is replaced by a fallback and the cause chain is
  computed. The result is the diagnostic of the error the source returns.\<close>

definition to_pipeline_error :: "exn \<Rightarrow> diagnostic_input \<Rightarrow> diagnostic" where
  "to_pipeline_error x i =
     (case error_of x of
        Some e \<Rightarrow>
          (case err_diagnostic e of
             Some d \<Rightarrow>
               (if diag_stage_id d \<noteq> None \<or> di_stage_id i = None then d
                else d\<lparr>diag_stage_id := di_stage_id i\<rparr>)
           | None \<Rightarrow>
               (let base = i\<lparr>di_artifact_refs :=
                               Some (merge_artifact_references [di_artifact_refs i, Some (err_refs e)]),
                             di_message := err_message e,
                             di_cause_chain := Some (pipeline_cause_chain x)\<rparr>
                in freeze_diagnostic
                     (case process_error_code (Some e) of
                        None \<Rightarrow> base
                      | Some c \<Rightarrow>
                          base\<lparr>di_code := c, di_operation := ''run_external_process'',
                               di_retryable := Some (c = ''process_spawn_failed''
                                                     \<or> c = ''process_transport_failed'')\<rparr>)))
      | None \<Rightarrow>
          freeze_diagnostic
            (i\<lparr>di_artifact_refs := Some (merge_artifact_references [di_artifact_refs i, None]),
               di_cause_chain := Some (pipeline_cause_chain x)\<rparr>))"

section \<open>Merged references\<close>

definition ref_key :: "artifact_reference \<Rightarrow> string option \<times> string option" where
  "ref_key r = (ref_artifact_id r, ref_path r)"

lemma merge_refs_from_keys:
  "set (map ref_key (merge_refs_from seen rs)) = set (map ref_key rs) - set seen"
  by (induction rs arbitrary: seen) (auto simp: ref_key_def Let_def)

lemma merge_refs_from_distinct:
  "distinct (map ref_key (merge_refs_from seen rs))"
proof (induction rs arbitrary: seen)
  case (Cons r rs)
  show ?case
  proof (cases "ref_key r \<in> set seen")
    case True
    with Cons show ?thesis by (simp add: ref_key_def)
  next
    case False
    have "ref_key r \<notin> set (map ref_key (merge_refs_from (seen @ [ref_key r]) rs))"
      unfolding merge_refs_from_keys by simp
    with False Cons [of "seen @ [ref_key r]"] show ?thesis
      by (simp add: ref_key_def)
  qed
qed simp

lemma merge_refs_from_idem:
  "distinct (map ref_key rs) \<Longrightarrow> set (map ref_key rs) \<inter> set seen = {}
   \<Longrightarrow> merge_refs_from seen rs = rs"
  by (induction rs arbitrary: seen) (auto simp: ref_key_def Let_def)

section \<open>Following causes\<close>

text \<open>\<open>follows h v as w\<close>: reading \<open>cause\<close> after \<open>cause\<close> from \<open>v\<close> meets the error
  objects at \<open>as\<close> and arrives at \<open>w\<close>.\<close>

inductive follows :: "error_heap \<Rightarrow> js_value \<Rightarrow> nat list \<Rightarrow> js_value \<Rightarrow> bool" for h where
  stop: "follows h v [] v"
| step: "oget h a = Some e \<Longrightarrow> follows h (or_else (err_cause e) JsUndefined) as w
         \<Longrightarrow> follows h (JsError a) (a # as) w"

inductive_cases follows_ConsE: "follows h v (a # as) w"
inductive_cases follows_NilE: "follows h v [] w"

inductive_simps follows_Nil_simp: "follows h v [] w"
inductive_simps follows_Cons_simp: "follows h v (a # as) w"

fun final_causes :: "js_value \<Rightarrow> diagnostic_cause list" where
  "final_causes (JsOther s) = [non_error_cause s]"
| "final_causes _ = []"

lemma cause_chain_from_follows:
  "\<exists>as w. follows h v as w \<and> distinct as \<and> set as \<inter> set visited = {}
     \<and> cause_chain_from h visited v
         = map (\<lambda>a. describe_error (the (oget h a))) as @ final_causes w
     \<and> (\<forall>a. w = JsError a \<longrightarrow> a \<in> set visited \<union> set as \<or> oget h a = None)"
proof (induction h visited v rule: cause_chain_from.induct)
  case (1 h visited current)
  show ?case
  proof (cases "\<exists>a e. current = JsError a \<and> a \<notin> set visited \<and> oget h a = Some e")
    case True
    then obtain a e where cur: "current = JsError a" and new: "a \<notin> set visited"
      and e: "oget h a = Some e" by auto
    obtain as w where IH: "follows h (or_else (err_cause e) JsUndefined) as w" "distinct as"
        "set as \<inter> set (a # visited) = {}"
        "cause_chain_from h (a # visited) (or_else (err_cause e) JsUndefined)
           = map (\<lambda>a. describe_error (the (oget h a))) as @ final_causes w"
        "\<forall>b. w = JsError b \<longrightarrow> b \<in> set (a # visited) \<union> set as \<or> oget h b = None"
      using "1.IH" [OF cur new e] by blast
    have "follows h current (a # as) w"
      unfolding cur using e IH(1) by (rule follows.step)
    moreover have "cause_chain_from h visited current
        = map (\<lambda>a. describe_error (the (oget h a))) (a # as) @ final_causes w"
      using cur new e IH(4) by (simp add: cause_chain_from.simps [of h visited])
    ultimately show ?thesis
      using IH(2,3,5) new by (intro exI [of _ "a # as"] exI [of _ w]) auto
  next
    case False
    then have "cause_chain_from h visited current = final_causes current"
      by (subst cause_chain_from.simps) (auto split: js_value.splits option.splits)
    moreover have "\<forall>a. current = JsError a \<longrightarrow> a \<in> set visited \<or> oget h a = None"
      using False by (metis not_None_eq)
    ultimately show ?thesis
      by (intro exI [of _ "[]"] exI [of _ current]) (auto intro: follows.stop)
  qed
qed

lemma follows_keys: "follows h v as w \<Longrightarrow> set as \<subseteq> set (okeys h)"
  by (induction rule: follows.induct) (auto dest: oget_Some_key)

lemma length_final_causes: "length (final_causes w) \<le> 1"
  by (cases w) auto

lemma process_error_code_mem: "process_error_code e = Some c \<Longrightarrow> c \<in> set process_error_codes"
  by (auto simp: process_error_code_def split: option.splits if_splits)

lemma to_pipeline_error_converted:
  assumes "error_of x = Some e" and "err_diagnostic e = None"
  shows "diag_stage_id (to_pipeline_error x i) = di_stage_id i"
    and "diag_message (to_pipeline_error x i) = err_message e"
    and "diag_cause_chain (to_pipeline_error x i) = pipeline_cause_chain x"
    and "diag_code (to_pipeline_error x i) = or_else (process_error_code (Some e)) (di_code i)"
  using assms
  by (auto simp: to_pipeline_error_def freeze_diagnostic_def Let_def split: option.splits)

section \<open>Properties\<close>

text \<open>The cause chain of any thrown value, cyclic graphs included, is the description of the
  error objects met by following \<open>cause\<close>, each described once and in that order; it ends at a
  value that is not an error (kept as one last entry unless it is null or undefined), or at an
  error that has been described already.\<close>

theorem cause_chain_follows_causes:
  "\<exists>as w. follows (fst x) (snd x) as w \<and> distinct as
     \<and> pipeline_cause_chain x
         = map (\<lambda>a. describe_error (the (oget (fst x) a))) as @ final_causes w
     \<and> (\<forall>a. w = JsError a \<longrightarrow> a \<in> set as \<or> oget (fst x) a = None)"
  using cause_chain_from_follows [of "fst x" "snd x" "[]"]
  by (simp add: pipeline_cause_chain_def)

definition sample_error :: "string \<Rightarrow> js_value option \<Rightarrow> error_object" where
  "sample_error msg c =
     \<lparr> err_name = ''Error'', err_message = msg, err_stack = None, err_cause = c, err_code = None,
       err_diagnostic = None, err_refs = [] \<rparr>"

text \<open>Two errors that are each other's cause.\<close>

definition cyclic_exn :: exn where
  "cyclic_exn = ([(0, sample_error ''outer'' (Some (JsError 1))),
                  (1, sample_error ''inner'' (Some (JsError 0)))], JsError 0)"

lemma cyclic_exn_chain:
  "map cause_message (pipeline_cause_chain cyclic_exn) = [''outer'', ''inner'']"
  by (simp add: pipeline_cause_chain_def cyclic_exn_def sample_error_def describe_error_def
        cause_chain_from.simps)

theorem cause_chain_follows_causes_witness:
  "map cause_message (pipeline_cause_chain cyclic_exn) = [''outer'', ''inner'']
   \<and> (\<exists>as w. follows (fst cyclic_exn) (snd cyclic_exn) as w \<and> distinct as
        \<and> pipeline_cause_chain cyclic_exn
            = map (\<lambda>a. describe_error (the (oget (fst cyclic_exn) a))) as @ final_causes w)"
  using cause_chain_follows_causes [of cyclic_exn] cyclic_exn_chain by blast

text \<open>Converting a thrown value for a stage never loses the stage: a pipeline error that
  already names a stage keeps it, everything else is attributed to the given stage, the code of a
  process failure survives, and only spawn and transport failures of processes are retryable when
  the caller's input does not say otherwise.\<close>

theorem to_pipeline_error_attribution:
  assumes "di_stage_id i = Some stage" and "di_retryable i = Some False"
  shows "diag_stage_id (to_pipeline_error x i)
           = Some (case error_of x of
                     Some e \<Rightarrow> (case err_diagnostic e of
                                  Some d \<Rightarrow> or_else (diag_stage_id d) stage
                                | None \<Rightarrow> stage)
                   | None \<Rightarrow> stage)
         \<and> (\<forall>e. error_of x = Some e \<and> err_diagnostic e = None \<longrightarrow>
               diag_code (to_pipeline_error x i) = or_else (process_error_code (Some e)) (di_code i)
               \<and> diag_retryable (to_pipeline_error x i)
                   = (process_error_code (Some e) \<in> {Some ''process_spawn_failed'',
                                                      Some ''process_transport_failed''}))"
  using assms
  by (auto simp: to_pipeline_error_def freeze_diagnostic_def Let_def or_else_def
           split: option.splits)

definition spawn_failure :: exn where
  "spawn_failure = ([(3, (sample_error ''spawn failed'' None)\<lparr>err_code := Some ''process_spawn_failed''\<rparr>)],
                    JsError 3)"

definition stage_failure_input :: diagnostic_input where
  "stage_failure_input =
     (plain_input ''stage_execution_failed'' ''Stage failed'' (Some ''extract'') ''execute_stage'')
       \<lparr>di_retryable := Some False\<rparr>"

lemma spawn_failure_object:
  "error_of spawn_failure
     = Some ((sample_error ''spawn failed'' None)\<lparr>err_code := Some ''process_spawn_failed''\<rparr>)"
  by (simp add: error_of_def spawn_failure_def)

theorem to_pipeline_error_attribution_witness:
  "diag_stage_id (to_pipeline_error spawn_failure stage_failure_input) = Some ''extract''
   \<and> diag_retryable (to_pipeline_error spawn_failure stage_failure_input)"
proof -
  have i: "di_stage_id stage_failure_input = Some ''extract''"
    "di_retryable stage_failure_input = Some False"
    by (simp_all add: stage_failure_input_def plain_input_def)
  show ?thesis
    using to_pipeline_error_attribution [OF i, of spawn_failure]
    by (simp add: spawn_failure_object sample_error_def process_error_code_def process_error_codes_def)
qed

end
