(* ===== verification/Pipeline_Definition.thy ===== *)
theory Pipeline_Definition
  imports Pipeline_Error
begin

text \<open>
  The checks the pipeline engine makes before and around a stage, from
  \<open>src/server/pipeline/pipeline-runner.ts\<close>: the validation of a definition, of the artifacts a
  stage declares, and the resolution of a stage's dependencies. A check that throws returns the
  input of the error it constructs. Objects are ordered maps of their own properties.
\<close>

section \<open>Identifiers and hashes\<close>

text \<open>The pattern \<open>^[a-z][a-z0-9]*(?:_[a-z0-9]+)*$\<close>.\<close>

definition lower_or_digit :: "char \<Rightarrow> bool" where
  "lower_or_digit c \<longleftrightarrow> is_lower c \<or> is_digit c"

definition stable_id :: "string \<Rightarrow> bool" where
  "stable_id s =
     (case split_char CHR ''_'' s of
        [] \<Rightarrow> False
      | seg # segs \<Rightarrow>
          seg \<noteq> [] \<and> is_lower (hd seg) \<and> list_all lower_or_digit (tl seg)
          \<and> list_all (\<lambda>x. x \<noteq> [] \<and> list_all lower_or_digit x) segs)"

text \<open>The pattern \<open>^[a-f0-9]{64}$\<close>.\<close>

definition lower_hex :: "char \<Rightarrow> bool" where
  "lower_hex c \<longleftrightarrow> char_between CHR ''a'' CHR ''f'' c \<or> is_digit c"

definition sha256_text :: "string \<Rightarrow> bool" where
  "sha256_text s \<longleftrightarrow> length s = 64 \<and> list_all lower_hex s"

section \<open>Declared artifacts\<close>

definition artifact_ref_of :: "pipeline_artifact \<Rightarrow> artifact_reference" where
  "artifact_ref_of a = \<lparr> ref_artifact_id = Some (artifact_id a), ref_path = Some (artifact_path a) \<rparr>"

definition missing_artifact_id_error :: "string \<Rightarrow> diagnostic_input" where
  "missing_artifact_id_error stage =
     plain_input ''invalid_stage_artifact''
       (''Stage '' @ stage @ '' returned an artifact without an artifact_id'')
       (Some stage) ''validate_stage_artifacts''"

definition duplicate_artifact_error :: "string \<Rightarrow> pipeline_artifact \<Rightarrow> diagnostic_input" where
  "duplicate_artifact_error stage a =
     (plain_input ''duplicate_stage_artifact_id''
       (''Stage '' @ stage @ '' returned duplicate artifact_id '' @ artifact_id a)
       (Some stage) ''validate_stage_artifacts'')\<lparr>di_artifact_refs := Some [artifact_ref_of a]\<rparr>"

definition invalid_artifact_error :: "string \<Rightarrow> pipeline_artifact \<Rightarrow> diagnostic_input" where
  "invalid_artifact_error stage a =
     (plain_input ''invalid_stage_artifact''
       (''Stage '' @ stage @ '' returned invalid metadata for artifact '' @ artifact_id a)
       (Some stage) ''validate_stage_artifacts'')\<lparr>di_artifact_refs := Some [artifact_ref_of a]\<rparr>"

fun is_integer_num :: "jsnum \<Rightarrow> bool" where
  "is_integer_num (Fin r) \<longleftrightarrow> r = of_int \<lfloor>r\<rfloor>"
| "is_integer_num _ \<longleftrightarrow> False"

fun num_negative :: "jsnum \<Rightarrow> bool" where
  "num_negative (Fin r) \<longleftrightarrow> r < 0"
| "num_negative NegInf \<longleftrightarrow> True"
| "num_negative _ \<longleftrightarrow> False"

fun validate_artifacts_from ::
  "string list \<Rightarrow> pipeline_artifact list \<Rightarrow> string \<Rightarrow> diagnostic_input option" where
  "validate_artifacts_from artifact_ids [] stage = None"
| "validate_artifacts_from artifact_ids (a # as) stage =
     (if js_trim (artifact_id a) = [] then Some (missing_artifact_id_error stage)
      else if artifact_id a \<in> set artifact_ids then Some (duplicate_artifact_error stage a)
      else if js_trim (artifact_path a) = [] \<or> \<not> sha256_text (hash_value (artifact_hash_of a))
        then Some (invalid_artifact_error stage a)
      else if hash_algorithm (artifact_hash_of a) \<noteq> ''sha256''
          \<or> \<not> is_integer_num (size_bytes a)
          \<or> num_negative (size_bytes a)
          \<or> CHR ''/'' \<notin> set (media_type a)
          \<or> js_trim (artifact_role a) = []
        then Some (invalid_artifact_error stage a)
      else validate_artifacts_from (artifact_ids @ [artifact_id a]) as stage)"

definition validate_artifacts ::
  "pipeline_artifact list \<Rightarrow> string \<Rightarrow> diagnostic_input + pipeline_artifact list" where
  "validate_artifacts artifacts stage =
     (case validate_artifacts_from [] artifacts stage of Some e \<Rightarrow> Inl e | None \<Rightarrow> Inr artifacts)"

section \<open>Debug bundle directories\<close>

definition debug_dir_name :: "nat \<Rightarrow> nat \<Rightarrow> string \<Rightarrow> string" where
  "debug_dir_name stage_index stage_count stage =
     pad_start (max 2 (length (nat_str stage_count))) CHR ''0'' (nat_str (stage_index + 1)) @ ''-'' @ stage"

definition make_debug_dir :: "string \<Rightarrow> nat \<Rightarrow> nat \<Rightarrow> string \<Rightarrow> string" where
  "make_debug_dir pipeline_dir stage_index stage_count stage =
     pipeline_dir @ ''/stages/'' @ debug_dir_name stage_index stage_count stage"

section \<open>Dependencies of a stage\<close>

record dependency_state =
  dep_outputs :: "(string, json) omap"
  dep_statuses :: "(string, string) omap"
  dep_incomplete :: "string list"

definition stage_ref :: "string \<Rightarrow> entity_reference" where
  "stage_ref dep = \<lparr> entity_type = ''pipeline_stage'', entity_id = dep \<rparr>"

definition isolated_input_message :: "string \<Rightarrow> string list \<Rightarrow> string list \<Rightarrow> string" where
  "isolated_input_message stage missing unexpected =
     join_with '' ''
       ([''The isolated input for '' @ stage @ '' does not match its declared dependencies.'']
        @ (if missing \<noteq> [] then [''Missing: '' @ join_with '', '' missing @ ''.''] else [])
        @ (if unexpected \<noteq> [] then [''Unexpected: '' @ join_with '', '' unexpected @ ''.''] else []))"

definition isolated_input_error :: "string \<Rightarrow> string list \<Rightarrow> string list \<Rightarrow> diagnostic_input" where
  "isolated_input_error stage missing unexpected =
     (plain_input ''invalid_isolated_stage_input'' (isolated_input_message stage missing unexpected)
        (Some stage) ''resolve_isolated_stage_input'')
       \<lparr>di_entity_refs := Some (map stage_ref (missing @ unexpected)),
        di_hint := Some ''Use the dependency_outputs from this stage's persisted input.json bundle.''\<rparr>"

definition missing_dependency_error :: "string \<Rightarrow> string \<Rightarrow> diagnostic_input" where
  "missing_dependency_error stage dep =
     plain_input ''missing_dependency_result''
       (''No result exists for dependency '' @ dep @ '' of stage '' @ stage)
       (Some stage) ''resolve_stage_dependencies''"

text \<open>The body of the loop over the dependencies, once a result has been found.\<close>

definition add_dependency ::
  "(string, json) omap option \<Rightarrow> string \<Rightarrow> stage_result \<Rightarrow> dependency_state \<Rightarrow> dependency_state" where
  "add_dependency inherited dep result acc =
     (case result_state result of
        Completed output _ _ _ \<Rightarrow>
          acc\<lparr>dep_statuses := oput dep ''completed'' (dep_statuses acc),
              dep_outputs := oput dep output (dep_outputs acc)\<rparr>
      | other \<Rightarrow>
          (case (case inherited of None \<Rightarrow> None | Some m \<Rightarrow> oget m dep) of
             Some v \<Rightarrow>
               acc\<lparr>dep_statuses := oput dep ''provided'' (dep_statuses acc),
                   dep_outputs := oput dep v (dep_outputs acc)\<rparr>
           | None \<Rightarrow>
               acc\<lparr>dep_statuses := oput dep (status_text other) (dep_statuses acc),
                   dep_incomplete := dep_incomplete acc @ [dep]\<rparr>))"

fun dependency_loop ::
  "(string, stage_result) omap \<Rightarrow> (string, json) omap option \<Rightarrow> string \<Rightarrow> string list
    \<Rightarrow> dependency_state \<Rightarrow> diagnostic_input + dependency_state" where
  "dependency_loop results inherited stage [] acc = Inr acc"
| "dependency_loop results inherited stage (dep # deps) acc =
     (case oget results dep of
        None \<Rightarrow> Inl (missing_dependency_error stage dep)
      | Some result \<Rightarrow>
          dependency_loop results inherited stage deps (add_dependency inherited dep result acc))"

definition empty_dependency_state :: dependency_state where
  "empty_dependency_state = \<lparr> dep_outputs = [], dep_statuses = [], dep_incomplete = [] \<rparr>"

definition get_dependency_state ::
  "stage_definition \<Rightarrow> (string, stage_result) omap \<Rightarrow> (string, json) omap option
    \<Rightarrow> (string, json) omap option \<Rightarrow> diagnostic_input + dependency_state" where
  "get_dependency_state stage results provided inherited =
     (case provided of
        Some outputs \<Rightarrow>
          (let missing = filter (\<lambda>dep. dep \<notin> set (okeys outputs)) (depends_on stage);
               unexpected = filter (\<lambda>dep. dep \<notin> set (depends_on stage)) (okeys outputs) in
           if missing \<noteq> [] \<or> unexpected \<noteq> []
           then Inl (isolated_input_error (sid stage) missing unexpected)
           else Inr \<lparr> dep_outputs = outputs,
                      dep_statuses = foldl (\<lambda>m dep. oput dep ''provided'' m) [] (depends_on stage),
                      dep_incomplete = [] \<rparr>)
      | None \<Rightarrow>
          dependency_loop results inherited (sid stage) (depends_on stage) empty_dependency_state)"

section \<open>Pipeline definitions\<close>

definition snake_case_hint :: string where
  "snake_case_hint = ''Use lowercase letters, digits, and single underscores.''"

definition invalid_pipeline_id_error :: "string \<Rightarrow> diagnostic_input" where
  "invalid_pipeline_id_error pid =
     (plain_input ''invalid_pipeline_id'' (''Pipeline id must be stable snake_case: '' @ pid) None
        ''validate_pipeline_definition'')\<lparr>di_hint := Some snake_case_hint\<rparr>"

definition no_stages_error :: "string \<Rightarrow> diagnostic_input" where
  "no_stages_error pid =
     plain_input ''pipeline_has_no_stages'' (''Pipeline '' @ pid @ '' has no stages'') None
       ''validate_pipeline_definition''"

definition invalid_stage_id_error :: "string \<Rightarrow> diagnostic_input" where
  "invalid_stage_id_error stage =
     (plain_input ''invalid_stage_id'' (''Stage id must be stable snake_case: '' @ stage) (Some stage)
        ''validate_pipeline_definition'')\<lparr>di_hint := Some snake_case_hint\<rparr>"

definition duplicate_stage_error :: "string \<Rightarrow> string \<Rightarrow> diagnostic_input" where
  "duplicate_stage_error pid stage =
     plain_input ''duplicate_stage_id'' (''Pipeline '' @ pid @ '' contains duplicate stage '' @ stage)
       (Some stage) ''validate_pipeline_definition''"

definition duplicate_dependency_error :: "string \<Rightarrow> string \<Rightarrow> diagnostic_input" where
  "duplicate_dependency_error stage dep =
     (plain_input ''duplicate_stage_dependency''
        (''Stage '' @ stage @ '' declares dependency '' @ dep @ '' more than once'')
        (Some stage) ''validate_pipeline_definition'')\<lparr>di_entity_refs := Some [stage_ref dep]\<rparr>"

definition dependency_not_prior_error :: "string \<Rightarrow> string \<Rightarrow> diagnostic_input" where
  "dependency_not_prior_error stage dep =
     (plain_input ''stage_dependency_not_prior''
        (''Stage '' @ stage @ '' depends on '' @ dep @ '', which is not an earlier stage'')
        (Some stage) ''validate_pipeline_definition'')
       \<lparr>di_entity_refs := Some [stage_ref dep],
        di_hint := Some ''Declare every dependency before the stage that consumes it.''\<rparr>"

fun validate_dependencies ::
  "string \<Rightarrow> string list \<Rightarrow> string list \<Rightarrow> string list \<Rightarrow> diagnostic_input option" where
  "validate_dependencies stage seen_stage_ids seen_dependencies [] = None"
| "validate_dependencies stage seen_stage_ids seen_dependencies (dep # deps) =
     (if dep \<in> set seen_dependencies then Some (duplicate_dependency_error stage dep)
      else if dep \<notin> set seen_stage_ids then Some (dependency_not_prior_error stage dep)
      else validate_dependencies stage seen_stage_ids (seen_dependencies @ [dep]) deps)"

fun validate_stages :: "string \<Rightarrow> string list \<Rightarrow> stage_definition list \<Rightarrow> diagnostic_input option" where
  "validate_stages pid seen_stage_ids [] = None"
| "validate_stages pid seen_stage_ids (stage # stages) =
     (if \<not> stable_id (sid stage) then Some (invalid_stage_id_error (sid stage))
      else if sid stage \<in> set seen_stage_ids then Some (duplicate_stage_error pid (sid stage))
      else (case validate_dependencies (sid stage) seen_stage_ids [] (depends_on stage) of
              Some e \<Rightarrow> Some e
            | None \<Rightarrow> validate_stages pid (seen_stage_ids @ [sid stage]) stages))"

definition validate_pipeline_definition :: "pipeline_definition \<Rightarrow> diagnostic_input option" where
  "validate_pipeline_definition d =
     (if \<not> stable_id (def_pipeline_id d) then Some (invalid_pipeline_id_error (def_pipeline_id d))
      else if def_stages d = [] then Some (no_stages_error (def_pipeline_id d))
      else validate_stages (def_pipeline_id d) [] (def_stages d))"

section \<open>Specifications\<close>

text \<open>What a definition must satisfy: stable identifiers, distinct stages, and every stage's
  dependencies distinct and among the stages before it.\<close>

definition stage_ids :: "pipeline_definition \<Rightarrow> string list" where
  "stage_ids d = map sid (def_stages d)"

definition well_formed_pipeline :: "pipeline_definition \<Rightarrow> bool" where
  "well_formed_pipeline d \<longleftrightarrow>
     stable_id (def_pipeline_id d) \<and> def_stages d \<noteq> []
     \<and> (\<forall>s \<in> set (def_stages d). stable_id (sid s)) \<and> distinct (stage_ids d)
     \<and> (\<forall>i < length (def_stages d).
          distinct (depends_on (def_stages d ! i))
          \<and> set (depends_on (def_stages d ! i)) \<subseteq> set (take i (stage_ids d)))"

definition depends_rel :: "pipeline_definition \<Rightarrow> (string \<times> string) set" where
  "depends_rel d = {(dep, s). \<exists>st \<in> set (def_stages d). sid st = s \<and> dep \<in> set (depends_on st)}"

definition valid_artifact :: "pipeline_artifact \<Rightarrow> bool" where
  "valid_artifact a \<longleftrightarrow>
     \<not> blank (artifact_id a) \<and> \<not> blank (artifact_path a) \<and> \<not> blank (artifact_role a)
     \<and> hash_algorithm (artifact_hash_of a) = ''sha256'' \<and> sha256_text (hash_value (artifact_hash_of a))
     \<and> is_integer_num (size_bytes a) \<and> \<not> num_negative (size_bytes a) \<and> CHR ''/'' \<in> set (media_type a)"

text \<open>The output a dependency contributes: its own when it completed, else an inherited one.\<close>

definition resolved_output ::
  "(string, stage_result) omap \<Rightarrow> (string, json) omap option \<Rightarrow> string \<Rightarrow> json option" where
  "resolved_output results inherited dep =
     (case map_option result_state (oget results dep) of
        Some (Completed output _ _ _) \<Rightarrow> Some output
      | _ \<Rightarrow> (case inherited of None \<Rightarrow> None | Some m \<Rightarrow> oget m dep))"

section \<open>Lemmas\<close>

lemma validate_dependencies_None:
  "validate_dependencies stage seen used deps = None
   \<longleftrightarrow> distinct deps \<and> set deps \<inter> set used = {} \<and> set deps \<subseteq> set seen"
  by (induction stage seen used deps rule: validate_dependencies.induct) auto

lemma validate_stages_None:
  "validate_stages pid seen stages = None
   \<longleftrightarrow> (\<forall>s \<in> set stages. stable_id (sid s)) \<and> distinct (map sid stages)
     \<and> set (map sid stages) \<inter> set seen = {}
     \<and> (\<forall>i < length stages. distinct (depends_on (stages ! i))
          \<and> set (depends_on (stages ! i)) \<subseteq> set seen \<union> set (take i (map sid stages)))"
  (is "?L seen stages \<longleftrightarrow> ?R seen stages")
proof (induction stages arbitrary: seen)
  case (Cons stage stages)
  let ?head = "stable_id (sid stage) \<and> sid stage \<notin> set seen
    \<and> distinct (depends_on stage) \<and> set (depends_on stage) \<subseteq> set seen"
  have split: "(\<forall>i < Suc (length stages). P i) \<longleftrightarrow> P 0 \<and> (\<forall>i < length stages. P (Suc i))" for P
    by (auto simp: less_Suc_eq_0_disj)
  have "?R seen (stage # stages) \<longleftrightarrow> ?head \<and> ?R (seen @ [sid stage]) stages"
    unfolding length_Cons split by auto
  moreover have deps: "validate_dependencies (sid stage) seen [] (depends_on stage) = None
      \<longleftrightarrow> distinct (depends_on stage) \<and> set (depends_on stage) \<subseteq> set seen"
    by (simp add: validate_dependencies_None)
  moreover have "?L seen (stage # stages) \<longleftrightarrow> ?head \<and> ?L (seen @ [sid stage]) stages"
    using deps by (cases "validate_dependencies (sid stage) seen [] (depends_on stage)") auto
  moreover have "?L (seen @ [sid stage]) stages \<longleftrightarrow> ?R (seen @ [sid stage]) stages"
    by (rule Cons.IH)
  ultimately show ?case by blast
qed simp

lemma validate_pipeline_None:
  "validate_pipeline_definition d = None \<longleftrightarrow> well_formed_pipeline d"
  by (simp add: validate_pipeline_definition_def well_formed_pipeline_def validate_stages_None
        stage_ids_def)

lemma validate_artifacts_from_None:
  "validate_artifacts_from ids as stage = None
   \<longleftrightarrow> (\<forall>a \<in> set as. valid_artifact a) \<and> distinct (map artifact_id as)
     \<and> set (map artifact_id as) \<inter> set ids = {}"
  by (induction ids as stage rule: validate_artifacts_from.induct)
     (auto simp: valid_artifact_def js_trim_empty)

lemma well_formed_take_dep:
  assumes "well_formed_pipeline d" and "i < length (def_stages d)"
    and "dep \<in> set (depends_on (def_stages d ! i))"
  shows "\<exists>j < i. stage_ids d ! j = dep"
proof -
  have "dep \<in> set (take i (stage_ids d))"
    using assms by (auto simp: well_formed_pipeline_def)
  then show ?thesis
    by (auto simp: in_set_conv_nth)
qed

lemma add_dependency_simps:
  assumes "oget results dep = Some r"
  shows "oget (dep_outputs (add_dependency inherited dep r acc)) k
           = (if k = dep \<and> resolved_output results inherited k \<noteq> None
              then resolved_output results inherited k else oget (dep_outputs acc) k)"
    and "dep_incomplete (add_dependency inherited dep r acc)
           = dep_incomplete acc @ (if resolved_output results inherited dep = None then [dep] else [])"
  using assms
  by (cases "result_state r"; cases inherited;
      auto simp: add_dependency_def resolved_output_def split: option.split)+

lemma dependency_loop_ok:
  assumes "dependency_loop results inherited stage deps acc = Inr ds"
  shows "oget (dep_outputs ds) k
           = (if k \<in> set deps \<and> resolved_output results inherited k \<noteq> None
              then resolved_output results inherited k else oget (dep_outputs acc) k)
         \<and> dep_incomplete ds
           = dep_incomplete acc @ filter (\<lambda>k. resolved_output results inherited k = None) deps"
  using assms
proof (induction deps arbitrary: acc)
  case (Cons dep deps)
  then obtain r where r: "oget results dep = Some r"
    and rest: "dependency_loop results inherited stage deps (add_dependency inherited dep r acc) = Inr ds"
    by (auto split: option.splits)
  show ?case
    using Cons.IH [OF rest] add_dependency_simps [OF r, of inherited acc] by auto
qed simp

lemma dependency_loop_total:
  "set deps \<subseteq> set (okeys results) \<Longrightarrow> \<exists>ds. dependency_loop results inherited stage deps acc = Inr ds"
proof (induction results inherited stage deps acc rule: dependency_loop.induct)
  case (2 results inherited stage dep deps acc)
  then obtain r where "oget results dep = Some r"
    by (metis insert_subset list.set(2) okey_has_value)
  with 2 show ?case by simp
qed simp

lemma get_dependency_state_None_ok:
  assumes "get_dependency_state st results None inherited = Inr ds"
  shows "oget (dep_outputs ds) k
           = (if k \<in> set (depends_on st) then resolved_output results inherited k else None)"
    and "dep_incomplete ds
           = filter (\<lambda>k. resolved_output results inherited k = None) (depends_on st)"
  using assms dependency_loop_ok [of results inherited "sid st" "depends_on st" empty_dependency_state ds]
  by (auto simp: get_dependency_state_def empty_dependency_state_def)

lemma get_dependency_state_provided_ok:
  assumes "get_dependency_state st results (Some outputs) inherited = Inr ds"
  shows "dep_outputs ds = outputs" and "dep_incomplete ds = []"
    and "set (okeys outputs) = set (depends_on st)"
  using assms
  by (auto simp: get_dependency_state_def Let_def filter_empty_conv split: if_splits)

text \<open>Names of bundle directories.\<close>

lemma digits_nat_str: "c \<in> set (nat_str n) \<Longrightarrow> is_digit c"
proof (induction n rule: nat_str.induct)
  case (1 n)
  have digit: "is_digit (char_of (48 + k))" if "k < 10" for k :: nat
  proof -
    have "k \<in> {0, 1, 2, 3, 4, 5, 6, 7, 8, 9}" using that by auto
    then show ?thesis
      by (auto simp: is_digit_def char_between_def less_eq_char_def)
  qed
  show ?case
  proof (cases "n < 10")
    case True
    with 1 show ?thesis by (subst (asm) (2) nat_str.simps) (auto intro: digit)
  next
    case False
    with "1.prems" have "c \<in> set (nat_str (n div 10)) \<or> c = char_of (48 + n mod 10)"
      by (subst (asm) nat_str.simps) auto
    with "1.IH" [OF False] digit [of "n mod 10"] show ?thesis by auto
  qed
qed

lemma takeWhile_unique:
  "x \<notin> set a \<Longrightarrow> x \<notin> set b \<Longrightarrow> a @ x # u = b @ x # v \<Longrightarrow> a = b \<and> u = v"
proof (induction a arbitrary: b)
  case Nil
  then show ?case by (cases b) auto
next
  case (Cons y a)
  then show ?case by (cases b) auto
qed

lemma no_dash_digits: "(\<forall>c \<in> set s. is_digit c) \<Longrightarrow> CHR ''-'' \<notin> set s"
  by (auto simp: is_digit_def char_between_def less_eq_char_def)

lemma debug_dir_name_stage:
  assumes "debug_dir_name i n s = debug_dir_name j n t"
  shows "s = t"
proof -
  have *: "CHR ''-'' \<notin> set (pad_start w CHR ''0'' (nat_str k))" for w k
    using no_dash_digits [of "nat_str k"] digits_nat_str by (auto simp: pad_start_def)
  show ?thesis
    using assms takeWhile_unique [OF * *] by (fastforce simp: debug_dir_name_def)
qed

definition position :: "'a list \<Rightarrow> 'a \<Rightarrow> nat" where
  "position xs x = length (takeWhile (\<lambda>y. y \<noteq> x) xs)"

lemma position_nth:
  assumes "distinct xs" and "i < length xs"
  shows "position xs (xs ! i) = i"
proof -
  have "takeWhile (\<lambda>y. y \<noteq> xs ! i) xs = take i xs"
  proof (rule takeWhile_eq_take_P_nth)
    show "\<And>j. j < i \<Longrightarrow> j < length xs \<Longrightarrow> xs ! j \<noteq> xs ! i"
      using assms by (simp add: nth_eq_iff_index_eq)
  qed simp
  with assms show ?thesis by (simp add: position_def)
qed

lemma depends_rel_position:
  assumes wf: "well_formed_pipeline d"
  shows "depends_rel d \<subseteq> measure (position (stage_ids d))"
proof
  fix e assume "e \<in> depends_rel d"
  then obtain dep st where st: "st \<in> set (def_stages d)" "e = (dep, sid st)" "dep \<in> set (depends_on st)"
    by (auto simp: depends_rel_def)
  then obtain i where i: "i < length (def_stages d)" and "def_stages d ! i = st"
    by (auto simp: in_set_conv_nth)
  with st have e: "e = (dep, stage_ids d ! i)" and dep: "dep \<in> set (depends_on (def_stages d ! i))"
    by (simp_all add: stage_ids_def)
  from well_formed_take_dep [OF wf i dep] obtain j where j: "j < i" "stage_ids d ! j = dep" by auto
  have d: "distinct (stage_ids d)" and l: "length (stage_ids d) = length (def_stages d)"
    using wf by (simp_all add: well_formed_pipeline_def stage_ids_def)
  have "position (stage_ids d) dep = j" "position (stage_ids d) (stage_ids d ! i) = i"
    using position_nth [OF d] i j l by auto
  with e j show "e \<in> measure (position (stage_ids d))" by simp
qed

section \<open>Properties\<close>

text \<open>C38. A pipeline definition passes validation exactly when its identifiers are stable snake
  case, its stages are distinct, and every stage's dependencies are distinct earlier stages.\<close>

theorem validation_accepts_well_formed:
  "validate_pipeline_definition d = None \<longleftrightarrow> well_formed_pipeline d"
  by (rule validate_pipeline_None)

text \<open>The dependency graph of a definition that passes validation has no cycle.\<close>

theorem accepted_definition_acyclic:
  assumes "validate_pipeline_definition d = None"
  shows "acyclic (depends_rel d)"
proof (rule wf_acyclic)
  show "wf (depends_rel d)"
    using assms by (intro wf_subset [OF wf_measure depends_rel_position]) (simp add: validate_pipeline_None)
qed

definition stage_def :: "string \<Rightarrow> string list \<Rightarrow> stage_definition" where
  "stage_def s deps = \<lparr> sid = s, depends_on = deps \<rparr>"

definition sample_pipeline :: pipeline_definition where
  "sample_pipeline =
     \<lparr> def_pipeline_id = ''component_generation'',
       def_stages = [stage_def ''extract'' [], stage_def ''build'' [''extract''],
                     stage_def ''publish'' [''build'']] \<rparr>"

lemmas stable_id_eval = stable_id_def lower_or_digit_def is_lower_def is_digit_def char_between_def
  less_eq_char_def

lemma sample_pipeline_valid: "validate_pipeline_definition sample_pipeline = None"
  by (simp add: sample_pipeline_def validate_pipeline_definition_def stage_def_def stable_id_eval)

theorem accepted_definition_acyclic_witness:
  "(''extract'', ''build'') \<in> depends_rel sample_pipeline \<and> acyclic (depends_rel sample_pipeline)"
  using accepted_definition_acyclic [OF sample_pipeline_valid]
  by (simp add: depends_rel_def sample_pipeline_def stage_def_def)

text \<open>The artifacts of a stage are accepted, unchanged, exactly when each one has a non-blank
  identifier, path and role, a SHA-256 digest, a non-negative integral size and a media type, and
  no identifier is used twice.\<close>

theorem validate_artifacts_accepts:
  "validate_artifacts artifacts stage = Inr accepted
   \<longleftrightarrow> accepted = artifacts \<and> list_all valid_artifact artifacts
       \<and> distinct (map artifact_id artifacts)"
  using validate_artifacts_from_None [of "[]" artifacts stage]
  by (auto simp: validate_artifacts_def list_all_iff split: option.splits)

text \<open>Two stages of an accepted definition never share a debug bundle directory.\<close>

theorem debug_directories_distinct:
  assumes "validate_pipeline_definition d = None"
    and "i < length (def_stages d)" and "j < length (def_stages d)" and "i \<noteq> j"
  shows "make_debug_dir dir i n (stage_ids d ! i) \<noteq> make_debug_dir dir j n (stage_ids d ! j)"
proof
  assume "make_debug_dir dir i n (stage_ids d ! i) = make_debug_dir dir j n (stage_ids d ! j)"
  then have "debug_dir_name i n (stage_ids d ! i) = debug_dir_name j n (stage_ids d ! j)"
    by (simp add: make_debug_dir_def)
  then have "stage_ids d ! i = stage_ids d ! j" by (rule debug_dir_name_stage)
  moreover have "distinct (stage_ids d)"
    using assms(1) by (simp add: validate_pipeline_None well_formed_pipeline_def)
  moreover have "length (stage_ids d) = length (def_stages d)" by (simp add: stage_ids_def)
  ultimately show False
    using assms(2-4) nth_eq_iff_index_eq [of "stage_ids d" i j] by simp
qed

theorem debug_directories_distinct_witness:
  "make_debug_dir ''/run'' 0 3 ''extract'' \<noteq> make_debug_dir ''/run'' 1 3 ''build''"
  using debug_directories_distinct [OF sample_pipeline_valid, of 0 1 "''/run''" 3]
  by (simp add: sample_pipeline_def stage_ids_def stage_def_def)

text \<open>Resolving the dependencies of a stage from the results so far gives it exactly the
  outputs of the dependencies that completed, or that the invocation inherited, and lists every
  other dependency, in order, as incomplete.\<close>

theorem dependency_state_exact:
  assumes "get_dependency_state st results None inherited = Inr ds"
  shows "(\<forall>k. oget (dep_outputs ds) k
               = (if k \<in> set (depends_on st) then resolved_output results inherited k else None))
         \<and> dep_incomplete ds
             = filter (\<lambda>k. resolved_output results inherited k = None) (depends_on st)"
  using get_dependency_state_None_ok [OF assms] by blast

definition sample_result :: "string \<Rightarrow> stage_state \<Rightarrow> stage_result" where
  "sample_result s st =
     \<lparr> result_stage_id = s, result_debug_dir = [], result_artifacts = [], result_diagnostics = [],
       result_metrics = [], result_state = st \<rparr>"

theorem dependency_state_exact_witness:
  "\<exists>ds. get_dependency_state (stage_def ''c'' [''a'', ''b''])
          [(''a'', sample_result ''a'' (Completed JNull 0 1 1)), (''b'', sample_result ''b'' Pending)]
          None None = Inr ds
        \<and> dep_incomplete ds = [''b''] \<and> oget (dep_outputs ds) ''a'' = Some JNull"
proof -
  let ?r = "[(''a'', sample_result ''a'' (Completed JNull 0 1 1)), (''b'', sample_result ''b'' Pending)]"
  let ?st = "stage_def ''c'' [''a'', ''b'']"
  obtain ds where ds: "get_dependency_state ?st ?r None None = Inr ds"
    by (simp add: get_dependency_state_def stage_def_def)
  show ?thesis
    using ds dependency_state_exact [OF ds]
    by (simp add: resolved_output_def stage_def_def sample_result_def)
qed

end
