(* ===== verification/Run_Monad.thy ===== *)
theory Run_Monad
  imports Prelude
begin

text \<open>
  The effects of the asynchronous code: a computation takes a state and either throws or returns,
  with the state it leaves. The combinators are the sequencing, throwing and catching of the
  source; the inversion equations say what a run that returned or threw must have done.
\<close>

type_synonym ('s, 'e, 'a) run = "'s \<Rightarrow> ('e + 'a) \<times> 's"

definition return :: "'a \<Rightarrow> ('s, 'e, 'a) run" where
  "return a = (\<lambda>s. (Inr a, s))"

definition throw :: "'e \<Rightarrow> ('s, 'e, 'a) run" where
  "throw e = (\<lambda>s. (Inl e, s))"

definition bind :: "('s, 'e, 'a) run \<Rightarrow> ('a \<Rightarrow> ('s, 'e, 'b) run) \<Rightarrow> ('s, 'e, 'b) run" where
  "bind m f = (\<lambda>s. case m s of (Inl e, s') \<Rightarrow> (Inl e, s') | (Inr a, s') \<Rightarrow> f a s')"

definition next_do :: "('s, 'e, 'a) run \<Rightarrow> ('s, 'e, 'b) run \<Rightarrow> ('s, 'e, 'b) run" where
  "next_do m n = bind m (\<lambda>_. n)"

definition catch :: "('s, 'e, 'a) run \<Rightarrow> ('e \<Rightarrow> ('s, 'e, 'a) run) \<Rightarrow> ('s, 'e, 'a) run" where
  "catch m h = (\<lambda>s. case m s of (Inl e, s') \<Rightarrow> h e s' | (Inr a, s') \<Rightarrow> (Inr a, s'))"

definition gets :: "('s \<Rightarrow> 'a) \<Rightarrow> ('s, 'e, 'a) run" where
  "gets f = (\<lambda>s. (Inr (f s), s))"

definition modify :: "('s \<Rightarrow> 's) \<Rightarrow> ('s, 'e, unit) run" where
  "modify f = (\<lambda>s. (Inr (), f s))"

definition lift :: "'e + 'a \<Rightarrow> ('s, 'e, 'a) run" where
  "lift r = (\<lambda>s. (r, s))"

lemmas run_defs = return_def throw_def bind_def next_do_def catch_def gets_def modify_def lift_def

section \<open>Inversion\<close>

text \<open>What a run that returned, or threw, must have done.\<close>

lemma return_run [run_rules]: "return a s = (r, t) \<longleftrightarrow> r = Inr a \<and> t = s"
  by (auto simp: return_def)

lemma throw_run [run_rules]: "throw e s = (r, t) \<longleftrightarrow> r = Inl e \<and> t = s"
  by (auto simp: throw_def)

lemma gets_run [run_rules]: "gets f s = (r, t) \<longleftrightarrow> r = Inr (f s) \<and> t = s"
  by (auto simp: gets_def)

lemma modify_run [run_rules]: "modify f s = (r, t) \<longleftrightarrow> r = Inr () \<and> t = f s"
  by (auto simp: modify_def)

lemma bind_returned [run_rules]:
  "bind m f s = (Inr b, t) \<longleftrightarrow> (\<exists>a u. m s = (Inr a, u) \<and> f a u = (Inr b, t))"
  by (auto simp: bind_def split: prod.splits sum.splits)

lemma bind_threw [run_rules]:
  "bind m f s = (Inl e, t) \<longleftrightarrow> m s = (Inl e, t) \<or> (\<exists>a u. m s = (Inr a, u) \<and> f a u = (Inl e, t))"
  by (auto simp: bind_def split: prod.splits sum.splits)

lemma next_do_returned [run_rules]:
  "next_do m n s = (Inr b, t) \<longleftrightarrow> (\<exists>a u. m s = (Inr a, u) \<and> n u = (Inr b, t))"
  by (simp add: next_do_def bind_returned)

lemma next_do_threw [run_rules]:
  "next_do m n s = (Inl e, t) \<longleftrightarrow> m s = (Inl e, t) \<or> (\<exists>a u. m s = (Inr a, u) \<and> n u = (Inl e, t))"
  by (simp add: next_do_def bind_threw)

lemma catch_returned [run_rules]:
  "catch m h s = (Inr b, t) \<longleftrightarrow> m s = (Inr b, t) \<or> (\<exists>e u. m s = (Inl e, u) \<and> h e u = (Inr b, t))"
  by (auto simp: catch_def split: prod.splits sum.splits)

lemma catch_threw [run_rules]:
  "catch m h s = (Inl e, t) \<longleftrightarrow> (\<exists>x u. m s = (Inl x, u) \<and> h x u = (Inl e, t))"
  by (auto simp: catch_def split: prod.splits sum.splits)

text \<open>Running one step whose result is known.\<close>

lemma bind_gets: "bind (gets f) g s = g (f s) s"
  by (simp add: bind_def gets_def)

lemma bind_step: "m s = (Inr a, u) \<Longrightarrow> bind m f s = f a u"
  by (simp add: bind_def)

lemma next_do_step: "m s = (Inr a, u) \<Longrightarrow> next_do m n s = n u"
  by (simp add: next_do_def bind_step)

section \<open>Invariants and total computations\<close>

text \<open>An invariant of a computation, kept whether it returns or throws.\<close>

definition keeps :: "('s \<Rightarrow> bool) \<Rightarrow> ('s, 'e, 'a) run \<Rightarrow> bool" where
  "keeps P m \<longleftrightarrow> (\<forall>s. P s \<longrightarrow> P (snd (m s)))"

lemma keeps_return [intro, simp]: "keeps P (return a)"
  by (simp add: keeps_def return_def)

lemma keeps_throw [intro, simp]: "keeps P (throw e)"
  by (simp add: keeps_def throw_def)

lemma keeps_gets [intro, simp]: "keeps P (gets f)"
  by (simp add: keeps_def gets_def)

lemma keeps_lift [intro, simp]: "keeps P (lift r)"
  by (simp add: keeps_def lift_def)

lemma keeps_modify [intro]: "(\<And>s. P s \<Longrightarrow> P (f s)) \<Longrightarrow> keeps P (modify f)"
  by (simp add: keeps_def modify_def)

lemma keeps_bind [intro]: "keeps P m \<Longrightarrow> (\<And>a. keeps P (f a)) \<Longrightarrow> keeps P (bind m f)"
  by (force simp: keeps_def bind_def split: prod.splits sum.splits)

lemma keeps_next_do [intro]: "keeps P m \<Longrightarrow> keeps P n \<Longrightarrow> keeps P (next_do m n)"
  unfolding next_do_def by (rule keeps_bind)

lemma keeps_catch [intro]: "keeps P m \<Longrightarrow> (\<And>e. keeps P (h e)) \<Longrightarrow> keeps P (catch m h)"
  by (force simp: keeps_def catch_def split: prod.splits sum.splits)

lemma keeps_if [intro]: "(b \<Longrightarrow> keeps P m) \<Longrightarrow> (\<not> b \<Longrightarrow> keeps P n) \<Longrightarrow> keeps P (if b then m else n)"
  by simp

lemma keeps_option [intro]:
  "(v = None \<Longrightarrow> keeps P m) \<Longrightarrow> (\<And>x. v = Some x \<Longrightarrow> keeps P (f x)) \<Longrightarrow>
     keeps P (case v of None \<Rightarrow> m | Some x \<Rightarrow> f x)"
  by (cases v) simp_all

lemma keepsI: "(\<And>s x t. P s \<Longrightarrow> m s = (x, t) \<Longrightarrow> P t) \<Longrightarrow> keeps P m"
  unfolding keeps_def by (metis prod.collapse)

text \<open>Computations that cannot throw.\<close>

definition never_throws :: "('s, 'e, 'a) run \<Rightarrow> bool" where
  "never_throws m \<longleftrightarrow> (\<forall>s. \<exists>a t. m s = (Inr a, t))"

lemma never_throws_return [intro, simp]: "never_throws (return a)"
  and never_throws_gets [intro, simp]: "never_throws (gets f)"
  and never_throws_modify [intro, simp]: "never_throws (modify g)"
  by (simp_all add: never_throws_def run_defs)

lemma never_throws_bind [intro]:
  assumes "never_throws m" and "\<And>a. never_throws (f a)"
  shows "never_throws (bind m f)"
  unfolding never_throws_def bind_def
proof
  fix s
  obtain a t where "m s = (Inr a, t)" using assms(1) unfolding never_throws_def by blast
  moreover obtain b u where "f a t = (Inr b, u)" using assms(2) [of a] unfolding never_throws_def by blast
  ultimately show "\<exists>b u. (case m s of (Inl e, s') \<Rightarrow> (Inl e, s') | (Inr a, s') \<Rightarrow> f a s') = (Inr b, u)"
    by simp
qed

lemma never_throws_next_do [intro]: "never_throws m \<Longrightarrow> never_throws n \<Longrightarrow> never_throws (next_do m n)"
  unfolding next_do_def by (rule never_throws_bind)

lemma never_throws_catch [intro]: "(\<And>e. never_throws (h e)) \<Longrightarrow> never_throws (catch m h)"
  unfolding never_throws_def catch_def
  by (metis (mono_tags, lifting) case_prod_unfold sum.case_eq_if prod.collapse sum.collapse(2))

lemma never_throws_caught: "never_throws m \<Longrightarrow> never_throws (catch m h)"
  unfolding never_throws_def catch_def by (metis (mono_tags, lifting) case_prod_conv sum.case(2))

lemma never_throws_not: "never_throws m \<Longrightarrow> m s \<noteq> (Inl e, t)"
  unfolding never_throws_def by (metis Inl_Inr_False Pair_inject)

end
