(* ===== verification/Pipeline_Runner.thy ===== *)
theory Pipeline_Runner
  imports Pipeline_Definition Run_Monad
begin

text \<open>
  The pipeline engine, \<open>runPipeline\<close> of \<open>src/server/pipeline/pipeline-runner.ts\<close>. What the
  function awaits is an environment: the clock, the abort signal, the file system, the stage's
  \<open>execute\<close>, the snapshot observer. Each operation of the environment maps a world to a result
  or a thrown value and the next world, so that every failure and every interleaved cancellation is
  a value of the environment. The variables of the function are the run state.
\<close>

section \<open>The environment and the run state\<close>

datatype abort_reason = ReasonError string | ReasonText string | ReasonOther

record debug_metrics =
  dm_stage_id :: string
  dm_status :: string
  dm_started_at :: "time option"
  dm_completed_at :: "time option"
  dm_duration_ms :: "int option"
  dm_artifact_count :: nat
  dm_diagnostic_count :: nat
  dm_stage_metrics :: metrics

text \<open>The values written as files of a debug bundle.\<close>

datatype debug_value =
    InputFile task_input
  | NullFile
  | OutputFile string "json option" "pipeline_artifact list" "diagnostic list"
  | MetricsFile debug_metrics
  | ErrorFile "diagnostic option"

datatype observer_entry =
    ObserverFailure time nat event_body string string "string option"
  | PostCommitFailure time nat string string string string "string option"

record 'w environment =
  env_now :: "'w \<Rightarrow> time \<times> 'w"
  env_abort :: "'w \<Rightarrow> abort_reason option"
  env_mkdir :: "string \<Rightarrow> 'w \<Rightarrow> (exn + unit) \<times> 'w"
  env_write_files :: "(string \<times> debug_value) list \<Rightarrow> 'w \<Rightarrow> (exn + unit) \<times> 'w"
  env_append_event :: "pipeline_event \<Rightarrow> 'w \<Rightarrow> (exn + unit) \<times> 'w"
  env_append_observer :: "observer_entry \<Rightarrow> 'w \<Rightarrow> (exn + unit) \<times> 'w"
  env_on_snapshot :: "(run_snapshot \<Rightarrow> 'w \<Rightarrow> (exn + unit) \<times> 'w) option"
  env_before_stage :: "(string \<Rightarrow> 'w \<Rightarrow> (exn + unit) \<times> 'w) option"
  env_retain_inputs :: "(string \<Rightarrow> 'w \<Rightarrow> (exn + unit) \<times> 'w) option"
  env_execute :: "string \<Rightarrow> string \<Rightarrow> (string, json) omap \<Rightarrow> 'w \<Rightarrow> (exn + stage_outcome) \<times> 'w"
  env_snapshot_artifacts ::
    "pipeline_artifact list \<Rightarrow> string \<Rightarrow> string \<Rightarrow> 'w \<Rightarrow> (exn + pipeline_artifact list) \<times> 'w"
  env_stack :: "string option"

record run_options =
  opt_definition :: pipeline_definition
  opt_run_id :: string
  opt_workspace_dir :: string
  opt_context :: json
  opt_target :: execution_target

text \<open>The mutable variables, the lines of \<open>events.ndjson\<close> the run has appended, and the calls of
  \<open>execute\<close> it has made. The last five fields are the variables shared by a \<open>try\<close> block and
  its handler; they are reset when a stage starts.\<close>

record 'w run_state =
  world :: 'w
  results :: "(string, stage_result) omap"
  sequence :: nat
  run_status :: pipeline_run_status
  started_at :: time
  has_failed_stage :: bool
  has_cancelled_stage :: bool
  has_committed_stage :: bool
  event_log :: "pipeline_event list"
  executions :: "(string \<times> (string, json) omap) list"
  crossed_commit_barrier :: bool
  committed_output :: "json option"
  committed_artifacts :: "pipeline_artifact list"
  committed_diagnostics :: "diagnostic list"
  committed_metrics :: metrics

definition initial_state :: "'w \<Rightarrow> 'w run_state" where
  "initial_state w =
     \<lparr> world = w, results = [], sequence = 0, run_status = RunRunning, started_at = 0,
       has_failed_stage = False, has_cancelled_stage = False, has_committed_stage = False,
       event_log = [], executions = [], crossed_commit_barrier = False, committed_output = None,
       committed_artifacts = [], committed_diagnostics = [], committed_metrics = [] \<rparr>"

type_synonym ('w, 'a) pipeline_run = "('w run_state, exn, 'a) run"

definition external :: "('w \<Rightarrow> (exn + 'a) \<times> 'w) \<Rightarrow> ('w, 'a) pipeline_run" where
  "external op = (\<lambda>s. case op (world s) of (r, w) \<Rightarrow> (r, s\<lparr>world := w\<rparr>))"

definition tick :: "'w environment \<Rightarrow> ('w, time) pipeline_run" where
  "tick env = external (\<lambda>w. case env_now env w of (t, w') \<Rightarrow> (Inr t, w'))"

definition aborted :: "'w environment \<Rightarrow> 'w run_state \<Rightarrow> bool" where
  "aborted env s \<longleftrightarrow> env_abort env (world s) \<noteq> None"

definition raise :: "'w environment \<Rightarrow> diagnostic_input \<Rightarrow> ('w, 'a) pipeline_run" where
  "raise env i = throw (new_pipeline_error (env_stack env) i None)"

definition or_raise :: "'w environment \<Rightarrow> diagnostic_input + 'a \<Rightarrow> ('w, 'a) pipeline_run" where
  "or_raise env r = (case r of Inl i \<Rightarrow> raise env i | Inr a \<Rightarrow> return a)"

definition quietly :: "('w, unit) pipeline_run \<Rightarrow> ('w, unit) pipeline_run" where
  "quietly m = catch m (\<lambda>_. return ())"

section \<open>Small pieces\<close>

definition serialize_execution_context :: "json \<Rightarrow> diagnostic_input + (string, json) omap" where
  "serialize_execution_context context =
     (case context of
        JObj m \<Rightarrow> Inr m
      | _ \<Rightarrow> Inl (plain_input ''task_context_not_serializable''
                  ''Pipeline task execution context must serialize to a JSON object'' None
                  ''serialize_task_input''))"

definition default_cancellation :: string where
  "default_cancellation = ''Pipeline run was cancelled''"

definition cancellation_reason :: "abort_reason option \<Rightarrow> string" where
  "cancellation_reason r =
     (case r of
        Some (ReasonError m) \<Rightarrow> m
      | Some (ReasonText m) \<Rightarrow> if m \<noteq> [] then m else default_cancellation
      | _ \<Rightarrow> default_cancellation)"

definition get_duration :: "time \<Rightarrow> time \<Rightarrow> int" where
  "get_duration started completed = max 0 (completed - started)"

text \<open>The name, message and stack of a caught value, as an \<open>Error\<close>.\<close>

fun value_text :: "js_value \<Rightarrow> string" where
  "value_text JsUndefined = ''undefined''"
| "value_text JsNull = ''null''"
| "value_text (JsError _) = ''[object Object]''"
| "value_text (JsOther s) = s"

definition error_summary :: "'w environment \<Rightarrow> exn \<Rightarrow> string \<times> string \<times> string option" where
  "error_summary env x =
     (case error_of x of
        Some e \<Rightarrow> (err_name e, err_message e, err_stack e)
      | None \<Rightarrow> (''Error'', value_text (snd x), env_stack env))"

definition stage_result_of :: "string \<Rightarrow> string \<Rightarrow> stage_state \<Rightarrow> stage_result" where
  "stage_result_of stage dir st =
     \<lparr> result_stage_id = stage, result_debug_dir = dir, result_artifacts = [],
       result_diagnostics = [], result_metrics = [], result_state = st \<rparr>"

section \<open>Debug bundles\<close>

definition in_dir :: "string \<Rightarrow> string \<Rightarrow> string" where
  "in_dir dir name = dir @ ''/'' @ name"

definition initial_bundle :: "string \<Rightarrow> task_input \<Rightarrow> time option \<Rightarrow> (string \<times> debug_value) list" where
  "initial_bundle debug_dir input started =
     [(in_dir debug_dir ''input.json'', InputFile input),
      (in_dir debug_dir ''output.json'', NullFile),
      (in_dir debug_dir ''error.json'', NullFile),
      (in_dir debug_dir ''metrics.json'', MetricsFile
         \<lparr> dm_stage_id = ti_task_id input,
           dm_status = (if started = None then ''pending'' else ''running''),
           dm_started_at = started, dm_completed_at = None, dm_duration_ms = None,
           dm_artifact_count = 0, dm_diagnostic_count = 0, dm_stage_metrics = [] \<rparr>)]"

definition write_initial_debug_bundle ::
  "'w environment \<Rightarrow> string \<Rightarrow> task_input \<Rightarrow> time option \<Rightarrow> ('w, unit) pipeline_run" where
  "write_initial_debug_bundle env debug_dir input started =
     next_do (external (env_mkdir env debug_dir))
       (external (env_write_files env (initial_bundle debug_dir input started)))"

fun completed_output :: "stage_state \<Rightarrow> json option" where
  "completed_output (Completed output _ _ _) = Some output"
| "completed_output _ = None"

fun failure_of :: "stage_state \<Rightarrow> diagnostic option" where
  "failure_of (Failed d _ _ _) = Some d"
| "failure_of _ = None"

fun stage_times :: "stage_state \<Rightarrow> time option \<times> time option \<times> int option" where
  "stage_times Pending = (None, None, None)"
| "stage_times (Running t) = (Some t, None, None)"
| "stage_times (Completed _ started completed d) = (Some started, Some completed, Some d)"
| "stage_times (Skipped _ completed started d) = (started, Some completed, d)"
| "stage_times (Failed _ started completed d) = (Some started, Some completed, Some d)"
| "stage_times (Cancelled _ completed started d) = (started, Some completed, d)"

definition terminal_bundle :: "string \<Rightarrow> stage_result \<Rightarrow> (string \<times> debug_value) list" where
  "terminal_bundle debug_dir result =
     (let st = result_state result; (started, completed, duration) = stage_times st in
      [(in_dir debug_dir ''output.json'',
          OutputFile (status_text st) (completed_output st) (result_artifacts result)
            (result_diagnostics result)),
       (in_dir debug_dir ''metrics.json'', MetricsFile
          \<lparr> dm_stage_id = result_stage_id result, dm_status = status_text st,
            dm_started_at = started, dm_completed_at = completed, dm_duration_ms = duration,
            dm_artifact_count = length (result_artifacts result),
            dm_diagnostic_count = length (result_diagnostics result),
            dm_stage_metrics = result_metrics result \<rparr>),
       (in_dir debug_dir ''error.json'', ErrorFile (failure_of st))])"

definition write_terminal_debug_bundle ::
  "'w environment \<Rightarrow> string \<Rightarrow> stage_result \<Rightarrow> ('w, unit) pipeline_run" where
  "write_terminal_debug_bundle env debug_dir result =
     external (env_write_files env (terminal_bundle debug_dir result))"

section \<open>Events\<close>

definition snapshot_at :: "time \<Rightarrow> 'w run_state \<Rightarrow> run_snapshot" where
  "snapshot_at updated s =
     \<lparr> snap_status = run_status s, snap_sequence = sequence s, snap_started_at = started_at s,
       snap_updated_at = updated, snap_stage_results = results s \<rparr>"

definition notify_observer :: "'w environment \<Rightarrow> pipeline_event \<Rightarrow> ('w, unit) pipeline_run" where
  "notify_observer env event =
     (case env_on_snapshot env of
        None \<Rightarrow> return ()
      | Some callback \<Rightarrow>
          bind (gets (snapshot_at (event_timestamp event))) (\<lambda>snap.
          catch (external (callback snap)) (\<lambda>x.
          case error_summary env x of (name, message, stk) \<Rightarrow>
            quietly (external (env_append_observer env
              (ObserverFailure (event_timestamp event) (event_sequence event) (event_body_of event)
                 name message stk))))))"

definition emit :: "'w environment \<Rightarrow> event_body \<Rightarrow> ('w, unit) pipeline_run" where
  "emit env body =
     bind (tick env) (\<lambda>timestamp.
     next_do (modify (\<lambda>s. s\<lparr>sequence := sequence s + 1\<rparr>)) (
     bind (gets sequence) (\<lambda>n.
     let event = \<lparr> event_body_of = body, event_sequence = n, event_timestamp = timestamp \<rparr> in
     next_do (external (env_append_event env event)) (
     next_do (modify (\<lambda>s. s\<lparr>event_log := event_log s @ [event]\<rparr>))
       (notify_observer env event)))))"

definition record_post_commit_trace_failure ::
  "'w environment \<Rightarrow> string \<Rightarrow> string \<Rightarrow> exn \<Rightarrow> ('w, unit) pipeline_run" where
  "record_post_commit_trace_failure env stage operation x =
     (case error_summary env x of (name, message, stk) \<Rightarrow>
        bind (tick env) (\<lambda>timestamp.
        bind (gets sequence) (\<lambda>n.
        quietly (external (env_append_observer env
          (PostCommitFailure timestamp n stage operation name message stk))))))"

definition set_result :: "string \<Rightarrow> stage_result \<Rightarrow> ('w, unit) pipeline_run" where
  "set_result stage r = modify (\<lambda>s. s\<lparr>results := oput stage r (results s)\<rparr>)"

definition mark_cancelled :: "('w, unit) pipeline_run" where
  "mark_cancelled = modify (\<lambda>s. s\<lparr>has_cancelled_stage := True\<rparr>)"

section \<open>Stages that do not start\<close>

definition task_input_of ::
  "run_options \<Rightarrow> (string, json) omap \<Rightarrow> stage_definition \<Rightarrow> dependency_state option \<Rightarrow> bool \<Rightarrow> task_input" where
  "task_input_of opts context stage ds has_files =
     \<lparr> ti_pipeline_id = def_pipeline_id (opt_definition opts),
       ti_task_id = sid stage,
       ti_run_id = opt_run_id opts,
       ti_execution_context = context,
       ti_depends_on = depends_on stage,
       ti_dependency_statuses = (case ds of None \<Rightarrow> [] | Some d \<Rightarrow> dep_statuses d),
       ti_dependency_outputs = (case ds of None \<Rightarrow> [] | Some d \<Rightarrow> dep_outputs d),
       ti_has_input_files = has_files \<rparr>"

text \<open>The common end of every path that gives a stage a terminal result without starting it.\<close>

definition finish_unstarted ::
  "'w environment \<Rightarrow> string \<Rightarrow> task_input \<Rightarrow> stage_result \<Rightarrow> event_body \<Rightarrow> ('w, unit) pipeline_run" where
  "finish_unstarted env debug_dir input result event =
     next_do (write_initial_debug_bundle env debug_dir input None) (
     next_do (write_terminal_debug_bundle env debug_dir result)
       (emit env event))"

definition not_selected_reason :: string where
  "not_selected_reason = ''Stage was not selected for this isolated pipeline invocation''"

definition target_outputs :: "execution_target \<Rightarrow> (string, json) omap option" where
  "target_outputs t =
     (case t of TargetPipeline \<Rightarrow> None | TargetStage _ m \<Rightarrow> Some m | TargetFromStage _ m \<Rightarrow> Some m)"

definition retain_inputs :: "'w environment \<Rightarrow> string \<Rightarrow> ('w, bool) pipeline_run" where
  "retain_inputs env debug_dir =
     (case env_retain_inputs env of
        None \<Rightarrow> return False
      | Some retain \<Rightarrow> next_do (external (retain debug_dir)) (return True))"

text \<open>The dependency state that is computed for a stage after the selected one, and the retained
  inputs of such a stage when nothing is missing.\<close>

definition continuation_state ::
  "'w environment \<Rightarrow> run_options \<Rightarrow> nat \<Rightarrow> nat \<Rightarrow> stage_definition
    \<Rightarrow> ('w, dependency_state option) pipeline_run" where
  "continuation_state env opts target_index i stage =
     (if i > target_index
      then bind (gets results) (\<lambda>rs.
           bind (or_raise env (get_dependency_state stage rs None (target_outputs (opt_target opts))))
             (\<lambda>ds. return (Some ds)))
      else return None)"

definition retain_continuation ::
  "'w environment \<Rightarrow> string \<Rightarrow> dependency_state option \<Rightarrow> ('w, bool) pipeline_run" where
  "retain_continuation env debug_dir ds =
     (if (case ds of Some d \<Rightarrow> dep_incomplete d = [] | None \<Rightarrow> False) \<and> env_retain_inputs env \<noteq> None
      then next_do (external (env_mkdir env debug_dir)) (retain_inputs env debug_dir)
      else return False)"

definition skip_unselected ::
  "'w environment \<Rightarrow> run_options \<Rightarrow> (string, json) omap \<Rightarrow> nat \<Rightarrow> nat \<Rightarrow> stage_definition \<Rightarrow> string
    \<Rightarrow> ('w, unit) pipeline_run" where
  "skip_unselected env opts context target_index i stage debug_dir =
     bind (continuation_state env opts target_index i stage) (\<lambda>ds.
     bind (retain_continuation env debug_dir ds) (\<lambda>has_files.
     bind (tick env) (\<lambda>completed_at.
     let result = stage_result_of (sid stage) debug_dir
                    (Skipped not_selected_reason completed_at None None) in
     next_do (set_result (sid stage) result)
       (finish_unstarted env debug_dir (task_input_of opts context stage ds has_files) result
          (StageSkipped (sid stage) debug_dir not_selected_reason)))))"

definition cancel_unstarted ::
  "'w environment \<Rightarrow> stage_definition \<Rightarrow> string \<Rightarrow> task_input \<Rightarrow> ('w, unit) pipeline_run" where
  "cancel_unstarted env stage debug_dir input =
     bind (tick env) (\<lambda>completed_at.
     bind (gets (\<lambda>s. cancellation_reason (env_abort env (world s)))) (\<lambda>reason.
     let result = stage_result_of (sid stage) debug_dir (Cancelled reason completed_at None None) in
     next_do (set_result (sid stage) result) (
     next_do mark_cancelled
       (finish_unstarted env debug_dir input result (StageCancelled (sid stage) debug_dir reason)))))"

definition incomplete_reason :: "string list \<Rightarrow> string" where
  "incomplete_reason deps = ''Dependencies did not complete: '' @ join_with '', '' deps"

definition incomplete_diagnostic :: "string \<Rightarrow> string list \<Rightarrow> diagnostic" where
  "incomplete_diagnostic stage deps =
     freeze_diagnostic
       ((plain_input ''dependency_not_completed'' (incomplete_reason deps) (Some stage)
           ''resolve_stage_dependencies'')
          \<lparr>di_severity := Some Warning,
           di_entity_refs := Some (map stage_ref deps),
           di_hint := Some ''Inspect the dependency stage result and its debug bundle.''\<rparr>)"

definition skip_incomplete ::
  "'w environment \<Rightarrow> stage_definition \<Rightarrow> string \<Rightarrow> task_input \<Rightarrow> string list \<Rightarrow> ('w, unit) pipeline_run" where
  "skip_incomplete env stage debug_dir input deps =
     bind (tick env) (\<lambda>completed_at.
     let result = (stage_result_of (sid stage) debug_dir
                     (Skipped (incomplete_reason deps) completed_at None None))
                     \<lparr>result_diagnostics := [incomplete_diagnostic (sid stage) deps]\<rparr> in
     next_do (set_result (sid stage) result)
       (finish_unstarted env debug_dir input result
          (StageSkipped (sid stage) debug_dir (incomplete_reason deps))))"

section \<open>Stages that start\<close>

definition reset_commit :: "'w run_state \<Rightarrow> 'w run_state" where
  "reset_commit s =
     s\<lparr>crossed_commit_barrier := False, committed_output := None, committed_artifacts := [],
       committed_diagnostics := [], committed_metrics := []\<rparr>"

text \<open>The cancelled result of a stage that was running.\<close>

definition cancel_started ::
  "'w environment \<Rightarrow> stage_definition \<Rightarrow> string \<Rightarrow> time \<Rightarrow> time \<Rightarrow> ('w, unit) pipeline_run" where
  "cancel_started env stage debug_dir started completed =
     bind (gets (\<lambda>s. cancellation_reason (env_abort env (world s)))) (\<lambda>reason.
     let result = stage_result_of (sid stage) debug_dir
                    (Cancelled reason completed (Some started) (Some (get_duration started completed))) in
     next_do (set_result (sid stage) result) (
     next_do mark_cancelled (
     next_do (write_terminal_debug_bundle env debug_dir result)
       (emit env (StageCancelled (sid stage) debug_dir reason)))))"

definition call_execute ::
  "'w environment \<Rightarrow> stage_definition \<Rightarrow> string \<Rightarrow> (string, json) omap \<Rightarrow> ('w, stage_outcome) pipeline_run" where
  "call_execute env stage debug_dir outputs =
     next_do (modify (\<lambda>s. s\<lparr>executions := executions s @ [(sid stage, outputs)]\<rparr>))
       (external (env_execute env (sid stage) debug_dir outputs))"

fun commits :: "stage_outcome \<Rightarrow> bool" where
  "commits (OutcomeCompleted _ committed _) = committed"
| "commits (OutcomeSkipped _ _) = False"

definition note_commit :: "stage_outcome \<Rightarrow> ('w, unit) pipeline_run" where
  "note_commit outcome =
     (case outcome of
        OutcomeCompleted output True _ \<Rightarrow>
          modify (\<lambda>s. s\<lparr>crossed_commit_barrier := True, has_committed_stage := True,
                         committed_output := Some output\<rparr>)
      | _ \<Rightarrow> return ())"

definition note_committed_trace ::
  "pipeline_artifact list \<Rightarrow> diagnostic list \<Rightarrow> metrics \<Rightarrow> ('w, unit) pipeline_run" where
  "note_committed_trace artifacts diagnostics ms =
     modify (\<lambda>s. if crossed_commit_barrier s
                then s\<lparr>committed_artifacts := artifacts, committed_diagnostics := diagnostics,
                       committed_metrics := ms\<rparr>
                else s)"

definition outcome_state :: "stage_outcome \<Rightarrow> time \<Rightarrow> time \<Rightarrow> stage_state" where
  "outcome_state outcome started completed =
     (case outcome of
        OutcomeSkipped reason _ \<Rightarrow>
          Skipped reason completed (Some started) (Some (get_duration started completed))
      | OutcomeCompleted output _ _ \<Rightarrow>
          Completed output started completed (get_duration started completed))"

definition outcome_event :: "stage_outcome \<Rightarrow> string \<Rightarrow> string \<Rightarrow> int \<Rightarrow> event_body" where
  "outcome_event outcome stage debug_dir duration =
     (case outcome of
        OutcomeSkipped reason _ \<Rightarrow> StageSkipped stage debug_dir reason
      | OutcomeCompleted _ _ _ \<Rightarrow> StageCompleted stage debug_dir duration)"

text \<open>The outcome of \<open>execute\<close> when the run was not cancelled before its commit.\<close>

definition accept_outcome ::
  "'w environment \<Rightarrow> stage_definition \<Rightarrow> string \<Rightarrow> time \<Rightarrow> time \<Rightarrow> stage_outcome \<Rightarrow> ('w, unit) pipeline_run" where
  "accept_outcome env stage debug_dir started completed outcome =
     (let x = outcome_extras_of outcome in
      bind (or_raise env (validate_artifacts (or_else (out_artifacts x) []) (sid stage))) (\<lambda>declared.
      bind (external (env_snapshot_artifacts env declared debug_dir (sid stage))) (\<lambda>artifacts.
      let diagnostics = or_else (out_diagnostics x) [];
          ms = or_else (out_metrics x) [];
          result = \<lparr> result_stage_id = sid stage, result_debug_dir = debug_dir,
                     result_artifacts = artifacts, result_diagnostics = diagnostics,
                     result_metrics = ms, result_state = outcome_state outcome started completed \<rparr> in
      next_do (note_committed_trace artifacts diagnostics ms) (
      next_do (set_result (sid stage) result) (
      next_do (write_terminal_debug_bundle env debug_dir result)
        (emit env (outcome_event outcome (sid stage) debug_dir (get_duration started completed))))))))"

definition execute_stage ::
  "'w environment \<Rightarrow> stage_definition \<Rightarrow> string \<Rightarrow> (string, json) omap \<Rightarrow> time \<Rightarrow> ('w, unit) pipeline_run" where
  "execute_stage env stage debug_dir outputs started =
     bind (call_execute env stage debug_dir outputs) (\<lambda>outcome.
     bind (tick env) (\<lambda>completed.
     next_do (note_commit outcome) (
     bind (gets (aborted env)) (\<lambda>is_aborted.
     if is_aborted \<and> \<not> commits outcome
     then cancel_started env stage debug_dir started completed
     else accept_outcome env stage debug_dir started completed outcome))))"

definition post_commit_diagnostic :: "string \<Rightarrow> exn \<Rightarrow> diagnostic" where
  "post_commit_diagnostic stage x =
     freeze_diagnostic
       ((plain_input ''post_commit_trace_failure''
           ''The stage publication committed successfully, but its terminal trace could not be fully recorded.''
           (Some stage) ''record_committed_stage_result'')
          \<lparr>di_severity := Some Warning,
           di_cause_chain := Some (pipeline_cause_chain x),
           di_hint := Some ''Inspect observer-errors.ndjson and verify storage health. The committed publication remains authoritative.''\<rparr>)"

definition committed_result ::
  "string \<Rightarrow> string \<Rightarrow> json \<Rightarrow> time \<Rightarrow> time \<Rightarrow> exn \<Rightarrow> 'w run_state \<Rightarrow> stage_result" where
  "committed_result stage debug_dir output started completed x s =
     \<lparr> result_stage_id = stage, result_debug_dir = debug_dir,
       result_artifacts = committed_artifacts s,
       result_diagnostics = committed_diagnostics s @ [post_commit_diagnostic stage x],
       result_metrics = committed_metrics s,
       result_state = Completed output started completed (get_duration started completed) \<rparr>"

text \<open>The handler's first branch: the stage has committed, so it stays completed.\<close>

definition keep_committed ::
  "'w environment \<Rightarrow> stage_definition \<Rightarrow> string \<Rightarrow> time \<Rightarrow> time \<Rightarrow> json \<Rightarrow> exn \<Rightarrow> ('w, unit) pipeline_run" where
  "keep_committed env stage debug_dir started completed output x =
     bind (gets (committed_result (sid stage) debug_dir output started completed x)) (\<lambda>result.
     next_do (set_result (sid stage) result) (
     next_do (record_post_commit_trace_failure env (sid stage) ''record_committed_stage_result'' x)
       (catch (write_terminal_debug_bundle env debug_dir result)
          (record_post_commit_trace_failure env (sid stage) ''write_committed_stage_debug_bundle''))))"

definition stage_failure_diagnostic :: "string \<Rightarrow> exn \<Rightarrow> diagnostic" where
  "stage_failure_diagnostic stage x =
     to_pipeline_error x
       ((plain_input ''stage_execution_failed'' (''Stage '' @ stage @ '' failed'') (Some stage)
           ''execute_stage'')\<lparr>di_retryable := Some False\<rparr>)"

definition fail_stage ::
  "'w environment \<Rightarrow> stage_definition \<Rightarrow> string \<Rightarrow> time \<Rightarrow> time \<Rightarrow> exn \<Rightarrow> ('w, unit) pipeline_run" where
  "fail_stage env stage debug_dir started completed x =
     (let d = stage_failure_diagnostic (sid stage) x;
          result = (stage_result_of (sid stage) debug_dir
                      (Failed d started completed (get_duration started completed)))
                      \<lparr>result_diagnostics := [d]\<rparr> in
      next_do (set_result (sid stage) result) (
      next_do (modify (\<lambda>s. s\<lparr>has_failed_stage := True\<rparr>)) (
      next_do (write_terminal_debug_bundle env debug_dir result)
        (emit env (StageFailed (sid stage) debug_dir d)))))"

definition handle_stage_error ::
  "'w environment \<Rightarrow> stage_definition \<Rightarrow> string \<Rightarrow> time \<Rightarrow> exn \<Rightarrow> ('w, unit) pipeline_run" where
  "handle_stage_error env stage debug_dir started x =
     bind (tick env) (\<lambda>completed.
     bind (gets (\<lambda>s. (crossed_commit_barrier s, committed_output s))) (\<lambda>(crossed, output).
     case (crossed, output) of
       (True, Some out) \<Rightarrow> keep_committed env stage debug_dir started completed out x
     | _ \<Rightarrow>
         bind (gets (aborted env)) (\<lambda>is_aborted.
         if is_aborted \<and> \<not> crossed then cancel_started env stage debug_dir started completed
         else fail_stage env stage debug_dir started completed x)))"

definition start_stage ::
  "'w environment \<Rightarrow> run_options \<Rightarrow> (string, json) omap \<Rightarrow> stage_definition \<Rightarrow> string
    \<Rightarrow> dependency_state \<Rightarrow> ('w, unit) pipeline_run" where
  "start_stage env opts context stage debug_dir ds =
     bind (tick env) (\<lambda>started.
     next_do (external (env_mkdir env debug_dir)) (
     bind (retain_inputs env debug_dir) (\<lambda>has_files.
     next_do (set_result (sid stage) (stage_result_of (sid stage) debug_dir (Running started))) (
     next_do (write_initial_debug_bundle env debug_dir
                (task_input_of opts context stage (Some ds) has_files) (Some started)) (
     next_do (emit env (StageStarted (sid stage) debug_dir)) (
     next_do (modify reset_commit)
       (catch (execute_stage env stage debug_dir (dep_outputs ds) started)
          (handle_stage_error env stage debug_dir started))))))))"

section \<open>The run\<close>

text \<open>The end of an iteration: the stage starts unless the coordination hook or a cancellation
  during it prevents it.\<close>

definition coordinate_and_start ::
  "'w environment \<Rightarrow> run_options \<Rightarrow> (string, json) omap \<Rightarrow> stage_definition \<Rightarrow> string
    \<Rightarrow> task_input \<Rightarrow> dependency_state \<Rightarrow> ('w, unit) pipeline_run" where
  "coordinate_and_start env opts context stage debug_dir input ds =
     next_do (case env_before_stage env of
                None \<Rightarrow> return ()
              | Some hook \<Rightarrow> external (hook (sid stage)))
       (bind (gets (aborted env)) (\<lambda>is_aborted.
        if is_aborted then cancel_unstarted env stage debug_dir input
        else start_stage env opts context stage debug_dir ds))"

definition run_selected ::
  "'w environment \<Rightarrow> run_options \<Rightarrow> (string, json) omap \<Rightarrow> nat \<Rightarrow> nat \<Rightarrow> stage_definition \<Rightarrow> string
    \<Rightarrow> ('w, unit) pipeline_run" where
  "run_selected env opts context target_index i stage debug_dir =
     (let target = opt_target opts;
          provided = (if target \<noteq> TargetPipeline \<and> i = target_index then target_outputs target else None);
          inherited = (if target = TargetPipeline then None else target_outputs target) in
      bind (gets results) (\<lambda>rs.
      bind (or_raise env (get_dependency_state stage rs provided inherited)) (\<lambda>ds.
      let input = task_input_of opts context stage (Some ds) False in
      bind (gets (\<lambda>s. aborted env s \<or> has_cancelled_stage s)) (\<lambda>cancel.
      if cancel then cancel_unstarted env stage debug_dir input
      else if dep_incomplete ds \<noteq> [] then skip_incomplete env stage debug_dir input (dep_incomplete ds)
      else coordinate_and_start env opts context stage debug_dir input ds))))"

definition missing_stage_result_error :: "string \<Rightarrow> diagnostic_input" where
  "missing_stage_result_error stage =
     plain_input ''missing_stage_result'' (''No pending result exists for stage '' @ stage)
       (Some stage) ''run_pipeline''"

fun is_from_stage :: "execution_target \<Rightarrow> bool" where
  "is_from_stage (TargetFromStage _ _) = True"
| "is_from_stage _ = False"

definition selected :: "execution_target \<Rightarrow> nat \<Rightarrow> nat \<Rightarrow> bool" where
  "selected target target_index i \<longleftrightarrow>
     target = TargetPipeline \<or> i = target_index \<or> (is_from_stage target \<and> i > target_index)"

definition run_stage ::
  "'w environment \<Rightarrow> run_options \<Rightarrow> (string, json) omap \<Rightarrow> nat \<Rightarrow> nat \<Rightarrow> stage_definition
    \<Rightarrow> ('w, unit) pipeline_run" where
  "run_stage env opts context target_index i stage =
     bind (gets (\<lambda>s. oget (results s) (sid stage))) (\<lambda>prior.
     case prior of
       None \<Rightarrow> raise env (missing_stage_result_error (sid stage))
     | Some prior_result \<Rightarrow>
         if selected (opt_target opts) target_index i
         then run_selected env opts context target_index i stage (result_debug_dir prior_result)
         else skip_unselected env opts context target_index i stage (result_debug_dir prior_result))"

fun run_stages ::
  "'w environment \<Rightarrow> run_options \<Rightarrow> (string, json) omap \<Rightarrow> nat \<Rightarrow> nat \<Rightarrow> stage_definition list
    \<Rightarrow> ('w, unit) pipeline_run" where
  "run_stages env opts context target_index i [] = return ()"
| "run_stages env opts context target_index i (stage # stages) =
     next_do (run_stage env opts context target_index i stage)
       (run_stages env opts context target_index (Suc i) stages)"

fun target_stage_id :: "execution_target \<Rightarrow> string option" where
  "target_stage_id TargetPipeline = None"
| "target_stage_id (TargetStage s _) = Some s"
| "target_stage_id (TargetFromStage s _) = Some s"

fun find_index :: "('a \<Rightarrow> bool) \<Rightarrow> 'a list \<Rightarrow> nat option" where
  "find_index p [] = None"
| "find_index p (x # xs) = (if p x then Some 0 else map_option Suc (find_index p xs))"

definition select_target :: "run_options \<Rightarrow> diagnostic_input + nat" where
  "select_target opts =
     (case target_stage_id (opt_target opts) of
        None \<Rightarrow> Inr 0
      | Some stage \<Rightarrow>
          (case find_index (\<lambda>st. sid st = stage) (def_stages (opt_definition opts)) of
             Some i \<Rightarrow> Inr i
           | None \<Rightarrow>
               Inl (plain_input ''pipeline_stage_not_found''
                      (''Pipeline '' @ def_pipeline_id (opt_definition opts) @ '' has no stage '' @ stage)
                      (Some stage) ''select_pipeline_execution_target'')))"

definition pipeline_dir :: "run_options \<Rightarrow> string" where
  "pipeline_dir opts = in_dir (opt_workspace_dir opts) ''.pipeline''"

definition initial_results :: "run_options \<Rightarrow> (string, stage_result) omap" where
  "initial_results opts =
     (let stages = def_stages (opt_definition opts); n = length stages in
      foldl (\<lambda>m (i, stage).
               oput (sid stage)
                 (stage_result_of (sid stage) (make_debug_dir (pipeline_dir opts) i n (sid stage)) Pending) m)
        [] (zip [0..<n] stages))"

definition final_status :: "'w run_state \<Rightarrow> pipeline_run_status" where
  "final_status s =
     (if has_cancelled_stage s then RunCancelled
      else if has_failed_stage s then RunFailed else RunCompleted)"

definition finish_run :: "'w environment \<Rightarrow> ('w, run_snapshot) pipeline_run" where
  "finish_run env =
     next_do (modify (\<lambda>s. s\<lparr>run_status := final_status s\<rparr>)) (
     bind (tick env) (\<lambda>completed_at.
     bind (gets run_status) (\<lambda>status.
     next_do (catch (emit env (PipelineFinished status)) (\<lambda>x.
                bind (gets has_committed_stage) (\<lambda>committed.
                if \<not> committed then throw x
                else record_post_commit_trace_failure env ''pipeline'' ''record_pipeline_terminal_event'' x)))
       (gets (snapshot_at completed_at)))))"

definition begin_run :: "'w environment \<Rightarrow> run_options \<Rightarrow> ('w, nat \<times> (string, json) omap) pipeline_run" where
  "begin_run env opts =
     bind (or_raise env (case validate_pipeline_definition (opt_definition opts) of
                           Some e \<Rightarrow> Inl e | None \<Rightarrow> Inr ())) (\<lambda>_.
     bind (or_raise env (select_target opts)) (\<lambda>target_index.
     bind (or_raise env (serialize_execution_context (opt_context opts))) (\<lambda>context.
     next_do (external (env_mkdir env (in_dir (pipeline_dir opts) ''stages''))) (
     bind (tick env) (\<lambda>started.
     next_do (modify (\<lambda>s. s\<lparr>started_at := started, results := initial_results opts\<rparr>)) (
     next_do (emit env PipelineStarted)
       (return (target_index, context))))))))"

definition run_pipeline :: "'w environment \<Rightarrow> run_options \<Rightarrow> ('w, run_snapshot) pipeline_run" where
  "run_pipeline env opts =
     bind (begin_run env opts) (\<lambda>(target_index, context).
     next_do (run_stages env opts context target_index 0 (def_stages (opt_definition opts)))
       (finish_run env))"

end
