(* ===== verification/Pipeline_Frames.thy ===== *)
theory Pipeline_Frames
  imports Pipeline_Runner
begin

text \<open>
  Which variables of the run each piece of the engine leaves alone. Everything that only talks to
  the environment is \<open>silent\<close>: it changes the world, the event counter and the event log, and
  it never takes back a cancellation when the environment's abort signal does not.
\<close>

text \<open>An abort signal that has fired stays aborted, whatever is awaited next. This is the documented
  behaviour of the platform's abort signals.\<close>

definition monotone_abort :: "'w environment \<Rightarrow> bool" where
  "monotone_abort env \<longleftrightarrow>
     (\<forall>w. env_abort env w \<noteq> None \<longrightarrow>
        env_abort env (snd (env_now env w)) \<noteq> None
        \<and> (\<forall>d. env_abort env (snd (env_mkdir env d w)) \<noteq> None)
        \<and> (\<forall>f. env_abort env (snd (env_write_files env f w)) \<noteq> None)
        \<and> (\<forall>e. env_abort env (snd (env_append_event env e w)) \<noteq> None)
        \<and> (\<forall>e. env_abort env (snd (env_append_observer env e w)) \<noteq> None)
        \<and> (\<forall>c n. env_on_snapshot env = Some c \<longrightarrow> env_abort env (snd (c n w)) \<noteq> None)
        \<and> (\<forall>c n. env_before_stage env = Some c \<longrightarrow> env_abort env (snd (c n w)) \<noteq> None)
        \<and> (\<forall>c n. env_retain_inputs env = Some c \<longrightarrow> env_abort env (snd (c n w)) \<noteq> None)
        \<and> (\<forall>a d o'. env_abort env (snd (env_execute env a d o' w)) \<noteq> None)
        \<and> (\<forall>a d t. env_abort env (snd (env_snapshot_artifacts env a d t w)) \<noteq> None))"

definition same_core :: "'w environment \<Rightarrow> 'w run_state \<Rightarrow> 'w run_state \<Rightarrow> bool" where
  "same_core env s t \<longleftrightarrow>
     results t = results s \<and> run_status t = run_status s \<and> started_at t = started_at s
     \<and> has_failed_stage t = has_failed_stage s \<and> has_cancelled_stage t = has_cancelled_stage s
     \<and> has_committed_stage t = has_committed_stage s \<and> executions t = executions s
     \<and> crossed_commit_barrier t = crossed_commit_barrier s
     \<and> committed_output t = committed_output s
     \<and> (aborted env s \<longrightarrow> aborted env t)"

definition silent :: "'w environment \<Rightarrow> ('w, 'a) pipeline_run \<Rightarrow> bool" where
  "silent env m \<longleftrightarrow> (\<forall>s. same_core env s (snd (m s)))"

lemma same_core_refl [simp]: "same_core env s s"
  by (simp add: same_core_def)

lemma same_core_trans: "same_core env s t \<Longrightarrow> same_core env t u \<Longrightarrow> same_core env s u"
  by (simp add: same_core_def)

lemma silent_run: "silent env m \<Longrightarrow> m s = (r, t) \<Longrightarrow> same_core env s t"
  unfolding silent_def by (metis snd_conv)

lemma silent_return [intro, simp]: "silent env (return a)"
  and silent_throw [intro, simp]: "silent env (throw e)"
  and silent_gets [intro, simp]: "silent env (gets f)"
  by (simp_all add: silent_def return_def throw_def gets_def)

lemma silent_bind [intro]: "silent env m \<Longrightarrow> (\<And>a. silent env (f a)) \<Longrightarrow> silent env (bind m f)"
  unfolding silent_def bind_def
  by (metis (mono_tags, lifting) case_prod_unfold same_core_trans snd_conv sum.case_eq_if)

lemma silent_next_do [intro]: "silent env m \<Longrightarrow> silent env n \<Longrightarrow> silent env (next_do m n)"
  unfolding next_do_def by (rule silent_bind)

lemma silent_catch [intro]: "silent env m \<Longrightarrow> (\<And>e. silent env (h e)) \<Longrightarrow> silent env (catch m h)"
  unfolding silent_def catch_def
  by (metis (mono_tags, lifting) case_prod_unfold same_core_trans snd_conv sum.case_eq_if)

lemma silent_quietly [intro]: "silent env m \<Longrightarrow> silent env (quietly m)"
  unfolding quietly_def by (intro silent_catch silent_return)

lemma silent_raise [intro, simp]: "silent env (raise env' i)"
  by (simp add: raise_def)

lemma silent_or_raise [intro, simp]: "silent env (or_raise env' r)"
  by (simp add: or_raise_def split: sum.split)

lemma silent_external:
  assumes "\<And>w. env_abort env w \<noteq> None \<Longrightarrow> env_abort env (snd (op w)) \<noteq> None"
  shows "silent env (external op)"
  using assms by (auto simp: silent_def external_def same_core_def aborted_def split: prod.split)
     (metis prod.collapse snd_conv option.distinct(1))+

lemma silent_counter [intro, simp]:
  "silent env (modify (\<lambda>s. s\<lparr>sequence := f s\<rparr>))"
  "silent env (modify (\<lambda>s. s\<lparr>event_log := g s\<rparr>))"
  by (simp_all add: silent_def modify_def same_core_def aborted_def)

lemma monotone_silent:
  assumes "monotone_abort env"
  shows "silent env (tick env)"
    and "silent env (external (env_mkdir env d))"
    and "silent env (external (env_write_files env f))"
    and "silent env (external (env_append_event env ev))"
    and "silent env (external (env_append_observer env ob))"
    and "env_on_snapshot env = Some c1 \<Longrightarrow> silent env (external (c1 snap))"
    and "env_before_stage env = Some c2 \<Longrightarrow> silent env (external (c2 stage))"
    and "env_retain_inputs env = Some c3 \<Longrightarrow> silent env (external (c3 d))"
    and "silent env (external (env_execute env stage d outs))"
    and "silent env (external (env_snapshot_artifacts env artifacts d stage))"
proof -
  have "env_abort env (snd (env_now env w)) \<noteq> None" if "env_abort env w \<noteq> None" for w
    using assms that unfolding monotone_abort_def by blast
  then show "silent env (tick env)"
    unfolding tick_def by (intro silent_external) (simp add: case_prod_unfold)
qed (rule silent_external, use assms in \<open>simp add: monotone_abort_def\<close>)+

lemma silent_notify [intro]: "monotone_abort env \<Longrightarrow> silent env (notify_observer env ev)"
proof (cases "env_on_snapshot env")
  case (Some callback)
  assume m: "monotone_abort env"
  show ?thesis
    unfolding notify_observer_def Some option.case
  proof (intro silent_bind silent_gets silent_catch)
    fix snap :: run_snapshot and x :: exn
    show "silent env (external (callback snap))"
      by (rule monotone_silent(6) [OF m Some])
    show "silent env (case error_summary env x of (name, message, stk) \<Rightarrow>
            quietly (external (env_append_observer env
              (ObserverFailure (event_timestamp ev) (event_sequence ev) (event_body_of ev)
                 name message stk))))"
      by (cases "error_summary env x") (auto intro: silent_quietly monotone_silent(5) [OF m])
  qed
qed (simp add: notify_observer_def)

lemma silent_emit [intro]: "monotone_abort env \<Longrightarrow> silent env (emit env body)"
  unfolding emit_def Let_def
  by (intro silent_bind silent_next_do silent_notify monotone_silent silent_counter silent_gets)

lemma silent_record [intro]:
  "monotone_abort env \<Longrightarrow> silent env (record_post_commit_trace_failure env stage operation x)"
  unfolding record_post_commit_trace_failure_def
  by (auto split: prod.split intro!: silent_bind silent_quietly monotone_silent)

lemma silent_write_initial [intro]:
  "monotone_abort env \<Longrightarrow> silent env (write_initial_debug_bundle env d input st)"
  unfolding write_initial_debug_bundle_def by (intro silent_next_do monotone_silent)

lemma silent_write_terminal [intro]:
  "monotone_abort env \<Longrightarrow> silent env (write_terminal_debug_bundle env d r)"
  unfolding write_terminal_debug_bundle_def by (rule monotone_silent)

lemma silent_retain [intro]: "monotone_abort env \<Longrightarrow> silent env (retain_inputs env d)"
  unfolding retain_inputs_def
  by (cases "env_retain_inputs env") (auto intro!: silent_next_do monotone_silent(8))

lemma silent_finish_unstarted [intro]:
  "monotone_abort env \<Longrightarrow> silent env (finish_unstarted env d input r ev)"
  unfolding finish_unstarted_def
  by (intro silent_next_do silent_write_initial silent_write_terminal silent_emit)

lemma silent_continuation [intro]:
  "silent env (continuation_state env opts ti i stage)"
  unfolding continuation_state_def by (auto intro!: silent_bind)

lemma silent_retain_continuation [intro]:
  "monotone_abort env \<Longrightarrow> silent env (retain_continuation env d ds)"
  unfolding retain_continuation_def
  by (auto intro!: silent_next_do monotone_silent silent_retain)

lemmas silent_intros = silent_return silent_throw silent_gets silent_bind silent_next_do silent_catch
  silent_quietly silent_raise silent_or_raise silent_counter silent_notify silent_emit silent_record
  silent_write_initial silent_write_terminal silent_retain silent_finish_unstarted
  silent_continuation silent_retain_continuation

text \<open>The failure of a quiet recording is swallowed.\<close>

lemma never_throws_quietly [intro]: "never_throws (quietly m)"
  unfolding quietly_def by (rule never_throws_catch) simp

lemma never_throws_tick [intro, simp]: "never_throws (tick env)"
  by (simp add: never_throws_def tick_def external_def case_prod_unfold)

lemma never_throws_record [intro]: "never_throws (record_post_commit_trace_failure env stage op x)"
  unfolding record_post_commit_trace_failure_def
  by (cases "error_summary env x") (auto intro!: never_throws_bind never_throws_quietly)

lemma never_throws_keep_committed:
  "never_throws (keep_committed env stage debug_dir started completed output x)"
  unfolding keep_committed_def set_result_def
  by (intro never_throws_bind never_throws_next_do never_throws_catch never_throws_record
        never_throws_gets never_throws_modify)

end
