(* ===== verification/Pipeline_Steps.thy ===== *)
theory Pipeline_Steps
  imports Pipeline_Frames
begin

text \<open>
  What a run does to the results, flags and calls, without the files and the clock. One iteration of
  the loop over the stages is a \<open>stage_step\<close> between cores; \<open>run_stage_core\<close> is the
  simulation: an iteration that returns is a step of the abstract run. Inside an iteration,
  \<open>torn\<close> says how far the body of the \<open>try\<close> block got when it threw, and \<open>ran\<close> what
  holds when the stage has its terminal result.
\<close>

section \<open>The abstract run\<close>

record core =
  c_results :: "(string, stage_result) omap"
  c_failed :: bool
  c_cancelled :: bool
  c_committed :: bool
  c_executions :: "(string \<times> (string, json) omap) list"
  c_aborted :: bool

definition core_of :: "'w environment \<Rightarrow> 'w run_state \<Rightarrow> core" where
  "core_of env s =
     \<lparr> c_results = results s, c_failed = has_failed_stage s, c_cancelled = has_cancelled_stage s,
       c_committed = has_committed_stage s, c_executions = executions s,
       c_aborted = aborted env s \<rparr>"

definition settle :: "string \<Rightarrow> stage_result \<Rightarrow> core \<Rightarrow> core" where
  "settle stage r c =
     c\<lparr>c_results := oput stage r (c_results c),
       c_failed := c_failed c \<or> is_failed (result_state r),
       c_cancelled := c_cancelled c \<or> is_cancelled (result_state r)\<rparr>"

definition may_abort :: "core \<Rightarrow> core \<Rightarrow> bool" where
  "may_abort c d \<longleftrightarrow> d = c \<or> d = c\<lparr>c_aborted := True\<rparr>"

definition dependencies_at ::
  "run_options \<Rightarrow> nat \<Rightarrow> nat \<Rightarrow> stage_definition \<Rightarrow> core \<Rightarrow> diagnostic_input + dependency_state" where
  "dependencies_at opts target_index i stage c =
     get_dependency_state stage (c_results c)
       (if opt_target opts \<noteq> TargetPipeline \<and> i = target_index then target_outputs (opt_target opts)
        else None)
       (if opt_target opts = TargetPipeline then None else target_outputs (opt_target opts))"

inductive stage_step ::
  "run_options \<Rightarrow> nat \<Rightarrow> nat \<Rightarrow> stage_definition \<Rightarrow> core \<Rightarrow> core \<Rightarrow> bool"
  for opts :: run_options and target_index :: nat and i :: nat and stage :: stage_definition
where
  step_unselected:
    "\<not> selected (opt_target opts) target_index i \<Longrightarrow>
     result_state r = Skipped not_selected_reason tm None None \<Longrightarrow>
     may_abort (settle (sid stage) r c) c' \<Longrightarrow> stage_step opts target_index i stage c c'"
| step_cancelled:
    "selected (opt_target opts) target_index i \<Longrightarrow>
     dependencies_at opts target_index i stage c = Inr ds \<Longrightarrow>
     c_aborted c \<or> c_cancelled c \<Longrightarrow>
     result_state r = Cancelled reason tm None None \<Longrightarrow>
     may_abort (settle (sid stage) r c) c' \<Longrightarrow> stage_step opts target_index i stage c c'"
| step_incomplete:
    "selected (opt_target opts) target_index i \<Longrightarrow>
     dependencies_at opts target_index i stage c = Inr ds \<Longrightarrow>
     \<not> c_aborted c \<and> \<not> c_cancelled c \<Longrightarrow> dep_incomplete ds \<noteq> [] \<Longrightarrow>
     result_state r = Skipped (incomplete_reason (dep_incomplete ds)) tm None None \<Longrightarrow>
     may_abort (settle (sid stage) r c) c' \<Longrightarrow> stage_step opts target_index i stage c c'"
| step_interrupted:
    "selected (opt_target opts) target_index i \<Longrightarrow>
     dependencies_at opts target_index i stage c = Inr ds \<Longrightarrow>
     \<not> c_aborted c \<and> \<not> c_cancelled c \<Longrightarrow> dep_incomplete ds = [] \<Longrightarrow>
     result_state r = Cancelled reason tm None None \<Longrightarrow>
     c' = settle (sid stage) r (c\<lparr>c_aborted := True\<rparr>) \<Longrightarrow> stage_step opts target_index i stage c c'"
| step_ran:
    "selected (opt_target opts) target_index i \<Longrightarrow>
     dependencies_at opts target_index i stage c = Inr ds \<Longrightarrow>
     \<not> c_aborted c \<and> \<not> c_cancelled c \<Longrightarrow> dep_incomplete ds = [] \<Longrightarrow>
     is_terminal (result_state r) \<Longrightarrow>
     (committed \<longrightarrow> is_completed (result_state r)) \<Longrightarrow>
     (is_cancelled (result_state r) \<longrightarrow> c_aborted c') \<Longrightarrow>
     may_abort (settle (sid stage) r
       (c\<lparr>c_executions := c_executions c @ [(sid stage, dep_outputs ds)],
          c_committed := c_committed c \<or> committed\<rparr>)) c' \<Longrightarrow>
     stage_step opts target_index i stage c c'"

section \<open>The simulation\<close>

lemma same_core_of: "same_core env s t \<Longrightarrow> may_abort (core_of env s) (core_of env t)"
  by (auto simp: same_core_def may_abort_def core_of_def)

lemma set_result_run [run_rules]:
  "set_result k r s = (x, t) \<longleftrightarrow> x = Inr () \<and> t = s\<lparr>results := oput k r (results s)\<rparr>"
  by (simp add: set_result_def run_rules)

lemma mark_cancelled_run [run_rules]:
  "mark_cancelled s = (x, t) \<longleftrightarrow> x = Inr () \<and> t = s\<lparr>has_cancelled_stage := True\<rparr>"
  by (simp add: mark_cancelled_def run_rules)

lemma core_dests:
  assumes "monotone_abort env"
  shows "tick env s = (x1, t) \<Longrightarrow> same_core env s t"
    and "external (env_mkdir env d) s = (x2, t) \<Longrightarrow> same_core env s t"
    and "emit env b s = (x3, t) \<Longrightarrow> same_core env s t"
    and "retain_inputs env d s = (x4, t) \<Longrightarrow> same_core env s t"
    and "write_initial_debug_bundle env d i st s = (x5, t) \<Longrightarrow> same_core env s t"
    and "write_terminal_debug_bundle env d r s = (x6, t) \<Longrightarrow> same_core env s t"
    and "finish_unstarted env d i r b s = (x7, t) \<Longrightarrow> same_core env s t"
    and "or_raise env q s = (x8, t) \<Longrightarrow> same_core env s t"
    and "external (env_snapshot_artifacts env as d n) s = (x9, t) \<Longrightarrow> same_core env s t"
    and "external (env_execute env n d o') s = (x10, t) \<Longrightarrow> same_core env s t"
    and "record_post_commit_trace_failure env n op x s = (x11, t) \<Longrightarrow> same_core env s t"
    and "continuation_state env opts ti j stage s = (x12, t) \<Longrightarrow> same_core env s t"
    and "retain_continuation env d dso s = (x13, t) \<Longrightarrow> same_core env s t"
  by (erule silent_run [rotated], use assms in \<open>blast intro: silent_intros monotone_silent\<close>)+


lemma result_state_stage_result_of [simp]: "result_state (stage_result_of n d st) = st"
  by (simp add: stage_result_of_def)

lemmas core_simps = same_core_def may_abort_def settle_def core_of_def aborted_def

lemma cancel_unstarted_core:
  assumes m: "monotone_abort env" and run: "cancel_unstarted env stage d input s = (Inr (), t)"
  shows "\<exists>r reason tm. result_state r = Cancelled reason tm None None
           \<and> may_abort (settle (sid stage) r (core_of env s)) (core_of env t)"
proof -
  from run obtain tm u reason where
    u: "same_core env s u" and
    t: "same_core env (u\<lparr>results := oput (sid stage) (stage_result_of (sid stage) d (Cancelled reason tm None None)) (results u),
              has_cancelled_stage := True\<rparr>) t"
    unfolding cancel_unstarted_def Let_def
    by (auto simp: run_rules dest!: core_dests [OF m])
  show ?thesis
    by (intro exI [of _ "stage_result_of (sid stage) d (Cancelled reason tm None None)"] exI conjI)
       (use u t in \<open>auto simp: core_simps\<close>)
qed

lemma skip_incomplete_core:
  assumes m: "monotone_abort env" and run: "skip_incomplete env stage d input deps s = (Inr (), t)"
  shows "\<exists>r tm. result_state r = Skipped (incomplete_reason deps) tm None None
           \<and> may_abort (settle (sid stage) r (core_of env s)) (core_of env t)"
proof -
  from run obtain tm u r where
    u: "same_core env s u" and
    t: "same_core env (u\<lparr>results := oput (sid stage) r (results u)\<rparr>) t" and
    r: "result_state r = Skipped (incomplete_reason deps) tm None None"
    unfolding skip_incomplete_def Let_def
    by (auto simp: run_rules dest!: core_dests [OF m])
  show ?thesis
    by (intro exI [of _ r] exI [of _ tm] conjI r) (use u t r in \<open>auto simp: core_simps\<close>)
qed

lemma skip_unselected_core:
  assumes m: "monotone_abort env"
    and run: "skip_unselected env opts ctxt ti i stage d s = (Inr (), t)"
  shows "\<exists>r tm. result_state r = Skipped not_selected_reason tm None None
           \<and> may_abort (settle (sid stage) r (core_of env s)) (core_of env t)"
proof -
  from run obtain tm u1 u2 u r where
    u: "same_core env s u1" "same_core env u1 u2" "same_core env u2 u" and
    t: "same_core env (u\<lparr>results := oput (sid stage) r (results u)\<rparr>) t" and
    r: "result_state r = Skipped not_selected_reason tm None None"
    unfolding skip_unselected_def Let_def
    by (auto simp: run_rules dest!: core_dests [OF m])
  show ?thesis
    by (intro exI [of _ r] exI [of _ tm] conjI r) (use u t r in \<open>auto simp: core_simps\<close>)
qed

lemma cancel_started_core:
  assumes m: "monotone_abort env" and run: "cancel_started env stage d st co s = (x, t)"
  shows "\<exists>r reason. result_state r = Cancelled reason co (Some st) (Some (get_duration st co))
           \<and> may_abort (settle (sid stage) r (core_of env s)) (core_of env t)
           \<and> same_core env (s\<lparr>results := oput (sid stage) r (results s), has_cancelled_stage := True\<rparr>) t"
proof -
  from run obtain u r reason where
    t: "same_core env (s\<lparr>results := oput (sid stage) r (results s), has_cancelled_stage := True\<rparr>) u"
      "same_core env u t" and
    r: "result_state r = Cancelled reason co (Some st) (Some (get_duration st co))"
    unfolding cancel_started_def Let_def
    by (cases x) (auto simp: run_rules dest!: core_dests [OF m] intro: that)
  show ?thesis
    by (intro exI [of _ r] exI [of _ reason] conjI r) (use t r in \<open>auto simp: core_simps\<close>)
qed

text \<open>How far the body of the \<open>try\<close> block can get before it throws.\<close>

definition torn ::
  "'w environment \<Rightarrow> string \<Rightarrow> (string, json) omap \<Rightarrow> 'w run_state \<Rightarrow> 'w run_state \<Rightarrow> bool" where
  "torn env stage outputs s t \<longleftrightarrow>
     (results t = results s \<or> (\<exists>r. results t = oput stage r (results s)))
     \<and> executions t = executions s @ [(stage, outputs)]
     \<and> has_failed_stage t = has_failed_stage s
     \<and> has_committed_stage t = (has_committed_stage s \<or> crossed_commit_barrier t)
     \<and> (crossed_commit_barrier t \<longleftrightarrow> committed_output t \<noteq> None)
     \<and> (has_cancelled_stage t \<longrightarrow> has_cancelled_stage s \<or> aborted env t \<and> \<not> crossed_commit_barrier t)
     \<and> (has_cancelled_stage s \<longrightarrow> has_cancelled_stage t)
     \<and> (aborted env s \<longrightarrow> aborted env t)"

definition ran ::
  "'w environment \<Rightarrow> string \<Rightarrow> (string, json) omap \<Rightarrow> 'w run_state \<Rightarrow> 'w run_state \<Rightarrow> bool" where
  "ran env stage outputs s t \<longleftrightarrow>
     (\<exists>r committed. is_terminal (result_state r) \<and> (committed \<longrightarrow> is_completed (result_state r))
        \<and> (is_cancelled (result_state r) \<longrightarrow> aborted env t)
        \<and> may_abort (settle stage r ((core_of env s)
             \<lparr>c_executions := executions s @ [(stage, outputs)],
              c_committed := has_committed_stage s \<or> committed\<rparr>)) (core_of env t))"

definition called ::
  "'w environment \<Rightarrow> string \<Rightarrow> (string, json) omap \<Rightarrow> bool \<Rightarrow> 'w run_state \<Rightarrow> 'w run_state \<Rightarrow> bool" where
  "called env stage outputs committed s t \<longleftrightarrow>
     results t = results s
     \<and> executions t = executions s @ [(stage, outputs)]
     \<and> has_failed_stage t = has_failed_stage s
     \<and> has_cancelled_stage t = has_cancelled_stage s
     \<and> has_committed_stage t = (has_committed_stage s \<or> committed)
     \<and> crossed_commit_barrier t = committed
     \<and> (committed \<longleftrightarrow> committed_output t \<noteq> None)
     \<and> (aborted env s \<longrightarrow> aborted env t)"

lemma call_execute_core:
  assumes m: "monotone_abort env" and run: "call_execute env stage d outs s = (x, t)"
    and s: "\<not> crossed_commit_barrier s" "committed_output s = None"
  shows "called env (sid stage) outs False s t"
proof -
  from run have "same_core env (s\<lparr>executions := executions s @ [(sid stage, outs)]\<rparr>) t"
    unfolding call_execute_def
    by (cases x) (auto simp: run_rules dest!: core_dests [OF m])
  with s show ?thesis by (auto simp: called_def same_core_def aborted_def)
qed

lemma note_commit_core:
  assumes "note_commit o' s = (x, t)" and "called env n outs False s0 s"
  shows "x = Inr () \<and> called env n outs (commits o') s0 t"
  using assms
  by (cases o' rule: commits.cases)
     (auto simp: note_commit_def run_rules called_def aborted_def split: bool.splits)

lemma same_core_called: "called env n outs b s t \<Longrightarrow> same_core env t u \<Longrightarrow> called env n outs b s u"
  by (auto simp: called_def same_core_def)

lemma called_torn: "called env n outs b s t \<Longrightarrow> torn env n outs s t"
  by (auto simp: called_def torn_def)

lemma same_core_torn: "torn env n outs s t \<Longrightarrow> same_core env t u \<Longrightarrow> torn env n outs s u"
  by (auto simp: torn_def same_core_def)

lemma keeps_torn_silent: "silent env m \<Longrightarrow> keeps (torn env n outs s0) m"
  by (simp add: keeps_def silent_def) (blast intro: same_core_torn)

lemma keeps_torn_set_result: "keeps (torn env n outs s0) (set_result n r)"
  unfolding set_result_def
  by (rule keeps_modify) (auto simp: torn_def aborted_def)

lemma silent_trace: "silent env (note_committed_trace as ds ms)"
  by (simp add: silent_def note_committed_trace_def modify_def same_core_def aborted_def)

lemma accept_outcome_torn:
  assumes m: "monotone_abort env" and run: "accept_outcome env stage d st co o' s = (x, t)"
    and s: "called env (sid stage) outs b s0 s"
  shows "torn env (sid stage) outs s0 t"
proof -
  have "keeps (torn env (sid stage) outs s0) (accept_outcome env stage d st co o')"
    unfolding accept_outcome_def Let_def
    by (intro keeps_bind keeps_next_do keeps_torn_set_result)
       (rule keeps_torn_silent, use m in \<open>blast intro: silent_intros monotone_silent silent_trace\<close>)+
  with run called_torn [OF s] show ?thesis
    unfolding keeps_def by (metis snd_conv)
qed

lemma is_terminal_outcome [simp]: "is_terminal (outcome_state o' st co)"
  "commits o' \<Longrightarrow> is_completed (outcome_state o' st co)"
  "\<not> is_cancelled (outcome_state o' st co)" "\<not> is_failed (outcome_state o' st co)"
  by (cases o'; auto simp: outcome_state_def)+

lemma accept_outcome_core:
  assumes m: "monotone_abort env" and run: "accept_outcome env stage d st co o' s = (Inr (), t)"
    and s: "called env (sid stage) outs (commits o') s0 s"
  shows "ran env (sid stage) outs s0 t"
proof -
  have trace: "note_committed_trace as ds ms u = (y, v) \<Longrightarrow> same_core env u v" for as ds ms u y v
    using silent_trace silent_run by blast
  from run obtain r s1 s2 u t1 where
    "same_core env s s1" "same_core env s1 s2" "same_core env s2 u" and
    "same_core env (u\<lparr>results := oput (sid stage) r (results u)\<rparr>) t1" "same_core env t1 t" and
    r: "result_state r = outcome_state o' st co"
    unfolding accept_outcome_def Let_def
    by (simp add: run_rules) (elim exE conjE, drule core_dests [OF m] trace,
       drule core_dests [OF m] trace, drule core_dests [OF m] trace, drule core_dests [OF m] trace,
       drule core_dests [OF m] trace, rule that, assumption, assumption, assumption, assumption,
       assumption, simp)
  then have u: "same_core env s u"
    and t: "same_core env (u\<lparr>results := oput (sid stage) r (results u)\<rparr>) t"
    by (blast intro: same_core_trans)+
  show ?thesis
    unfolding ran_def
    by (intro exI [of _ r] exI [of _ "commits o'"])
       (use s u t r in \<open>auto simp: core_simps called_def\<close>)
qed

lemma cancel_started_torn:
  assumes m: "monotone_abort env" and run: "cancel_started env stage d st co s = (x, t)"
    and s: "torn env (sid stage) outs s0 s" "aborted env s" "\<not> crossed_commit_barrier s"
  shows "torn env (sid stage) outs s0 t \<and> (x = Inr () \<longrightarrow> ran env (sid stage) outs s0 t)"
proof -
  from cancel_started_core [OF m run] obtain r reason where
    r: "result_state r = Cancelled reason co (Some st) (Some (get_duration st co))" and
    t: "same_core env (s\<lparr>results := oput (sid stage) r (results s), has_cancelled_stage := True\<rparr>) t"
    by blast
  have "torn env (sid stage) outs s0 t"
    using s t by (auto simp: torn_def same_core_def aborted_def)
  moreover have "ran env (sid stage) outs s0 t"
    unfolding ran_def
    by (intro exI [of _ r] exI [of _ False]) (use s r t in \<open>auto simp: torn_def core_simps\<close>)
  ultimately show ?thesis by blast
qed

lemma execute_stage_core:
  assumes m: "monotone_abort env" and run: "execute_stage env stage d outs st s = (x, t)"
    and s: "\<not> crossed_commit_barrier s" "committed_output s = None"
  shows "torn env (sid stage) outs s t \<and> (x = Inr () \<longrightarrow> ran env (sid stage) outs s t)"
proof -
  obtain y u where call: "call_execute env stage d outs s = (y, u)" by fastforce
  note called = call_execute_core [OF m call s]
  show ?thesis
  proof (cases y)
    case (Inl e)
    with run call called_torn [OF called] show ?thesis
      by (auto simp: execute_stage_def bind_def)
  next
    case (Inr o')
    obtain co v where tick: "tick env u = (Inr co, v)"
      using never_throws_tick [of env] unfolding never_throws_def by blast
    obtain z w where noted: "note_commit o' v = (z, w)" by fastforce
    have w: "z = Inr ()" "called env (sid stage) outs (commits o') s w"
      using note_commit_core [OF noted same_core_called [OF called core_dests(1) [OF m tick]]] by auto
    have rest: "(if aborted env w \<and> \<not> commits o' then cancel_started env stage d st co
           else accept_outcome env stage d st co o') w = (x, t)"
      using run call Inr tick noted w(1)
      by (simp add: execute_stage_def bind_def next_do_def gets_def)
    show ?thesis
    proof (cases "aborted env w \<and> \<not> commits o'")
      case True
      with rest cancel_started_torn [OF m _ called_torn [OF w(2)]] w(2) show ?thesis
        by (simp add: called_def)
    next
      case False
      with rest have run': "accept_outcome env stage d st co o' w = (x, t)" by simp
      from accept_outcome_torn [OF m run' w(2)] accept_outcome_core [OF m _ w(2)] run'
      show ?thesis by auto
    qed
  qed
qed

lemma keep_committed_core:
  assumes m: "monotone_abort env" and run: "keep_committed env stage d st co out e s = (x, t)"
    and s: "torn env (sid stage) outs s0 s" "crossed_commit_barrier s"
  shows "ran env (sid stage) outs s0 t"
proof -
  let ?r = "committed_result (sid stage) d out st co e s"
  have "silent env (next_do
      (record_post_commit_trace_failure env (sid stage) ''record_committed_stage_result'' e)
      (catch (write_terminal_debug_bundle env d ?r)
        (record_post_commit_trace_failure env (sid stage) ''write_committed_stage_debug_bundle'')))"
    using m by (intro silent_intros)
  from silent_run [OF this] run
  have "same_core env (s\<lparr>results := oput (sid stage) ?r (results s)\<rparr>) t"
    by (simp add: keep_committed_def bind_def next_do_def gets_def set_result_def modify_def)
  moreover have "result_state ?r = Completed out st co (get_duration st co)"
    by (simp add: committed_result_def)
  ultimately show ?thesis
    unfolding ran_def
    by (intro exI [of _ ?r] exI [of _ True]) (use s in \<open>auto simp: torn_def core_simps\<close>)
qed

lemma fail_stage_core:
  assumes m: "monotone_abort env" and run: "fail_stage env stage d st co e s = (Inr (), t)"
    and s: "torn env (sid stage) outs s0 s" "\<not> crossed_commit_barrier s" "\<not> aborted env s"
      "\<not> has_cancelled_stage s0"
  shows "ran env (sid stage) outs s0 t"
proof -
  from run obtain r u dg where
    "same_core env (s\<lparr>results := oput (sid stage) r (results s), has_failed_stage := True\<rparr>) u"
    "same_core env u t" and r: "result_state r = Failed dg st co (get_duration st co)"
    unfolding fail_stage_def Let_def
    by (auto simp: run_rules dest!: core_dests [OF m] intro: that)
  then have t: "same_core env (s\<lparr>results := oput (sid stage) r (results s), has_failed_stage := True\<rparr>) t"
    by (blast intro: same_core_trans)
  show ?thesis
    unfolding ran_def
    by (intro exI [of _ r] exI [of _ False]) (use s r t in \<open>auto simp: torn_def core_simps\<close>)
qed

lemma handle_stage_error_core:
  assumes m: "monotone_abort env" and run: "handle_stage_error env stage d st e s = (Inr (), t)"
    and s: "torn env (sid stage) outs s0 s" "\<not> has_cancelled_stage s0"
  shows "ran env (sid stage) outs s0 t"
proof -
  obtain co u where tick: "tick env s = (Inr co, u)"
    using never_throws_tick [of env] unfolding never_throws_def by blast
  note u = same_core_torn [OF s(1) core_dests(1) [OF m tick]]
  show ?thesis
  proof (cases "committed_output u")
    case None
    with u have nc: "\<not> crossed_commit_barrier u" by (simp add: torn_def)
    with None run tick have rest: "(if aborted env u then cancel_started env stage d st co
        else fail_stage env stage d st co e) u = (Inr (), t)"
      by (simp add: handle_stage_error_def bind_def gets_def split: if_splits)
    show ?thesis
    proof (cases "aborted env u")
      case True
      with rest cancel_started_torn [OF m _ u True nc] show ?thesis by auto
    next
      case False
      with rest fail_stage_core [OF m _ u nc False s(2)] show ?thesis by auto
    qed
  next
    case (Some out)
    with u have c: "crossed_commit_barrier u" by (simp add: torn_def)
    with Some run tick have "keep_committed env stage d st co out e u = (Inr (), t)"
      by (simp add: handle_stage_error_def bind_def gets_def)
    from keep_committed_core [OF m this u c] show ?thesis .
  qed
qed

lemma run_stage_try_core:
  assumes m: "monotone_abort env"
    and run: "catch (execute_stage env stage d outs st) (handle_stage_error env stage d st) s = (Inr (), t)"
    and s: "\<not> crossed_commit_barrier s" "committed_output s = None" "\<not> has_cancelled_stage s"
  shows "ran env (sid stage) outs s t"
proof (cases "execute_stage env stage d outs st s")
  case (Pair x u)
  note ex = execute_stage_core [OF m Pair s(1,2)]
  show ?thesis
  proof (cases x)
    case (Inl e)
    with run Pair have "handle_stage_error env stage d st e u = (Inr (), t)"
      by (simp add: catch_def)
    from handle_stage_error_core [OF m this _ s(3)] ex show ?thesis by blast
  next
    case (Inr a)
    with run Pair ex show ?thesis by (simp add: catch_def)
  qed
qed

lemma may_abort_abort:
  "may_abort (d\<lparr>c_aborted := b\<rparr>) e \<Longrightarrow> (c_aborted d \<longrightarrow> b) \<Longrightarrow> may_abort d e"
  by (cases d; cases b) (auto simp: may_abort_def)

lemma ran_after:
  assumes "ran env n outs w t" and "results w = results s \<or> results w = oput n r0 (results s)"
    and "executions w = executions s" "has_failed_stage w = has_failed_stage s"
    "has_cancelled_stage w = has_cancelled_stage s" "has_committed_stage w = has_committed_stage s"
    "aborted env s \<longrightarrow> aborted env w"
  shows "ran env n outs s t"
proof -
  from assms(1) obtain r b where r: "is_terminal (result_state r)" "b \<longrightarrow> is_completed (result_state r)"
    "is_cancelled (result_state r) \<longrightarrow> aborted env t"
    and t: "may_abort (settle n r ((core_of env w)
             \<lparr>c_executions := executions w @ [(n, outs)],
              c_committed := has_committed_stage w \<or> b\<rparr>)) (core_of env t)"
    unfolding ran_def by blast
  have "may_abort (settle n r ((core_of env s)
             \<lparr>c_executions := executions s @ [(n, outs)],
              c_committed := has_committed_stage s \<or> b\<rparr>)) (core_of env t)"
  proof -
    have "settle n r ((core_of env w)\<lparr>c_executions := executions w @ [(n, outs)],
            c_committed := has_committed_stage w \<or> b\<rparr>)
        = (settle n r ((core_of env s)\<lparr>c_executions := executions s @ [(n, outs)],
            c_committed := has_committed_stage s \<or> b\<rparr>))\<lparr>c_aborted := aborted env w\<rparr>"
      using assms(2-6) by (elim disjE) (simp_all add: settle_def core_of_def)
    with t show ?thesis
      by (simp only:) (rule may_abort_abort, assumption, simp add: settle_def core_of_def assms(7))
  qed
  with r show ?thesis unfolding ran_def by blast
qed

lemma start_stage_core:
  assumes m: "monotone_abort env" and run: "start_stage env opts ctxt stage d ds s = (Inr (), t)"
    and s: "\<not> has_cancelled_stage s"
  shows "ran env (sid stage) (dep_outputs ds) s t"
proof -
  from run obtain s1 s2 u r v w st where
    1: "same_core env s s1" "same_core env s1 s2" "same_core env s2 u" and
    2: "same_core env (u\<lparr>results := oput (sid stage) r (results u)\<rparr>) v" "same_core env v w" and
    body: "catch (execute_stage env stage d (dep_outputs ds) st)
           (handle_stage_error env stage d st) (reset_commit w) = (Inr (), t)"
    unfolding start_stage_def
    by (simp add: bind_returned next_do_returned set_result_run modify_run)
       (elim exE conjE, drule core_dests [OF m], drule core_dests [OF m], drule core_dests [OF m],
        drule core_dests [OF m], drule core_dests [OF m], rule that, assumption, assumption,
        assumption, assumption, assumption, simp)
  have w: "results w = oput (sid stage) r (results s)" "executions w = executions s"
    "has_failed_stage w = has_failed_stage s" "has_cancelled_stage w = has_cancelled_stage s"
    "has_committed_stage w = has_committed_stage s" "aborted env s \<longrightarrow> aborted env w"
    using 1 2 by (auto simp: same_core_def aborted_def)
  have "ran env (sid stage) (dep_outputs ds) (reset_commit w) t"
    by (rule run_stage_try_core [OF m body]) (use s w in \<open>simp_all add: reset_commit_def\<close>)
  then show ?thesis
    by (rule ran_after [where ?r0.0 = r]) (use w in \<open>simp_all add: reset_commit_def aborted_def\<close>)
qed

lemma coordinate_core:
  assumes m: "monotone_abort env"
    and run: "coordinate_and_start env opts ctxt stage d input ds s = (Inr (), t)"
    and s: "\<not> has_cancelled_stage s"
  shows "ran env (sid stage) (dep_outputs ds) s t
    \<or> (\<exists>r reason tm. result_state r = Cancelled reason tm None None
         \<and> core_of env t = settle (sid stage) r ((core_of env s)\<lparr>c_aborted := True\<rparr>))"
proof -
  have hook: "silent env (case env_before_stage env of None \<Rightarrow> return ()
      | Some hook \<Rightarrow> external (hook (sid stage)))"
    using m by (cases "env_before_stage env") (auto intro: monotone_silent)
  from run obtain u where u: "same_core env s u"
    and rest: "(if aborted env u then cancel_unstarted env stage d input
        else start_stage env opts ctxt stage d ds) u = (Inr (), t)"
    unfolding coordinate_and_start_def
    by (auto simp: run_rules dest!: silent_run [OF hook])
  show ?thesis
  proof (cases "aborted env u")
    case True
    with rest have "cancel_unstarted env stage d input u = (Inr (), t)" by simp
    from cancel_unstarted_core [OF m this] obtain r reason tm where
      r: "result_state r = Cancelled reason tm None None"
      "may_abort (settle (sid stage) r (core_of env u)) (core_of env t)"
      by blast
    have "core_of env t = settle (sid stage) r ((core_of env s)\<lparr>c_aborted := True\<rparr>)"
    proof -
      have cu: "core_of env u = (core_of env s)\<lparr>c_aborted := True\<rparr>"
        using u True by (simp add: core_of_def same_core_def)
      then have "c_aborted (settle (sid stage) r (core_of env u))" by (simp add: settle_def)
      with r(2) have "core_of env t = settle (sid stage) r (core_of env u)"
        by (auto simp: may_abort_def)
      then show ?thesis by (simp only: cu)
    qed
    with r show ?thesis by blast
  next
    case False
    with rest have "start_stage env opts ctxt stage d ds u = (Inr (), t)" by simp
    from start_stage_core [OF m this] s u have "ran env (sid stage) (dep_outputs ds) u t"
      by (simp add: same_core_def)
    then have "ran env (sid stage) (dep_outputs ds) s t"
      by (rule ran_after) (use u in \<open>simp_all add: same_core_def\<close>)
    then show ?thesis ..
  qed
qed

lemma ran_step:
  assumes "selected (opt_target opts) ti i"
    and "dependencies_at opts ti i stage (core_of env s) = Inr ds"
    and "\<not> c_aborted (core_of env s) \<and> \<not> c_cancelled (core_of env s)"
    and "dep_incomplete ds = []" and "ran env (sid stage) (dep_outputs ds) s t"
  shows "stage_step opts ti i stage (core_of env s) (core_of env t)"
proof -
  have abort: "c_aborted (core_of env t) = aborted env t" by (simp add: core_of_def)
  have c: "executions s = c_executions (core_of env s)"
    "has_committed_stage s = c_committed (core_of env s)"
    by (simp_all add: core_of_def)
  from assms(5) obtain r b where "is_terminal (result_state r)"
    "b \<longrightarrow> is_completed (result_state r)" "is_cancelled (result_state r) \<longrightarrow> c_aborted (core_of env t)"
    "may_abort (settle (sid stage) r ((core_of env s)
             \<lparr>c_executions := c_executions (core_of env s) @ [(sid stage, dep_outputs ds)],
              c_committed := c_committed (core_of env s) \<or> b\<rparr>)) (core_of env t)"
    unfolding ran_def abort [symmetric] c by blast
  then show ?thesis by (rule step_ran [OF assms(1-4)])
qed

lemma run_selected_core:
  assumes m: "monotone_abort env" and sel: "selected (opt_target opts) ti i"
    and run: "run_selected env opts ctxt ti i stage d s = (Inr (), t)"
  shows "stage_step opts ti i stage (core_of env s) (core_of env t)"
proof -
  let ?input = "\<lambda>ds. task_input_of opts ctxt stage (Some ds) False"
  obtain ds where ds: "dependencies_at opts ti i stage (core_of env s) = Inr ds"
    using run by (cases "dependencies_at opts ti i stage (core_of env s)")
      (auto simp: dependencies_at_def core_of_def run_selected_def or_raise_def raise_def run_defs Let_def)
  have rest: "(if aborted env s \<or> has_cancelled_stage s
      then cancel_unstarted env stage d (?input ds)
      else if dep_incomplete ds \<noteq> []
      then skip_incomplete env stage d (?input ds) (dep_incomplete ds)
      else coordinate_and_start env opts ctxt stage d (?input ds) ds) s = (Inr (), t)"
    using run ds by (simp add: dependencies_at_def core_of_def run_selected_def or_raise_def
        bind_def gets_def return_def Let_def)
  show ?thesis
  proof (cases "aborted env s \<or> has_cancelled_stage s")
    case True
    with rest have "cancel_unstarted env stage d (task_input_of opts ctxt stage (Some ds) False) s = (Inr (), t)"
      by simp
    from cancel_unstarted_core [OF m this] obtain r reason tm where
      "result_state r = Cancelled reason tm None None"
      "may_abort (settle (sid stage) r (core_of env s)) (core_of env t)" by blast
    moreover have "c_aborted (core_of env s) \<or> c_cancelled (core_of env s)"
      using True by (simp add: core_of_def)
    ultimately show ?thesis by (rule step_cancelled [OF sel ds, rotated])
  next
    case go: False
    then have c: "\<not> c_aborted (core_of env s) \<and> \<not> c_cancelled (core_of env s)"
      by (simp add: core_of_def)
    show ?thesis
    proof (cases "dep_incomplete ds = []")
      case False
      with go rest have "skip_incomplete env stage d (task_input_of opts ctxt stage (Some ds) False)
          (dep_incomplete ds) s = (Inr (), t)" by simp
      from skip_incomplete_core [OF m this] show ?thesis
        by (auto intro: step_incomplete [OF sel ds c False])
    next
      case True
      with go rest have "coordinate_and_start env opts ctxt stage d
          (task_input_of opts ctxt stage (Some ds) False) ds s = (Inr (), t)" by simp
      from coordinate_core [OF m this] go show ?thesis
        using ran_step [OF sel ds c True] step_interrupted [OF sel ds c True] by blast
    qed
  qed
qed

lemma run_stage_core:
  assumes m: "monotone_abort env" and run: "run_stage env opts ctxt ti i stage s = (Inr (), t)"
  shows "stage_step opts ti i stage (core_of env s) (core_of env t)"
proof (cases "selected (opt_target opts) ti i")
  case True
  with run obtain d where "run_selected env opts ctxt ti i stage d s = (Inr (), t)"
    by (auto simp: run_stage_def raise_def run_rules split: option.splits)
  then show ?thesis by (rule run_selected_core [OF m True])
next
  case False
  with run obtain d where "skip_unselected env opts ctxt ti i stage d s = (Inr (), t)"
    by (auto simp: run_stage_def raise_def run_rules split: option.splits)
  from skip_unselected_core [OF m this] show ?thesis
    by (auto intro: step_unselected [OF False])
qed

end
