(* ===== verification/Pipeline_Runs.thy ===== *)
theory Pipeline_Runs
  imports Pipeline_Steps
begin

text \<open>
  The loop over the stages and the whole run, as steps of the abstract run: which results a run
  leaves, what its flags mean, which calls of \<open>execute\<close> it makes and with which outputs.
\<close>

section \<open>Sequences of steps\<close>

inductive run_steps ::
  "run_options \<Rightarrow> nat \<Rightarrow> nat \<Rightarrow> stage_definition list \<Rightarrow> core \<Rightarrow> core \<Rightarrow> bool"
  for opts :: run_options and target_index :: nat
where
  steps_done: "run_steps opts target_index i [] c c"
| steps_next:
    "stage_step opts target_index i stage c c' \<Longrightarrow>
     run_steps opts target_index (Suc i) stages c' c'' \<Longrightarrow>
     run_steps opts target_index i (stage # stages) c c''"

inductive_cases run_steps_NilE [elim!]: "run_steps opts ti i [] c c'"
inductive_cases run_steps_ConsE [elim!]: "run_steps opts ti i (stage # stages) c c'"

lemma run_stages_core:
  assumes m: "monotone_abort env"
  shows "run_stages env opts ctxt ti i stages s = (Inr (), t) \<Longrightarrow>
           run_steps opts ti i stages (core_of env s) (core_of env t)"
proof (induction stages arbitrary: i s)
  case Nil
  then show ?case by (simp add: run_rules steps_done)
next
  case (Cons stage stages)
  then obtain u where "run_stage env opts ctxt ti i stage s = (Inr (), u)"
    and "run_stages env opts ctxt ti (Suc i) stages u = (Inr (), t)"
    by (auto simp: run_rules)
  with Cons.IH run_stage_core [OF m] show ?case by (blast intro: steps_next)
qed

text \<open>What every step does, whichever rule it takes.\<close>

lemma may_abort_fields:
  "may_abort c d \<Longrightarrow> c_results d = c_results c \<and> c_failed d = c_failed c
     \<and> c_cancelled d = c_cancelled c \<and> c_committed d = c_committed c
     \<and> c_executions d = c_executions c \<and> (c_aborted c \<longrightarrow> c_aborted d)"
  by (auto simp: may_abort_def)

lemma stage_step_effect:
  assumes "stage_step opts ti i stage c c'"
  shows "\<exists>r. c_results c' = oput (sid stage) r (c_results c) \<and> is_terminal (result_state r)
    \<and> c_failed c' = (c_failed c \<or> is_failed (result_state r))
    \<and> c_cancelled c' = (c_cancelled c \<or> is_cancelled (result_state r))
    \<and> (c_aborted c \<longrightarrow> c_aborted c')
    \<and> (is_cancelled (result_state r) \<longrightarrow> c_aborted c' \<or> c_cancelled c)
    \<and> (selected (opt_target opts) ti i \<and> (c_aborted c \<or> c_cancelled c) \<longrightarrow> is_cancelled (result_state r))
    \<and> (\<not> selected (opt_target opts) ti i \<longrightarrow>
         (\<exists>tm. result_state r = Skipped not_selected_reason tm None None))"
  using assms
proof cases
  case (step_unselected r tm)
  then show ?thesis by (intro exI [of _ r]) (auto dest!: may_abort_fields simp: settle_def)
next
  case (step_cancelled ds r reason tm)
  then show ?thesis by (intro exI [of _ r]) (auto dest!: may_abort_fields simp: settle_def)
next
  case (step_incomplete ds r tm)
  then show ?thesis by (intro exI [of _ r]) (auto dest!: may_abort_fields simp: settle_def)
next
  case (step_interrupted ds r reason tm)
  then show ?thesis by (intro exI [of _ r]) (auto dest!: may_abort_fields simp: settle_def)
next
  case (step_ran ds r committed)
  then show ?thesis by (intro exI [of _ r]) (auto dest!: may_abort_fields simp: settle_def)
qed

lemma stage_step_executions:
  assumes "stage_step opts ti i stage c c'"
  shows "c_executions c' = c_executions c
    \<or> (\<exists>ds. selected (opt_target opts) ti i \<and> \<not> c_aborted c \<and> \<not> c_cancelled c
         \<and> dependencies_at opts ti i stage c = Inr ds \<and> dep_incomplete ds = []
         \<and> c_executions c' = c_executions c @ [(sid stage, dep_outputs ds)])"
  using assms by cases (auto dest!: may_abort_fields simp: settle_def)

definition stage_has :: "(stage_state \<Rightarrow> bool) \<Rightarrow> (string, stage_result) omap \<Rightarrow> string \<Rightarrow> bool" where
  "stage_has p m stage = (case oget m stage of None \<Rightarrow> False | Some r \<Rightarrow> p (result_state r))"

lemma stage_has_oput [simp]:
  "stage_has p (oput k r m) stage = (if stage = k then p (result_state r) else stage_has p m stage)"
  by (simp add: stage_has_def)

lemma stage_has_cong: "oget m stage = oget m' stage \<Longrightarrow> stage_has p m stage = stage_has p m' stage"
  by (simp add: stage_has_def)

lemma run_steps_frame:
  "run_steps opts ti i stages c c' \<Longrightarrow> k \<notin> sid ` set stages \<Longrightarrow> oget (c_results c') k = oget (c_results c) k"
  by (induction rule: run_steps.induct) (auto dest!: stage_step_effect)

lemma run_steps_keys:
  "run_steps opts ti i stages c c' \<Longrightarrow> sid ` set stages \<subseteq> set (okeys (c_results c)) \<Longrightarrow>
     okeys (c_results c') = okeys (c_results c)"
proof (induction rule: run_steps.induct)
  case (steps_next i st c c' stages c'')
  from stage_step_effect [OF steps_next.hyps(1)] obtain r where
    "c_results c' = oput (sid st) r (c_results c)" by blast
  with steps_next.prems have "okeys (c_results c') = okeys (c_results c)" by (simp add: okeys_oput)
  with steps_next.IH steps_next.prems show ?case by simp
qed simp

lemma run_steps_terminal:
  "run_steps opts ti i stages c c' \<Longrightarrow> distinct (map sid stages) \<Longrightarrow> stage \<in> set stages \<Longrightarrow>
     stage_has is_terminal (c_results c') (sid stage)"
proof (induction arbitrary: stage rule: run_steps.induct)
  case (steps_next i st c c' stages c'')
  show ?case
  proof (cases "stage = st")
    case True
    with stage_step_effect [OF steps_next.hyps(1)] have "stage_has is_terminal (c_results c') (sid stage)"
      by auto
    moreover have "oget (c_results c'') (sid stage) = oget (c_results c') (sid stage)"
      using steps_next.prems True by (intro run_steps_frame [OF steps_next.hyps(2)]) auto
    ultimately show ?thesis by (metis stage_has_cong)
  next
    case False
    with steps_next show ?thesis by auto
  qed
qed simp

lemma run_steps_flags:
  "run_steps opts ti i stages c c' \<Longrightarrow> distinct (map sid stages) \<Longrightarrow>
     c_failed c' = (c_failed c \<or> (\<exists>st \<in> set stages. stage_has is_failed (c_results c') (sid st)))
     \<and> c_cancelled c' = (c_cancelled c \<or> (\<exists>st \<in> set stages. stage_has is_cancelled (c_results c') (sid st)))"
proof (induction rule: run_steps.induct)
  case (steps_next i st c c' stages c'')
  from stage_step_effect [OF steps_next.hyps(1)] obtain r where
    r: "c_results c' = oput (sid st) r (c_results c)"
    "c_failed c' = (c_failed c \<or> is_failed (result_state r))"
    "c_cancelled c' = (c_cancelled c \<or> is_cancelled (result_state r))"
    by blast
  have "oget (c_results c'') (sid st) = oget (c_results c') (sid st)"
    using steps_next.prems by (intro run_steps_frame [OF steps_next.hyps(2)]) auto
  then have "stage_has p (c_results c'') (sid st) = p (result_state r)" for p
    using r(1) by (simp add: stage_has_def)
  with r steps_next show ?case by auto
qed simp

lemma run_steps_cancelled:
  "run_steps opts ti i stages c c' \<Longrightarrow> c_aborted c \<or> c_cancelled c \<Longrightarrow> distinct (map sid stages) \<Longrightarrow>
     j < length stages \<Longrightarrow> selected (opt_target opts) ti (i + j) \<Longrightarrow>
     stage_has is_cancelled (c_results c') (sid (stages ! j))"
proof (induction arbitrary: j rule: run_steps.induct)
  case (steps_next i st c c' stages c'')
  from stage_step_effect [OF steps_next.hyps(1)] obtain r where
    r: "c_results c' = oput (sid st) r (c_results c)" "c_aborted c' \<or> c_cancelled c'"
    "selected (opt_target opts) ti i \<longrightarrow> is_cancelled (result_state r)"
    using steps_next.prems(1) by blast
  show ?case
  proof (cases j)
    case 0
    have "oget (c_results c'') (sid st) = oget (c_results c') (sid st)"
      using steps_next.prems by (intro run_steps_frame [OF steps_next.hyps(2)]) auto
    with r 0 steps_next.prems show ?thesis by (simp add: stage_has_def)
  next
    case (Suc j')
    with steps_next r(2) show ?thesis by simp
  qed
qed simp

lemma run_steps_cancellation_spreads:
  "run_steps opts ti i stages c c' \<Longrightarrow> distinct (map sid stages) \<Longrightarrow>
     j < k \<Longrightarrow> k < length stages \<Longrightarrow> selected (opt_target opts) ti (i + k) \<Longrightarrow>
     stage_has is_cancelled (c_results c') (sid (stages ! j)) \<Longrightarrow>
     stage_has is_cancelled (c_results c') (sid (stages ! k))"
proof (induction arbitrary: j k rule: run_steps.induct)
  case (steps_next i st c c' stages c'')
  then obtain k' where k: "k = Suc k'" by (cases k) auto
  show ?case
  proof (cases j)
    case 0
    from stage_step_effect [OF steps_next.hyps(1)] obtain r where
      r: "c_results c' = oput (sid st) r (c_results c)"
      "c_cancelled c' = (c_cancelled c \<or> is_cancelled (result_state r))"
      by blast
    have "oget (c_results c'') (sid st) = oget (c_results c') (sid st)"
      using steps_next.prems by (intro run_steps_frame [OF steps_next.hyps(2)]) auto
    with r 0 steps_next.prems have "c_aborted c' \<or> c_cancelled c'" by (simp add: stage_has_def)
    from run_steps_cancelled [OF steps_next.hyps(2) this, of k'] k steps_next.prems
    show ?thesis by simp
  next
    case (Suc j')
    with k steps_next show ?thesis by simp
  qed
qed simp

text \<open>The calls of \<open>execute\<close>, with the results they were made from.\<close>

definition call_made ::
  "run_options \<Rightarrow> nat \<Rightarrow> nat \<Rightarrow> stage_definition list \<Rightarrow> (string, stage_result) omap
    \<Rightarrow> string \<times> (string, json) omap \<Rightarrow> bool" where
  "call_made opts ti i stages final call \<longleftrightarrow>
     (\<exists>j c ds. j < length stages \<and> fst call = sid (stages ! j) \<and> selected (opt_target opts) ti (i + j)
        \<and> dependencies_at opts ti (i + j) (stages ! j) c = Inr ds \<and> dep_incomplete ds = []
        \<and> snd call = dep_outputs ds
        \<and> (\<forall>k. k \<notin> sid ` set (drop j stages) \<longrightarrow> oget (c_results c) k = oget final k))"

lemma call_made_later:
  assumes "call_made opts ti (Suc i) stages final call"
  shows "call_made opts ti i (st # stages) final call"
proof -
  from assms obtain j c ds where "j < length stages" "fst call = sid (stages ! j)"
    "selected (opt_target opts) ti (Suc i + j)" "dependencies_at opts ti (Suc i + j) (stages ! j) c = Inr ds"
    "dep_incomplete ds = []" "snd call = dep_outputs ds"
    "\<forall>k. k \<notin> sid ` set (drop j stages) \<longrightarrow> oget (c_results c) k = oget final k"
    unfolding call_made_def by blast
  then show ?thesis
    unfolding call_made_def by (intro exI [of _ "Suc j"] exI [of _ c] exI [of _ ds]) simp
qed

lemma run_steps_executions:
  "run_steps opts ti i stages c c' \<Longrightarrow>
     \<exists>calls. c_executions c' = c_executions c @ calls \<and> subseq (map fst calls) (map sid stages)
       \<and> (\<forall>call \<in> set calls. call_made opts ti i stages (c_results c') call)"
proof (induction rule: run_steps.induct)
  case (steps_next i st c c' stages c'')
  then obtain calls where
    calls: "c_executions c'' = c_executions c' @ calls" "subseq (map fst calls) (map sid stages)"
    "\<forall>call \<in> set calls. call_made opts ti i (st # stages) (c_results c'') call"
    using call_made_later by blast
  have frame: "k \<notin> sid ` set (st # stages) \<Longrightarrow> oget (c_results c) k = oget (c_results c'') k" for k
    using run_steps_frame [OF steps_next.hyps(2)] stage_step_effect [OF steps_next.hyps(1)] by auto
  from stage_step_executions [OF steps_next.hyps(1)] show ?case
  proof (elim disjE exE conjE)
    assume "c_executions c' = c_executions c"
    with calls show ?thesis by (intro exI [of _ calls]) auto
  next
    fix ds
    assume ds: "selected (opt_target opts) ti i" "dependencies_at opts ti i st c = Inr ds"
      "dep_incomplete ds = []" "c_executions c' = c_executions c @ [(sid st, dep_outputs ds)]"
    have "call_made opts ti i (st # stages) (c_results c'') (sid st, dep_outputs ds)"
      unfolding call_made_def
      by (intro exI [of _ 0] exI [of _ c] exI [of _ ds]) (use ds frame in auto)
    with calls ds show ?thesis
      by (intro exI [of _ "(sid st, dep_outputs ds) # calls"]) simp
  qed
qed simp

section \<open>The whole run\<close>

definition initial_core :: "run_options \<Rightarrow> bool \<Rightarrow> core" where
  "initial_core opts a =
     \<lparr> c_results = initial_results opts, c_failed = False, c_cancelled = False, c_committed = False,
       c_executions = [], c_aborted = a \<rparr>"

definition core_status :: "core \<Rightarrow> pipeline_run_status" where
  "core_status c = (if c_cancelled c then RunCancelled else if c_failed c then RunFailed else RunCompleted)"

lemma begin_run_core:
  assumes m: "monotone_abort env" and run: "begin_run env opts (initial_state w) = (Inr (ti, ctxt), t)"
  shows "validate_pipeline_definition (opt_definition opts) = None \<and> select_target opts = Inr ti
    \<and> (\<exists>a. core_of env t = initial_core opts a \<and> (env_abort env w \<noteq> None \<longrightarrow> a))"
proof -
  let ?s = "initial_state w"
  from run have v: "validate_pipeline_definition (opt_definition opts) = None"
    by (cases "validate_pipeline_definition (opt_definition opts)")
       (auto simp: begin_run_def or_raise_def raise_def bind_def throw_def)
  from run v have ti: "select_target opts = Inr ti"
    by (cases "select_target opts")
       (auto simp: begin_run_def or_raise_def raise_def run_rules)
  from run v ti obtain c1 where c1: "serialize_execution_context (opt_context opts) = Inr c1"
    by (cases "serialize_execution_context (opt_context opts)")
       (auto simp: begin_run_def or_raise_def raise_def run_rules)
  have "\<exists>u v st. same_core env ?s u \<and> same_core env u v
      \<and> same_core env (v\<lparr>started_at := st, results := initial_results opts\<rparr>) t"
    using run unfolding begin_run_def or_raise_def v ti c1
    apply (simp add: run_rules)
    apply (elim exE conjE)
    apply (drule core_dests [OF m])
    apply (drule core_dests [OF m])
    apply (drule core_dests [OF m])
    by blast
  then obtain u v st where "same_core env ?s u" "same_core env u v"
      "same_core env (v\<lparr>started_at := st, results := initial_results opts\<rparr>) t"
    by blast
  then have "core_of env t = initial_core opts (aborted env t) \<and> (env_abort env w \<noteq> None \<longrightarrow> aborted env t)"
    by (simp add: core_of_def initial_core_def same_core_def initial_state_def aborted_def)
  with v ti show ?thesis by blast
qed

lemma finish_run_core:
  assumes m: "monotone_abort env" and run: "finish_run env s = (Inr snap, t)"
  shows "snap_stage_results snap = results s \<and> snap_status snap = core_status (core_of env s)
    \<and> may_abort (core_of env s) (core_of env t)"
proof -
  let ?s = "s\<lparr>run_status := final_status s\<rparr>"
  let ?terminal = "\<lambda>status. catch (emit env (PipelineFinished status)) (\<lambda>x.
      bind (gets has_committed_stage) (\<lambda>committed. if \<not> committed then throw x
        else record_post_commit_trace_failure env ''pipeline'' ''record_pipeline_terminal_event'' x))"
  have silent: "silent env (?terminal status)" for status
    using m by (intro silent_catch silent_bind silent_gets) (auto intro: silent_intros)
  from run obtain u v tm where u: "same_core env ?s u" and v: "same_core env u v"
    and snap: "t = v" "snap = snapshot_at tm v"
    unfolding finish_run_def
    by (simp add: bind_returned next_do_returned gets_run modify_run)
       (elim exE conjE, drule core_dests [OF m], drule silent_run [OF silent], rule that, assumption,
        assumption, simp_all)
  then show ?thesis
    by (auto simp: same_core_def snapshot_at_def core_status_def core_of_def final_status_def
        may_abort_def aborted_def)
qed

lemma run_pipeline_core:
  assumes m: "monotone_abort env" and run: "run_pipeline env opts (initial_state w) = (Inr snap, t)"
  shows "\<exists>ti a c. validate_pipeline_definition (opt_definition opts) = None
    \<and> select_target opts = Inr ti \<and> (env_abort env w \<noteq> None \<longrightarrow> a)
    \<and> run_steps opts ti 0 (def_stages (opt_definition opts)) (initial_core opts a) c
    \<and> snap_stage_results snap = c_results c \<and> snap_status snap = core_status c
    \<and> executions t = c_executions c"
proof -
  from run obtain ti ctxt s1 s2 where
    b: "begin_run env opts (initial_state w) = (Inr (ti, ctxt), s1)" and
    r: "run_stages env opts ctxt ti 0 (def_stages (opt_definition opts)) s1 = (Inr (), s2)" and
    f: "finish_run env s2 = (Inr snap, t)"
    unfolding run_pipeline_def by (auto simp: run_rules)
  from begin_run_core [OF m b] obtain a where
    v: "validate_pipeline_definition (opt_definition opts) = None" "select_target opts = Inr ti"
    "core_of env s1 = initial_core opts a" "env_abort env w \<noteq> None \<longrightarrow> a"
    by blast
  have "run_steps opts ti 0 (def_stages (opt_definition opts)) (initial_core opts a) (core_of env s2)"
    using run_stages_core [OF m r] v(3) by simp
  moreover have "executions t = c_executions (core_of env s2)"
    using finish_run_core [OF m f] by (auto simp: may_abort_def core_of_def)
  moreover have "snap_stage_results snap = c_results (core_of env s2)"
    using finish_run_core [OF m f] by (simp add: core_of_def)
  ultimately show ?thesis
    using v finish_run_core [OF m f] by blast
qed

lemma initial_results_keys:
  "distinct (map sid (def_stages (opt_definition opts))) \<Longrightarrow>
     okeys (initial_results opts) = map sid (def_stages (opt_definition opts))"
proof -
  let ?r = "\<lambda>i stage. stage_result_of (sid stage)
      (make_debug_dir (pipeline_dir opts) i (length (def_stages (opt_definition opts))) (sid stage)) Pending"
  have gen: "distinct (okeys m @ map (\<lambda>(i, st). sid st) xs) \<Longrightarrow>
      okeys (foldl (\<lambda>m (i, stage). oput (sid stage) (?r i stage) m) m xs)
        = okeys m @ map (\<lambda>(i, st). sid st) xs" for xs m
    by (induction xs arbitrary: m) (auto simp: okeys_oput)
  assume d: "distinct (map sid (def_stages (opt_definition opts)))"
  have ids: "length is = length xs \<Longrightarrow> map (\<lambda>(i, st). sid st) (zip is xs) = map sid xs"
    for "is" :: "nat list" and xs
    by (induction "is" xs rule: list_induct2) auto
  show ?thesis
    using gen [of "[]" "zip [0..<length (def_stages (opt_definition opts))] (def_stages (opt_definition opts))"] d
      ids [of "[0..<length (def_stages (opt_definition opts))]" "def_stages (opt_definition opts)"]
    by (simp add: initial_results_def Let_def)
qed

end
