(* ===== verification/Pipeline_Liveness.thy ===== *)
theory Pipeline_Liveness
  imports Pipeline_Runs
begin

text \<open>
  A run returns whatever the stages do: when the storage works, a failure of a stage, of the
  snapshot of its artifacts or of the observer is a result of the run and not an exception.
\<close>

section \<open>Runs that return\<close>

definition succeeds :: "('w \<Rightarrow> (exn + 'a) \<times> 'w) \<Rightarrow> bool" where
  "succeeds op \<longleftrightarrow> (\<forall>w. \<exists>a. fst (op w) = Inr a)"

definition healthy_storage :: "'w environment \<Rightarrow> bool" where
  "healthy_storage env \<longleftrightarrow>
     (\<forall>d. succeeds (env_mkdir env d)) \<and> (\<forall>f. succeeds (env_write_files env f))
     \<and> (\<forall>e. succeeds (env_append_event env e))
     \<and> (\<forall>c n. env_before_stage env = Some c \<longrightarrow> succeeds (c n))
     \<and> (\<forall>c d. env_retain_inputs env = Some c \<longrightarrow> succeeds (c d))"

lemma never_throws_external: "succeeds op \<Longrightarrow> never_throws (external op)"
  unfolding succeeds_def never_throws_def external_def
  by (metis (mono_tags, lifting) case_prod_unfold)

lemma never_throws_set_result [intro, simp]: "never_throws (set_result k r)"
  and never_throws_mark_cancelled [intro, simp]: "never_throws mark_cancelled"
  by (simp_all add: set_result_def mark_cancelled_def)

lemma never_throws_notify [intro]: "never_throws (notify_observer env ev)"
proof (cases "env_on_snapshot env")
  case (Some c)
  have "never_throws (case error_summary env x of (name, message, stk) \<Rightarrow>
      quietly (external (env_append_observer env
        (ObserverFailure (event_timestamp ev) (event_sequence ev) (event_body_of ev) name message stk))))"
    for x
    by (cases "error_summary env x") auto
  then show ?thesis
    unfolding notify_observer_def Some option.case
    by (intro never_throws_bind never_throws_gets never_throws_catch)
qed (simp add: notify_observer_def)

lemma healthy_emit: "healthy_storage env \<Longrightarrow> never_throws (emit env b)"
  unfolding emit_def Let_def
  by (intro never_throws_bind never_throws_next_do never_throws_tick never_throws_modify
        never_throws_gets never_throws_notify never_throws_external)
     (simp add: healthy_storage_def)

lemma healthy_write:
  "healthy_storage env \<Longrightarrow> never_throws (write_initial_debug_bundle env d i st)"
  "healthy_storage env \<Longrightarrow> never_throws (write_terminal_debug_bundle env d r)"
  "healthy_storage env \<Longrightarrow> never_throws (external (env_mkdir env d))"
  unfolding write_initial_debug_bundle_def write_terminal_debug_bundle_def
  by (intro never_throws_next_do never_throws_external; simp add: healthy_storage_def)+

lemma healthy_retain: "healthy_storage env \<Longrightarrow> never_throws (retain_inputs env d)"
  unfolding retain_inputs_def
  by (cases "env_retain_inputs env")
     (auto intro!: never_throws_next_do never_throws_external simp: healthy_storage_def)

lemma healthy_finish: "healthy_storage env \<Longrightarrow> never_throws (finish_unstarted env d i r b)"
  unfolding finish_unstarted_def
  by (intro never_throws_next_do healthy_write healthy_emit)

lemmas healthy_intros = never_throws_return never_throws_bind never_throws_next_do never_throws_catch never_throws_gets
  never_throws_modify never_throws_tick never_throws_set_result never_throws_mark_cancelled
  never_throws_keep_committed healthy_emit healthy_write healthy_retain healthy_finish

lemma healthy_cancel_unstarted: "healthy_storage env \<Longrightarrow> never_throws (cancel_unstarted env stage d i)"
  unfolding cancel_unstarted_def Let_def by (intro healthy_intros)

lemma healthy_skip_incomplete: "healthy_storage env \<Longrightarrow> never_throws (skip_incomplete env stage d i ds)"
  unfolding skip_incomplete_def Let_def by (intro healthy_intros)

lemma healthy_handler: "healthy_storage env \<Longrightarrow> never_throws (handle_stage_error env stage d st x)"
proof -
  assume h: "healthy_storage env"
  have f: "never_throws (cancel_started env stage d st co)" "never_throws (fail_stage env stage d st co x)" for co
    unfolding cancel_started_def fail_stage_def Let_def by (intro healthy_intros h)+
  show ?thesis
    unfolding handle_stage_error_def
    by (intro healthy_intros)
       (auto intro!: healthy_intros f split: bool.split option.split)
qed

lemma healthy_start: "healthy_storage env \<Longrightarrow> never_throws (start_stage env opts ctxt stage d ds)"
  unfolding start_stage_def by (intro healthy_intros healthy_handler)

lemma healthy_coordinate: "healthy_storage env \<Longrightarrow> never_throws (coordinate_and_start env opts ctxt stage d i ds)"
proof -
  assume h: "healthy_storage env"
  have hook: "never_throws (case env_before_stage env of None \<Rightarrow> return () | Some hook \<Rightarrow> external (hook (sid stage)))"
    using h by (cases "env_before_stage env") (auto intro!: never_throws_external simp: healthy_storage_def)
  show ?thesis
    unfolding coordinate_and_start_def
    using h by (auto intro!: never_throws_next_do hook never_throws_bind healthy_cancel_unstarted healthy_start)
qed

lemma dependency_loop_returns:
  "set deps \<subseteq> set (okeys rs) \<Longrightarrow> \<exists>ds. dependency_loop rs inherited stage deps acc = Inr ds"
proof (induction deps arbitrary: acc)
  case (Cons dep deps)
  then obtain r where "oget rs dep = Some r" using okey_has_value [of dep rs] by auto
  with Cons show ?case by simp
qed simp

text \<open>The outputs an isolated invocation provides are exactly those its stage declares.\<close>

definition target_ready :: "run_options \<Rightarrow> nat \<Rightarrow> bool" where
  "target_ready opts ti \<longleftrightarrow>
     (case target_outputs (opt_target opts) of
        None \<Rightarrow> True
      | Some m \<Rightarrow> set (okeys m) = set (depends_on (def_stages (opt_definition opts) ! ti)))"

lemma target_outputs_None [simp]: "target_outputs t = None \<longleftrightarrow> t = TargetPipeline"
  by (cases t) (simp_all add: target_outputs_def)

lemma filter_empty: "set xs \<subseteq> A \<Longrightarrow> filter (\<lambda>x. x \<notin> A) xs = []"
  by (auto simp: filter_empty_conv)

lemma dependencies_total:
  assumes "set (depends_on stage) \<subseteq> set (okeys (c_results c))"
    and "target_ready opts ti" and "stage = def_stages (opt_definition opts) ! i"
  shows "\<exists>ds. dependencies_at opts ti i stage c = Inr ds"
proof (cases "opt_target opts \<noteq> TargetPipeline \<and> i = ti")
  case True
  then obtain m where m: "target_outputs (opt_target opts) = Some m"
    by (cases "target_outputs (opt_target opts)") auto
  with True assms(2,3) have "set (okeys m) = set (depends_on stage)" by (simp add: target_ready_def)
  with True m show ?thesis
    by (simp add: dependencies_at_def get_dependency_state_def Let_def filter_empty)
next
  case False
  with dependency_loop_returns [OF assms(1)] show ?thesis
    by (simp only: dependencies_at_def get_dependency_state_def if_False option.case)
qed

lemma run_stage_returns:
  assumes h: "healthy_storage env" and ready: "target_ready opts ti"
    and stage: "stage = def_stages (opt_definition opts) ! i"
    and keys: "set (depends_on stage) \<subseteq> set (okeys (results s))" "sid stage \<in> set (okeys (results s))"
  shows "\<exists>t. run_stage env opts ctxt ti i stage s = (Inr (), t)"
proof -
  obtain prior where prior: "oget (results s) (sid stage) = Some prior"
    using okey_has_value [OF keys(2)] by blast
  let ?d = "result_debug_dir prior"
  show ?thesis
  proof (cases "selected (opt_target opts) ti i")
    case True
    from dependencies_total [of stage "core_of env s" opts ti i] keys ready stage
    obtain ds where ds: "dependencies_at opts ti i stage (core_of env s) = Inr ds"
      by (auto simp: core_of_def)
    let ?input = "task_input_of opts ctxt stage (Some ds) False"
    have "never_throws (if aborted env s \<or> has_cancelled_stage s then cancel_unstarted env stage ?d ?input
        else if dep_incomplete ds \<noteq> [] then skip_incomplete env stage ?d ?input (dep_incomplete ds)
        else coordinate_and_start env opts ctxt stage ?d ?input ds)"
      using h by (auto intro: healthy_cancel_unstarted healthy_skip_incomplete healthy_coordinate)
    then show ?thesis
      using prior True ds
      by (simp add: run_stage_def run_selected_def dependencies_at_def core_of_def or_raise_def
          bind_def gets_def return_def Let_def never_throws_def)
  next
    case False
    obtain ds0 where "get_dependency_state stage (results s) None (target_outputs (opt_target opts)) = Inr ds0"
      using dependency_loop_returns [OF keys(1)] unfolding get_dependency_state_def option.case by blast
    then obtain ds where ds: "continuation_state env opts ti i stage s = (Inr ds, s)"
      by (cases "i > ti") (simp_all add: continuation_state_def or_raise_def bind_def gets_def return_def)
    have retain: "never_throws (retain_continuation env ?d ds)"
      unfolding retain_continuation_def using h by (auto intro!: healthy_intros healthy_write healthy_retain)
    have "never_throws (bind (retain_continuation env ?d ds) (\<lambda>has_files.
        bind (tick env) (\<lambda>completed_at.
        let result = stage_result_of (sid stage) ?d (Skipped not_selected_reason completed_at None None) in
        next_do (set_result (sid stage) result)
          (finish_unstarted env ?d (task_input_of opts ctxt stage ds has_files) result
            (StageSkipped (sid stage) ?d not_selected_reason)))))"
      unfolding Let_def by (intro healthy_intros retain h)
    with prior False ds show ?thesis
      by (simp add: run_stage_def skip_unselected_def bind_gets never_throws_def
          bind_step [of "continuation_state env opts ti i stage", OF ds])
  qed
qed

lemma run_stages_returns:
  assumes m: "monotone_abort env" and h: "healthy_storage env" and ready: "target_ready opts ti"
  shows "drop i (def_stages (opt_definition opts)) = stages \<Longrightarrow>
    set (stage_ids (opt_definition opts)) \<subseteq> set (okeys (results s)) \<Longrightarrow>
    (\<forall>st \<in> set stages. set (depends_on st) \<subseteq> set (stage_ids (opt_definition opts))) \<Longrightarrow>
    \<exists>t. run_stages env opts ctxt ti i stages s = (Inr (), t)"
proof (induction stages arbitrary: i s)
  case (Cons stage stages)
  from Cons.prems(1) have i: "i < length (def_stages (opt_definition opts))"
    "stage = def_stages (opt_definition opts) ! i"
    "drop (Suc i) (def_stages (opt_definition opts)) = stages"
    by (metis drop_all list.distinct(1) not_le_imp_less, metis nth_via_drop,
        metis drop_Suc list.sel(3) tl_drop)
  then have sid: "sid stage \<in> set (stage_ids (opt_definition opts))"
    by (auto simp: stage_ids_def)
  obtain u where u: "run_stage env opts ctxt ti i stage s = (Inr (), u)"
    using run_stage_returns [OF h ready i(2), of s ctxt] Cons.prems sid by auto
  from stage_step_effect [OF run_stage_core [OF m u]] obtain r where
    "results u = oput (sid stage) r (results s)" by (auto simp: core_of_def)
  then have "set (stage_ids (opt_definition opts)) \<subseteq> set (okeys (results u))"
    using Cons.prems(2) by auto
  from Cons.IH [OF i(3) this] Cons.prems(3) obtain t where
    "run_stages env opts ctxt ti (Suc i) stages u = (Inr (), t)" by auto
  with u show ?case by (simp add: run_rules)
qed (simp add: run_rules)

lemma begin_run_returns:
  assumes h: "healthy_storage env"
    and v: "validate_pipeline_definition (opt_definition opts) = None"
    and ti: "select_target opts = Inr ti" and c: "serialize_execution_context (opt_context opts) = Inr ctxt"
  shows "\<exists>t. begin_run env opts s = (Inr (ti, ctxt), t)"
proof -
  have "never_throws (next_do (external (env_mkdir env (in_dir (pipeline_dir opts) ''stages''))) (
     bind (tick env) (\<lambda>started.
     next_do (modify (\<lambda>s. s\<lparr>started_at := started, results := initial_results opts\<rparr>))
       (emit env PipelineStarted))))"
    using h by (intro healthy_intros)
  then show ?thesis
    using v ti c unfolding never_throws_def
    by (fastforce simp: begin_run_def or_raise_def run_rules)
qed

lemma finish_run_returns: "healthy_storage env \<Longrightarrow> never_throws (finish_run env)"
  unfolding finish_run_def
  by (intro never_throws_next_do never_throws_bind never_throws_modify never_throws_tick never_throws_gets
        never_throws_caught healthy_emit)

lemma run_pipeline_returns:
  assumes m: "monotone_abort env" and h: "healthy_storage env"
    and v: "validate_pipeline_definition (opt_definition opts) = None"
    and ti: "select_target opts = Inr ti" and c: "serialize_execution_context (opt_context opts) = Inr ctxt"
    and ready: "target_ready opts ti"
  shows "\<exists>snap t. run_pipeline env opts (initial_state w) = (Inr snap, t)"
proof -
  obtain s1 where b: "begin_run env opts (initial_state w) = (Inr (ti, ctxt), s1)"
    using begin_run_returns [OF h v ti c] by blast
  have wf: "well_formed_pipeline (opt_definition opts)" using v by (simp add: validate_pipeline_None)
  then have "results s1 = initial_results opts"
    using begin_run_core [OF m b] by (auto simp: core_of_def initial_core_def)
  with wf have keys: "set (stage_ids (opt_definition opts)) \<subseteq> set (okeys (results s1))"
    using initial_results_keys [of opts] by (simp add: well_formed_pipeline_def stage_ids_def)
  have deps: "\<forall>st \<in> set (def_stages (opt_definition opts)).
      set (depends_on st) \<subseteq> set (stage_ids (opt_definition opts))"
  proof
    fix st assume "st \<in> set (def_stages (opt_definition opts))"
    then obtain j where "j < length (def_stages (opt_definition opts))"
      "st = def_stages (opt_definition opts) ! j" by (auto simp: in_set_conv_nth)
    with wf have "set (depends_on st) \<subseteq> set (take j (stage_ids (opt_definition opts)))"
      unfolding well_formed_pipeline_def by blast
    then show "set (depends_on st) \<subseteq> set (stage_ids (opt_definition opts))"
      using set_take_subset by fast
  qed
  obtain s2 where r: "run_stages env opts ctxt ti 0 (def_stages (opt_definition opts)) s1 = (Inr (), s2)"
    using run_stages_returns [OF m h ready, of 0 "def_stages (opt_definition opts)" s1 ctxt] keys deps by auto
  obtain snap t where "finish_run env s2 = (Inr snap, t)"
    using finish_run_returns [OF h] unfolding never_throws_def by blast
  with b r have "run_pipeline env opts (initial_state w) = (Inr snap, t)"
    by (simp add: run_pipeline_def bind_step [of "begin_run env opts", OF b]
        next_do_step [of "run_stages env opts ctxt ti 0 (def_stages (opt_definition opts))", OF r])
  then show ?thesis by blast
qed

end
