(* ===== verification/Pipeline_Guarantees.thy ===== *)
theory Pipeline_Guarantees
  imports Pipeline_Liveness
begin

text \<open>
  What a caller of \<open>runPipeline\<close> can rely on, stated of the run itself and its snapshot, and the
  concrete environments in which each guarantee is exercised.
\<close>

section \<open>Environments to run in\<close>

text \<open>Environments whose storage works: the stages complete, throw, or commit while the run is
  aborted; the world counts the calls of \<open>execute\<close>.\<close>

definition no_extras :: outcome_extras where
  "no_extras = \<lparr> out_artifacts = None, out_diagnostics = None, out_metrics = None \<rparr>"

definition sample_env ::
  "(nat \<Rightarrow> abort_reason option) \<Rightarrow> (string \<Rightarrow> exn + stage_outcome) \<Rightarrow> nat environment" where
  "sample_env abort execute =
     \<lparr> env_now = (\<lambda>w. (0, w)), env_abort = abort, env_mkdir = (\<lambda>d w. (Inr (), w)),
       env_write_files = (\<lambda>f w. (Inr (), w)), env_append_event = (\<lambda>e w. (Inr (), w)),
       env_append_observer = (\<lambda>e w. (Inr (), w)), env_on_snapshot = None, env_before_stage = None,
       env_retain_inputs = None, env_execute = (\<lambda>n d o' w. (execute n, Suc w)),
       env_snapshot_artifacts = (\<lambda>as d n w. (Inr as, w)), env_stack = None \<rparr>"

definition small_pipeline :: pipeline_definition where
  "small_pipeline =
     \<lparr> def_pipeline_id = ''p'', def_stages = [stage_def ''a'' [], stage_def ''b'' [''a'']] \<rparr>"

definition sample_options :: "execution_target \<Rightarrow> run_options" where
  "sample_options target =
     \<lparr> opt_definition = small_pipeline, opt_run_id = ''run_1'', opt_workspace_dir = ''/run'',
       opt_context = JObj [], opt_target = target \<rparr>"

lemma small_pipeline_valid: "validate_pipeline_definition small_pipeline = None"
  by (simp add: small_pipeline_def validate_pipeline_definition_def stage_def_def stable_id_eval)

lemma small_pipeline_ids [simp]: "stage_ids small_pipeline = [''a'', ''b'']"
  by (simp add: stage_ids_def small_pipeline_def stage_def_def)

definition completes :: "string \<Rightarrow> exn + stage_outcome" where
  "completes n = Inr (OutcomeCompleted (JStr n) False no_extras)"

definition mono_abort :: "(nat \<Rightarrow> abort_reason option) \<Rightarrow> bool" where
  "mono_abort abort \<longleftrightarrow> (\<forall>w. abort w \<noteq> None \<longrightarrow> abort (Suc w) \<noteq> None)"

lemma sample_env_monotone: "mono_abort abort \<Longrightarrow> monotone_abort (sample_env abort execute)"
  by (simp add: monotone_abort_def sample_env_def mono_abort_def)

lemma sample_env_healthy: "healthy_storage (sample_env abort execute)"
  by (simp add: healthy_storage_def sample_env_def succeeds_def)

lemma mono_abort_samples: "mono_abort (\<lambda>_. r)" "mono_abort (\<lambda>w. if w \<ge> n then Some r' else None)"
  by (simp_all add: mono_abort_def)

text \<open>Running the engine on a concrete pipeline, by simplification.\<close>

lemmas runner_eval = run_pipeline_def begin_run_def finish_run_def run_stage_def run_selected_def
  coordinate_and_start_def start_stage_def execute_stage_def accept_outcome_def call_execute_def
  note_commit_def note_committed_trace_def set_result_def write_initial_debug_bundle_def
  write_terminal_debug_bundle_def emit_def notify_observer_def retain_inputs_def or_raise_def
  external_def tick_def aborted_def reset_commit_def selected_def select_target_def
  serialize_execution_context_def validate_artifacts_def or_else_def run_defs Let_def
  get_dependency_state_def empty_dependency_state_def add_dependency_def target_outputs_def
  initial_results_def stage_result_of_def initial_state_def outcome_state_def snapshot_at_def
  final_status_def cancel_unstarted_def mark_cancelled_def finish_unstarted_def skip_unselected_def
  continuation_state_def retain_continuation_def

lemma completing_run:
  "\<exists>snap t. run_pipeline (sample_env (\<lambda>_. None) completes) (sample_options TargetPipeline) (initial_state 0)
       = (Inr snap, t)
     \<and> executions t = [(''a'', []), (''b'', [(''a'', JStr ''a'')])]"
  by (simp add: runner_eval sample_options_def small_pipeline_valid sample_env_def completes_def no_extras_def)
     (simp add: runner_eval small_pipeline_def stage_def_def)

lemma isolated_run:
  "\<exists>snap t. run_pipeline (sample_env (\<lambda>_. None) completes)
       (sample_options (TargetStage ''b'' [(''a'', JNull)])) (initial_state 0) = (Inr snap, t)
     \<and> executions t = [(''b'', [(''a'', JNull)])]"
  by (simp add: runner_eval sample_options_def small_pipeline_valid sample_env_def completes_def no_extras_def)
     (simp add: runner_eval small_pipeline_def stage_def_def)

lemma aborted_run:
  "\<exists>snap t. run_pipeline (sample_env (\<lambda>_. Some ReasonOther) completes)
       (sample_options TargetPipeline) (initial_state 0) = (Inr snap, t)
     \<and> stage_has is_cancelled (snap_stage_results snap) ''a''"
  by (simp add: runner_eval sample_options_def small_pipeline_valid sample_env_def completes_def no_extras_def)
     (simp add: runner_eval small_pipeline_def stage_def_def stage_has_def)

lemma find_index_Some: "find_index p xs = Some i \<Longrightarrow> i < length xs \<and> p (xs ! i)"
  by (induction xs arbitrary: i) (auto split: if_splits)

lemma run_steps_aborted:
  "run_steps opts ti i stages c c' \<Longrightarrow> c_aborted c \<Longrightarrow> c_executions c' = c_executions c"
proof (induction rule: run_steps.induct)
  case (steps_next i st c c' stages c'')
  then have "c_aborted c'" using stage_step_effect [OF steps_next.hyps(1)] by blast
  moreover have "c_executions c' = c_executions c"
    using stage_step_executions [OF steps_next.hyps(1)] steps_next.prems by blast
  ultimately show ?case using steps_next.IH by simp
qed simp

lemma subseq_distinct: "subseq xs ys \<Longrightarrow> distinct ys \<Longrightarrow> distinct xs"
  by (induction rule: list_emb.induct) (auto dest: list_emb_set)

lemma run_steps_unselected:
  "run_steps opts ti i stages c c' \<Longrightarrow> distinct (map sid stages) \<Longrightarrow> j < length stages \<Longrightarrow>
     \<not> selected (opt_target opts) ti (i + j) \<Longrightarrow>
     stage_has (\<lambda>st. \<exists>tm. st = Skipped not_selected_reason tm None None) (c_results c') (sid (stages ! j))"
proof (induction arbitrary: j rule: run_steps.induct)
  case (steps_next i st c c' stages c'')
  show ?case
  proof (cases j)
    case 0
    from stage_step_effect [OF steps_next.hyps(1)] steps_next.prems 0 obtain r tm where
      r: "c_results c' = oput (sid st) r (c_results c)"
      "result_state r = Skipped not_selected_reason tm None None" by auto
    have "oget (c_results c'') (sid st) = oget (c_results c') (sid st)"
      using steps_next.prems by (intro run_steps_frame [OF steps_next.hyps(2)]) auto
    with r 0 show ?thesis by (simp add: stage_has_def)
  next
    case (Suc j')
    with steps_next show ?thesis by simp
  qed
qed simp

lemma earlier_not_later:
  assumes "well_formed_pipeline d" and "j < length (def_stages d)"
    and "k \<in> set (depends_on (def_stages d ! j))"
  shows "k \<notin> sid ` set (drop j (def_stages d))"
proof -
  have "k \<in> set (take j (stage_ids d))" and "distinct (stage_ids d)"
    using assms by (auto simp: well_formed_pipeline_def)
  then have "k \<notin> set (drop j (stage_ids d))"
    using set_take_disj_set_drop_if_distinct [of "stage_ids d" j j] by auto
  then show ?thesis by (simp add: stage_ids_def drop_map)
qed

section \<open>The guarantees of a run\<close>

lemma accepted_stages:
  assumes "validate_pipeline_definition d = None"
  shows "distinct (map sid (def_stages d))"
  using assms by (simp add: validate_pipeline_None well_formed_pipeline_def stage_ids_def)

text \<open>C32. Whenever a run returns, every stage of the definition, in the order of the definition, has a
  terminal result: none is left pending or running.\<close>

theorem run_settles_every_stage:
  assumes "monotone_abort env" and "run_pipeline env opts (initial_state w) = (Inr snap, t)"
  shows "okeys (snap_stage_results snap) = stage_ids (opt_definition opts)
    \<and> (\<forall>stage \<in> set (stage_ids (opt_definition opts)).
         stage_has is_terminal (snap_stage_results snap) stage)"
proof -
  obtain ti a c where v: "validate_pipeline_definition (opt_definition opts) = None"
    and steps: "run_steps opts ti 0 (def_stages (opt_definition opts)) (initial_core opts a) c"
    and snap: "snap_stage_results snap = c_results c"
    using run_pipeline_core [OF assms] by blast
  note d = accepted_stages [OF v]
  show ?thesis
    using run_steps_terminal [OF steps d] run_steps_keys [OF steps] snap
    by (auto simp: initial_core_def initial_results_keys [OF d] stage_ids_def)
qed

theorem run_settles_every_stage_witness:
  "\<exists>snap t. run_pipeline (sample_env (\<lambda>_. None) completes) (sample_options TargetPipeline) (initial_state 0)
      = (Inr snap, t)
    \<and> okeys (snap_stage_results snap) = [''a'', ''b'']
    \<and> stage_has is_terminal (snap_stage_results snap) ''b''"
proof -
  obtain snap t where run: "run_pipeline (sample_env (\<lambda>_. None) completes)
      (sample_options TargetPipeline) (initial_state 0) = (Inr snap, t)"
    using completing_run by blast
  from run_settles_every_stage [OF sample_env_monotone [OF mono_abort_samples(1)] run] run
  show ?thesis by (simp add: sample_options_def)
qed

text \<open>The status a run returns is determined by the results of its stages: cancelled if one of
  them was cancelled, otherwise failed if one of them failed, otherwise completed.\<close>

theorem run_status_exact:
  assumes "monotone_abort env" and "run_pipeline env opts (initial_state w) = (Inr snap, t)"
  shows "snap_status snap =
    (if \<exists>stage \<in> set (stage_ids (opt_definition opts)). stage_has is_cancelled (snap_stage_results snap) stage
     then RunCancelled
     else if \<exists>stage \<in> set (stage_ids (opt_definition opts)). stage_has is_failed (snap_stage_results snap) stage
     then RunFailed else RunCompleted)"
proof -
  obtain ti a c where v: "validate_pipeline_definition (opt_definition opts) = None"
    and steps: "run_steps opts ti 0 (def_stages (opt_definition opts)) (initial_core opts a) c"
    and snap: "snap_stage_results snap = c_results c" "snap_status snap = core_status c"
    using run_pipeline_core [OF assms] by blast
  from run_steps_flags [OF steps accepted_stages [OF v]] show ?thesis
    by (simp add: snap core_status_def initial_core_def stage_ids_def)
qed

theorem run_status_exact_witness:
  "\<exists>snap t. run_pipeline (sample_env (\<lambda>_. Some ReasonOther) completes) (sample_options TargetPipeline)
      (initial_state 0) = (Inr snap, t) \<and> snap_status snap = RunCancelled"
proof -
  obtain snap t where run: "run_pipeline (sample_env (\<lambda>_. Some ReasonOther) completes)
      (sample_options TargetPipeline) (initial_state 0) = (Inr snap, t)"
    and c: "stage_has is_cancelled (snap_stage_results snap) ''a''"
    using aborted_run by blast
  from run_status_exact [OF sample_env_monotone [OF mono_abort_samples(1)] run] run c
  show ?thesis by (auto simp: sample_options_def)
qed

text \<open>C3. In a run of the whole pipeline a stage is executed only when each of its dependencies has
  completed, and it is given exactly the outputs those dependencies have in the returned result.\<close>

theorem executed_with_final_outputs:
  assumes "monotone_abort env" and "run_pipeline env opts (initial_state w) = (Inr snap, t)"
    and "opt_target opts = TargetPipeline" and "(stage, outputs) \<in> set (executions t)"
  shows "\<exists>st \<in> set (def_stages (opt_definition opts)). sid st = stage
    \<and> (\<forall>k. oget outputs k = (if k \<in> set (depends_on st)
              then resolved_output (snap_stage_results snap) None k else None))
    \<and> (\<forall>k \<in> set (depends_on st). stage_has is_completed (snap_stage_results snap) k)"
proof -
  obtain ti a c where v: "validate_pipeline_definition (opt_definition opts) = None"
    and steps: "run_steps opts ti 0 (def_stages (opt_definition opts)) (initial_core opts a) c"
    and snap: "snap_stage_results snap = c_results c" and ex: "executions t = c_executions c"
    using run_pipeline_core [OF assms(1,2)] by blast
  let ?stages = "def_stages (opt_definition opts)"
  from run_steps_executions [OF steps] assms(4)
  have "call_made opts ti 0 ?stages (c_results c) (stage, outputs)"
    by (auto simp: ex initial_core_def)
  then obtain j ds and c' :: core where j: "j < length ?stages" "stage = sid (?stages ! j)"
    and ds: "get_dependency_state (?stages ! j) (c_results c') None None = Inr ds"
    and inc: "dep_incomplete ds = []" "outputs = dep_outputs ds"
    and same: "\<forall>k. k \<notin> sid ` set (drop j ?stages) \<longrightarrow> oget (c_results c') k = oget (c_results c) k"
    unfolding call_made_def dependencies_at_def assms(3) by auto
  note state = get_dependency_state_None_ok [OF ds]
  have dep: "oget (c_results c') k = oget (c_results c) k" if "k \<in> set (depends_on (?stages ! j))" for k
    using v that j(1) earlier_not_later [of "opt_definition opts" j k] same
    by (simp add: validate_pipeline_None)
  have resolved: "resolved_output (c_results c') None k = resolved_output (c_results c) None k"
    if "k \<in> set (depends_on (?stages ! j))" for k
    using dep [OF that] by (simp add: resolved_output_def)
  have "stage_has is_completed (c_results c) k" if k: "k \<in> set (depends_on (?stages ! j))" for k
  proof -
    have "resolved_output (c_results c) None k \<noteq> None"
      using state(2) inc(1) k resolved [OF k] by (metis (mono_tags) filter_empty_conv)
    then show ?thesis
      by (auto simp: resolved_output_def stage_has_def split: option.splits stage_state.splits)
  qed
  with j inc state(1) resolved show ?thesis
    by (intro bexI [of _ "?stages ! j"]) (auto simp: snap)
qed

theorem executed_with_final_outputs_witness:
  "\<exists>snap t. run_pipeline (sample_env (\<lambda>_. None) completes) (sample_options TargetPipeline) (initial_state 0)
      = (Inr snap, t) \<and> resolved_output (snap_stage_results snap) None ''a'' = Some (JStr ''a'')"
proof -
  obtain snap t where run: "run_pipeline (sample_env (\<lambda>_. None) completes)
      (sample_options TargetPipeline) (initial_state 0) = (Inr snap, t)"
    and ex: "executions t = [(''a'', []), (''b'', [(''a'', JStr ''a'')])]"
    using completing_run by blast
  from executed_with_final_outputs [OF sample_env_monotone [OF mono_abort_samples(1)] run, of "''b''"] ex
  obtain st where "st \<in> set (def_stages small_pipeline)" "sid st = ''b''"
    and "\<forall>k. oget [(''a'', JStr ''a'')] k = (if k \<in> set (depends_on st)
              then resolved_output (snap_stage_results snap) None k else None)"
    by (auto simp: sample_options_def)
  then have "\<forall>k. oget [(''a'', JStr ''a'')] k = (if k = ''a''
              then resolved_output (snap_stage_results snap) None k else None)"
    by (auto simp: small_pipeline_def stage_def_def)
  from spec [OF this, of "''a''"] run show ?thesis by simp
qed

text \<open>C36. A run calls the stages at most once each, in the order of the definition, and only stages
  its target selects.\<close>

theorem executed_once_in_order:
  assumes "monotone_abort env" and "run_pipeline env opts (initial_state w) = (Inr snap, t)"
  shows "subseq (map fst (executions t)) (stage_ids (opt_definition opts))
    \<and> distinct (map fst (executions t))
    \<and> (\<exists>ti. select_target opts = Inr ti
        \<and> (\<forall>stage \<in> set (map fst (executions t)). \<exists>i < length (stage_ids (opt_definition opts)).
              stage_ids (opt_definition opts) ! i = stage \<and> selected (opt_target opts) ti i))"
proof -
  obtain ti a c where v: "validate_pipeline_definition (opt_definition opts) = None"
    and ti: "select_target opts = Inr ti"
    and steps: "run_steps opts ti 0 (def_stages (opt_definition opts)) (initial_core opts a) c"
    and ex: "executions t = c_executions c"
    using run_pipeline_core [OF assms] by blast
  from run_steps_executions [OF steps] have sub: "subseq (map fst (executions t)) (stage_ids (opt_definition opts))"
    and made: "call \<in> set (executions t) \<Longrightarrow> call_made opts ti 0 (def_stages (opt_definition opts)) (c_results c) call" for call
    by (auto simp: ex initial_core_def stage_ids_def)
  have "\<exists>i < length (stage_ids (opt_definition opts)).
      stage_ids (opt_definition opts) ! i = stage \<and> selected (opt_target opts) ti i"
    if "stage \<in> set (map fst (executions t))" for stage
  proof -
    from that obtain call where "call \<in> set (executions t)" "stage = fst call" by auto
    with made [of call] show ?thesis by (auto simp: call_made_def stage_ids_def)
  qed
  moreover have "distinct (map fst (executions t))"
    using sub accepted_stages [OF v] subseq_distinct by (auto simp: stage_ids_def)
  ultimately show ?thesis using sub ti by blast
qed

theorem executed_once_in_order_witness:
  "\<exists>snap t. run_pipeline (sample_env (\<lambda>_. None) completes)
      (sample_options (TargetStage ''b'' [(''a'', JNull)])) (initial_state 0) = (Inr snap, t)
    \<and> map fst (executions t) = [''b''] \<and> subseq (map fst (executions t)) [''a'', ''b'']"
proof -
  obtain snap t where run: "run_pipeline (sample_env (\<lambda>_. None) completes)
      (sample_options (TargetStage ''b'' [(''a'', JNull)])) (initial_state 0) = (Inr snap, t)"
    and ex: "executions t = [(''b'', [(''a'', JNull)])]"
    using isolated_run by blast
  from executed_once_in_order [OF sample_env_monotone [OF mono_abort_samples(1)] run] run ex
  show ?thesis by (auto simp: sample_options_def)
qed

text \<open>Once a stage has been cancelled, every selected stage after it is cancelled too.\<close>

theorem cancellation_spreads:
  assumes "monotone_abort env" and "run_pipeline env opts (initial_state w) = (Inr snap, t)"
    and "select_target opts = Inr ti" and "j < k" and "k < length (stage_ids (opt_definition opts))"
    and "selected (opt_target opts) ti k"
    and "stage_has is_cancelled (snap_stage_results snap) (stage_ids (opt_definition opts) ! j)"
  shows "stage_has is_cancelled (snap_stage_results snap) (stage_ids (opt_definition opts) ! k)"
proof -
  obtain a c where v: "validate_pipeline_definition (opt_definition opts) = None"
    and steps: "run_steps opts ti 0 (def_stages (opt_definition opts)) (initial_core opts a) c"
    and snap: "snap_stage_results snap = c_results c"
    using run_pipeline_core [OF assms(1,2)] assms(3) by auto
  from run_steps_cancellation_spreads [OF steps accepted_stages [OF v] assms(4)] assms(4-)
  show ?thesis by (simp add: snap stage_ids_def)
qed

theorem cancellation_spreads_witness:
  "\<exists>snap t. run_pipeline (sample_env (\<lambda>_. Some ReasonOther) completes) (sample_options TargetPipeline)
      (initial_state 0) = (Inr snap, t) \<and> stage_has is_cancelled (snap_stage_results snap) ''b''"
proof -
  obtain snap t where run: "run_pipeline (sample_env (\<lambda>_. Some ReasonOther) completes)
      (sample_options TargetPipeline) (initial_state 0) = (Inr snap, t)"
    and c: "stage_has is_cancelled (snap_stage_results snap) ''a''"
    using aborted_run by blast
  from cancellation_spreads [OF sample_env_monotone [OF mono_abort_samples(1)] run, of 0 0 1] run c
  show ?thesis by (simp add: sample_options_def select_target_def selected_def)
qed

text \<open>A run whose signal is aborted from the start calls no stage, and cancels every stage it
  selected.\<close>

theorem aborted_run_executes_nothing:
  assumes "monotone_abort env" and "run_pipeline env opts (initial_state w) = (Inr snap, t)"
    and "env_abort env w \<noteq> None" and "select_target opts = Inr ti"
  shows "executions t = []
    \<and> (\<forall>i < length (stage_ids (opt_definition opts)). selected (opt_target opts) ti i \<longrightarrow>
         stage_has is_cancelled (snap_stage_results snap) (stage_ids (opt_definition opts) ! i))"
proof -
  obtain a c where v: "validate_pipeline_definition (opt_definition opts) = None" and a: "a"
    and steps: "run_steps opts ti 0 (def_stages (opt_definition opts)) (initial_core opts a) c"
    and snap: "snap_stage_results snap = c_results c" "executions t = c_executions c"
    using run_pipeline_core [OF assms(1,2)] assms(3,4) by auto
  have "c_aborted (initial_core opts a)" using a by (simp add: initial_core_def)
  with run_steps_aborted [OF steps] run_steps_cancelled [OF steps _ accepted_stages [OF v]] show ?thesis
    by (auto simp: snap stage_ids_def initial_core_def)
qed

theorem aborted_run_executes_nothing_witness:
  "\<exists>snap t. run_pipeline (sample_env (\<lambda>_. Some ReasonOther) completes) (sample_options TargetPipeline)
      (initial_state 0) = (Inr snap, t) \<and> executions t = []
    \<and> stage_has is_cancelled (snap_stage_results snap) ''b''"
proof -
  obtain snap t where run: "run_pipeline (sample_env (\<lambda>_. Some ReasonOther) completes)
      (sample_options TargetPipeline) (initial_state 0) = (Inr snap, t)"
    using aborted_run by blast
  have ti: "select_target (sample_options TargetPipeline) = Inr 0"
    by (simp add: sample_options_def select_target_def)
  have none: "executions t = []"
    and all: "\<forall>i < 2. stage_has is_cancelled (snap_stage_results snap) ([''a'', ''b''] ! i)"
    using aborted_run_executes_nothing [OF sample_env_monotone [OF mono_abort_samples(1)] run _ ti]
    by (simp_all add: sample_options_def sample_env_def selected_def numeral_2_eq_2)
  from all [rule_format, of 1] none run show ?thesis by auto
qed

text \<open>An isolated invocation of one stage calls at most that stage, with exactly the outputs it was
  given, and leaves every other stage skipped as not selected.\<close>

theorem isolated_stage_runs_alone:
  assumes "monotone_abort env" and "run_pipeline env opts (initial_state w) = (Inr snap, t)"
    and "opt_target opts = TargetStage stage outputs"
  shows "(executions t = [] \<or> executions t = [(stage, outputs)])
    \<and> (\<forall>other \<in> set (stage_ids (opt_definition opts)). other \<noteq> stage \<longrightarrow>
         stage_has (\<lambda>st. \<exists>tm. st = Skipped not_selected_reason tm None None) (snap_stage_results snap) other)"
proof -
  let ?stages = "def_stages (opt_definition opts)"
  obtain ti a c where v: "validate_pipeline_definition (opt_definition opts) = None"
    and ti: "select_target opts = Inr ti"
    and steps: "run_steps opts ti 0 ?stages (initial_core opts a) c"
    and snap: "snap_stage_results snap = c_results c" "executions t = c_executions c"
    using run_pipeline_core [OF assms(1,2)] by blast
  have at: "ti < length ?stages" "sid (?stages ! ti) = stage"
    using find_index_Some [of "\<lambda>st. sid st = stage" ?stages ti] ti
    by (auto simp: select_target_def assms(3) split: option.splits)
  have sel: "selected (opt_target opts) ti i \<longleftrightarrow> i = ti" for i
    by (simp add: selected_def assms(3))
  have call: "call = (stage, outputs)" if "call \<in> set (executions t)" for call
  proof -
    have "call_made opts ti 0 ?stages (c_results c) call"
      using run_steps_executions [OF steps] that by (auto simp: snap initial_core_def)
    then obtain ds and c' :: core where "fst call = sid (?stages ! ti)" "snd call = dep_outputs ds"
      "dependencies_at opts ti ti (?stages ! ti) c' = Inr ds"
      unfolding call_made_def sel by auto
    with at show ?thesis
      by (cases call)
         (auto simp: dependencies_at_def assms(3) target_outputs_def get_dependency_state_def Let_def
            split: if_splits)
  qed
  have "subseq (map fst (executions t)) (map sid ?stages)"
    using run_steps_executions [OF steps] by (auto simp: snap initial_core_def)
  then have "distinct (executions t)"
    using accepted_stages [OF v] subseq_distinct
    by (metis distinct_map)
  with call have calls: "executions t = [] \<or> executions t = [(stage, outputs)]"
    by (cases "executions t" rule: list.exhaust; cases "tl (executions t)") auto
  have "stage_has (\<lambda>st. \<exists>tm. st = Skipped not_selected_reason tm None None) (c_results c) other"
    if other: "other \<in> set (stage_ids (opt_definition opts))" "other \<noteq> stage" for other
  proof -
    obtain i where "i < length ?stages" "sid (?stages ! i) = other"
      using other(1) by (auto simp: stage_ids_def in_set_conv_nth)
    with run_steps_unselected [OF steps accepted_stages [OF v], of i] other(2) at sel show ?thesis
      by auto
  qed
  with calls show ?thesis by (simp add: snap)
qed

theorem isolated_stage_runs_alone_witness:
  "\<exists>snap t. run_pipeline (sample_env (\<lambda>_. None) completes)
      (sample_options (TargetStage ''b'' [(''a'', JNull)])) (initial_state 0) = (Inr snap, t)
    \<and> executions t = [(''b'', [(''a'', JNull)])]
    \<and> stage_has (\<lambda>st. \<exists>tm. st = Skipped not_selected_reason tm None None) (snap_stage_results snap) ''a''"
proof -
  obtain snap t where run: "run_pipeline (sample_env (\<lambda>_. None) completes)
      (sample_options (TargetStage ''b'' [(''a'', JNull)])) (initial_state 0) = (Inr snap, t)"
    and ex: "executions t = [(''b'', [(''a'', JNull)])]"
    using isolated_run by blast
  from isolated_stage_runs_alone [OF sample_env_monotone [OF mono_abort_samples(1)] run, of "''b''" "[(''a'', JNull)]"] run ex
  show ?thesis by (simp add: sample_options_def)
qed

section \<open>Committed stages\<close>

text \<open>What stays true of a stage once its \<open>execute\<close> has returned a committed outcome.\<close>

definition committed_as :: "json \<Rightarrow> 'w run_state \<Rightarrow> 'w run_state \<Rightarrow> bool" where
  "committed_as out s t \<longleftrightarrow>
     crossed_commit_barrier t \<and> committed_output t = Some out \<and> has_committed_stage t
     \<and> has_failed_stage t = has_failed_stage s \<and> has_cancelled_stage t = has_cancelled_stage s"

lemma same_core_committed: "committed_as out s t \<Longrightarrow> same_core env t u \<Longrightarrow> committed_as out s u"
  by (simp add: committed_as_def same_core_def)

lemma keeps_committed_silent: "silent env m \<Longrightarrow> keeps (committed_as out s) m"
  by (simp add: keeps_def silent_def) (blast intro: same_core_committed)

lemma accept_outcome_committed:
  assumes m: "monotone_abort env"
  shows "keeps (committed_as out s) (accept_outcome env stage d st co o')"
proof -
  have set: "keeps (committed_as out s) (set_result n r)" for n r
    unfolding set_result_def by (rule keeps_modify) (simp add: committed_as_def)
  show ?thesis
    unfolding accept_outcome_def Let_def
    by (intro keeps_bind keeps_next_do set)
       (rule keeps_committed_silent [where env = env], use m in \<open>blast intro: silent_intros monotone_silent silent_trace\<close>)+
qed

lemma accept_outcome_result:
  assumes m: "monotone_abort env" and run: "accept_outcome env stage d st co o' s = (Inr (), t)"
  shows "\<exists>r. oget (results t) (sid stage) = Some r \<and> result_state r = outcome_state o' st co"
proof -
  have trace: "note_committed_trace as ds ms u = (y, v) \<Longrightarrow> same_core env u v" for as ds ms u y v
    using silent_trace silent_run by blast
  from run obtain r u t1 where
    "same_core env (u\<lparr>results := oput (sid stage) r (results u)\<rparr>) t1" "same_core env t1 t" and
    "result_state r = outcome_state o' st co"
    unfolding accept_outcome_def Let_def
    by (simp add: run_rules) (elim exE conjE, drule core_dests [OF m] trace,
       drule core_dests [OF m] trace, drule core_dests [OF m] trace, drule core_dests [OF m] trace,
       drule core_dests [OF m] trace, rule that, assumption, assumption, simp)
  then show ?thesis by (intro exI [of _ r]) (simp add: same_core_def)
qed

lemma keep_committed_result:
  assumes m: "monotone_abort env" and c: "committed_as out s u"
  shows "\<exists>t r. keep_committed env stage d st co out e u = (Inr (), t) \<and> committed_as out s t
    \<and> oget (results t) (sid stage) = Some r \<and> result_state r = Completed out st co (get_duration st co)"
proof -
  let ?r = "committed_result (sid stage) d out st co e u"
  let ?trace = "next_do
      (record_post_commit_trace_failure env (sid stage) ''record_committed_stage_result'' e)
      (catch (write_terminal_debug_bundle env d ?r)
        (record_post_commit_trace_failure env (sid stage) ''write_committed_stage_debug_bundle''))"
  have "silent env ?trace" using m by (intro silent_intros)
  moreover obtain t where t: "keep_committed env stage d st co out e u = (Inr (), t)"
    using never_throws_keep_committed unfolding never_throws_def by (metis old.unit.exhaust)
  ultimately have "same_core env (u\<lparr>results := oput (sid stage) ?r (results u)\<rparr>) t"
    using silent_run by (fastforce simp: keep_committed_def bind_def next_do_def gets_def set_result_def modify_def)
  then show ?thesis
    using t c by (intro exI [of _ t] exI [of _ ?r]) (simp add: same_core_def committed_as_def committed_result_def)
qed

text \<open>C2. Once a stage's \<open>execute\<close> has returned a committed outcome, the stage stays completed with
  that output, and the iteration returns: no failure of the trace, no invalid artifact, no storage
  error and no abort turns it into a failed or cancelled stage.\<close>

theorem committed_stage_stays_completed:
  assumes "monotone_abort env"
    and "env_execute env (sid stage) d outputs (world s) = (Inr (OutcomeCompleted out True extras), w)"
  shows "\<exists>t r completed. catch (execute_stage env stage d outputs started)
             (handle_stage_error env stage d started) s = (Inr (), t)
    \<and> oget (results t) (sid stage) = Some r
    \<and> result_state r = Completed out started completed (get_duration started completed)
    \<and> has_committed_stage t \<and> has_failed_stage t = has_failed_stage s
    \<and> has_cancelled_stage t = has_cancelled_stage s"
proof -
  note m = assms(1)
  let ?o = "OutcomeCompleted out True extras"
  let ?u = "s\<lparr>executions := executions s @ [(sid stage, outputs)], world := w\<rparr>"
  have call: "call_execute env stage d outputs s = (Inr ?o, ?u)"
    using assms(2) by (simp add: call_execute_def next_do_def bind_def modify_def external_def)
  obtain co v where tick: "tick env ?u = (Inr co, v)"
    using never_throws_tick [of env] unfolding never_throws_def by blast
  let ?v = "v\<lparr>crossed_commit_barrier := True, has_committed_stage := True, committed_output := Some out\<rparr>"
  have "same_core env ?u v" by (rule core_dests(1) [OF m tick])
  then have v: "committed_as out s ?v" by (simp add: committed_as_def same_core_def)
  have body: "execute_stage env stage d outputs started s = accept_outcome env stage d started co ?o ?v"
    using call tick by (simp add: execute_stage_def bind_def next_do_def note_commit_def modify_def gets_def)
  obtain x t where run: "accept_outcome env stage d started co ?o ?v = (x, t)" by fastforce
  have c: "committed_as out s t"
    using accept_outcome_committed [OF m, of out s stage d started co ?o] v run
    unfolding keeps_def by (metis snd_conv)
  show ?thesis
  proof (cases x)
    case (Inr a)
    with run have "accept_outcome env stage d started co ?o ?v = (Inr (), t)" by simp
    from accept_outcome_result [OF m this] obtain r where
      "oget (results t) (sid stage) = Some r" "result_state r = outcome_state ?o started co"
      by blast
    with body run Inr c show ?thesis
      by (auto simp: catch_def committed_as_def outcome_state_def)
  next
    case (Inl e)
    obtain co' u where tick': "tick env t = (Inr co', u)"
      using never_throws_tick [of env] unfolding never_throws_def by blast
    have u: "committed_as out s u" by (rule same_core_committed [OF c core_dests(1) [OF m tick']])
    have "handle_stage_error env stage d started e t = keep_committed env stage d started co' out e u"
      using tick' u by (simp add: handle_stage_error_def bind_def gets_def committed_as_def)
    with keep_committed_result [OF m u, of stage d started co' e] body run Inl show ?thesis
      by (auto simp: catch_def committed_as_def)
  qed
qed

definition committing :: "string \<Rightarrow> exn + stage_outcome" where
  "committing n = Inr (OutcomeCompleted (JStr n) True no_extras)"

theorem committed_stage_stays_completed_witness:
  "\<exists>t r completed. catch (execute_stage (sample_env (\<lambda>_. Some ReasonOther) committing) (stage_def ''b'' []) ''/d'' [] 0)
       (handle_stage_error (sample_env (\<lambda>_. Some ReasonOther) committing) (stage_def ''b'' []) ''/d'' 0)
       (initial_state 0) = (Inr (), t)
     \<and> oget (results t) ''b'' = Some r
     \<and> result_state r = Completed (JStr ''b'') 0 completed (get_duration 0 completed)"
  using committed_stage_stays_completed [OF sample_env_monotone [OF mono_abort_samples(1)],
      of "Some ReasonOther" committing "stage_def ''b'' []" "''/d''" "[]" "initial_state 0" "JStr ''b''" no_extras 1 0]
  by (auto simp: sample_env_def committing_def stage_def_def initial_state_def)


definition throwing :: "string \<Rightarrow> exn + stage_outcome" where
  "throwing n = Inl ([], JsOther n)"


end
