(* ===== verification/Pipeline_Trace.thy ===== *)
theory Pipeline_Trace
  imports Pipeline_Guarantees
begin

text \<open>
  The lines of \<open>events.ndjson\<close>: how \<open>emit\<close> numbers them, and which of them frame a run.
\<close>

definition numbered :: "'w run_state \<Rightarrow> bool" where
  "numbered s \<longleftrightarrow> sorted_wrt (<) (map event_sequence (event_log s))
     \<and> list_all (\<lambda>e. event_sequence e \<le> sequence s) (event_log s)"

definition extends :: "pipeline_event list \<Rightarrow> 'w run_state \<Rightarrow> bool" where
  "extends l s \<longleftrightarrow> numbered s \<and> prefix l (event_log s)"

lemma extends_more [simp]:
  "extends l (s\<lparr>world := w\<rparr>) = extends l s" "extends l (s\<lparr>results := m\<rparr>) = extends l s"
  "extends l (s\<lparr>has_cancelled_stage := b\<rparr>) = extends l s" "extends l (s\<lparr>has_failed_stage := b\<rparr>) = extends l s"
  "extends l (s\<lparr>executions := es\<rparr>) = extends l s" "extends l (reset_commit s) = extends l s"
  "extends l (s\<lparr>run_status := st\<rparr>) = extends l s"
  "extends l (s\<lparr>started_at := at'\<rparr>) = extends l s"
  "extends l (s\<lparr>crossed_commit_barrier := b, has_committed_stage := b', committed_output := co\<rparr>) = extends l s"
  "extends l (s\<lparr>committed_artifacts := as, committed_diagnostics := ds, committed_metrics := ms\<rparr>) = extends l s"
  by (simp_all add: extends_def numbered_def reset_commit_def)

lemma external_state: "external op s = (r, t) \<Longrightarrow> \<exists>w. t = s\<lparr>world := w\<rparr>"
  by (auto simp: external_def split: prod.splits)

lemma extends_external: "keeps (extends l) (external op)"
  by (auto simp: keeps_def external_def split: prod.splits)

lemma extends_modify:
  "(\<And>s. extends l (f s) = extends l s) \<Longrightarrow> keeps (extends l) (modify f)"
  by (auto intro: keeps_modify)

lemma extends_basic:
  "keeps (extends l) (tick env)" "keeps (extends l) (raise env i)" "keeps (extends l) (or_raise env q)"
  "keeps (extends l) (set_result n r)" "keeps (extends l) mark_cancelled"
  "keeps (extends l) (note_commit o')" "keeps (extends l) (note_committed_trace as ds ms)"
  by (auto simp: tick_def raise_def or_raise_def set_result_def mark_cancelled_def note_commit_def
      note_committed_trace_def intro!: extends_external keeps_modify split: sum.split stage_outcome.split bool.split)

lemma extends_quietly: "keeps (extends l) m \<Longrightarrow> keeps (extends l) (quietly m)"
  unfolding quietly_def by (intro keeps_catch keeps_return)

lemma extends_notify: "keeps (extends l) (notify_observer env ev)"
  unfolding notify_observer_def
  by (auto intro!: keeps_bind keeps_catch extends_quietly extends_external split: option.split prod.split)

lemma extends_record: "keeps (extends l) (record_post_commit_trace_failure env n op x)"
  unfolding record_post_commit_trace_failure_def
  by (auto intro!: keeps_bind extends_quietly extends_external extends_basic split: prod.split)

text \<open>Predicates that do not look at the world, or not at the trace either.\<close>

lemma keeps_world:
  assumes P: "\<And>s w. P (s\<lparr>world := w\<rparr>) = P s"
  shows "keeps P (external op)" and "keeps P (tick env)"
    and "keeps P (notify_observer env ev)"
    and "keeps P (record_post_commit_trace_failure env n opn x)"
proof -
  have unit: "keeps P (external opx)" for opx :: "'a \<Rightarrow> (exn + unit) \<times> 'a"
    using P by (auto simp: keeps_def external_def split: prod.split)
  then have obs: "keeps P (quietly (external opx))" for opx :: "'a \<Rightarrow> (exn + unit) \<times> 'a"
    unfolding quietly_def by (intro keeps_catch keeps_return)
  show "keeps P (external op)"
    using P by (auto simp: keeps_def external_def split: prod.split)
  show tick: "keeps P (tick env)"
    unfolding tick_def using P by (auto simp: keeps_def external_def split: prod.split)
  have sum: "keeps P (case error_summary env x of (name, message, stk) \<Rightarrow> quietly (external (f name message stk)))" for x f
    by (cases "error_summary env x") (simp add: obs)
  show "keeps P (notify_observer env ev)"
    unfolding notify_observer_def
    by (cases "env_on_snapshot env")
       (simp, simp only: option.case, intro keeps_bind keeps_catch keeps_gets unit sum)
  show "keeps P (record_post_commit_trace_failure env n opn x)"
    unfolding record_post_commit_trace_failure_def
    by (auto intro!: keeps_bind tick obs split: prod.split)
qed

lemma emit_appends:
  assumes run: "emit env b s = (r, t)"
  shows "sequence t = Suc (sequence s)
    \<and> (event_log t = event_log s \<and> r \<noteq> Inr ()
       \<or> (\<exists>e. event_body_of e = b \<and> event_sequence e = Suc (sequence s) \<and> event_log t = event_log s @ [e]))"
proof -
  obtain ts w where tick: "tick env s = (Inr ts, s\<lparr>world := w\<rparr>)"
    by (cases "env_now env (world s)") (simp add: tick_def external_def)
  define e where "e = \<lparr> event_body_of = b, event_sequence = Suc (sequence s), event_timestamp = ts \<rparr>"
  let ?s1 = "s\<lparr>world := w, sequence := Suc (sequence s)\<rparr>"
  obtain q w' where app: "external (env_append_event env e) ?s1 = (q, ?s1\<lparr>world := w'\<rparr>)"
    using external_state by (metis prod.collapse)
  show ?thesis
  proof (cases q)
    case (Inl x)
    with run tick app have "t = ?s1\<lparr>world := w'\<rparr>" "r = Inl x"
      by (simp_all add: emit_def bind_def next_do_def modify_def gets_def e_def Let_def)
    then show ?thesis by simp
  next
    case (Inr a)
    let ?s2 = "?s1\<lparr>world := w', event_log := event_log s @ [e]\<rparr>"
    have "notify_observer env e ?s2 = (r, t)"
      using run tick app Inr by (simp add: emit_def bind_def next_do_def modify_def gets_def e_def Let_def)
    moreover have "event_log (snd (notify_observer env e ?s2)) = event_log s @ [e]
        \<and> sequence (snd (notify_observer env e ?s2)) = Suc (sequence s)"
      using keeps_world(3) [of "\<lambda>u. event_log u = event_log s @ [e] \<and> sequence u = Suc (sequence s)" env e]
      by (simp add: keeps_def)
    ultimately have "event_log t = event_log s @ [e]" "sequence t = Suc (sequence s)" by simp_all
    then show ?thesis by (auto simp: e_def)
  qed
qed

lemma keeps_emit:
  assumes "\<And>s w. P (s\<lparr>world := w\<rparr>) = P s" and "\<And>s n. P (s\<lparr>sequence := n\<rparr>) = P s"
    and "\<And>s l. P (s\<lparr>event_log := l\<rparr>) = P s"
  shows "keeps P (emit env b)"
  unfolding emit_def Let_def
  by (intro keeps_bind keeps_next_do keeps_gets keeps_world assms(1) keeps_modify)
     (simp_all add: assms(2,3))

lemma extends_emit: "keeps (extends l) (emit env b)"
proof -
  have "extends l t" if "emit env b s = (r, t)" "extends l s" for s r t
    using emit_appends [OF that(1)] that(2)
    by (auto simp: extends_def numbered_def sorted_wrt_append list_all_iff less_Suc_eq_le le_SucI)
  then show ?thesis unfolding keeps_def by (metis prod.collapse)
qed

lemmas trace_intros = keeps_bind keeps_next_do keeps_catch keeps_return keeps_throw keeps_gets
  extends_basic extends_external extends_emit extends_record extends_quietly

lemma extends_bundles:
  "keeps (extends l) (write_initial_debug_bundle env d i st)"
  "keeps (extends l) (write_terminal_debug_bundle env d r)"
  "keeps (extends l) (finish_unstarted env d i r b)"
  "keeps (extends l) (retain_inputs env d)"
  unfolding write_initial_debug_bundle_def write_terminal_debug_bundle_def finish_unstarted_def
    retain_inputs_def
  by (auto intro!: trace_intros split: option.split)

lemma extends_unstarted:
  "keeps (extends l) (cancel_unstarted env stage d i)"
  "keeps (extends l) (skip_incomplete env stage d i deps)"
  "keeps (extends l) (skip_unselected env opts ctxt ti j stage d)"
  unfolding cancel_unstarted_def skip_incomplete_def skip_unselected_def continuation_state_def
    retain_continuation_def Let_def
  by (auto intro!: trace_intros extends_bundles split: option.split)

lemma extends_execute: "keeps (extends l) (execute_stage env stage d outs st)"
  unfolding execute_stage_def call_execute_def accept_outcome_def cancel_started_def Let_def
  by (auto intro!: trace_intros extends_bundles keeps_modify)

lemma extends_handler: "keeps (extends l) (handle_stage_error env stage d st x)"
  unfolding handle_stage_error_def keep_committed_def fail_stage_def cancel_started_def Let_def
  by (auto intro!: trace_intros extends_bundles keeps_modify split: prod.split bool.split option.split)

lemma extends_run_stage: "keeps (extends l) (run_stage env opts ctxt ti i stage)"
  unfolding run_stage_def run_selected_def coordinate_and_start_def start_stage_def Let_def
  by (auto intro!: trace_intros extends_bundles extends_unstarted extends_execute extends_handler keeps_modify
      split: option.split)

lemma extends_run_stages: "keeps (extends l) (run_stages env opts ctxt ti i stages)"
  by (induction stages arbitrary: i) (auto intro!: trace_intros extends_run_stage)

lemma extends_run: "m s = (r, t) \<Longrightarrow> keeps (extends l) m \<Longrightarrow> extends l s \<Longrightarrow> extends l t"
  unfolding keeps_def by (metis snd_conv)

text \<open>The events of a run that returns are numbered in strictly increasing order, the first one
  is the start of the pipeline with number 1, and the last one is its end with the status that is
  returned, unless a stage had committed.\<close>

theorem events_numbered_and_framed:
  assumes "run_pipeline env opts (initial_state w) = (Inr snap, t)"
  shows "sorted_wrt (<) (map event_sequence (event_log t))
    \<and> event_log t \<noteq> [] \<and> event_body_of (hd (event_log t)) = PipelineStarted
    \<and> event_sequence (hd (event_log t)) = 1
    \<and> (event_body_of (last (event_log t)) = PipelineFinished (snap_status snap) \<or> has_committed_stage t)"
proof -
  from assms obtain ti ctxt s1 s2 where
    b: "begin_run env opts (initial_state w) = (Inr (ti, ctxt), s1)" and
    r: "run_stages env opts ctxt ti 0 (def_stages (opt_definition opts)) s1 = (Inr (), s2)" and
    f: "finish_run env s2 = (Inr snap, t)"
    unfolding run_pipeline_def by (auto simp: run_rules)
  from b obtain u where start: "emit env PipelineStarted u = (Inr (), s1)"
    and u: "event_log u = []" "sequence u = 0"
    unfolding begin_run_def
    by (auto simp: run_rules or_raise_def raise_def tick_def initial_state_def dest!: external_state
        split: sum.splits)
  from emit_appends [OF start] u obtain e where
    e: "event_body_of e = PipelineStarted" "event_sequence e = 1" "event_log s1 = [e]" "sequence s1 = 1"
    by auto
  then have "extends [e] s1" by (simp add: extends_def numbered_def)
  then have s2: "extends [e] s2" by (rule extends_run [OF r extends_run_stages])
  let ?s3 = "s2\<lparr>run_status := final_status s2\<rparr>"
  from f obtain tm s4 s5 x where tick: "tick env ?s3 = (Inr tm, s4)"
    and em: "emit env (PipelineFinished (run_status s4)) s4 = (x, s5)"
    and rest: "(case x of Inl e \<Rightarrow> has_committed_stage s5
          \<and> record_post_commit_trace_failure env ''pipeline'' ''record_pipeline_terminal_event'' e s5 = (Inr (), t)
        | Inr _ \<Rightarrow> t = s5)"
    and snap: "snap = snapshot_at tm t"
    unfolding finish_run_def
    by (auto simp: run_rules split: if_splits)
  have "extends [e] ?s3" using s2 by simp
  then have s4: "extends [e] s4" by (rule extends_run [OF tick extends_basic(1)])
  then have s5: "extends [e] s5" by (rule extends_run [OF em extends_emit])
  then have t: "extends [e] t"
    using rest extends_run [OF _ extends_record] by (cases x) auto
  have status: "keeps (\<lambda>s. run_status s = run_status s4) (emit env (PipelineFinished (run_status s4)))"
    by (rule keeps_emit) simp_all
  have committed: "keeps has_committed_stage (record_post_commit_trace_failure env n opn y)" for n opn y
    by (rule keeps_world) simp
  have last: "event_body_of (last (event_log t)) = PipelineFinished (snap_status snap) \<or> has_committed_stage t"
  proof (cases x)
    case (Inr a)
    with rest em have em': "emit env (PipelineFinished (run_status s4)) s4 = (Inr (), t)" by simp
    then have "run_status t = run_status s4"
      using status unfolding keeps_def by (metis snd_conv)
    then have "snap_status snap = run_status s4" by (simp add: snap snapshot_at_def)
    with emit_appends [OF em'] show ?thesis by auto
  next
    case (Inl y)
    with rest have "has_committed_stage s5"
      and "record_post_commit_trace_failure env ''pipeline'' ''record_pipeline_terminal_event'' y s5 = (Inr (), t)"
      by auto
    then have "has_committed_stage t" using committed unfolding keeps_def by (metis snd_conv)
    then show ?thesis ..
  qed
  from t last show ?thesis
    using e by (auto simp: extends_def numbered_def prefix_def)
qed

theorem events_numbered_and_framed_witness:
  "\<exists>snap t. run_pipeline (sample_env (\<lambda>_. None) completes) (sample_options TargetPipeline) (initial_state 0)
      = (Inr snap, t)
    \<and> sorted_wrt (<) (map event_sequence (event_log t))
    \<and> event_body_of (hd (event_log t)) = PipelineStarted"
proof -
  obtain snap t where run: "run_pipeline (sample_env (\<lambda>_. None) completes)
      (sample_options TargetPipeline) (initial_state 0) = (Inr snap, t)"
    using completing_run by blast
  from events_numbered_and_framed [OF run] run show ?thesis by blast
qed

end
