(* ===== verification/Paths.thy ===== *)
theory Paths
  imports Prelude
begin

text \<open>
  The functions of the platform's POSIX path module that the code uses, on the segments of a path.
  A relative path is resolved against the working directory, a parameter.
\<close>

definition is_absolute :: "string \<Rightarrow> bool" where
  "is_absolute p \<longleftrightarrow> p \<noteq> [] \<and> hd p = CHR ''/''"

fun normalize_from :: "string list \<Rightarrow> string list \<Rightarrow> string list" where
  "normalize_from acc [] = acc"
| "normalize_from acc (s # ss) =
     normalize_from
       (if s = [] \<or> s = ''.'' then acc else if s = ''..'' then butlast acc else acc @ [s]) ss"

definition resolve_segments :: "string list \<Rightarrow> string \<Rightarrow> string list" where
  "resolve_segments cwd p =
     normalize_from (if is_absolute p then [] else cwd) (split_char CHR ''/'' p)"

fun strip_common :: "'a list \<Rightarrow> 'a list \<Rightarrow> 'a list \<times> 'a list" where
  "strip_common (x # xs) (y # ys) = (if x = y then strip_common xs ys else (x # xs, y # ys))"
| "strip_common xs ys = (xs, ys)"

definition relative_segments :: "string list \<Rightarrow> string list \<Rightarrow> string list" where
  "relative_segments from to =
     (case strip_common from to of (up, down) \<Rightarrow> replicate (length up) ''..'' @ down)"

definition relative_path :: "string list \<Rightarrow> string \<Rightarrow> string \<Rightarrow> string" where
  "relative_path cwd from to =
     join_with ''/'' (relative_segments (resolve_segments cwd from) (resolve_segments cwd to))"

text \<open>A segment of a normalized path names an entry of a directory.\<close>

definition plain_segment :: "string \<Rightarrow> bool" where
  "plain_segment s \<longleftrightarrow> s \<noteq> [] \<and> s \<noteq> ''.'' \<and> s \<noteq> ''..'' \<and> CHR ''/'' \<notin> set s"

lemma normalize_from_plain:
  "list_all plain_segment acc \<Longrightarrow> list_all (\<lambda>s. CHR ''/'' \<notin> set s) ss \<Longrightarrow>
     list_all plain_segment (normalize_from acc ss)"
proof (induction acc ss rule: normalize_from.induct)
  case (2 acc s ss)
  have "list_all plain_segment (butlast acc)"
    using 2(2) by (auto simp: list_all_iff dest: in_set_butlastD)
  moreover have "s \<noteq> [] \<Longrightarrow> s \<noteq> ''.'' \<Longrightarrow> s \<noteq> ''..'' \<Longrightarrow> plain_segment s"
    using 2(3) by (simp add: plain_segment_def)
  ultimately show ?case
    using 2 by (cases "s = [] \<or> s = ''.''"; cases "s = ''..''") simp_all
qed simp

lemma resolve_segments_plain: "list_all plain_segment cwd \<Longrightarrow> list_all plain_segment (resolve_segments cwd p)"
  unfolding resolve_segments_def
  by (rule normalize_from_plain) (auto simp: list_all_iff split_char_no_sep)

lemma normalize_from_id: "list_all plain_segment ss \<Longrightarrow> normalize_from acc ss = acc @ ss"
  by (induction ss arbitrary: acc) (auto simp: plain_segment_def)

lemma strip_common_parts:
  "strip_common xs ys = (up, down) \<Longrightarrow> \<exists>c. xs = c @ up \<and> ys = c @ down"
proof (induction xs ys rule: strip_common.induct)
  case (1 x xs y ys)
  show ?case
  proof (cases "x = y")
    case True
    with 1 obtain c where "xs = c @ up" "ys = c @ down" by auto
    with True show ?thesis by (intro exI [of _ "x # c"]) simp
  next
    case False
    with 1(2) show ?thesis by auto
  qed
qed auto

text \<open>Joining segments and splitting the result gives the segments back.\<close>

lemma split_char_append_sep:
  "c \<notin> set x \<Longrightarrow> split_char c (x @ c # y) = x # split_char c y"
  by (induction x) auto

lemma split_char_none: "c \<notin> set x \<Longrightarrow> split_char c x = [x]"
  by (induction x) auto

lemma split_join: "list_all (\<lambda>s. c \<notin> set s) (s # ss) \<Longrightarrow> split_char c (join_with [c] (s # ss)) = s # ss"
proof (induction ss arbitrary: s)
  case Nil
  then show ?case by (simp add: split_char_none)
next
  case (Cons t ss)
  then show ?case by (simp add: split_char_append_sep)
qed

lemma join_plain_nonempty: "list_all plain_segment (s # ss) \<Longrightarrow> join_with ''/'' (s # ss) \<noteq> []"
  by (cases ss) (auto simp: plain_segment_def)

lemma join_not_absolute: "list_all plain_segment (s # ss) \<Longrightarrow> \<not> is_absolute (join_with ''/'' (s # ss))"
proof -
  assume "list_all plain_segment (s # ss)"
  then obtain c s' where "s = c # s'" "c \<noteq> CHR ''/''" by (cases s) (auto simp: plain_segment_def)
  then show ?thesis by (cases ss) (simp_all add: is_absolute_def)
qed

text \<open>The function \<open>join\<close> on a directory and a name: a leading \<open>..\<close> of a relative path
  stays, an empty result is the current directory.\<close>

fun normalize_keeping :: "bool \<Rightarrow> string list \<Rightarrow> string list \<Rightarrow> string list" where
  "normalize_keeping rooted acc [] = acc"
| "normalize_keeping rooted acc (s # ss) =
     normalize_keeping rooted
       (if s = [] \<or> s = ''.'' then acc
        else if s = ''..'' then
          (if acc = [] \<or> last acc = ''..'' then (if rooted then acc else acc @ [s]) else butlast acc)
        else acc @ [s]) ss"

definition path_join :: "string \<Rightarrow> string \<Rightarrow> string" where
  "path_join dir name =
     (let joined = (if dir = [] then name else dir @ ''/'' @ name);
          rooted = is_absolute joined;
          body = join_with ''/'' (normalize_keeping rooted [] (split_char CHR ''/'' joined)) in
      if rooted then ''/'' @ body else if body = [] then ''.'' else body)"

lemma normalize_keeping_snoc:
  "normalize_keeping rooted acc (ss @ [t]) = normalize_keeping rooted (normalize_keeping rooted acc ss) [t]"
  by (induction rooted acc ss rule: normalize_keeping.induct) simp_all

lemma split_char_snoc: "split_char c (x @ c # y) = split_char c x @ split_char c y"
  by (induction x) (auto split: list.splits)

lemma join_with_last: "\<exists>p. join_with sep (xs @ [x]) = p @ x"
proof (induction xs)
  case (Cons a xs)
  then obtain p where "join_with sep (xs @ [x]) = p @ x" by blast
  then show ?case by (cases xs) auto
qed simp

lemma path_join_name:
  assumes "plain_segment name"
  shows "\<exists>p. path_join dir name = p @ name"
proof -
  have name: "split_char CHR ''/'' name = [name]" "name \<noteq> []" "name \<noteq> ''.''" "name \<noteq> ''..''"
    using assms by (auto simp: plain_segment_def split_char_none)
  define joined where "joined = (if dir = [] then name else dir @ ''/'' @ name)"
  have "split_char CHR ''/'' joined = (if dir = [] then [] else split_char CHR ''/'' dir) @ [name]"
    using name by (simp add: joined_def split_char_snoc)
  then obtain ss where ss: "split_char CHR ''/'' joined = ss @ [name]" by blast
  define rooted where "rooted = is_absolute joined"
  obtain p where p: "join_with ''/'' (normalize_keeping rooted [] (split_char CHR ''/'' joined)) = p @ name"
    using name join_with_last [of "''/''" "normalize_keeping rooted [] ss" name]
    by (auto simp: ss normalize_keeping_snoc)
  show ?thesis
    using name p unfolding path_join_def Let_def joined_def [symmetric] rooted_def [symmetric] by auto
qed

end
