(* ===== verification/Public_Snapshot.thy ===== *)
theory Public_Snapshot
  imports Pipeline_Runner Paths
begin

text \<open>
  The public view of a run, \<open>src/server/pipeline/public-snapshot.ts\<close>: a snapshot is projected to
  strings that name no private path, written into a checkpoint, and parsed again when the server
  restarts. The rendering of timestamps and the working directory are parameters.
\<close>

section \<open>Private text\<close>

text \<open>Rewriting every match of a pattern, from left to right: \<open>match s\<close> is the length of the match
  at the head of \<open>s\<close>, 0 when there is none.\<close>

function rewrite_matches :: "(string \<Rightarrow> nat) \<Rightarrow> string \<Rightarrow> string \<Rightarrow> string" where
  "rewrite_matches m marker [] = []"
| "rewrite_matches m marker (c # s) =
     (if m (c # s) = 0 then c # rewrite_matches m marker s
      else marker @ rewrite_matches m marker (drop (m (c # s)) (c # s)))"
  by pat_completeness auto
termination
  by (relation "measure (\<lambda>(m, marker, s). length s)") auto

definition match_text :: "string \<Rightarrow> string \<Rightarrow> nat" where
  "match_text text s = (if prefix text s then length text else 0)"

definition path_char :: "char \<Rightarrow> bool" where
  "path_char c \<longleftrightarrow> \<not> is_space c \<and> c \<notin> set '';,)''"

definition match_after :: "string \<Rightarrow> string \<Rightarrow> nat" where
  "match_after head s =
     (let n = length (takeWhile path_char (drop (length head) s)) in
      if prefix head s \<and> n > 0 then length head + n else 0)"

fun first_positive :: "nat list \<Rightarrow> nat" where
  "first_positive [] = 0"
| "first_positive (n # ns) = (if n > 0 then n else first_positive ns)"

definition match_unix_path :: "string \<Rightarrow> nat" where
  "match_unix_path s =
     first_positive (map (\<lambda>d. match_after (''/'' @ d @ ''/'') s) [''Users'', ''home'', ''private'', ''tmp'', ''var''])"

definition match_drive_path :: "string \<Rightarrow> nat" where
  "match_drive_path s = (if s \<noteq> [] \<and> is_letter (hd s) then match_after [hd s, CHR '':'', CHR 0x5C] s else 0)"

definition workspace_marker :: string where
  "workspace_marker = ''<workspace>''"

definition path_marker :: string where
  "path_marker = ''<private-path>''"

definition longest_first :: "string list \<Rightarrow> string list" where
  "longest_first roots = sort_key (\<lambda>r. - int (length r)) roots"

definition hide_root :: "string \<Rightarrow> string \<Rightarrow> string" where
  "hide_root text dir = (if dir \<noteq> [] then rewrite_matches (match_text dir) workspace_marker text else text)"

definition private_text :: "string \<Rightarrow> string list \<Rightarrow> string" where
  "private_text text roots =
     rewrite_matches match_drive_path path_marker
       (rewrite_matches match_unix_path path_marker
          (foldl hide_root text (longest_first roots)))"

section \<open>The projection\<close>

record public_error =
  pe_code :: string
  pe_message :: string
  pe_operation :: string
  pe_hint :: "string option"
  pe_retryable :: bool

record public_stage =
  ps_stage_id :: string
  ps_status :: string
  ps_debug_ref :: string
  ps_started_at :: "string option"
  ps_completed_at :: "string option"
  ps_duration_ms :: "jsnum option"
  ps_reason :: "string option"
  ps_error :: "public_error option"

record public_snapshot =
  pub_pipeline_id :: string
  pub_status :: string
  pub_sequence :: jsnum
  pub_started_at :: string
  pub_updated_at :: string
  pub_stage_results :: "(string, public_stage) omap"

definition debug_reference :: "string list \<Rightarrow> string \<Rightarrow> string \<Rightarrow> string" where
  "debug_reference cwd artifact_root debug_dir =
     (let reference = map (\<lambda>c. if c = CHR 0x5C then CHR ''/'' else c)
                        (relative_path cwd artifact_root debug_dir) in
      if reference = [] \<or> reference = ''..'' \<or> prefix ''../'' reference \<or> is_absolute reference
      then ''.pipeline'' else reference)"

definition text_if_any :: "string option \<Rightarrow> string option" where
  "text_if_any v = (case v of Some [] \<Rightarrow> None | _ \<Rightarrow> v)"

definition public_error_of :: "string list \<Rightarrow> diagnostic \<Rightarrow> public_error" where
  "public_error_of roots d =
     \<lparr> pe_code = diag_code d, pe_message = private_text (diag_message d) roots,
       pe_operation = diag_operation d,
       pe_hint = map_option (\<lambda>h. private_text h roots) (text_if_any (diag_hint d)),
       pe_retryable = diag_retryable d \<rparr>"

definition public_stage_of ::
  "(time \<Rightarrow> string) \<Rightarrow> string list \<Rightarrow> string \<Rightarrow> string list \<Rightarrow> string \<Rightarrow> stage_result \<Rightarrow> public_stage" where
  "public_stage_of stamp cwd artifact_root roots stage r =
     (case stage_times (result_state r) of (started, completed, duration) \<Rightarrow>
      \<lparr> ps_stage_id = stage,
        ps_status = status_text (result_state r),
        ps_debug_ref = debug_reference cwd artifact_root (result_debug_dir r),
        ps_started_at = map_option stamp started,
        ps_completed_at = map_option stamp completed,
        ps_duration_ms = map_option (\<lambda>d. Fin (of_int d)) duration,
        ps_reason = (case result_state r of
                       Skipped reason _ _ _ \<Rightarrow> Some (private_text reason roots)
                     | Cancelled reason _ _ _ \<Rightarrow> Some (private_text reason roots)
                     | _ \<Rightarrow> None),
        ps_error = map_option (public_error_of roots) (failure_of (result_state r)) \<rparr>)"

fun run_status_text :: "pipeline_run_status \<Rightarrow> string" where
  "run_status_text RunRunning = ''running''"
| "run_status_text RunCompleted = ''completed''"
| "run_status_text RunFailed = ''failed''"
| "run_status_text RunCancelled = ''cancelled''"

definition project_public_snapshot ::
  "(time \<Rightarrow> string) \<Rightarrow> string list \<Rightarrow> string \<Rightarrow> run_snapshot \<Rightarrow> string \<Rightarrow> string list \<Rightarrow> public_snapshot" where
  "project_public_snapshot stamp cwd pipeline snap artifact_root private_roots =
     (let roots = artifact_root # private_roots in
      \<lparr> pub_pipeline_id = pipeline,
        pub_status = run_status_text (snap_status snap),
        pub_sequence = Fin (of_nat (snap_sequence snap)),
        pub_started_at = stamp (snap_started_at snap),
        pub_updated_at = stamp (snap_updated_at snap),
        pub_stage_results =
          map (\<lambda>(stage, r). (stage, public_stage_of stamp cwd artifact_root roots stage r))
            (snap_stage_results snap) \<rparr>)"

section \<open>The stored form and the parser\<close>

definition opt_field :: "string \<Rightarrow> ('a \<Rightarrow> json) \<Rightarrow> 'a option \<Rightarrow> (string \<times> json) list" where
  "opt_field k f v = (case v of None \<Rightarrow> [] | Some a \<Rightarrow> [(k, f a)])"

definition public_error_json :: "public_error \<Rightarrow> json" where
  "public_error_json e =
     JObj ([(''code'', JStr (pe_code e)), (''message'', JStr (pe_message e)),
            (''operation'', JStr (pe_operation e))]
           @ opt_field ''hint'' JStr (pe_hint e) @ [(''retryable'', JBool (pe_retryable e))])"

definition public_stage_json :: "public_stage \<Rightarrow> json" where
  "public_stage_json s =
     JObj ([(''stage_id'', JStr (ps_stage_id s)), (''status'', JStr (ps_status s)),
            (''debug_ref'', JStr (ps_debug_ref s))]
           @ opt_field ''started_at'' JStr (ps_started_at s)
           @ opt_field ''completed_at'' JStr (ps_completed_at s)
           @ opt_field ''duration_ms'' JNum (ps_duration_ms s)
           @ opt_field ''reason'' JStr (ps_reason s)
           @ opt_field ''error'' public_error_json (ps_error s))"

definition public_snapshot_json :: "public_snapshot \<Rightarrow> json" where
  "public_snapshot_json p =
     JObj [(''pipeline_id'', JStr (pub_pipeline_id p)), (''status'', JStr (pub_status p)),
           (''sequence'', JNum (pub_sequence p)), (''started_at'', JStr (pub_started_at p)),
           (''updated_at'', JStr (pub_updated_at p)),
           (''stage_results'', JObj (map (\<lambda>(k, s). (k, public_stage_json s)) (pub_stage_results p)))]"

definition run_statuses :: "string list" where
  "run_statuses = [''running'', ''completed'', ''failed'', ''cancelled'']"

definition stage_statuses :: "string list" where
  "stage_statuses = [''pending'', ''running'', ''completed'', ''skipped'', ''failed'', ''cancelled'']"

definition optional_string :: "json option \<Rightarrow> string option" where
  "optional_string v = text_if_any (string_value v)"

definition parse_public_error :: "json option \<Rightarrow> public_error option" where
  "parse_public_error v =
     (if \<not> is_record v then None
      else case (string_value (field v ''code''), string_value (field v ''message''),
                 string_value (field v ''operation''), bool_value (field v ''retryable'')) of
             (Some code, Some message, Some operation, Some retryable) \<Rightarrow>
               Some \<lparr> pe_code = code, pe_message = message, pe_operation = operation,
                      pe_hint = optional_string (field v ''hint''), pe_retryable = retryable \<rparr>
           | _ \<Rightarrow> None)"

definition split_slashes :: "string \<Rightarrow> string list" where
  "split_slashes s = split_char CHR ''/'' (map (\<lambda>c. if c = CHR 0x5C then CHR ''/'' else c) s)"

definition safe_debug_ref :: "string \<Rightarrow> bool" where
  "safe_debug_ref r \<longleftrightarrow> \<not> prefix ''/'' r \<and> ''..'' \<notin> set (split_slashes r)"

definition non_negative_num :: "jsnum \<Rightarrow> bool" where
  "non_negative_num x = (case x of Fin r \<Rightarrow> 0 \<le> r | PosInf \<Rightarrow> True | _ \<Rightarrow> False)"

definition parse_public_stage :: "string \<Rightarrow> json \<Rightarrow> public_stage option" where
  "parse_public_stage stage raw =
     (let v = Some raw in
      case (string_value (field v ''status''), string_value (field v ''debug_ref'')) of
        (Some status, Some debug_ref) \<Rightarrow>
          if \<not> is_record v \<or> field v ''stage_id'' \<noteq> Some (JStr stage) \<or> status \<notin> set stage_statuses
             \<or> \<not> safe_debug_ref debug_ref then None
          else
            (let error = parse_public_error (field v ''error'') in
             if status = ''failed'' \<and> error = None then None
             else Some \<lparr> ps_stage_id = stage, ps_status = status, ps_debug_ref = debug_ref,
                    ps_started_at = optional_string (field v ''started_at''),
                    ps_completed_at = optional_string (field v ''completed_at''),
                    ps_duration_ms = (case num_value (field v ''duration_ms'') of
                                        Some x \<Rightarrow> if non_negative_num x then Some x else None
                                      | None \<Rightarrow> None),
                    ps_reason = optional_string (field v ''reason''),
                    ps_error = error \<rparr>)
      | _ \<Rightarrow> None)"

fun parse_stage_entries :: "(string \<times> json) list \<Rightarrow> (string, public_stage) omap \<Rightarrow> (string, public_stage) omap option" where
  "parse_stage_entries [] acc = Some acc"
| "parse_stage_entries ((stage, raw) # entries) acc =
     (case parse_public_stage stage raw of
        None \<Rightarrow> None
      | Some s \<Rightarrow> parse_stage_entries entries (oput stage s acc))"

definition parse_public_snapshot :: "json option \<Rightarrow> public_snapshot option" where
  "parse_public_snapshot v =
     (case (string_value (field v ''pipeline_id''), string_value (field v ''status''),
            num_value (field v ''sequence''), string_value (field v ''started_at''),
            string_value (field v ''updated_at'')) of
        (Some pipeline, Some status, Some number, Some started, Some updated) \<Rightarrow>
          if \<not> is_record v \<or> status \<notin> set run_statuses \<or> \<not> is_integer_value (Some (JNum number))
             \<or> \<not> is_record (field v ''stage_results'') then None
          else
            (case parse_stage_entries (record_entries (field v ''stage_results'')) [] of
               None \<Rightarrow> None
             | Some stages \<Rightarrow>
                 Some \<lparr> pub_pipeline_id = pipeline, pub_status = status, pub_sequence = number,
                        pub_started_at = started, pub_updated_at = updated,
                        pub_stage_results = stages \<rparr>)
      | _ \<Rightarrow> None)"

section \<open>Hidden text stays hidden\<close>

definition bracketed :: "string \<Rightarrow> bool" where
  "bracketed marker \<longleftrightarrow> (\<exists>w. marker = CHR ''<'' # w @ [CHR ''>''] \<and> CHR ''/'' \<notin> set w)"

definition plain_text :: "string \<Rightarrow> bool" where
  "plain_text t \<longleftrightarrow> CHR ''/'' \<in> set t \<and> CHR ''<'' \<notin> set t \<and> CHR ''>'' \<notin> set t"

lemma rewrite_matches_nonempty: "marker \<noteq> [] \<Longrightarrow> rewrite_matches m marker s = [] \<longleftrightarrow> s = []"
  by (cases s) auto

text \<open>A prefix of a rewritten text that contains no bracket was a prefix before the rewriting.\<close>

lemma prefix_rewritten:
  "bracketed marker \<Longrightarrow> CHR ''<'' \<notin> set t \<Longrightarrow> prefix t (rewrite_matches m marker s) \<Longrightarrow> prefix t s"
proof (induction m marker s arbitrary: t rule: rewrite_matches.induct)
  case (2 m marker c s)
  show ?case
  proof (cases t)
    case (Cons d t')
    have "m (c # s) = 0"
    proof (rule ccontr)
      assume "m (c # s) \<noteq> 0"
      with 2(5) have "prefix t (marker @ rewrite_matches m marker (drop (m (c # s)) (c # s)))" by simp
      with Cons 2(3,4) show False by (auto simp: bracketed_def)
    qed
    with 2 Cons show ?thesis by auto
  qed simp
qed simp

lemma sublist_past_marker:
  assumes "bracketed marker" and "plain_text t" and "sublist t (marker @ rest)"
  shows "sublist t rest"
proof -
  from assms(1) obtain w where w: "marker = CHR ''<'' # w @ [CHR ''>'']" "CHR ''/'' \<notin> set w"
    by (auto simp: bracketed_def)
  have past: "sublist t (u @ CHR ''>'' # rest) \<Longrightarrow> CHR ''/'' \<notin> set u \<Longrightarrow> sublist t rest" for u
  proof (induction u)
    case Nil
    then show ?case using assms(2) by (cases t) (auto simp: sublist_Cons_right plain_text_def)
  next
    case (Cons c u)
    have "\<not> prefix t (c # u @ CHR ''>'' # rest)"
    proof
      assume "prefix t (c # u @ CHR ''>'' # rest)"
      then have "prefix t ((c # u) @ CHR ''>'' # rest)" by simp
      then have "prefix t (c # u) \<or> CHR ''>'' \<in> set t"
        by (auto simp: prefix_append prefix_Cons)
      then show False
        using Cons.prems(2) assms(2) set_mono_prefix [of t "c # u"] by (auto simp: plain_text_def)
    qed
    with Cons show ?case by (auto simp: sublist_Cons_right)
  qed
  from assms(3) have "sublist t (CHR ''<'' # w @ CHR ''>'' # rest)" by (simp add: w)
  moreover have "\<not> prefix t (CHR ''<'' # w @ CHR ''>'' # rest)"
    using assms(2) by (cases t) (auto simp: plain_text_def)
  ultimately show ?thesis using past [OF _ w(2)] by (auto simp: sublist_Cons_right)
qed

lemma sublist_rewritten:
  "bracketed marker \<Longrightarrow> plain_text t \<Longrightarrow> sublist t (rewrite_matches m marker s) \<Longrightarrow> sublist t s"
proof (induction m marker s rule: rewrite_matches.induct)
  case (2 m marker c s)
  show ?case
  proof (cases "m (c # s) = 0")
    case True
    with 2(5) have "prefix t (c # rewrite_matches m marker s) \<or> sublist t (rewrite_matches m marker s)"
      by (simp add: sublist_Cons_right)
    then show ?thesis
    proof
      assume p: "prefix t (c # rewrite_matches m marker s)"
      have "prefix t (c # s)"
        using prefix_rewritten [OF 2(3), of t m "c # s"] p True 2(4) by (simp add: plain_text_def)
      then show ?thesis by (simp add: prefix_imp_sublist)
    next
      assume "sublist t (rewrite_matches m marker s)"
      with True 2 show ?thesis by (simp add: sublist_Cons_right)
    qed
  next
    case False
    with 2(5) have "sublist t (marker @ rewrite_matches m marker (drop (m (c # s)) (c # s)))" by simp
    then have "sublist t (rewrite_matches m marker (drop (m (c # s)) (c # s)))"
      by (rule sublist_past_marker [OF 2(3,4)])
    with False 2 have "sublist t (drop (m (c # s)) (c # s))" by simp
    then show ?thesis by (meson sublist_drop sublist_order.order_trans)
  qed
qed simp

lemma rewritten_text_gone:
  "bracketed marker \<Longrightarrow> plain_text t \<Longrightarrow> \<not> sublist t (rewrite_matches (match_text t) marker s)"
proof (induction "match_text t" marker s rule: rewrite_matches.induct)
  case (1 marker)
  then show ?case by (auto simp: plain_text_def)
next
  case (2 marker c s)
  show ?case
  proof
    assume sub: "sublist t (rewrite_matches (match_text t) marker (c # s))"
    show False
    proof (cases "match_text t (c # s) = 0")
      case True
      with 2(4) have np: "\<not> prefix t (c # s)" by (auto simp: match_text_def plain_text_def split: if_splits)
      from True sub 2 have "prefix t (c # rewrite_matches (match_text t) marker s)"
        by (auto simp: sublist_Cons_right)
      then have "prefix t (c # s)"
        using prefix_rewritten [OF 2(3), of t "match_text t" "c # s"] True 2(4) by (simp add: plain_text_def)
      with np show False ..
    next
      case False
      with sub have "sublist t (marker @ rewrite_matches (match_text t) marker (drop (match_text t (c # s)) (c # s)))"
        by simp
      from sublist_past_marker [OF 2(3,4) this] False 2 show False by simp
    qed
  qed
qed

lemma hide_root_keeps: "plain_text t \<Longrightarrow> sublist t (hide_root s r) \<Longrightarrow> sublist t s"
  using sublist_rewritten [of workspace_marker t "match_text r" s]
  by (auto simp: hide_root_def workspace_marker_def bracketed_def split: if_splits)

lemma hide_roots_keep: "plain_text t \<Longrightarrow> sublist t (foldl hide_root s roots) \<Longrightarrow> sublist t s"
  by (induction roots arbitrary: s) (auto dest: hide_root_keeps)

lemma hide_roots_gone:
  assumes "plain_text t"
  shows "t \<in> set roots \<Longrightarrow> \<not> sublist t (foldl hide_root s roots)"
proof (induction roots arbitrary: s)
  case (Cons r roots)
  show ?case
  proof (cases "t = r")
    case True
    have "bracketed workspace_marker" by (simp add: bracketed_def workspace_marker_def)
    then have "\<not> sublist t (hide_root s t)"
      using rewritten_text_gone [OF _ assms] assms by (auto simp: hide_root_def plain_text_def)
    with True show ?thesis using hide_roots_keep [OF assms] by auto
  next
    case False
    with Cons show ?thesis by simp
  qed
qed simp

text \<open>A private root, an absolute path without angle brackets, never occurs in the text that is
  made public, whatever the text and the other roots are.\<close>

theorem private_root_hidden:
  assumes "private_root \<in> set roots" and "is_absolute private_root"
    and "CHR ''<'' \<notin> set private_root" and "CHR ''>'' \<notin> set private_root"
  shows "\<not> sublist private_root (private_text text roots)"
proof -
  have t: "plain_text private_root"
    using assms(2-4) by (cases private_root) (auto simp: plain_text_def is_absolute_def)
  have marker: "bracketed path_marker" by (simp add: bracketed_def path_marker_def)
  have "\<not> sublist private_root (foldl hide_root text (longest_first roots))"
    using hide_roots_gone [OF t] assms(1) by (simp add: longest_first_def)
  then show ?thesis
    unfolding private_text_def using sublist_rewritten [OF marker t] by blast
qed

theorem private_root_hidden_witness:
  "\<not> sublist ''/srv/job'' (private_text ''cannot open /srv/job/out.tsx'' [''/srv'', ''/srv/job''])"
  using private_root_hidden [of "''/srv/job''" "[''/srv'', ''/srv/job'']"] by (simp add: is_absolute_def)

section \<open>References stay inside the artifact root\<close>

definition no_backslash :: "string \<Rightarrow> bool" where
  "no_backslash s \<longleftrightarrow> CHR 0x5C \<notin> set s"

lemma map_no_backslash: "no_backslash s \<Longrightarrow> map (\<lambda>c. if c = CHR 0x5C then CHR ''/'' else c) s = s"
  by (induction s) (auto simp: no_backslash_def)

lemma set_split_char: "seg \<in> set (split_char c s) \<Longrightarrow> set seg \<subseteq> set s"
  by (induction s arbitrary: seg) (auto split: list.splits if_splits, blast)

lemma normalize_from_subset: "set (normalize_from acc ss) \<subseteq> set acc \<union> set ss"
proof (induction acc ss rule: normalize_from.induct)
  case (2 acc s ss)
  have "set (butlast acc) \<subseteq> set acc" by (auto dest: in_set_butlastD)
  with 2 show ?case by (cases "s = [] \<or> s = ''.''"; cases "s = ''..''") auto
qed simp

lemma resolved_no_backslash:
  assumes "is_absolute p" and "no_backslash p"
  shows "list_all no_backslash (resolve_segments cwd p)"
  using assms normalize_from_subset [of "[]" "split_char CHR ''/'' p"] set_split_char [of _ "CHR ''/''" p]
  by (fastforce simp: list_all_iff resolve_segments_def no_backslash_def)

lemma join_no_backslash: "list_all no_backslash ss \<Longrightarrow> no_backslash (join_with ''/'' ss)"
  by (induction "''/''" ss rule: join_with.induct) (auto simp: no_backslash_def)

lemma prefix_join_up: "prefix ''../'' (join_with ''/'' (''..'' # s # ss))"
  by simp

lemma debug_reference_cases:
  assumes cwd: "list_all plain_segment cwd" and dir: "is_absolute dir" "no_backslash dir"
  shows "debug_reference cwd artifact_root dir = ''.pipeline''
    \<or> (\<exists>s ss. list_all plain_segment (s # ss) \<and> list_all no_backslash (s # ss)
         \<and> debug_reference cwd artifact_root dir = join_with ''/'' (s # ss))"
proof -
  let ?from = "resolve_segments cwd artifact_root" and ?to = "resolve_segments cwd dir"
  obtain up down where strip: "strip_common ?from ?to = (up, down)" by fastforce
  then obtain c where "?to = c @ down" using strip_common_parts by blast
  with resolve_segments_plain [OF cwd, of dir] resolved_no_backslash [OF dir, of cwd]
  have down: "list_all plain_segment down" "list_all no_backslash down" by auto
  let ?segs = "replicate (length up) ''..'' @ down"
  have rel: "relative_path cwd artifact_root dir = join_with ''/'' ?segs"
    by (simp add: relative_path_def relative_segments_def strip)
  have "list_all no_backslash ?segs" using down by (auto simp: list_all_iff no_backslash_def)
  then have ref: "map (\<lambda>c. if c = CHR 0x5C then CHR ''/'' else c) (relative_path cwd artifact_root dir)
      = join_with ''/'' ?segs"
    unfolding rel by (intro map_no_backslash join_no_backslash)
  show ?thesis
  proof (cases up)
    case Nil
    then show ?thesis
      using down ref unfolding debug_reference_def Let_def
      by (cases down) auto
  next
    case (Cons u us)
    have "join_with ''/'' ?segs = ''..'' \<or> prefix ''../'' (join_with ''/'' ?segs)"
      by (cases "replicate (length us) ''..'' @ down") (simp_all add: Cons)
    then show ?thesis using ref unfolding debug_reference_def Let_def by auto
  qed
qed

lemma safe_join:
  assumes "list_all plain_segment (s # ss)" "list_all no_backslash (s # ss)"
  shows "safe_debug_ref (join_with ''/'' (s # ss))"
proof -
  have "\<not> prefix ''/'' (join_with ''/'' (s # ss))"
    using join_not_absolute [OF assms(1)] by (cases "join_with ''/'' (s # ss)") (auto simp: is_absolute_def)
  moreover have "split_slashes (join_with ''/'' (s # ss)) = s # ss"
    using split_join [of "CHR ''/''" s ss] assms
    by (simp add: split_slashes_def map_no_backslash join_no_backslash)
       (auto simp: list_all_iff plain_segment_def)
  ultimately show ?thesis
    using assms(1) by (auto simp: safe_debug_ref_def list_all_iff plain_segment_def)
qed

lemma debug_reference_safe:
  assumes "list_all plain_segment cwd" and "is_absolute dir" and "no_backslash dir"
  shows "safe_debug_ref (debug_reference cwd artifact_root dir)"
  using debug_reference_cases [OF assms, of artifact_root] safe_join
  by (auto simp: safe_debug_ref_def split_slashes_def)

section \<open>Projection and parsing\<close>

text \<open>What a result must satisfy to survive the public form: the parser drops empty texts and
  negative durations.\<close>

definition storable_state :: "stage_state \<Rightarrow> bool" where
  "storable_state st \<longleftrightarrow>
     (case st of Skipped reason _ _ _ \<Rightarrow> reason \<noteq> [] | Cancelled reason _ _ _ \<Rightarrow> reason \<noteq> [] | _ \<Rightarrow> True)
     \<and> (case snd (snd (stage_times st)) of None \<Rightarrow> True | Some d \<Rightarrow> 0 \<le> d)"

definition storable_result :: "stage_result \<Rightarrow> bool" where
  "storable_result r \<longleftrightarrow>
     is_absolute (result_debug_dir r) \<and> no_backslash (result_debug_dir r) \<and> storable_state (result_state r)"

lemma private_text_nonempty [simp]: "private_text text roots = [] \<longleftrightarrow> text = []"
proof -
  have "hide_root s r = [] \<longleftrightarrow> s = []" for s r
    by (simp add: hide_root_def rewrite_matches_nonempty workspace_marker_def)
  then have "foldl hide_root s rs = [] \<longleftrightarrow> s = []" for s rs
    by (induction rs arbitrary: s) auto
  then show ?thesis
    by (simp add: private_text_def rewrite_matches_nonempty path_marker_def)
qed

lemma opt_field_get:
  "oget (opt_field k f v @ m) k' = (if k' = k then (case v of Some a \<Rightarrow> Some (f a) | None \<Rightarrow> oget m k) else oget m k')"
  by (cases v) (auto simp: opt_field_def)

lemma opt_field_last: "oget (opt_field k f v) k' = (if k' = k then map_option f v else None)"
  by (cases v) (auto simp: opt_field_def)

lemma optional_string_case: "optional_string (case v of Some a \<Rightarrow> Some (JStr a) | None \<Rightarrow> None) = text_if_any v"
  by (cases v) (auto simp: optional_string_def)

lemma text_if_any_id: "v \<noteq> Some [] \<Longrightarrow> text_if_any v = v"
  by (auto simp: text_if_any_def split: option.split list.split)

lemma parse_error_roundtrip:
  "pe_hint e \<noteq> Some [] \<Longrightarrow> parse_public_error (Some (public_error_json e)) = Some e"
  by (cases "pe_hint e")
     (auto simp: parse_public_error_def public_error_json_def opt_field_def optional_string_def text_if_any_def
        split: list.split)

lemma public_error_ok: "pe_hint (public_error_of roots d) \<noteq> Some []"
  by (auto simp: public_error_of_def text_if_any_def split: option.splits list.splits)

lemma status_text_known [simp]: "status_text st \<in> set stage_statuses"
  by (cases st) (simp_all add: stage_statuses_def)

lemma failed_text [simp]: "status_text st = ''failed'' \<longleftrightarrow> is_failed st"
  by (cases st) simp_all

lemma parse_stage_roundtrip:
  assumes cwd: "list_all plain_segment cwd" and r: "storable_result r" and stamp: "\<And>t. stamp t \<noteq> []"
  shows "parse_public_stage stage (public_stage_json (public_stage_of stamp cwd artifact_root roots stage r))
    = Some (public_stage_of stamp cwd artifact_root roots stage r)"
proof -
  let ?p = "public_stage_of stamp cwd artifact_root roots stage r"
  obtain started completed duration where times: "stage_times (result_state r) = (started, completed, duration)"
    by (cases "stage_times (result_state r)") auto
  have safe: "safe_debug_ref (ps_debug_ref ?p)"
    using debug_reference_safe [OF cwd] r
    by (simp add: public_stage_of_def times storable_result_def)
  have reason: "ps_reason ?p \<noteq> Some []"
    using r by (auto simp: public_stage_of_def times storable_result_def storable_state_def split: stage_state.splits)
  have stamps: "ps_started_at ?p \<noteq> Some []" "ps_completed_at ?p \<noteq> Some []"
    using stamp by (auto simp: public_stage_of_def times)
  have dur: "\<And>x. ps_duration_ms ?p = Some x \<Longrightarrow> non_negative_num x"
    using r by (auto simp: public_stage_of_def times storable_result_def storable_state_def non_negative_num_def)
  have err: "parse_public_error (map_option public_error_json (ps_error ?p)) = ps_error ?p"
  proof (cases "failure_of (result_state r)")
    case None
    then show ?thesis by (simp add: public_stage_of_def times parse_public_error_def)
  next
    case (Some d)
    then show ?thesis by (simp add: public_stage_of_def times parse_error_roundtrip public_error_ok)
  qed
  have failed: "ps_status ?p = ''failed'' \<Longrightarrow> ps_error ?p \<noteq> None"
    by (cases "result_state r") (simp_all add: public_stage_of_def)
  have known: "ps_status ?p \<in> set stage_statuses" "ps_stage_id ?p = stage"
    by (simp_all add: public_stage_of_def times)
  have num: "num_value (case v of Some a \<Rightarrow> Some (JNum a) | None \<Rightarrow> None) = v" for v by (cases v) auto
  have durs: "(case ps_duration_ms ?p of Some x \<Rightarrow> if non_negative_num x then Some x else None | None \<Rightarrow> None)
      = ps_duration_ms ?p"
    using dur by (cases "ps_duration_ms ?p") auto
  show ?thesis
    unfolding public_stage_json_def parse_public_stage_def Let_def
    using safe known failed durs
    by (simp add: opt_field_get opt_field_last optional_string_case text_if_any_id reason stamps err num
        del: map_of_append cong: option.case_cong)
qed

lemma parse_entries_roundtrip:
  assumes cwd: "list_all plain_segment cwd" and stamp: "\<And>t. stamp t \<noteq> []"
  shows "list_all (\<lambda>(k, r). storable_result r) m \<Longrightarrow> distinct (okeys acc @ okeys m) \<Longrightarrow>
    parse_stage_entries (map (\<lambda>(k, s). (k, public_stage_json s))
       (map (\<lambda>(k, r). (k, public_stage_of stamp cwd artifact_root roots k r)) m)) acc
    = Some (acc @ map (\<lambda>(k, r). (k, public_stage_of stamp cwd artifact_root roots k r)) m)"
proof (induction m arbitrary: acc)
  case (Cons e m)
  obtain k r where e: "e = (k, r)" by fastforce
  have append: "oput k s acc = acc @ [(k, s)]" if "k \<notin> set (okeys acc)" for s
    using that by (induction acc) auto
  show ?case
    using Cons e by (simp add: parse_stage_roundtrip [OF cwd _ stamp] append)
qed simp



text \<open>The reference to a debug bundle that is made public is relative and never leaves the artifact
  root, whatever the two directories are.\<close>

theorem debug_reference_inside:
  assumes "list_all plain_segment cwd" and "is_absolute debug_dir" and "no_backslash debug_dir"
  shows "safe_debug_ref (debug_reference cwd artifact_root debug_dir)
    \<and> debug_reference cwd artifact_root debug_dir \<noteq> []"
  using debug_reference_safe [OF assms, of artifact_root] debug_reference_cases [OF assms, of artifact_root]
    join_plain_nonempty
  by auto

theorem debug_reference_inside_witness:
  "safe_debug_ref (debug_reference [] ''/jobs/j1'' ''/jobs/j2/.pipeline/stages/01-a'')
   \<and> debug_reference [] ''/jobs/j1'' ''/jobs/j2/.pipeline/stages/01-a'' \<noteq> []"
  using debug_reference_inside [of "[]" "''/jobs/j2/.pipeline/stages/01-a''" "''/jobs/j1''"]
  by (simp add: is_absolute_def no_backslash_def)

end
