(* ===== verification/Task_Input.thy ===== *)
theory Task_Input
  imports Public_Snapshot
begin

text \<open>
  The retained input of one task, \<open>src/server/pipeline/task-input.ts\<close>: the envelope the engine
  writes as \<open>input.json\<close>, and the parser that accepts it when the task is run again. The parser
  of JSON text is a parameter.
\<close>

section \<open>The envelope\<close>

definition input_files_json :: json where
  "input_files_json =
     JObj [(''kind'', JStr ''pipeline_task_files''), (''manifest_path'', JStr ''input-files.json''),
           (''objects_path'', JStr ''../../input-objects'')]"

definition task_input_json :: "task_input \<Rightarrow> json" where
  "task_input_json ti =
     JObj ([(''version'', JNum (Fin 2)), (''kind'', JStr ''pipeline_task_input''),
            (''pipeline_id'', JStr (ti_pipeline_id ti)), (''task_id'', JStr (ti_task_id ti)),
            (''run_id'', JStr (ti_run_id ti)), (''execution_context'', JObj (ti_execution_context ti)),
            (''depends_on'', JArr (map JStr (ti_depends_on ti))),
            (''dependency_statuses'', JObj (map (\<lambda>(k, s). (k, JStr s)) (ti_dependency_statuses ti))),
            (''dependency_outputs'', JObj (ti_dependency_outputs ti))]
           @ (if ti_has_input_files ti then [(''input_files'', input_files_json)] else []))"

section \<open>The parser\<close>

function json_value_at :: "nat \<Rightarrow> json \<Rightarrow> bool" where
  "json_value_at depth v =
     (if depth > 64 then False
      else case v of
             JNum x \<Rightarrow> is_finite_num x
           | JArr xs \<Rightarrow> length xs \<le> 4096 \<and> list_all (json_value_at (depth + 1)) xs
           | JObj m \<Rightarrow> length m \<le> 4096 \<and> list_all (\<lambda>e. json_value_at (depth + 1) (snd e)) m
           | _ \<Rightarrow> True)"
  by pat_completeness auto
termination
  by (relation "measure (\<lambda>(depth, v). 65 - depth)") auto

declare json_value_at.simps [simp del]

definition string_entries :: "json option \<Rightarrow> (string, string) omap option" where
  "string_entries v =
     (if is_record v \<and> list_all (\<lambda>e. string_value (Some (snd e)) \<noteq> None) (record_entries v)
      then Some (map (\<lambda>e. (fst e, the (string_value (Some (snd e))))) (record_entries v)) else None)"

definition json_entries :: "json option \<Rightarrow> (string, json) omap option" where
  "json_entries v =
     (if is_record v \<and> list_all (\<lambda>e. json_value_at 0 (snd e)) (record_entries v)
      then Some (record_entries v) else None)"

definition string_elements :: "json option \<Rightarrow> string list option" where
  "string_elements v =
     (case array_value v of
        None \<Rightarrow> None
      | Some xs \<Rightarrow>
          if list_all (\<lambda>x. string_value (Some x) \<noteq> None) xs
          then Some (map (\<lambda>x. the (string_value (Some x))) xs) else None)"

definition invalid_task_input_files :: diagnostic_input where
  "invalid_task_input_files =
     plain_input ''invalid_task_input_files''
       ''Task input files must use the portable pipeline_task_files layout'' None ''parse_task_input''"

definition parse_input_files :: "json option \<Rightarrow> diagnostic_input + bool" where
  "parse_input_files v =
     (case v of
        None \<Rightarrow> Inr False
      | Some _ \<Rightarrow>
          if is_record v \<and> field v ''kind'' = Some (JStr ''pipeline_task_files'')
             \<and> field v ''manifest_path'' = Some (JStr ''input-files.json'')
             \<and> field v ''objects_path'' = Some (JStr ''../../input-objects'')
          then Inr True else Inl invalid_task_input_files)"

definition invalid_task_input :: diagnostic_input where
  "invalid_task_input =
     (plain_input ''invalid_task_input''
        ''Task input must be a version 2 pipeline_task_input envelope'' None ''parse_task_input'')
       \<lparr>di_hint := Some ''Use a retained .pipeline/stages/<task>/input.json file from a current run.''\<rparr>"

definition parse_task_input :: "json \<Rightarrow> diagnostic_input + task_input" where
  "parse_task_input raw =
     (let v = Some raw in
      case (string_value (field v ''pipeline_id''), string_value (field v ''task_id''),
            string_value (field v ''run_id''), json_entries (field v ''execution_context''),
            string_elements (field v ''depends_on''), string_entries (field v ''dependency_statuses''),
            json_entries (field v ''dependency_outputs'')) of
        (Some pipeline, Some task, Some run, Some ctxt, Some deps, Some statuses, Some outputs) \<Rightarrow>
          if \<not> is_record v \<or> field v ''version'' \<noteq> Some (JNum (Fin 2))
             \<or> field v ''kind'' \<noteq> Some (JStr ''pipeline_task_input'') then Inl invalid_task_input
          else
            (case parse_input_files (field v ''input_files'') of
               Inl e \<Rightarrow> Inl e
             | Inr has_files \<Rightarrow>
                 Inr \<lparr> ti_pipeline_id = pipeline, ti_task_id = task, ti_run_id = run,
                       ti_execution_context = ctxt, ti_depends_on = deps,
                       ti_dependency_statuses = statuses, ti_dependency_outputs = outputs,
                       ti_has_input_files = has_files \<rparr>)
      | _ \<Rightarrow> Inl invalid_task_input)"

record file_stat =
  stat_link :: bool
  stat_file :: bool
  stat_dir :: bool
  stat_size :: nat

definition max_task_input_bytes :: nat where
  "max_task_input_bytes = 16 * 1024 * 1024"

definition path_ref :: "string \<Rightarrow> artifact_reference" where
  "path_ref p = \<lparr> ref_artifact_id = None, ref_path = Some p \<rparr>"

definition invalid_task_input_file :: "string \<Rightarrow> diagnostic_input" where
  "invalid_task_input_file path =
     (plain_input ''invalid_task_input_file''
        (''Task input must be a regular JSON file no larger than '' @ nat_str max_task_input_bytes @ '' bytes'')
        None ''load_task_input'')\<lparr>di_artifact_refs := Some [path_ref path]\<rparr>"

definition invalid_task_input_text :: "string \<Rightarrow> diagnostic_input" where
  "invalid_task_input_text path =
     (plain_input ''invalid_task_input_json'' ''Task input is not valid JSON'' None ''load_task_input'')
       \<lparr>di_artifact_refs := Some [path_ref path]\<rparr>"

text \<open>The metadata and the text of the file are what the file system returned; reading or parsing
  the text may throw.\<close>

definition load_task_input ::
  "(string \<Rightarrow> json option) \<Rightarrow> string \<Rightarrow> file_stat \<Rightarrow> string option \<Rightarrow> diagnostic_input + task_input" where
  "load_task_input parse_text path st text =
     (if stat_link st \<or> \<not> stat_file st \<or> stat_size st > max_task_input_bytes
      then Inl (invalid_task_input_file path)
      else case (case text of None \<Rightarrow> None | Some t \<Rightarrow> parse_text t) of
             None \<Rightarrow> Inl (invalid_task_input_text path)
           | Some v \<Rightarrow> parse_task_input v)"

section \<open>Lemmas\<close>

text \<open>What the parser requires of the values inside an envelope.\<close>

definition retainable :: "task_input \<Rightarrow> bool" where
  "retainable ti \<longleftrightarrow>
     list_all (\<lambda>e. json_value_at 0 (snd e)) (ti_execution_context ti)
     \<and> list_all (\<lambda>e. json_value_at 0 (snd e)) (ti_dependency_outputs ti)"

lemma string_elements_map [simp]: "string_elements (Some (JArr (map JStr xs))) = Some xs"
  by (simp add: string_elements_def list_all_iff comp_def)

lemma string_entries_map [simp]:
  "string_entries (Some (JObj (map (\<lambda>(k, s). (k, JStr s)) m))) = Some m"
  by (simp add: string_entries_def list_all_iff comp_def case_prod_unfold)

lemma json_entries_ok:
  "list_all (\<lambda>e. json_value_at 0 (snd e)) m \<Longrightarrow> json_entries (Some (JObj m)) = Some m"
  by (simp add: json_entries_def)

text \<open>The envelope that the engine retains for a task is accepted by the parser and read back
  exactly, so that the task can be run again with the same context, dependencies and outputs.\<close>

theorem task_input_roundtrip:
  assumes "retainable ti"
  shows "parse_task_input (task_input_json ti) = Inr ti"
  using assms
  by (cases "ti_has_input_files ti")
     (simp_all add: parse_task_input_def task_input_json_def Let_def json_entries_ok retainable_def
        parse_input_files_def input_files_json_def)

theorem task_input_roundtrip_witness:
  "\<exists>ti. ti_task_id ti = ''b'' \<and> ti_dependency_outputs ti = [(''a'', JArr [JNull])] \<and> ti_has_input_files ti
     \<and> parse_task_input (task_input_json ti) = Inr ti"
proof -
  let ?ti = "\<lparr> ti_pipeline_id = ''p'', ti_task_id = ''b'', ti_run_id = ''r'',
      ti_execution_context = [(''job_id'', JStr ''j'')], ti_depends_on = [''a''],
      ti_dependency_statuses = [(''a'', ''completed'')], ti_dependency_outputs = [(''a'', JArr [JNull])],
      ti_has_input_files = True \<rparr>"
  have "retainable ?ti" by (simp add: retainable_def json_value_at.simps)
  from task_input_roundtrip [OF this] show ?thesis by (intro exI [of _ ?ti]) simp
qed

end
