(* ===== verification/Task_Input_Files.thy ===== *)
theory Task_Input_Files
  imports Task_Input
begin

text \<open>
  The retained files of a task, \<open>src/server/pipeline/task-input-files.ts\<close>: the walk over the
  input directory that stores each file under its digest and writes a manifest, the parser of the
  manifest, the verification of the stored objects, and the materialization of the manifest into a
  new directory. The digest is a parameter. A directory lists its entries in the order the code
  sorts them into; nothing else writes to the directories while an operation runs.
\<close>

section \<open>Errors and safe paths\<close>

definition retain_error :: "string \<Rightarrow> string \<Rightarrow> string option \<Rightarrow> diagnostic_input" where
  "retain_error code message path =
     (plain_input code message None ''retain_task_input_files'')
       \<lparr>di_artifact_refs := map_option (\<lambda>p. [path_ref p]) path, di_retryable := Some False\<rparr>"

definition safe_relative_path :: "string \<Rightarrow> bool" where
  "safe_relative_path path \<longleftrightarrow>
     path \<noteq> [] \<and> \<not> is_absolute path
     \<and> list_all (\<lambda>part. part \<noteq> [] \<and> part \<noteq> ''.'' \<and> part \<noteq> ''..'') (split_slashes path)"

section \<open>The manifest\<close>

record file_entry =
  fe_path :: string
  fe_hash :: string
  fe_size :: nat
  fe_mode :: nat

record manifest =
  mf_directories :: "string list"
  mf_files :: "file_entry list"

definition max_entries :: nat where
  "max_entries = 100000"

definition max_safe_integer :: nat where
  "max_safe_integer = 2 ^ 53 - 1"

definition nat_value :: "nat \<Rightarrow> json option \<Rightarrow> nat option" where
  "nat_value bound v =
     (case num_value v of
        Some (Fin r) \<Rightarrow>
          if r = of_int \<lfloor>r\<rfloor> \<and> 0 \<le> r \<and> nat \<lfloor>r\<rfloor> \<le> bound then Some (nat \<lfloor>r\<rfloor>) else None
      | _ \<Rightarrow> None)"

definition file_entry_json :: "file_entry \<Rightarrow> json" where
  "file_entry_json f =
     JObj [(''path'', JStr (fe_path f)), (''hash'', JStr (fe_hash f)),
           (''size_bytes'', JNum (Fin (of_nat (fe_size f)))), (''mode'', JNum (Fin (of_nat (fe_mode f))))]"

definition manifest_json :: "manifest \<Rightarrow> json" where
  "manifest_json m =
     JObj [(''version'', JNum (Fin 1)), (''kind'', JStr ''pipeline_task_file_manifest''),
           (''directories'', JArr (map JStr (mf_directories m))),
           (''files'', JArr (map file_entry_json (mf_files m)))]"

definition invalid_manifest :: diagnostic_input where
  "invalid_manifest =
     retain_error ''task_input_manifest_invalid'' ''Task input file manifest is invalid'' None"

definition invalid_manifest_entry :: diagnostic_input where
  "invalid_manifest_entry =
     retain_error ''task_input_manifest_invalid'' ''Task input file entry is invalid'' None"

definition parse_file_entry :: "json \<Rightarrow> file_entry option" where
  "parse_file_entry raw =
     (let v = Some raw in
      case (string_value (field v ''path''), string_value (field v ''hash''),
            nat_value max_safe_integer (field v ''size_bytes''), nat_value 511 (field v ''mode'')) of
        (Some path, Some digest, Some bytes, Some mode) \<Rightarrow>
          if safe_relative_path path \<and> sha256_text digest
          then Some \<lparr> fe_path = path, fe_hash = digest, fe_size = bytes, fe_mode = mode \<rparr> else None
      | _ \<Rightarrow> None)"

fun parse_file_entries :: "string list \<Rightarrow> json list \<Rightarrow> diagnostic_input + file_entry list" where
  "parse_file_entries seen [] = Inr []"
| "parse_file_entries seen (raw # raws) =
     (case parse_file_entry raw of
        None \<Rightarrow> Inl invalid_manifest_entry
      | Some f \<Rightarrow>
          if fe_path f \<in> set seen then Inl invalid_manifest_entry
          else (case parse_file_entries (seen @ [fe_path f]) raws of
                  Inl e \<Rightarrow> Inl e
                | Inr fs \<Rightarrow> Inr (f # fs)))"

definition parse_manifest :: "json \<Rightarrow> diagnostic_input + manifest" where
  "parse_manifest raw =
     (let v = Some raw in
      case (string_elements (field v ''directories''), array_value (field v ''files'')) of
        (Some dirs, Some files) \<Rightarrow>
          if \<not> is_record v \<or> field v ''version'' \<noteq> Some (JNum (Fin 1))
             \<or> field v ''kind'' \<noteq> Some (JStr ''pipeline_task_file_manifest'')
             \<or> length dirs > max_entries \<or> length files > max_entries
             \<or> \<not> list_all safe_relative_path dirs
          then Inl invalid_manifest
          else (case parse_file_entries [] files of
                  Inl e \<Rightarrow> Inl e
                | Inr fs \<Rightarrow> Inr \<lparr> mf_directories = dirs, mf_files = fs \<rparr>)
      | _ \<Rightarrow> Inl invalid_manifest)"

section \<open>Retaining a directory\<close>

datatype fs_node =
    FsFile string nat  \<comment> \<open>content and mode\<close>
  | FsDir "(string \<times> fs_node) list"
  | FsLink
  | FsOther

type_synonym fs_entries = "(string \<times> fs_node) list"

record walk_state =
  w_dirs :: "string list"
  w_files :: "file_entry list"
  w_objects :: "(string, string) omap"

definition excluded_file_names :: "string list" where
  "excluded_file_names =
     [''agent.log'', ''agent.log.1'', ''agent-events.jsonl'', ''model-agent.log'', ''model-agent.log.1'']"

definition join_rel :: "string \<Rightarrow> string \<Rightarrow> string" where
  "join_rel dir name = (if dir = [] then name else dir @ ''/'' @ name)"

definition skips_dir :: "string list \<Rightarrow> string \<Rightarrow> bool" where
  "skips_dir excluded path \<longleftrightarrow>
     path = ''runs'' \<or> path = ''spice/runs'' \<or> hd (split_char CHR ''/'' path) \<in> set excluded"

text \<open>Storing a file under its digest; an object that is already there must be the same one.\<close>

definition store_object ::
  "(string \<Rightarrow> string) \<Rightarrow> string \<Rightarrow> (string, string) omap \<Rightarrow> (string, string) omap option" where
  "store_object digest content objects =
     (case oget objects (digest content) of
        None \<Rightarrow> Some (oput (digest content) content objects)
      | Some existing \<Rightarrow>
          if length existing = length content \<and> digest existing = digest content then Some objects else None)"

definition snapshot_failed :: "string \<Rightarrow> diagnostic_input" where
  "snapshot_failed path =
     retain_error ''task_input_file_snapshot_failed'' (''Could not retain task input file '' @ path) (Some path)"

fun walk ::
  "(string \<Rightarrow> string) \<Rightarrow> string list \<Rightarrow> string \<Rightarrow> fs_entries \<Rightarrow> walk_state \<Rightarrow> diagnostic_input + walk_state" where
  "walk digest excluded dir [] st = Inr st"
| "walk digest excluded dir ((name, FsDir children) # es) st =
     (let path = join_rel dir name in
      if skips_dir excluded path then walk digest excluded dir es st
      else
        (let st' = st\<lparr>w_dirs := w_dirs st @ [path]\<rparr> in
         if length (w_dirs st') > max_entries
         then Inl (retain_error ''task_input_too_broad'' ''Task input has too many directories'' None)
         else (case walk digest excluded path children st' of
                 Inl e \<Rightarrow> Inl e
               | Inr st'' \<Rightarrow> walk digest excluded dir es st'')))"
| "walk digest excluded dir ((name, FsFile content mode) # es) st =
     (let path = join_rel dir name in
      if name \<in> set excluded_file_names then walk digest excluded dir es st
      else
        (case store_object digest content (w_objects st) of
           None \<Rightarrow> Inl (snapshot_failed path)
         | Some objects \<Rightarrow>
             (let st' = st\<lparr>w_files := w_files st @
                            [\<lparr> fe_path = path, fe_hash = digest content, fe_size = length content,
                               fe_mode = mode \<rparr>],
                          w_objects := objects\<rparr> in
              if length (w_files st') > max_entries
              then Inl (retain_error ''task_input_too_broad'' ''Task input has too many files'' None)
              else walk digest excluded dir es st')))"
| "walk digest excluded dir ((name, FsLink) # es) st =
     Inl (retain_error ''task_input_symlink''
            (''Task input refuses symbolic links: '' @ join_rel dir name) (Some (join_rel dir name)))"
| "walk digest excluded dir ((name, FsOther) # es) st =
     Inl (retain_error ''task_input_entry_invalid''
            (''Task input contains an unsupported filesystem entry: '' @ join_rel dir name)
            (Some (join_rel dir name)))"

definition retain_task_input_files ::
  "(string \<Rightarrow> string) \<Rightarrow> string list \<Rightarrow> fs_entries \<Rightarrow> (string, string) omap
    \<Rightarrow> diagnostic_input + (manifest \<times> (string, string) omap)" where
  "retain_task_input_files digest excluded root_entries objects =
     (case walk digest excluded [] root_entries \<lparr> w_dirs = [], w_files = [], w_objects = objects \<rparr> of
        Inl e \<Rightarrow> Inl e
      | Inr st \<Rightarrow> Inr (\<lparr> mf_directories = w_dirs st, mf_files = w_files st \<rparr>, w_objects st))"

text \<open>The retries of a file that changes while it is read: at most four attempts.\<close>

fun snapshot_attempts :: "nat \<Rightarrow> (nat \<Rightarrow> exn + file_entry) \<Rightarrow> nat \<Rightarrow> exn + file_entry" where
  "snapshot_attempts remaining attempt k =
     (case attempt k of
        Inr f \<Rightarrow> Inr f
      | Inl x \<Rightarrow>
          if remaining = 0 \<or> \<not> (case error_of x of
                 Some e \<Rightarrow> (case err_diagnostic e of Some d \<Rightarrow> diag_code d = ''task_input_file_changed'' | None \<Rightarrow> False)
               | None \<Rightarrow> False)
          then Inl x
          else snapshot_attempts (remaining - 1) attempt (Suc k))"

section \<open>Using a retained bundle\<close>

definition object_mismatch :: "file_entry \<Rightarrow> diagnostic_input" where
  "object_mismatch f =
     retain_error ''task_input_object_mismatch''
       (''Task input object does not match its manifest: '' @ fe_path f) (Some (fe_hash f))"

definition bundle_missing :: "string \<Rightarrow> diagnostic_input" where
  "bundle_missing path =
     retain_error ''task_input_bundle_missing'' (''Task input bundle is missing '' @ path) (Some path)"

fun verify_objects :: "(string \<Rightarrow> string) \<Rightarrow> (string, string) omap \<Rightarrow> file_entry list \<Rightarrow> diagnostic_input + unit" where
  "verify_objects digest objects [] = Inr ()"
| "verify_objects digest objects (f # fs) =
     (case oget objects (fe_hash f) of
        None \<Rightarrow> Inl (bundle_missing (fe_hash f))
      | Some content \<Rightarrow>
          if length content \<noteq> fe_size f \<or> digest content \<noteq> fe_hash f then Inl (object_mismatch f)
          else verify_objects digest objects fs)"

definition materialization_failed :: "file_entry \<Rightarrow> diagnostic_input" where
  "materialization_failed f =
     retain_error ''task_input_materialization_failed''
       (''Could not materialize retained task input '' @ fe_path f) (Some (fe_hash f))"

type_synonym disk_files = "(string, string \<times> nat) omap"

text \<open>Every file of the manifest is created exclusively, filled from its object and given its mode.\<close>

fun materialize_files ::
  "(string \<Rightarrow> string) \<Rightarrow> (string, string) omap \<Rightarrow> file_entry list \<Rightarrow> disk_files \<Rightarrow> diagnostic_input + disk_files" where
  "materialize_files digest objects [] disk = Inr disk"
| "materialize_files digest objects (f # fs) disk =
     (case oget objects (fe_hash f) of
        None \<Rightarrow> Inl (materialization_failed f)
      | Some content \<Rightarrow>
          if length content \<noteq> fe_size f \<or> fe_path f \<in> set (okeys disk) \<or> digest content \<noteq> fe_hash f
          then Inl (materialization_failed f)
          else materialize_files digest objects fs (disk @ [(fe_path f, (content, fe_mode f))]))"


definition snapshot_file :: "(nat \<Rightarrow> exn + file_entry) \<Rightarrow> exn + file_entry" where
  "snapshot_file attempt = snapshot_attempts 3 attempt 0"

section \<open>What a directory holds\<close>

text \<open>The files of a directory that a task retains, with their paths, and its directories.\<close>

fun listing :: "string list \<Rightarrow> string \<Rightarrow> fs_entries \<Rightarrow> (string \<times> string \<times> nat) list" where
  "listing excluded dir [] = []"
| "listing excluded dir ((name, FsDir children) # es) =
     (if skips_dir excluded (join_rel dir name) then [] else listing excluded (join_rel dir name) children)
     @ listing excluded dir es"
| "listing excluded dir ((name, FsFile content mode) # es) =
     (if name \<in> set excluded_file_names then [] else [(join_rel dir name, content, mode)])
     @ listing excluded dir es"
| "listing excluded dir ((name, _) # es) = listing excluded dir es"

fun directory_names :: "string list \<Rightarrow> string \<Rightarrow> fs_entries \<Rightarrow> string list" where
  "directory_names excluded dir [] = []"
| "directory_names excluded dir ((name, FsDir children) # es) =
     (if skips_dir excluded (join_rel dir name) then []
      else join_rel dir name # directory_names excluded (join_rel dir name) children)
     @ directory_names excluded dir es"
| "directory_names excluded dir ((name, _) # es) = directory_names excluded dir es"

text \<open>A directory tree of the file system: entry names are single segments without backslashes and
  distinct in their directory, and modes are permission bits.\<close>

fun well_formed_tree :: "fs_entries \<Rightarrow> bool" where
  "well_formed_tree [] = True"
| "well_formed_tree ((name, node) # es) =
     (plain_segment name \<and> no_backslash name \<and> name \<notin> fst ` set es
      \<and> (case node of FsDir children \<Rightarrow> well_formed_tree children
         | FsFile content mode \<Rightarrow> mode \<le> 511 \<and> length content \<le> max_safe_integer | _ \<Rightarrow> True)
      \<and> well_formed_tree es)"

definition entry_of :: "(string \<Rightarrow> string) \<Rightarrow> string \<times> string \<times> nat \<Rightarrow> file_entry" where
  "entry_of digest f =
     (case f of (path, content, mode) \<Rightarrow>
        \<lparr> fe_path = path, fe_hash = digest content, fe_size = length content, fe_mode = mode \<rparr>)"

definition has_object :: "(string \<Rightarrow> string) \<Rightarrow> (string, string) omap \<Rightarrow> string \<Rightarrow> bool" where
  "has_object digest objects content \<longleftrightarrow>
     (\<exists>stored. oget objects (digest content) = Some stored
        \<and> digest stored = digest content \<and> length stored = length content)"

definition keeps_objects :: "(string, string) omap \<Rightarrow> (string, string) omap \<Rightarrow> bool" where
  "keeps_objects m m' \<longleftrightarrow> (\<forall>k v. oget m k = Some v \<longrightarrow> oget m' k = Some v)"

lemma store_object_ok:
  "store_object digest content objects = Some objects' \<Longrightarrow>
     has_object digest objects' content \<and> keeps_objects objects objects'"
  by (auto simp: store_object_def has_object_def keeps_objects_def split: option.splits if_splits)

lemma keeps_objects_has: "keeps_objects m m' \<Longrightarrow> has_object digest m content \<Longrightarrow> has_object digest m' content"
  by (auto simp: keeps_objects_def has_object_def)

lemma keeps_objects_trans: "keeps_objects m m' \<Longrightarrow> keeps_objects m' m'' \<Longrightarrow> keeps_objects m m''"
  by (simp add: keeps_objects_def)

lemma walk_lists:
  "walk digest excluded dir es st = Inr st' \<Longrightarrow>
     w_files st' = w_files st @ map (entry_of digest) (listing excluded dir es)
     \<and> w_dirs st' = w_dirs st @ directory_names excluded dir es
     \<and> keeps_objects (w_objects st) (w_objects st')
     \<and> (\<forall>(p, content, mode) \<in> set (listing excluded dir es). has_object digest (w_objects st') content)"
proof (induction digest excluded dir es st arbitrary: st' rule: walk.induct)
  case (1 digest excluded dir st)
  then show ?case by (simp add: keeps_objects_def)
next
  case (2 digest excluded dir name children es st)
  show ?case
  proof (cases "skips_dir excluded (join_rel dir name)")
    case True
    from 2(4) True have "walk digest excluded dir es st = Inr st'" by (simp add: Let_def)
    from 2(1) [OF refl True this] True show ?thesis by simp
  next
    case False
    let ?st = "st\<lparr>w_dirs := w_dirs st @ [join_rel dir name]\<rparr>"
    from 2(4) False have few: "length (w_dirs ?st) \<le> max_entries"
      by (simp add: Let_def split: if_splits)
    from 2(4) False few obtain u where
      u: "walk digest excluded (join_rel dir name) children ?st = Inr u"
      "walk digest excluded dir es u = Inr st'"
      by (auto simp: Let_def split: sum.splits)
    have few': "\<not> max_entries < length (w_dirs ?st)" using few by simp
    note c = 2(2) [OF refl False refl few' u(1)] and r = 2(3) [OF refl False refl few' u]
    have keeps: "keeps_objects (w_objects st) (w_objects u)" "keeps_objects (w_objects u) (w_objects st')"
      using c r by simp_all
    have objects: "\<forall>f \<in> set (listing excluded (join_rel dir name) children). has_object digest (w_objects st') (fst (snd f))"
      using c keeps_objects_has [OF keeps(2)] by (auto simp: case_prod_unfold)
    show ?thesis
      using c r False keeps_objects_trans [OF keeps] objects few by (simp add: ball_Un case_prod_unfold)
  qed
next
  case (3 digest excluded dir name content mode es st)
  show ?case
  proof (cases "name \<in> set excluded_file_names")
    case True
    from 3(3) True have "walk digest excluded dir es st = Inr st'" by (simp add: Let_def)
    from 3(1) [OF refl True this] True show ?thesis by simp
  next
    case False
    let ?e = "\<lparr> fe_path = join_rel dir name, fe_hash = digest content, fe_size = length content, fe_mode = mode \<rparr>"
    from 3(3) False obtain objects where o': "store_object digest content (w_objects st) = Some objects"
      by (auto simp: Let_def split: option.splits)
    let ?st = "st\<lparr>w_files := w_files st @ [?e], w_objects := objects\<rparr>"
    from 3(3) False o' have few: "length (w_files ?st) \<le> max_entries"
      and rest: "walk digest excluded dir es ?st = Inr st'"
      by (auto simp: Let_def split: if_splits)
    have few': "\<not> max_entries < length (w_files ?st)" using few by simp
    note r = 3(2) [OF refl False o' refl few' rest]
    have keeps: "keeps_objects objects (w_objects st')" using r by simp
    show ?thesis
      using r False few store_object_ok [OF o'] keeps_objects_trans [OF _ keeps]
        keeps_objects_has [OF keeps] by (simp add: entry_of_def)
  qed
qed simp_all

lemma walk_limits:
  "walk digest excluded dir es st = Inr st' \<Longrightarrow>
     length (w_files st) \<le> max_entries \<Longrightarrow> length (w_dirs st) \<le> max_entries \<Longrightarrow>
     length (w_files st') \<le> max_entries \<and> length (w_dirs st') \<le> max_entries"
proof (induction digest excluded dir es st arbitrary: st' rule: walk.induct)
  case (2 digest excluded dir name children es st)
  then show ?case by (fastforce simp: Let_def split: if_splits sum.splits)
next
  case (3 digest excluded dir name content mode es st)
  then show ?case by (fastforce simp: Let_def split: if_splits option.splits)
qed simp_all

section \<open>Paths of a listing\<close>

lemma split_join_rel:
  "CHR ''/'' \<notin> set name \<Longrightarrow>
     split_char CHR ''/'' (join_rel dir name) = (if dir = [] then [] else split_char CHR ''/'' dir) @ [name]"
proof -
  assume n: "CHR ''/'' \<notin> set name"
  have "split_char c (x @ c # name) = split_char c x @ [name]" if "c \<notin> set name" for c :: char and x
    using that by (induction x) (auto simp: split_char_none split: list.split)
  with n show ?thesis by (simp add: join_rel_def split_char_none)
qed

lemma join_rel_nonempty [simp]: "plain_segment name \<Longrightarrow> join_rel dir name \<noteq> []"
  by (auto simp: join_rel_def plain_segment_def)

text \<open>A path of a listing continues the path of its directory with plain segments, the first one the
  name of an entry.\<close>

definition below :: "string \<Rightarrow> string set \<Rightarrow> string \<Rightarrow> bool" where
  "below dir names path \<longleftrightarrow>
     no_backslash path
     \<and> (\<exists>n \<in> names. \<exists>rest. list_all plain_segment (n # rest)
        \<and> split_char CHR ''/'' path = (if dir = [] then [] else split_char CHR ''/'' dir) @ n # rest)"

lemma below_mono: "below dir A path \<Longrightarrow> A \<subseteq> B \<Longrightarrow> below dir B path"
  unfolding below_def by blast

lemma below_entry:
  assumes "plain_segment name" "no_backslash name" "no_backslash dir"
  shows "below dir {name} (join_rel dir name)"
  using assms split_join_rel [of name dir]
  by (auto simp: below_def plain_segment_def no_backslash_def join_rel_def)

lemma below_nested:
  assumes "plain_segment name" and "below (join_rel dir name) names path"
  shows "below dir {name} path"
  using assms split_join_rel [of name dir] by (auto simp: below_def plain_segment_def)

lemma listing_below:
  "well_formed_tree es \<Longrightarrow> no_backslash dir \<Longrightarrow> (p, c, m) \<in> set (listing excluded dir es) \<Longrightarrow>
     below dir (fst ` set es) p"
proof (induction excluded dir es rule: listing.induct)
  case (2 excluded dir name children es)
  have name: "plain_segment name" "no_backslash (join_rel dir name)"
    using 2(3,4) by (auto simp: no_backslash_def join_rel_def)
  from 2(5) consider
      "\<not> skips_dir excluded (join_rel dir name)" "(p, c, m) \<in> set (listing excluded (join_rel dir name) children)"
    | "(p, c, m) \<in> set (listing excluded dir es)"
    by (auto split: if_splits)
  then show ?case
  proof cases
    case 1
    with 2 name have "below (join_rel dir name) (fst ` set children) p" by simp
    from below_nested [OF name(1) this] show ?thesis by (rule below_mono) simp
  next
    case 2
    from 2 "2.IH"(2) "2.prems" show ?thesis by (auto intro: below_mono)
  qed
next
  case (3 excluded dir name content mode es)
  then show ?case
    using below_entry [of name dir] by (auto intro: below_mono split: if_splits)
qed (auto intro: below_mono)

lemma below_apart:
  assumes "below dir A p" and "below dir B q" and "A \<inter> B = {}"
  shows "p \<noteq> q"
  using assms by (auto simp: below_def split: if_splits)

lemma listing_distinct:
  "well_formed_tree es \<Longrightarrow> no_backslash dir \<Longrightarrow> distinct (map fst (listing excluded dir es))"
proof (induction excluded dir es rule: listing.induct)
  case (2 excluded dir name children es)
  have name: "plain_segment name" "no_backslash (join_rel dir name)" "name \<notin> fst ` set es"
    using 2(3,4) by (auto simp: no_backslash_def join_rel_def)
  have "p \<noteq> q" if "(p, c, m) \<in> set (listing excluded (join_rel dir name) children)"
    "(q, c', m') \<in> set (listing excluded dir es)" for p q c c' m m'
  proof (rule below_apart)
    show "below dir {name} p"
      by (rule below_nested [OF name(1)], rule listing_below [OF _ name(2) that(1)]) (use 2(3) in simp)
    show "below dir (fst ` set es) q"
      by (rule listing_below [OF _ 2(4) that(2)]) (use 2(3) in simp)
  qed (use name(3) in simp)
  with 2 name show ?case by fastforce
next
  case (3 excluded dir name content mode es)
  have "join_rel dir name \<noteq> q" if "(q, c', m') \<in> set (listing excluded dir es)" for q c' m'
  proof (rule below_apart)
    show "below dir {name} (join_rel dir name)" using 3(2,3) by (intro below_entry) auto
    show "below dir (fst ` set es) q"
      by (rule listing_below [OF _ 3(3) that]) (use 3(2) in simp)
  qed (use 3(2) in simp)
  with 3 show ?case by fastforce
qed simp_all

lemma below_safe: "below [] names path \<Longrightarrow> safe_relative_path path"
proof -
  assume "below [] names path"
  then obtain n rest where p: "no_backslash path" "list_all plain_segment (n # rest)"
    "split_char CHR ''/'' path = n # rest" by (auto simp: below_def)
  have path: "path = join_with ''/'' (n # rest)"
    using join_split_char [of "CHR ''/''" path] p(3) by simp
  have "split_slashes path = n # rest"
    by (simp add: split_slashes_def map_no_backslash [OF p(1)] p(3))
  then show ?thesis
    using join_plain_nonempty [OF p(2)] join_not_absolute [OF p(2)] p(2)
    by (auto simp: safe_relative_path_def path list_all_iff plain_segment_def)
qed

section \<open>Round trips\<close>

definition contents :: "(string \<times> string \<times> nat) list \<Rightarrow> string set" where
  "contents fs = (\<lambda>f. fst (snd f)) ` set fs"

lemma set_oput_values: "snd ` set (oput k v m) \<subseteq> insert v (snd ` set m)"
  by (induction k v m rule: oput.induct) auto

lemma store_object_values:
  "store_object digest content objects = Some objects' \<Longrightarrow> snd ` set objects' \<subseteq> insert content (snd ` set objects)"
  using set_oput_values [of "digest content" content objects]
  by (auto simp: store_object_def split: option.splits if_splits)

lemma walk_objects_values:
  "walk digest excluded dir es st = Inr st' \<Longrightarrow>
     snd ` set (w_objects st') \<subseteq> snd ` set (w_objects st) \<union> contents (listing excluded dir es)"
proof (induction digest excluded dir es st arbitrary: st' rule: walk.induct)
  case (2 digest excluded dir name children es st)
  show ?case
  proof (cases "skips_dir excluded (join_rel dir name)")
    case True
    from 2(4) True have "walk digest excluded dir es st = Inr st'" by (simp add: Let_def)
    from 2(1) [OF refl True this] True show ?thesis by (simp add: contents_def)
  next
    case False
    let ?st = "st\<lparr>w_dirs := w_dirs st @ [join_rel dir name]\<rparr>"
    from 2(4) False obtain u where few: "\<not> max_entries < length (w_dirs ?st)" and
      u: "walk digest excluded (join_rel dir name) children ?st = Inr u" "walk digest excluded dir es u = Inr st'"
      by (auto simp: Let_def split: sum.splits if_splits)
    have "contents (listing excluded dir ((name, FsDir children) # es))
        = contents (listing excluded (join_rel dir name) children) \<union> contents (listing excluded dir es)"
      using False by (simp add: contents_def image_Un)
    with 2(2) [OF refl False refl few u(1)] 2(3) [OF refl False refl few u] show ?thesis
      by simp blast
  qed
next
  case (3 digest excluded dir name content mode es st)
  show ?case
  proof (cases "name \<in> set excluded_file_names")
    case True
    from 3(3) True have "walk digest excluded dir es st = Inr st'" by (simp add: Let_def)
    from 3(1) [OF refl True this] True show ?thesis by simp
  next
    case False
    let ?e = "\<lparr> fe_path = join_rel dir name, fe_hash = digest content, fe_size = length content, fe_mode = mode \<rparr>"
    from 3(3) False obtain objects where o': "store_object digest content (w_objects st) = Some objects"
      by (auto simp: Let_def split: option.splits)
    let ?st = "st\<lparr>w_files := w_files st @ [?e], w_objects := objects\<rparr>"
    from 3(3) False o' have few: "\<not> max_entries < length (w_files ?st)"
      and rest: "walk digest excluded dir es ?st = Inr st'"
      by (auto simp: Let_def split: if_splits)
    from 3(2) [OF refl False o' refl few rest] store_object_values [OF o'] False show ?thesis
      by (auto simp: contents_def)
  qed
qed simp_all

lemma nat_value_of_nat: "n \<le> bound \<Longrightarrow> nat_value bound (Some (JNum (Fin (of_nat n)))) = Some n"
  by (simp add: nat_value_def)

lemma parse_file_entry_json:
  "safe_relative_path (fe_path f) \<Longrightarrow> sha256_text (fe_hash f) \<Longrightarrow> fe_size f \<le> max_safe_integer \<Longrightarrow>
     fe_mode f \<le> 511 \<Longrightarrow> parse_file_entry (file_entry_json f) = Some f"
  by (simp add: parse_file_entry_def file_entry_json_def nat_value_of_nat Let_def)

definition good_entry :: "file_entry \<Rightarrow> bool" where
  "good_entry f \<longleftrightarrow>
     safe_relative_path (fe_path f) \<and> sha256_text (fe_hash f) \<and> fe_size f \<le> max_safe_integer \<and> fe_mode f \<le> 511"

lemma parse_file_entries_json:
  "list_all good_entry fs \<Longrightarrow> distinct (seen @ map fe_path fs) \<Longrightarrow>
     parse_file_entries seen (map file_entry_json fs) = Inr fs"
  by (induction fs arbitrary: seen) (auto simp: parse_file_entry_json good_entry_def)

lemma parse_manifest_json:
  assumes "length (mf_directories m) \<le> max_entries" and "length (mf_files m) \<le> max_entries"
    and "list_all safe_relative_path (mf_directories m)" and "list_all good_entry (mf_files m)"
    and "distinct (map fe_path (mf_files m))"
  shows "parse_manifest (manifest_json m) = Inr m"
  using assms parse_file_entries_json [of "mf_files m" "[]"]
  by (simp add: parse_manifest_def manifest_json_def Let_def)

lemma directories_below:
  "well_formed_tree es \<Longrightarrow> no_backslash dir \<Longrightarrow> d \<in> set (directory_names excluded dir es) \<Longrightarrow>
     below dir (fst ` set es) d"
proof (induction excluded dir es rule: directory_names.induct)
  case (2 excluded dir name children es)
  have name: "plain_segment name" "no_backslash name" "no_backslash (join_rel dir name)"
    using 2(3,4) by (auto simp: no_backslash_def join_rel_def)
  from 2(5) consider "d = join_rel dir name"
    | "\<not> skips_dir excluded (join_rel dir name)" "d \<in> set (directory_names excluded (join_rel dir name) children)"
    | "d \<in> set (directory_names excluded dir es)"
    by (auto split: if_splits)
  then show ?case
  proof cases
    case 1
    then show ?thesis using below_entry [OF name(1,2) 2(4)] by (auto intro: below_mono)
  next
    case 2
    with "2.IH"(1) "2.prems" name have "below (join_rel dir name) (fst ` set children) d" by simp
    from below_nested [OF name(1) this] show ?thesis by (rule below_mono) simp
  next
    case 3
    with "2.IH"(2) "2.prems" show ?thesis by (auto intro: below_mono)
  qed
qed (auto intro: below_mono)

lemma listing_bounds:
  "well_formed_tree es \<Longrightarrow> (p, c, m) \<in> set (listing excluded dir es) \<Longrightarrow> m \<le> 511 \<and> length c \<le> max_safe_integer"
  by (induction excluded dir es rule: listing.induct) (auto split: if_splits)

text \<open>The manifest that retaining a directory writes is accepted by the parser and read back
  exactly.\<close>

theorem retained_manifest_roundtrip:
  assumes "retain_task_input_files digest excluded es objects = Inr (m, objects')"
    and "well_formed_tree es" and "\<And>content. sha256_text (digest content)"
  shows "parse_manifest (manifest_json m) = Inr m"
proof -
  let ?st = "\<lparr> w_dirs = [], w_files = [], w_objects = objects \<rparr>"
  from assms(1) obtain st where w: "walk digest excluded [] es ?st = Inr st"
    and m: "m = \<lparr> mf_directories = w_dirs st, mf_files = w_files st \<rparr>"
    by (auto simp: retain_task_input_files_def split: sum.splits)
  have nb: "no_backslash []" by (simp add: no_backslash_def)
  have lists: "w_files st = map (entry_of digest) (listing excluded [] es)"
    "w_dirs st = directory_names excluded [] es"
    using walk_lists [OF w] by simp_all
  have "list_all good_entry (w_files st)"
    unfolding list_all_iff lists
    using listing_below [OF assms(2) nb] listing_bounds [OF assms(2)] assms(3)
    by (fastforce simp: good_entry_def entry_of_def intro: below_safe)
  moreover have "list_all safe_relative_path (w_dirs st)"
    unfolding list_all_iff lists using directories_below [OF assms(2) nb] below_safe by blast
  moreover have "map fe_path (w_files st) = map fst (listing excluded [] es)"
    by (simp add: lists entry_of_def comp_def case_prod_unfold)
  ultimately show ?thesis
    using walk_limits [OF w] listing_distinct [OF assms(2) nb]
    by (intro parse_manifest_json) (simp_all add: m)
qed

lemma materialize_listing:
  "list_all (\<lambda>f. oget objects (digest (fst (snd f))) = Some (fst (snd f))) fs \<Longrightarrow>
     distinct (okeys disk @ map fst fs) \<Longrightarrow>
     materialize_files digest objects (map (entry_of digest) fs) disk = Inr (disk @ fs)"
  by (induction fs arbitrary: disk) (auto simp: entry_of_def)

lemma verify_listing:
  "list_all (\<lambda>f. oget objects (digest (fst (snd f))) = Some (fst (snd f))) fs \<Longrightarrow>
     verify_objects digest objects (map (entry_of digest) fs) = Inr ()"
  by (induction fs) (auto simp: entry_of_def)


section \<open>Accepted paths stay inside the destination\<close>

definition join_segments :: "string list \<Rightarrow> string \<Rightarrow> string list" where
  "join_segments root_segments path = normalize_from root_segments (split_char CHR ''/'' path)"

text \<open>Splitting at both separators cuts the segments further, so a segment without a backslash is
  left whole.\<close>

lemma split_refines_parts:
  "(no_backslash (hd (split_char CHR ''/'' p)) \<longrightarrow> hd (split_slashes p) = hd (split_char CHR ''/'' p))
   \<and> (\<forall>seg \<in> set (tl (split_char CHR ''/'' p)). no_backslash seg \<longrightarrow> seg \<in> set (tl (split_slashes p)))"
proof (induction p)
  case Nil
  then show ?case by (simp add: split_slashes_def)
next
  case (Cons a p)
  obtain s0 ss where s: "split_char CHR ''/'' p = s0 # ss"
    using split_char_nonempty [of "CHR ''/''" p] by (cases "split_char CHR ''/'' p") auto
  obtain t0 tt where t: "split_slashes p = t0 # tt"
    using split_char_nonempty by (cases "split_slashes p") (auto simp: split_slashes_def)
  from Cons s t show ?case by (auto simp: split_slashes_def no_backslash_def)
qed

lemma split_refines:
  assumes "seg \<in> set (split_char CHR ''/'' p)" and "no_backslash seg"
  shows "seg \<in> set (split_slashes p)"
proof -
  have ne: "split_char CHR ''/'' p \<noteq> []" "split_slashes p \<noteq> []" by (simp_all add: split_slashes_def)
  from assms(1) ne(1) consider "seg = hd (split_char CHR ''/'' p)" | "seg \<in> set (tl (split_char CHR ''/'' p))"
    by (cases "split_char CHR ''/'' p") auto
  then show ?thesis
    using split_refines_parts [of p] assms(2) ne(2)
    by cases (metis hd_in_set, metis list.set_sel(2))
qed

lemma safe_path_plain:
  assumes "safe_relative_path path"
  shows "list_all plain_segment (split_char CHR ''/'' path)"
proof -
  have "plain_segment seg" if seg: "seg \<in> set (split_char CHR ''/'' path)" for seg
  proof -
    have "seg \<notin> {[], ''.'', ''..''}"
    proof
      assume bad: "seg \<in> {[], ''.'', ''..''}"
      then have "seg \<in> set (split_slashes path)"
        by (intro split_refines seg) (auto simp: no_backslash_def)
      with bad assms show False by (auto simp: safe_relative_path_def list_all_iff)
    qed
    with split_char_no_sep [OF seg] show ?thesis by (simp add: plain_segment_def)
  qed
  then show ?thesis by (simp add: list_all_iff)
qed

lemma parse_file_entries_safe:
  "parse_file_entries seen raws = Inr fs \<Longrightarrow> f \<in> set fs \<Longrightarrow> safe_relative_path (fe_path f)"
  by (induction seen raws arbitrary: fs rule: parse_file_entries.induct)
     (auto simp: parse_file_entry_def Let_def split: option.splits if_splits sum.splits)

lemma parse_manifest_safe:
  assumes "parse_manifest raw = Inr m" and "path \<in> set (mf_directories m) \<union> fe_path ` set (mf_files m)"
  shows "safe_relative_path path"
  using assms
  by (auto simp: parse_manifest_def Let_def list_all_iff dest: parse_file_entries_safe
      split: option.splits if_splits sum.splits)

text \<open>Every path of an accepted manifest, joined to the destination, names an entry strictly inside
  the destination: no manifest can write outside the directory it is materialized into.\<close>

theorem manifest_paths_contained:
  assumes "parse_manifest raw = Inr m"
    and "path \<in> set (mf_directories m) \<union> fe_path ` set (mf_files m)"
  shows "join_segments destination path = destination @ split_char CHR ''/'' path
    \<and> split_char CHR ''/'' path \<noteq> [] \<and> list_all plain_segment (split_char CHR ''/'' path)"
  using safe_path_plain [OF parse_manifest_safe [OF assms]]
  by (simp add: join_segments_def normalize_from_id)

text \<open>A small directory, with a digest that is a digest of its files.\<close>

definition sample_tree :: fs_entries where
  "sample_tree =
     [(''agent.log'', FsFile ''noise'' 420), (''build'', FsDir [(''out.tsx'', FsFile ''b'' 420)]),
      (''job.json'', FsFile ''cc'' 384), (''runs'', FsDir [(''1'', FsFile ''old'' 420)])]"

definition sample_digest :: "string \<Rightarrow> string" where
  "sample_digest content = replicate 63 CHR ''0'' @ [if content = ''b'' then CHR ''b'' else CHR ''c'']"

lemma sample_tree_well_formed: "well_formed_tree sample_tree"
  by (simp add: sample_tree_def plain_segment_def no_backslash_def max_safe_integer_def)

lemma sample_listing: "listing [] [] sample_tree = [(''build/out.tsx'', ''b'', 420), (''job.json'', ''cc'', 384)]"
  by (simp add: sample_tree_def skips_dir_def join_rel_def excluded_file_names_def)

lemma sample_retained: "\<exists>m objects. retain_task_input_files sample_digest [] sample_tree [] = Inr (m, objects)"
  by (simp add: retain_task_input_files_def sample_tree_def skips_dir_def join_rel_def excluded_file_names_def
      store_object_def sample_digest_def Let_def max_entries_def)

theorem retained_manifest_roundtrip_witness:
  "\<exists>m objects. retain_task_input_files sample_digest [] sample_tree [] = Inr (m, objects)
     \<and> parse_manifest (manifest_json m) = Inr m"
proof -
  have "sha256_text (sample_digest c)" for c
    by (simp add: sha256_text_def sample_digest_def lower_hex_def char_between_def is_digit_def less_eq_char_def
        list_all_iff)
  with sample_retained retained_manifest_roundtrip [OF _ sample_tree_well_formed] show ?thesis by metis
qed


theorem manifest_paths_contained_witness:
  "\<exists>m. parse_manifest (manifest_json \<lparr> mf_directories = [''a/b''], mf_files = [] \<rparr>) = Inr m
     \<and> join_segments [''srv'', ''job''] ''a/b'' = [''srv'', ''job'', ''a'', ''b'']"
proof -
  let ?m = "\<lparr> mf_directories = [''a/b''], mf_files = [] \<rparr>"
  have "parse_manifest (manifest_json ?m) = Inr ?m"
    by (rule parse_manifest_json) (simp_all add: max_entries_def safe_relative_path_def is_absolute_def split_slashes_def)
  from manifest_paths_contained [OF this, of "''a/b''" "[''srv'', ''job'']"] this show ?thesis by simp
qed

end
