(* ===== verification/Atomic_Write.thy ===== *)
theory Atomic_Write
  imports Run_Monad Paths
begin

text \<open>
  The replacement of a checkpoint, \<open>src/server/infrastructure/persistence/atomic-write.ts\<close>. Every
  system call of the function may fail: the plan of failures is a parameter. The file system keeps
  the sequence of its states, since a reader can look at any moment. The contract the stores rely on
  is the locale \<open>checkpoint_writer\<close>.
\<close>

section \<open>The system calls\<close>

datatype io_step =
    MakeDirectory | OpenTemporary | WriteTemporary | SyncTemporary | CloseTemporary
  | RenameTemporary | SyncDirectory | CloseAgain | UnlinkTemporary

type_synonym fault_plan = "io_step \<Rightarrow> string option"

record file_system =
  fs_files :: "(string, string) omap"
  fs_history :: "(string, string) omap list"
  fs_open :: bool

type_synonym 'a io = "(file_system, string, 'a) run"

definition change_files :: "((string, string) omap \<Rightarrow> (string, string) omap) \<Rightarrow> file_system \<Rightarrow> file_system" where
  "change_files f s = s\<lparr>fs_files := f (fs_files s), fs_history := fs_history s @ [f (fs_files s)]\<rparr>"

text \<open>A call that fails leaves the files as \<open>torn\<close> says.\<close>

definition sys_call ::
  "fault_plan \<Rightarrow> io_step \<Rightarrow> ((string, string) omap \<Rightarrow> (string, string) omap)
    \<Rightarrow> ((string, string) omap \<Rightarrow> (string, string) omap) \<Rightarrow> unit io" where
  "sys_call faults step done torn =
     (case faults step of
        None \<Rightarrow> modify (change_files done)
      | Some e \<Rightarrow> next_do (modify (change_files torn)) (throw e))"

definition set_open :: "bool \<Rightarrow> unit io" where
  "set_open b = modify (\<lambda>s. s\<lparr>fs_open := b\<rparr>)"

text \<open>The clause \<open>finally\<close>: the cleanup always runs, and what it throws replaces the outcome.\<close>

definition finally_do :: "('s, 'e, 'a) run \<Rightarrow> ('s, 'e, unit) run \<Rightarrow> ('s, 'e, 'a) run" where
  "finally_do m cleanup =
     (\<lambda>s. case m s of (r, s') \<Rightarrow> (case cleanup s' of (Inl e, s'') \<Rightarrow> (Inl e, s'') | (Inr _, s'') \<Rightarrow> (r, s'')))"

section \<open>The replacement\<close>

datatype durability = DirectorySynced | RenameVisible string

definition temporary_path :: "string \<Rightarrow> string \<Rightarrow> string" where
  "temporary_path unique path =
     (let segments = split_char CHR ''/'' path in
      join_with ''/'' (butlast segments @ [''.'' @ last segments @ ''.'' @ unique @ ''.tmp'']))"

definition sync_warning :: "string \<Rightarrow> string \<Rightarrow> string" where
  "sync_warning path e =
     ''Atomic checkpoint '' @ last (split_char CHR ''/'' path)
     @ '' was renamed, but its directory sync failed: '' @ e"

definition sync_directory :: "fault_plan \<Rightarrow> string \<Rightarrow> durability io" where
  "sync_directory faults path =
     catch (next_do (sys_call faults SyncDirectory id id) (return DirectorySynced))
       (\<lambda>e. return (RenameVisible (sync_warning path e)))"

definition replace_file :: "fault_plan \<Rightarrow> (string \<Rightarrow> string) \<Rightarrow> string \<Rightarrow> string \<Rightarrow> string \<Rightarrow> durability io" where
  "replace_file faults partial temp path content =
     next_do (sys_call faults OpenTemporary (oput temp []) id) (
     next_do (set_open True) (
     next_do (sys_call faults WriteTemporary (oput temp content) (oput temp (partial content))) (
     next_do (sys_call faults SyncTemporary id id) (
     next_do (sys_call faults CloseTemporary id id) (
     next_do (set_open False) (
     next_do (sys_call faults RenameTemporary (\<lambda>m. oput path content (odel temp m)) id)
       (sync_directory faults path)))))))"

definition remove_temporary :: "fault_plan \<Rightarrow> string \<Rightarrow> unit io" where
  "remove_temporary faults temp =
     bind (gets fs_open) (\<lambda>still_open.
     next_do (if still_open then sys_call faults CloseAgain id id else return ())
       (catch (sys_call faults UnlinkTemporary (odel temp) id) (\<lambda>_. return ())))"

definition atomic_write_text ::
  "fault_plan \<Rightarrow> (string \<Rightarrow> string) \<Rightarrow> string \<Rightarrow> string \<Rightarrow> string \<Rightarrow> durability io" where
  "atomic_write_text faults partial unique path content =
     (let temp = temporary_path unique path in
      next_do (sys_call faults MakeDirectory id id)
        (finally_do (replace_file faults partial temp path content) (remove_temporary faults temp)))"

text \<open>A value is rendered with a final line feed; the renderer of JSON text is a parameter.\<close>

definition atomic_write_json ::
  "('a \<Rightarrow> string) \<Rightarrow> fault_plan \<Rightarrow> (string \<Rightarrow> string) \<Rightarrow> string \<Rightarrow> string \<Rightarrow> 'a \<Rightarrow> durability io" where
  "atomic_write_json render faults partial unique path v =
     atomic_write_text faults partial unique path (render v @ [CHR 0x0A])"

section \<open>What a reader can see\<close>

text \<open>From a state of the files on, a reader of any other path than the temporary one has seen the old
  files, or the old files with the new content at the path.\<close>

definition unchanged :: "string \<Rightarrow> (string, string) omap \<Rightarrow> (string, string) omap \<Rightarrow> bool" where
  "unchanged temp old m \<longleftrightarrow> (\<forall>q. q \<noteq> temp \<longrightarrow> oget m q = oget old q)"

definition replaced :: "string \<Rightarrow> string \<Rightarrow> string \<Rightarrow> (string, string) omap \<Rightarrow> (string, string) omap \<Rightarrow> bool" where
  "replaced temp path content old m \<longleftrightarrow>
     (\<forall>q. q \<noteq> temp \<longrightarrow> oget m q = (if q = path then Some content else oget old q))"

definition all_or_nothing ::
  "string \<Rightarrow> string \<Rightarrow> string \<Rightarrow> (string, string) omap \<Rightarrow> file_system \<Rightarrow> bool" where
  "all_or_nothing temp path content old s \<longleftrightarrow>
     list_all (\<lambda>m. unchanged temp old m \<or> replaced temp path content old m) (fs_history s)"

definition before_rename :: "string \<Rightarrow> string \<Rightarrow> string \<Rightarrow> (string, string) omap \<Rightarrow> file_system \<Rightarrow> bool" where
  "before_rename temp path content old s \<longleftrightarrow>
     all_or_nothing temp path content old s \<and> unchanged temp old (fs_files s)"

definition after_rename :: "string \<Rightarrow> string \<Rightarrow> string \<Rightarrow> (string, string) omap \<Rightarrow> file_system \<Rightarrow> bool" where
  "after_rename temp path content old s \<longleftrightarrow>
     all_or_nothing temp path content old s \<and> replaced temp path content old (fs_files s) \<and> \<not> fs_open s"

lemma change_files_simps [simp]:
  "fs_files (change_files f s) = f (fs_files s)"
  "fs_history (change_files f s) = fs_history s @ [f (fs_files s)]"
  "fs_open (change_files f s) = fs_open s"
  by (simp_all add: change_files_def)

lemma sys_call_before:
  assumes "\<And>m. unchanged temp old m \<Longrightarrow> unchanged temp old (f m)"
    and "\<And>m. unchanged temp old m \<Longrightarrow> unchanged temp old (g m)"
  shows "keeps (before_rename temp path content old) (sys_call faults step f g)"
  using assms unfolding sys_call_def
  by (auto intro!: keeps_modify keeps_next_do split: option.split simp: before_rename_def all_or_nothing_def)

lemma sys_call_after:
  assumes "\<And>m. replaced temp path content old m \<Longrightarrow> replaced temp path content old (f m)"
    and "\<And>m. replaced temp path content old m \<Longrightarrow> replaced temp path content old (g m)"
  shows "keeps (after_rename temp path content old) (sys_call faults step f g)"
  using assms unfolding sys_call_def
  by (auto intro!: keeps_modify keeps_next_do split: option.split simp: after_rename_def all_or_nothing_def)

lemma unchanged_temp [simp]:
  "unchanged temp old (oput temp c m) = unchanged temp old m"
  "unchanged temp old (odel temp m) = unchanged temp old m"
  "replaced temp path content old (odel temp m) = replaced temp path content old m"
  by (auto simp: unchanged_def replaced_def)

lemma set_open_before: "keeps (before_rename temp path content old) (set_open b)"
  unfolding set_open_def by (rule keeps_modify) (simp add: before_rename_def all_or_nothing_def)

lemma remove_before: "keeps (before_rename temp path content old) (remove_temporary faults temp)"
  unfolding remove_temporary_def
  by (intro keeps_bind keeps_next_do keeps_catch keeps_gets keeps_return keeps_if sys_call_before) simp_all

lemma remove_after: "keeps (after_rename temp path content old) (remove_temporary faults temp)"
  unfolding remove_temporary_def
  by (intro keeps_bind keeps_next_do keeps_catch keeps_gets keeps_return keeps_if sys_call_after) simp_all

lemma keepsD: "keeps P m \<Longrightarrow> P s \<Longrightarrow> m s = (r, t) \<Longrightarrow> P t"
  unfolding keeps_def by (metis snd_conv)

lemma sync_directory_after:
  "after_rename temp path content old s \<Longrightarrow>
     \<exists>d t. sync_directory faults path s = (Inr d, t) \<and> after_rename temp path content old t"
proof -
  assume a: "after_rename temp path content old s"
  have "keeps (after_rename temp path content old) (sync_directory faults path)"
    unfolding sync_directory_def by (intro keeps_catch keeps_next_do keeps_return sys_call_after) simp_all
  moreover have "never_throws (sync_directory faults path)"
    unfolding sync_directory_def by (intro never_throws_catch never_throws_return)
  ultimately show ?thesis
    using a unfolding never_throws_def by (metis keepsD)
qed

lemma rename_after:
  assumes "temp \<noteq> path" and "before_rename temp path content old s" and "\<not> fs_open s"
    and "sys_call faults RenameTemporary (\<lambda>m. oput path content (odel temp m)) id s = (Inr u, t)"
  shows "after_rename temp path content old t"
proof -
  have t: "t = change_files (\<lambda>m. oput path content (odel temp m)) s"
    using assms(4) by (simp add: sys_call_def run_rules split: option.splits)
  have "replaced temp path content old (oput path content (odel temp (fs_files s)))"
    using assms(1,2) by (simp add: replaced_def before_rename_def unchanged_def)
  then show ?thesis
    using assms(2,3) by (simp add: t after_rename_def before_rename_def all_or_nothing_def)
qed

lemma replace_file_effect:
  assumes temp: "temp \<noteq> path" and s: "before_rename temp path content old s"
    and run: "replace_file faults partial temp path content s = (r, t)"
  shows "(\<exists>e. r = Inl e \<and> before_rename temp path content old t)
    \<or> (\<exists>d. r = Inr d \<and> after_rename temp path content old t)"
proof -
  let ?B = "before_rename temp path content old"
  let ?pre = "next_do (sys_call faults OpenTemporary (oput temp []) id) (
     next_do (set_open True) (
     next_do (sys_call faults WriteTemporary (oput temp content) (oput temp (partial content))) (
     next_do (sys_call faults SyncTemporary id id) (
     next_do (sys_call faults CloseTemporary id id) (set_open False)))))"
  have pre: "keeps ?B ?pre"
    by (intro keeps_next_do sys_call_before set_open_before) simp_all
  have closed: "?pre s = (Inr u, v) \<Longrightarrow> \<not> fs_open v" for u v
    by (auto simp: run_rules set_open_def)
  have seq: "replace_file faults partial temp path content
      = next_do ?pre (next_do (sys_call faults RenameTemporary (\<lambda>m. oput path content (odel temp m)) id)
          (sync_directory faults path))"
    by (rule ext)
       (simp add: replace_file_def next_do_def bind_def split: prod.split sum.split)
  obtain x v where v: "?pre s = (x, v)" by fastforce
  have bv: "?B v" using keepsD [OF pre s v] .
  let ?ren = "sys_call faults RenameTemporary (\<lambda>m. oput path content (odel temp m)) id"
  show ?thesis
  proof (cases x)
    case (Inl e)
    with run v bv show ?thesis by (auto simp: seq next_do_def bind_def)
  next
    case (Inr u)
    obtain y w where w: "?ren v = (y, w)" by fastforce
    show ?thesis
    proof (cases y)
      case (Inl e)
      then have "w = change_files id v"
        using w by (auto simp: sys_call_def run_rules split: option.splits)
      then have "?B w" using bv by (simp add: before_rename_def all_or_nothing_def)
      with run v Inr w Inl show ?thesis by (auto simp: seq next_do_def bind_def)
    next
      case (Inr u')
      from rename_after [OF temp bv] closed v \<open>x = Inr u\<close> w Inr
      have "after_rename temp path content old w" by blast
      from sync_directory_after [OF this, of faults] obtain d t' where
        "sync_directory faults path w = (Inr d, t')" "after_rename temp path content old t'" by blast
      with run v \<open>x = Inr u\<close> w Inr show ?thesis by (auto simp: seq next_do_def bind_def)
    qed
  qed
qed

lemma next_do_return: "next_do (return a) n = n"
  by (rule ext) (simp add: next_do_def bind_def return_def)

lemma remove_after_returns:
  "after_rename temp path content old s \<Longrightarrow>
     \<exists>t. remove_temporary faults temp s = (Inr (), t) \<and> after_rename temp path content old t"
proof -
  assume a: "after_rename temp path content old s"
  have unlink: "never_throws (catch (sys_call faults UnlinkTemporary (odel temp) id) (\<lambda>_. return ()))"
    by (intro never_throws_catch never_throws_return)
  then obtain t where "catch (sys_call faults UnlinkTemporary (odel temp) id) (\<lambda>_. return ()) s = (Inr (), t)"
    unfolding never_throws_def by (metis old.unit.exhaust)
  then have "remove_temporary faults temp s = (Inr (), t)"
    using a by (simp add: remove_temporary_def after_rename_def bind_gets next_do_return)
  with keepsD [OF remove_after a] show ?thesis by blast
qed

lemma atomic_write_effect:
  assumes temp: "temporary_path unique path \<noteq> path"
    and s: "before_rename (temporary_path unique path) path content old s"
    and run: "atomic_write_text faults partial unique path content s = (r, t)"
  shows "(\<exists>e. r = Inl e \<and> before_rename (temporary_path unique path) path content old t)
    \<or> (\<exists>d. r = Inr d \<and> after_rename (temporary_path unique path) path content old t)"
proof -
  let ?temp = "temporary_path unique path"
  let ?B = "before_rename ?temp path content old"
  have mk: "keeps ?B (sys_call faults MakeDirectory id id)" by (rule sys_call_before) simp_all
  obtain x u where x: "sys_call faults MakeDirectory id id s = (x, u)" by fastforce
  note u = keepsD [OF mk s x]
  show ?thesis
  proof (cases x)
    case (Inl e)
    with run x u show ?thesis by (auto simp: atomic_write_text_def next_do_def bind_def Let_def)
  next
    case (Inr i)
    obtain y v where y: "replace_file faults partial ?temp path content u = (y, v)" by fastforce
    obtain z w where z: "remove_temporary faults ?temp v = (z, w)" by fastforce
    have rt: "r = (case z of Inl e \<Rightarrow> Inl e | Inr _ \<Rightarrow> y)" "t = w"
      using run x y z Inr
      by (auto simp: atomic_write_text_def next_do_def bind_def finally_do_def Let_def split: sum.splits)
    from replace_file_effect [OF temp u y] show ?thesis
    proof (elim disjE exE conjE)
      fix e assume "y = Inl e" "?B v"
      with keepsD [OF remove_before _ z] rt show ?thesis by (cases z) auto
    next
      fix d assume "y = Inr d" "after_rename ?temp path content old v"
      with remove_after_returns [of ?temp path content old v faults] z rt show ?thesis by auto
    qed
  qed
qed

text \<open>A checkpoint path is not a temporary one.\<close>

definition checkpoint_name :: "string \<Rightarrow> bool" where
  "checkpoint_name p \<longleftrightarrow> \<not> suffix ''.tmp'' p"

lemma suffix_join: "suffix s x \<Longrightarrow> suffix s (join_with sep (xs @ [x]))"
proof (induction xs)
  case (Cons a xs)
  then show ?case by (cases xs) (auto intro: suffix_appendI)
qed simp

lemma temporary_path_suffix: "suffix ''.tmp'' (temporary_path unique path)"
  unfolding temporary_path_def Let_def by (rule suffix_join) (simp add: suffix_def)

lemma checkpoint_not_temporary: "checkpoint_name p \<Longrightarrow> temporary_path unique q \<noteq> p"
  using temporary_path_suffix by (auto simp: checkpoint_name_def)

text \<open>C24. Whatever system calls fail, every state of the files that a reader can observe holds either
  the old checkpoint or the complete new one, and the write reports an error exactly when the old
  one is still in place.\<close>

theorem atomic_write_all_or_nothing:
  assumes "checkpoint_name path"
    and "atomic_write_text faults partial unique path content
           \<lparr> fs_files = files, fs_history = [files], fs_open = False \<rparr> = (r, t)"
  shows "list_all (\<lambda>m. oget m path = oget files path \<or> oget m path = Some content) (fs_history t)
    \<and> (case r of Inl e \<Rightarrow> oget (fs_files t) path = oget files path
       | Inr d \<Rightarrow> oget (fs_files t) path = Some content)
    \<and> (\<forall>q. checkpoint_name q \<and> q \<noteq> path \<longrightarrow> oget (fs_files t) q = oget files q)"
proof -
  let ?temp = "temporary_path unique path"
  let ?s = "\<lparr> fs_files = files, fs_history = [files], fs_open = False \<rparr>"
  note temp = checkpoint_not_temporary [OF assms(1), of unique path]
  have "before_rename ?temp path content files ?s"
    by (simp add: before_rename_def all_or_nothing_def unchanged_def)
  from atomic_write_effect [OF temp this assms(2)] temp checkpoint_not_temporary [of _ unique path]
  show ?thesis
    by (fastforce simp: before_rename_def after_rename_def all_or_nothing_def unchanged_def replaced_def list_all_iff)
qed

theorem atomic_write_all_or_nothing_witness:
  "\<exists>r t. atomic_write_text (\<lambda>step. if step = WriteTemporary then Some ''disk full'' else None) (take 1) ''7''
      ''/j/job.json'' ''new'' \<lparr> fs_files = [(''/j/job.json'', ''old'')],
        fs_history = [[(''/j/job.json'', ''old'')]], fs_open = False \<rparr> = (r, t)
    \<and> list_all (\<lambda>m. oget m ''/j/job.json'' = Some ''old'' \<or> oget m ''/j/job.json'' = Some ''new'') (fs_history t)"
proof -
  obtain r t where run: "atomic_write_text (\<lambda>step. if step = WriteTemporary then Some ''disk full'' else None) (take 1) ''7''
      ''/j/job.json'' ''new'' \<lparr> fs_files = [(''/j/job.json'', ''old'')],
        fs_history = [[(''/j/job.json'', ''old'')]], fs_open = False \<rparr> = (r, t)"
    by fastforce
  have "checkpoint_name ''/j/job.json''" by (simp add: checkpoint_name_def suffix_def)
  from atomic_write_all_or_nothing [OF this run] run show ?thesis by simp
qed

section \<open>The contract of a checkpoint writer\<close>

locale checkpoint_writer =
  fixes save :: "string \<Rightarrow> 'c \<Rightarrow> 'd \<Rightarrow> (string + unit) \<times> 'd"
    and holds :: "'d \<Rightarrow> string \<Rightarrow> 'c \<Rightarrow> bool"
    and valid :: "string \<Rightarrow> bool"
  assumes write_failed: "valid p \<Longrightarrow> save p c d = (Inl e, d') \<Longrightarrow> valid q \<Longrightarrow> holds d' q = holds d q"
    and write_stored: "valid p \<Longrightarrow> save p c d = (Inr u, d') \<Longrightarrow> holds d' p c"
    and write_other: "valid p \<Longrightarrow> save p c d = (Inr u, d') \<Longrightarrow> valid q \<Longrightarrow> q \<noteq> p \<Longrightarrow> holds d' q = holds d q"
begin

lemma write_cases:
  assumes "valid p" and "save p c d = (r, d')"
  shows "(\<exists>e. r = Inl e \<and> (\<forall>q. valid q \<longrightarrow> holds d' q = holds d q))
    \<or> (r = Inr () \<and> holds d' p c \<and> (\<forall>q. valid q \<and> q \<noteq> p \<longrightarrow> holds d' q = holds d q))"
proof (cases r)
  case (Inl e)
  with assms write_failed [of p c d e d'] show ?thesis by auto
next
  case (Inr u)
  with assms write_stored [of p c d u d'] write_other [of p c d u d'] show ?thesis by auto
qed

lemma write_elsewhere:
  "valid p \<Longrightarrow> save p c d = (r, d') \<Longrightarrow> valid q \<Longrightarrow> q \<noteq> p \<Longrightarrow> holds d' q = holds d q"
  using write_cases [of p c d r d'] by auto

end

text \<open>The default writer of the stores: its state is the files and the failures the disk has planned for
  the writes to come, one plan for each write.\<close>

record disk =
  disk_files :: "(string, string) omap"
  disk_plans :: "fault_plan list"

definition no_faults :: fault_plan where
  "no_faults = (\<lambda>_. None)"

definition write_checkpoint :: "string \<Rightarrow> string \<Rightarrow> disk \<Rightarrow> (string + unit) \<times> disk" where
  "write_checkpoint path content d =
     (let faults = (case disk_plans d of [] \<Rightarrow> no_faults | p # ps \<Rightarrow> p);
          unique = nat_str (length (disk_plans d)) in
      case atomic_write_text faults id unique path content
             \<lparr> fs_files = disk_files d, fs_history = [], fs_open = False \<rparr> of
        (r, s) \<Rightarrow> (map_sum id (\<lambda>_. ()) r, \<lparr> disk_files = fs_files s, disk_plans = tl (disk_plans d) \<rparr>))"

definition write_json_checkpoint :: "('a \<Rightarrow> string) \<Rightarrow> string \<Rightarrow> 'a \<Rightarrow> disk \<Rightarrow> (string + unit) \<times> disk" where
  "write_json_checkpoint render path v d =
     (let faults = (case disk_plans d of [] \<Rightarrow> no_faults | p # ps \<Rightarrow> p);
          unique = nat_str (length (disk_plans d)) in
      case atomic_write_json render faults id unique path v
             \<lparr> fs_files = disk_files d, fs_history = [], fs_open = False \<rparr> of
        (r, s) \<Rightarrow> (map_sum id (\<lambda>_. ()) r, \<lparr> disk_files = fs_files s, disk_plans = tl (disk_plans d) \<rparr>))"

definition read_checkpoint :: "disk \<Rightarrow> string \<Rightarrow> string option" where
  "read_checkpoint d p = oget (disk_files d) p"

definition holds_text :: "disk \<Rightarrow> string \<Rightarrow> string \<Rightarrow> bool" where
  "holds_text d p c \<longleftrightarrow> read_checkpoint d p = Some c"

definition holds_json :: "('a \<Rightarrow> string) \<Rightarrow> disk \<Rightarrow> string \<Rightarrow> 'a \<Rightarrow> bool" where
  "holds_json render d p v \<longleftrightarrow> read_checkpoint d p = Some (render v @ [CHR 0x0A])"

lemma write_json_checkpoint_text: "write_json_checkpoint render p v = write_checkpoint p (render v @ [CHR 0x0A])"
  by (rule ext) (simp add: write_json_checkpoint_def write_checkpoint_def atomic_write_json_def)

lemma write_checkpoint_effect:
  assumes "checkpoint_name p" and "write_checkpoint p c d = (r, d')" and "checkpoint_name q"
  shows "read_checkpoint d' q
    = (case r of Inl e \<Rightarrow> read_checkpoint d q | Inr _ \<Rightarrow> if q = p then Some c else read_checkpoint d q)"
proof -
  let ?unique = "nat_str (length (disk_plans d))"
  let ?faults = "case disk_plans d of [] \<Rightarrow> no_faults | p # ps \<Rightarrow> p"
  let ?s = "\<lparr> fs_files = disk_files d, fs_history = [], fs_open = False \<rparr>"
  obtain x t where run: "atomic_write_text ?faults id ?unique p c ?s = (x, t)" by fastforce
  have d': "r = map_sum id (\<lambda>_. ()) x" "disk_files d' = fs_files t"
    using assms(2) run by (auto simp: write_checkpoint_def Let_def)
  have "before_rename (temporary_path ?unique p) p c (disk_files d) ?s"
    by (simp add: before_rename_def all_or_nothing_def unchanged_def)
  from atomic_write_effect [OF checkpoint_not_temporary [OF assms(1)] this run] show ?thesis
    using checkpoint_not_temporary [OF assms(3), of ?unique p] d'
    by (auto simp: before_rename_def after_rename_def unchanged_def replaced_def read_checkpoint_def)
qed

interpretation atomic: checkpoint_writer write_checkpoint holds_text checkpoint_name
proof unfold_locales
  fix p c d e d' q u
  show "checkpoint_name p \<Longrightarrow> write_checkpoint p c d = (Inl e, d') \<Longrightarrow> checkpoint_name q \<Longrightarrow> holds_text d' q = holds_text d q"
    by (rule ext) (simp add: holds_text_def write_checkpoint_effect [of p c d "Inl e" d' q])
  show "checkpoint_name p \<Longrightarrow> write_checkpoint p c d = (Inr u, d') \<Longrightarrow> holds_text d' p c"
    by (simp add: holds_text_def write_checkpoint_effect [of p c d "Inr u" d' p])
  show "checkpoint_name p \<Longrightarrow> write_checkpoint p c d = (Inr u, d') \<Longrightarrow> checkpoint_name q \<Longrightarrow> q \<noteq> p \<Longrightarrow>
      holds_text d' q = holds_text d q"
    by (rule ext) (simp add: holds_text_def write_checkpoint_effect [of p c d "Inr u" d' q])
qed

interpretation atomic_json: checkpoint_writer "write_json_checkpoint render" "holds_json render" checkpoint_name
  for render :: "'a \<Rightarrow> string"
proof unfold_locales
  fix p c d e d' q u
  show "checkpoint_name p \<Longrightarrow> write_json_checkpoint render p c d = (Inl e, d') \<Longrightarrow> checkpoint_name q \<Longrightarrow>
      holds_json render d' q = holds_json render d q"
    by (rule ext) (simp add: holds_json_def write_json_checkpoint_text write_checkpoint_effect [of p _ d "Inl e" d' q])
  show "checkpoint_name p \<Longrightarrow> write_json_checkpoint render p c d = (Inr u, d') \<Longrightarrow> holds_json render d' p c"
    by (simp add: holds_json_def write_json_checkpoint_text write_checkpoint_effect [of p _ d "Inr u" d' p])
  show "checkpoint_name p \<Longrightarrow> write_json_checkpoint render p c d = (Inr u, d') \<Longrightarrow> checkpoint_name q \<Longrightarrow> q \<noteq> p \<Longrightarrow>
      holds_json render d' q = holds_json render d q"
    by (rule ext) (simp add: holds_json_def write_json_checkpoint_text write_checkpoint_effect [of p _ d "Inr u" d' q])
qed

lemma checkpoint_name_join: "plain_segment name \<Longrightarrow> \<not> suffix ''.tmp'' name \<Longrightarrow> 4 \<le> length name \<Longrightarrow> checkpoint_name (path_join dir name)"
proof -
  assume name: "plain_segment name" "\<not> suffix ''.tmp'' name" "4 \<le> length name"
  obtain p where "path_join dir name = p @ name" using path_join_name [OF name(1)] by blast
  moreover have "\<not> suffix ''.tmp'' (p @ name)"
  proof
    assume "suffix ''.tmp'' (p @ name)"
    moreover have "suffix name (p @ name)" by (simp add: suffix_def)
    ultimately have "suffix ''.tmp'' name"
      using name(3) suffix_length_suffix [of "''.tmp''" "p @ name" name] by simp
    with name(2) show False by simp
  qed
  ultimately show ?thesis by (simp add: checkpoint_name_def)
qed

end
