(* ===== verification/Bounded_Log.thy ===== *)
theory Bounded_Log
  imports Atomic_Write Json
begin

text \<open>
  The bounded logs of jobs and model runs, \<open>src/server/infrastructure/persistence/bounded-log.ts\<close>.
  A file is its sequence of bytes; the text of a log is limited to characters below 256, each of
  which UTF-8 encodes in one or two bytes. Appends to one path are serialized by a queue, so one
  append runs at a time.
\<close>

section \<open>Rendering a log event\<close>

datatype log_stream = SystemStream | StdoutStream | StderrStream

record job_log =
  log_id :: string
  log_created_at :: string
  log_stream :: log_stream
  log_message :: string

fun stream_text :: "log_stream \<Rightarrow> string" where
  "stream_text SystemStream = ''system''"
| "stream_text StdoutStream = ''stdout''"
| "stream_text StderrStream = ''stderr''"

definition utf8_char :: "char \<Rightarrow> string" where
  "utf8_char c =
     (let n = of_char c :: nat in
      if n < 128 then [c] else [char_of (192 + n div 64), char_of (128 + n mod 64)])"

definition utf8 :: "string \<Rightarrow> string" where
  "utf8 s = concat (map utf8_char s)"

definition json_field :: "string \<Rightarrow> string \<Rightarrow> string" where
  "json_field k v = json_quote k @ '':'' @ json_quote v"

definition serialize_log :: "job_log \<Rightarrow> string" where
  "serialize_log l =
     ''{'' @ join_with '','' [json_field ''log_id'' (log_id l), json_field ''created_at'' (log_created_at l),
                          json_field ''stream'' (stream_text (log_stream l)),
                          json_field ''message'' (log_message l)] @ ''}'' @ [CHR 0x0A]"

definition byte_length :: "string \<Rightarrow> nat" where
  "byte_length s = length (utf8 s)"

section \<open>Bounds\<close>

definition recent_log_event_limit :: nat where
  "recent_log_event_limit = 500"

definition persisted_log_file_byte_limit :: nat where
  "persisted_log_file_byte_limit = 2 * 1024 * 1024"

definition persisted_log_event_byte_limit :: nat where
  "persisted_log_event_byte_limit = 256 * 1024"

definition truncation_marker :: string where
  "truncation_marker = ''[... earlier bytes in this log event were truncated ...]'' @ [CHR 0x0A]"

definition last_chars :: "nat \<Rightarrow> string \<Rightarrow> string" where
  "last_chars n s = drop (length s - n) s"

definition cap_recent_logs :: "job_log list \<Rightarrow> job_log list" where
  "cap_recent_logs logs = drop (length logs - recent_log_event_limit) logs"

definition with_tail :: "job_log \<Rightarrow> nat \<Rightarrow> job_log" where
  "with_tail l n = l\<lparr>log_message := truncation_marker @ last_chars n (log_message l)\<rparr>"

definition tail_fits :: "job_log \<Rightarrow> nat \<Rightarrow> bool" where
  "tail_fits l n \<longleftrightarrow> byte_length (serialize_log (with_tail l n)) \<le> persisted_log_event_byte_limit"

text \<open>The binary search for the number of characters retained.\<close>

function retain_search :: "(nat \<Rightarrow> bool) \<Rightarrow> int \<Rightarrow> int \<Rightarrow> nat \<Rightarrow> nat" where
  "retain_search fits minimum maximum retained =
     (if minimum \<le> maximum
      then (let retained_characters = (minimum + maximum) div 2 in
            if fits (nat retained_characters)
            then retain_search fits (retained_characters + 1) maximum (nat retained_characters)
            else retain_search fits minimum (retained_characters - 1) retained)
      else retained)"
  by pat_completeness auto
termination
  by (relation "measure (\<lambda>(fits, minimum, maximum, retained). nat (maximum - minimum + 1))") auto

declare retain_search.simps [simp del]

definition prepare_bounded_log_event :: "job_log \<Rightarrow> job_log" where
  "prepare_bounded_log_event l =
     (if byte_length (serialize_log l) \<le> persisted_log_event_byte_limit then l
      else with_tail l (retain_search (tail_fits l) 0 (int (length (log_message l))) 0))"

section \<open>The file of a log\<close>

definition read_bounded_tail :: "nat \<Rightarrow> string \<Rightarrow> string" where
  "read_bounded_tail max_bytes content =
     (let bounded = max 1 max_bytes; content_start = length content - bounded in
      if content_start = 0 then content
      else
        (let bytes = drop (content_start - 1) content; tail = tl bytes in
         if hd bytes = CHR 0x0A then tail
         else (case dropWhile (\<lambda>b. b \<noteq> CHR 0x0A) tail of [] \<Rightarrow> [] | _ # rest \<Rightarrow> rest)))"

text \<open>What stands at the path of the current file, and the archive. The system calls of an append fail as
  a plan of failures says; a write that fails has written a number of bytes, and the truncation that
  follows may fail as well.\<close>

datatype log_entry = MissingFile | RegularFile string | IrregularFile

record log_file =
  current_log :: log_entry
  archive_log :: "string option"

record append_faults =
  directory_fault :: "string option"
  archive_fault :: "string option"
  reset_fault :: "string option"
  open_fault :: "string option"
  write_fault :: "(string \<times> nat \<times> bool) option"

type_synonym 'a append_io = "(log_file, string, 'a) run"

definition oversized_event :: string where
  "oversized_event = ''Persisted log event exceeds '' @ nat_str persisted_log_event_byte_limit @ '' bytes''"

definition irregular_log :: string where
  "irregular_log = ''Persisted log must be a regular file and not a symlink''"

definition check_call :: "string option \<Rightarrow> unit append_io" where
  "check_call fault = (case fault of None \<Rightarrow> return () | Some e \<Rightarrow> throw e)"

fun entry_content :: "log_entry \<Rightarrow> string" where
  "entry_content (RegularFile c) = c"
| "entry_content _ = []"

definition rotate_current_log :: "append_faults \<Rightarrow> unit append_io" where
  "rotate_current_log faults =
     bind (gets (\<lambda>f. read_bounded_tail persisted_log_file_byte_limit (entry_content (current_log f)))) (\<lambda>archive_text.
     next_do (check_call (archive_fault faults)) (
     next_do (modify (\<lambda>f. f\<lparr>archive_log := Some archive_text\<rparr>)) (
     next_do (check_call (reset_fault faults))
       (modify (\<lambda>f. f\<lparr>current_log := RegularFile []\<rparr>)))))"

definition write_line :: "append_faults \<Rightarrow> string \<Rightarrow> unit append_io" where
  "write_line faults line =
     bind (gets (\<lambda>f. entry_content (current_log f))) (\<lambda>before.
     case write_fault faults of
       None \<Rightarrow> modify (\<lambda>f. f\<lparr>current_log := RegularFile (before @ line)\<rparr>)
     | Some (e, written, truncated) \<Rightarrow>
         next_do (modify (\<lambda>f. f\<lparr>current_log := RegularFile (before @ take written line)\<rparr>)) (
         next_do (if truncated then modify (\<lambda>f. f\<lparr>current_log := RegularFile before\<rparr>) else return ())
           (throw e)))"

definition append_bounded_log_event :: "append_faults \<Rightarrow> job_log \<Rightarrow> unit append_io" where
  "append_bounded_log_event faults l =
     (let line = utf8 (serialize_log l); line_bytes = length line in
      next_do (if line_bytes > persisted_log_event_byte_limit then throw oversized_event else return ()) (
      next_do (check_call (directory_fault faults)) (
      bind (gets current_log) (\<lambda>metadata.
      next_do (if metadata = IrregularFile then throw irregular_log else return ()) (
      let current_size = length (entry_content metadata) in
      next_do (if current_size + line_bytes > persisted_log_file_byte_limit
               then rotate_current_log faults else return ()) (
      next_do (check_call (open_fault faults))
        (write_line faults line)))))))"

section \<open>The retained tail is the longest that fits\<close>

lemma utf8_append [simp]: "utf8 (s @ t) = utf8 s @ utf8 t"
  by (simp add: utf8_def)

lemma byte_length_append [simp]: "byte_length (s @ t) = byte_length s + byte_length t"
  by (simp add: byte_length_def)

lemma byte_length_quote_mono:
  "byte_length (json_quote (m @ drop i s)) \<le> byte_length (json_quote (m @ drop j s))" if "j \<le> i"
proof -
  have "drop j s = take (i - j) (drop j s) @ drop i s"
    using that by (metis append_take_drop_id drop_drop le_add_diff_inverse2)
  then have "byte_length (concat (map json_escape (drop i s))) \<le> byte_length (concat (map json_escape (drop j s)))"
    by (metis byte_length_append concat_append le_add2 map_append)
  moreover have "byte_length (json_quote (m @ x))
      = byte_length (CHR 0x22 # concat (map json_escape m)) + byte_length (concat (map json_escape x)) + byte_length [CHR 0x22]" for x
    by (simp add: json_quote_def byte_length_def utf8_def)
  ultimately show ?thesis by simp
qed

text \<open>The rendering of an event around its message.\<close>

definition log_prefix :: "job_log \<Rightarrow> string" where
  "log_prefix l = ''{'' @ json_field ''log_id'' (log_id l) @ '','' @ json_field ''created_at'' (log_created_at l) @ '',''
     @ json_field ''stream'' (stream_text (log_stream l)) @ '','' @ json_quote ''message'' @ '':''"

lemma serialize_log_parts: "serialize_log l = log_prefix l @ json_quote (log_message l) @ (''}'' @ [CHR 0x0A])"
  unfolding serialize_log_def log_prefix_def json_field_def
  by (simp only: join_with.simps append_assoc)

lemma log_prefix_with_tail: "log_prefix (with_tail l n) = log_prefix l"
  by (simp add: log_prefix_def with_tail_def)

lemma tail_fits_mono: "m \<le> n \<Longrightarrow> tail_fits l n \<Longrightarrow> tail_fits l m"
proof -
  assume mn: "m \<le> n" and fits: "tail_fits l n"
  have "byte_length (json_quote (log_message (with_tail l m))) \<le> byte_length (json_quote (log_message (with_tail l n)))"
    using byte_length_quote_mono [of "length (log_message l) - n" "length (log_message l) - m" truncation_marker "log_message l"] mn
    by (simp add: with_tail_def last_chars_def)
  with fits show ?thesis
    unfolding tail_fits_def serialize_log_parts log_prefix_with_tail byte_length_append by linarith
qed

lemma retain_search_greatest:
  assumes mono: "\<And>m n. m \<le> n \<Longrightarrow> fits n \<Longrightarrow> fits m"
  shows "0 \<le> minimum \<Longrightarrow> minimum \<le> maximum + 1 \<Longrightarrow> maximum \<le> int len \<Longrightarrow>
    (\<forall>n. int n < minimum \<longrightarrow> fits n) \<Longrightarrow> (\<forall>n \<le> len. maximum < int n \<longrightarrow> \<not> fits n) \<Longrightarrow>
    int retained = (if minimum = 0 then 0 else minimum - 1) \<Longrightarrow>
    retain_search fits minimum maximum retained \<le> len
    \<and> (retain_search fits minimum maximum retained \<noteq> 0 \<longrightarrow> fits (retain_search fits minimum maximum retained))
    \<and> (\<forall>n \<le> len. retain_search fits minimum maximum retained < n \<longrightarrow> \<not> fits n)"
  using mono
proof (induction fits minimum maximum retained rule: retain_search.induct)
  case (1 fits minimum maximum retained)
  note mono' = "1.prems"(7)
  let ?mid = "(minimum + maximum) div 2"
  show ?case
  proof (cases "minimum \<le> maximum")
    case True
    then have mid: "0 \<le> ?mid" "minimum \<le> ?mid" "?mid \<le> maximum" using "1.prems"(1) by auto
    show ?thesis
    proof (cases "fits (nat ?mid)")
      case fit: True
      have step: "retain_search fits minimum maximum retained = retain_search fits (?mid + 1) maximum (nat ?mid)"
        using True fit by (subst retain_search.simps) (simp add: Let_def)
      have lower: "\<forall>n. int n < ?mid + 1 \<longrightarrow> fits n"
        using mono' [OF _ fit] mid by (auto simp: nat_le_iff intro: mono' [OF _ fit])
      show ?thesis
        unfolding step
        by (rule "1.IH"(1) [OF True refl fit]) (use mid lower "1.prems" in auto)
    next
      case unfit: False
      have step: "retain_search fits minimum maximum retained = retain_search fits minimum (?mid - 1) retained"
        using True unfit by (subst retain_search.simps) (simp add: Let_def)
      have upper: "\<forall>n \<le> len. ?mid - 1 < int n \<longrightarrow> \<not> fits n"
        using mono' unfit by (metis int_nat_eq linorder_not_le nat_le_iff zle_diff1_eq)
      show ?thesis
        unfolding step
        by (rule "1.IH"(2) [OF True refl unfit]) (use mid upper "1.prems" in auto)
    qed
  next
    case False
    then have stop: "retain_search fits minimum maximum retained = retained"
      by (subst retain_search.simps) simp
    show ?thesis
      unfolding stop using False "1.prems" by (auto split: if_splits)
  qed
qed

text \<open>A log event that is too large keeps its identity and the longest end of its message with
  which it still fits; any other event is persisted unchanged.\<close>

theorem prepared_event_longest_tail:
  "if byte_length (serialize_log l) \<le> persisted_log_event_byte_limit then prepare_bounded_log_event l = l
   else \<exists>n \<le> length (log_message l). prepare_bounded_log_event l = with_tail l n \<and> (n = 0 \<or> tail_fits l n)
        \<and> list_all (\<lambda>k. \<not> tail_fits l k) [n + 1..<length (log_message l) + 1]"
proof -
  let ?n = "retain_search (tail_fits l) 0 (int (length (log_message l))) 0"
  have "?n \<le> length (log_message l) \<and> (?n \<noteq> 0 \<longrightarrow> tail_fits l ?n)
      \<and> (\<forall>k \<le> length (log_message l). ?n < k \<longrightarrow> \<not> tail_fits l k)"
    by (rule retain_search_greatest) (auto intro: tail_fits_mono)
  then show ?thesis
    by (auto simp: prepare_bounded_log_event_def list_all_iff less_Suc_eq_le intro!: exI [of _ ?n])
qed

section \<open>Rotation\<close>

definition whole_lines :: "string \<Rightarrow> bool" where
  "whole_lines content \<longleftrightarrow> content = [] \<or> last content = CHR 0x0A"

lemma serialize_log_line: "utf8 (serialize_log l) \<noteq> [] \<and> last (utf8 (serialize_log l)) = CHR 0x0A"
proof -
  obtain s where s: "serialize_log l = s @ [CHR 0x0A]" by (simp add: serialize_log_def)
  show ?thesis unfolding s by (simp add: utf8_def utf8_char_def Let_def)
qed

lemma read_tail_whole: "length content \<le> max 1 n \<Longrightarrow> read_bounded_tail n content = content"
  by (simp add: read_bounded_tail_def)

lemma dropWhile_suffix: "\<exists>p. xs = p @ dropWhile P xs"
  by (metis takeWhile_dropWhile_id)

text \<open>What is read of a log too long to be read whole is a run of complete lines at its end, within
  the bound.\<close>

theorem bounded_tail_whole_lines:
  "length (read_bounded_tail n content) \<le> max 1 n
   \<and> suffix (read_bounded_tail n content) content
   \<and> (read_bounded_tail n content = [] \<or> read_bounded_tail n content = content
      \<or> suffix (CHR 0x0A # read_bounded_tail n content) content)"
proof (cases "length content \<le> max 1 n")
  case True
  then show ?thesis by (simp add: read_tail_whole)
next
  case False
  let ?start = "length content - max 1 n"
  obtain b tail where bytes: "drop (?start - 1) content = b # tail"
    using False by (cases "drop (?start - 1) content") auto
  have len: "length tail = max 1 n"
    using arg_cong [OF bytes, of length] False by simp
  have suf: "suffix (b # tail) content" by (metis bytes suffix_drop)
  show ?thesis
  proof (cases "b = CHR 0x0A")
    case True
    then have "read_bounded_tail n content = tail"
      using False bytes by (simp add: read_bounded_tail_def Let_def)
    with len suf True show ?thesis by (auto dest: suffix_ConsD)
  next
    case other: False
    let ?d = "dropWhile (\<lambda>b. b \<noteq> CHR 0x0A) tail"
    have r: "read_bounded_tail n content = (case ?d of [] \<Rightarrow> [] | _ # rest \<Rightarrow> rest)"
      using False bytes other by (simp add: read_bounded_tail_def Let_def)
    show ?thesis
    proof (cases ?d)
      case Nil
      with r show ?thesis by simp
    next
      case (Cons c rest)
      then have c: "c = CHR 0x0A" using hd_dropWhile [of "\<lambda>b. b \<noteq> CHR 0x0A" tail] by simp
      have "suffix (c # rest) tail" using dropWhile_suffix [of tail] Cons by (metis suffixI)
      with suf have "suffix (c # rest) content"
        by (meson suffix_ConsD suffix_order.order_trans)
      moreover have "length rest \<le> max 1 n"
        using len length_dropWhile_le [of "\<lambda>b. b \<noteq> CHR 0x0A" tail] Cons by simp
      ultimately show ?thesis using r Cons c by (auto dest: suffix_ConsD)
    qed
  qed
qed

definition bounded_file :: "string \<Rightarrow> bool" where
  "bounded_file c \<longleftrightarrow> length c \<le> persisted_log_file_byte_limit \<and> whole_lines c"

definition lines_kept :: "append_faults \<Rightarrow> log_file \<Rightarrow> log_file \<Rightarrow> bool" where
  "lines_kept faults f f' \<longleftrightarrow>
     current_log f' = current_log f \<and> archive_log f' = archive_log f
     \<or> archive_log f' = Some (entry_content (current_log f))
     \<or> entry_content (current_log f') = entry_content (current_log f) \<and> archive_log f' = archive_log f"

lemma event_fits_file: "persisted_log_event_byte_limit \<le> persisted_log_file_byte_limit"
  by (simp add: persisted_log_event_byte_limit_def persisted_log_file_byte_limit_def)

lemma check_call_run: "check_call fault f = (case fault of None \<Rightarrow> (Inr (), f) | Some e \<Rightarrow> (Inl e, f))"
  by (simp add: check_call_def return_def throw_def split: option.splits)

lemma rotate_run:
  assumes "length (entry_content (current_log f)) \<le> persisted_log_file_byte_limit"
  shows "rotate_current_log faults f
    = (case archive_fault faults of
         Some e \<Rightarrow> (Inl e, f)
       | None \<Rightarrow> (case reset_fault faults of
           Some e \<Rightarrow> (Inl e, f\<lparr>archive_log := Some (entry_content (current_log f))\<rparr>)
         | None \<Rightarrow> (Inr (), f\<lparr>archive_log := Some (entry_content (current_log f)), current_log := RegularFile []\<rparr>)))"
  using assms
  by (simp add: rotate_current_log_def bind_def gets_def next_do_def check_call_run modify_def read_tail_whole
      split: option.splits)

definition sample_log :: job_log where
  "sample_log = \<lparr> log_id = ''1'', log_created_at = ''t'', log_stream = SystemStream, log_message = ''m'' \<rparr>"

lemma sample_line: "length (utf8 (serialize_log sample_log)) = 64"
  by code_simp

lemmas append_eval = append_bounded_log_event_def write_line_def Let_def next_do_def bind_def gets_def modify_def
  return_def throw_def check_call_run



text \<open>An append that fails loses no event that was persisted, unless the removal of the torn line
  fails as well: each line of the current file is still in it or is in the archive.\<close>

theorem failed_append_loses_nothing:
  assumes "append_bounded_log_event faults l f = (Inl e, f')"
    and "bounded_file (entry_content (current_log f))"
    and "case write_fault faults of Some (_, _, truncated) \<Rightarrow> truncated | None \<Rightarrow> True"
  shows "lines_kept faults f f' \<and> bounded_file (entry_content (current_log f'))"
proof -
  have fits: "length (entry_content (current_log f)) \<le> persisted_log_file_byte_limit"
    using assms(2) by (simp add: bounded_file_def)
  show ?thesis
    using assms
    by (auto simp: append_eval rotate_run [OF fits] bounded_file_def whole_lines_def lines_kept_def
        split: if_splits option.splits)
qed

theorem failed_append_loses_nothing_witness:
  "case append_bounded_log_event
      \<lparr> directory_fault = None, archive_fault = None, reset_fault = None, open_fault = None,
        write_fault = Some (''no space'', 3, True) \<rparr>
      sample_log
      \<lparr> current_log = RegularFile [CHR 0x0A], archive_log = None \<rparr>
   of (r, f') \<Rightarrow> r = Inl ''no space'' \<and> bounded_file (entry_content (current_log f'))"
proof -
  let ?faults = "\<lparr> directory_fault = None, archive_fault = None, reset_fault = None, open_fault = None,
        write_fault = Some (''no space'', 3, True) \<rparr>"
  let ?f = "\<lparr> current_log = RegularFile [CHR 0x0A], archive_log = None \<rparr>"
  obtain f' where run: "append_bounded_log_event ?faults sample_log ?f = (Inl ''no space'', f')"
    by (simp add: append_eval sample_line persisted_log_event_byte_limit_def persisted_log_file_byte_limit_def)
  have "bounded_file (entry_content (current_log ?f))"
    by (simp add: bounded_file_def whole_lines_def persisted_log_file_byte_limit_def)
  from failed_append_loses_nothing [OF run this] run show ?thesis by simp
qed

text \<open>At most the five hundred most recent events of a log stay in memory, in order.\<close>

lemma capped_logs: "length (cap_recent_logs logs) \<le> recent_log_event_limit \<and> suffix (cap_recent_logs logs) logs"
  by (simp add: cap_recent_logs_def suffix_drop)

end
