(* ===== verification/Job_Data.thy ===== *)
theory Job_Data
  imports Public_Snapshot Bounded_Log
begin

text \<open>
  The data of a job, \<open>src/shared/job-types.ts\<close>, with the record the job store keeps, the public view
  and the summary it publishes, and the checkpoint it writes (\<open>src/server/job-store.ts\<close>). Circuit
  JSON is data of another package and kept as JSON.
\<close>

datatype job_display_status =
    Queued | AgentRunning | Building | Cancelling | JobCancelled | JobComplete | JobUnsupported | JobFailed

datatype validation_status =
    ValidationPending | ValidationPassed | ValidationWarning | ValidationFailed | ValidationInconclusive
  | ValidationUnresolved | ValidationNotApplicable

record job_validation =
  jv_evidence :: validation_status
  jv_component_build :: validation_status
  jv_component_drc :: validation_status
  jv_footprint :: validation_status
  jv_pinout :: validation_status
  jv_component_schematic :: validation_status
  jv_component_visual :: validation_status
  jv_application_build :: validation_status
  jv_application_connectivity :: validation_status
  jv_application_schematic :: validation_status
  jv_application_visual :: validation_status

record job_provenance =
  prov_source_commit :: string
  prov_workflow_source_sha256 :: "string option"
  prov_evidence_contract_sha256 :: "string option"
  prov_bun_version :: string
  prov_tscircuit_version :: string
  prov_tsci_agent_version :: string
  prov_agent_model :: string
  prov_agent_settings :: string
  prov_datasheet_sha256 :: string
  prov_dependency_lock_sha256 :: "string option"
  prov_prompt_sha256 :: "(string, string) omap"

record footprint_preview =
  fp_footprint_id :: string
  fp_label :: string
  fp_aliases :: "string list"
  fp_ordering_codes :: "string list"
  fp_package_name :: string
  fp_package_code :: "string option"
  fp_pin_count :: nat
  fp_circuit_json :: "json list option"

record footprint_previews =
  fps_default_id :: string
  fps_footprints :: "footprint_preview list"

datatype application_origin = DatasheetReference | AiGenerated

record application_preview =
  ap_application_id :: string
  ap_title :: string
  ap_origin :: application_origin
  ap_code :: "string option"
  ap_circuit_json :: "json list option"

record application_previews =
  aps_default_id :: string
  aps_applications :: "application_preview list"

record pipeline_snapshots =
  pl_component_generation :: "public_snapshot option"
  pl_typical_application :: "public_snapshot option"

record job =
  job_id :: string
  job_file_name :: string
  job_use_openai :: "bool option"
  job_created_at :: string
  job_completed_at :: "string option"
  job_display_status :: job_display_status
  job_is_complete :: bool
  job_has_errors :: bool
  job_error_message :: "string option"
  job_warnings :: "string list option"
  job_logs :: "job_log list"
  job_component_ready :: "bool option"
  job_component_code :: "string option"
  job_circuit_json :: "json list option"
  job_component_footprints :: "footprint_previews option"
  job_application_title :: "string option"
  job_application_code :: "string option"
  job_application_circuit_json :: "json list option"
  job_typical_applications :: "application_previews option"
  job_validation :: "job_validation option"
  job_provenance :: "job_provenance option"
  job_evidence_available :: "bool option"
  job_pipeline :: "public_snapshot option"
  job_pipelines :: "pipeline_snapshots option"

text \<open>The record of the store. Its controller, its subscriber set and the record itself are objects
  shared by reference, known by numbers.\<close>

record job_record = job +
  jr_job_dir :: string
  jr_additional_instructions :: "string option"
  jr_retry_source :: "string option"
  jr_controller :: nat
  jr_subscriber_set :: nat
  jr_object :: nat

record job_summary =
  js_job_id :: string
  js_file_name :: string
  js_created_at :: string
  js_completed_at :: "string option"
  js_display_status :: job_display_status
  js_is_complete :: bool
  js_has_errors :: bool
  js_error_message :: "string option"
  js_warnings :: "string list"
  js_component_ready :: "bool option"

definition warnings_of :: "string list option \<Rightarrow> string list" where
  "warnings_of w = (case w of None \<Rightarrow> [] | Some ws \<Rightarrow> ws)"

definition get_public_job :: "job_record \<Rightarrow> job" where
  "get_public_job r =
     \<lparr> job_id = job_id r, job_file_name = job_file_name r, job_use_openai = job_use_openai r,
       job_created_at = job_created_at r, job_completed_at = job_completed_at r,
       job_display_status = job_display_status r, job_is_complete = job_is_complete r,
       job_has_errors = job_has_errors r, job_error_message = job_error_message r,
       job_warnings = Some (warnings_of (job_warnings r)), job_logs = job_logs r,
       job_component_ready = job_component_ready r, job_component_code = job_component_code r,
       job_circuit_json = job_circuit_json r, job_component_footprints = job_component_footprints r,
       job_application_title = job_application_title r, job_application_code = job_application_code r,
       job_application_circuit_json = job_application_circuit_json r,
       job_typical_applications = job_typical_applications r, job_validation = job_validation r,
       job_provenance = job_provenance r, job_evidence_available = job_evidence_available r,
       job_pipeline = job_pipeline r, job_pipelines = job_pipelines r \<rparr>"

definition get_job_summary :: "job_record \<Rightarrow> job_summary" where
  "get_job_summary r =
     \<lparr> js_job_id = job_id r, js_file_name = job_file_name r, js_created_at = job_created_at r,
       js_completed_at = job_completed_at r, js_display_status = job_display_status r,
       js_is_complete = job_is_complete r, js_has_errors = job_has_errors r,
       js_error_message = job_error_message r, js_warnings = warnings_of (job_warnings r),
       js_component_ready = job_component_ready r \<rparr>"

definition clone_job_record :: "job_record \<Rightarrow> job_record" where
  "clone_job_record r = r\<lparr>job_warnings := Some (warnings_of (job_warnings r))\<rparr>"

section \<open>Updates\<close>

text \<open>An update is the list of the properties it has.\<close>

datatype job_field =
    SetDisplayStatus job_display_status
  | SetUseOpenai "bool option"
  | SetIsComplete bool
  | SetHasErrors bool
  | SetErrorMessage "string option"
  | SetWarnings "string list option"
  | SetCompletedAt "string option"
  | SetComponentReady "bool option"
  | SetComponentCode "string option"
  | SetCircuitJson "json list option"
  | SetComponentFootprints "footprint_previews option"
  | SetApplicationTitle "string option"
  | SetApplicationCode "string option"
  | SetApplicationCircuitJson "json list option"
  | SetTypicalApplications "application_previews option"
  | SetValidation "job_validation option"
  | SetProvenance "job_provenance option"
  | SetEvidenceAvailable "bool option"
  | SetPipeline "public_snapshot option"
  | SetPipelines "pipeline_snapshots option"

type_synonym job_update = "job_field list"

fun assign_job_field :: "job_field \<Rightarrow> job_record \<Rightarrow> job_record" where
  "assign_job_field (SetDisplayStatus v) r = r\<lparr>job_display_status := v\<rparr>"
| "assign_job_field (SetUseOpenai v) r = r\<lparr>job_use_openai := v\<rparr>"
| "assign_job_field (SetIsComplete v) r = r\<lparr>job_is_complete := v\<rparr>"
| "assign_job_field (SetHasErrors v) r = r\<lparr>job_has_errors := v\<rparr>"
| "assign_job_field (SetErrorMessage v) r = r\<lparr>job_error_message := v\<rparr>"
| "assign_job_field (SetWarnings v) r = r\<lparr>job_warnings := v\<rparr>"
| "assign_job_field (SetCompletedAt v) r = r\<lparr>job_completed_at := v\<rparr>"
| "assign_job_field (SetComponentReady v) r = r\<lparr>job_component_ready := v\<rparr>"
| "assign_job_field (SetComponentCode v) r = r\<lparr>job_component_code := v\<rparr>"
| "assign_job_field (SetCircuitJson v) r = r\<lparr>job_circuit_json := v\<rparr>"
| "assign_job_field (SetComponentFootprints v) r = r\<lparr>job_component_footprints := v\<rparr>"
| "assign_job_field (SetApplicationTitle v) r = r\<lparr>job_application_title := v\<rparr>"
| "assign_job_field (SetApplicationCode v) r = r\<lparr>job_application_code := v\<rparr>"
| "assign_job_field (SetApplicationCircuitJson v) r = r\<lparr>job_application_circuit_json := v\<rparr>"
| "assign_job_field (SetTypicalApplications v) r = r\<lparr>job_typical_applications := v\<rparr>"
| "assign_job_field (SetValidation v) r = r\<lparr>job_validation := v\<rparr>"
| "assign_job_field (SetProvenance v) r = r\<lparr>job_provenance := v\<rparr>"
| "assign_job_field (SetEvidenceAvailable v) r = r\<lparr>job_evidence_available := v\<rparr>"
| "assign_job_field (SetPipeline v) r = r\<lparr>job_pipeline := v\<rparr>"
| "assign_job_field (SetPipelines v) r = r\<lparr>job_pipelines := v\<rparr>"

definition assign_job :: "job_update \<Rightarrow> job_record \<Rightarrow> job_record" where
  "assign_job update r = fold assign_job_field update r"

section \<open>The checkpoint\<close>

record footprint_checkpoint =
  cf_footprint_id :: string
  cf_label :: string
  cf_aliases :: "string list"
  cf_ordering_codes :: "string list"
  cf_package_name :: string
  cf_package_code :: "string option"
  cf_pin_count :: nat

record application_checkpoint =
  ca_application_id :: string
  ca_title :: string
  ca_origin :: application_origin

record job_checkpoint =
  cp_version :: nat
  cp_job_id :: string
  cp_file_name :: string
  cp_use_openai :: "bool option"
  cp_created_at :: string
  cp_completed_at :: "string option"
  cp_display_status :: job_display_status
  cp_is_complete :: bool
  cp_has_errors :: bool
  cp_error_message :: "string option"
  cp_warnings :: "string list option"
  cp_additional_instructions :: "string option"
  cp_retry_source :: "string option"
  cp_component_ready :: "bool option"
  cp_component_footprints :: "(string \<times> footprint_checkpoint list) option"
  cp_application_title :: "string option"
  cp_typical_applications :: "(string \<times> application_checkpoint list) option"
  cp_validation :: "job_validation option"
  cp_provenance :: "job_provenance option"
  cp_evidence_available :: "bool option"
  cp_pipeline :: "public_snapshot option"
  cp_pipelines :: "pipeline_snapshots option"

definition footprint_checkpoint_of :: "footprint_preview \<Rightarrow> footprint_checkpoint" where
  "footprint_checkpoint_of f =
     \<lparr> cf_footprint_id = fp_footprint_id f, cf_label = fp_label f, cf_aliases = fp_aliases f,
       cf_ordering_codes = fp_ordering_codes f, cf_package_name = fp_package_name f,
       cf_package_code = text_if_any (fp_package_code f), cf_pin_count = fp_pin_count f \<rparr>"

definition application_checkpoint_of :: "application_preview \<Rightarrow> application_checkpoint" where
  "application_checkpoint_of a =
     \<lparr> ca_application_id = ap_application_id a, ca_title = ap_title a, ca_origin = ap_origin a \<rparr>"

definition job_checkpoint_of :: "job_record \<Rightarrow> job_checkpoint" where
  "job_checkpoint_of r =
     \<lparr> cp_version = 2, cp_job_id = job_id r, cp_file_name = job_file_name r,
       cp_use_openai = job_use_openai r, cp_created_at = job_created_at r,
       cp_completed_at = job_completed_at r, cp_display_status = job_display_status r,
       cp_is_complete = job_is_complete r, cp_has_errors = job_has_errors r,
       cp_error_message = job_error_message r, cp_warnings = job_warnings r,
       cp_additional_instructions = jr_additional_instructions r, cp_retry_source = jr_retry_source r,
       cp_component_ready = job_component_ready r,
       cp_component_footprints =
         map_option (\<lambda>p. (fps_default_id p, map footprint_checkpoint_of (fps_footprints p))) (job_component_footprints r),
       cp_application_title = job_application_title r,
       cp_typical_applications =
         map_option (\<lambda>p. (aps_default_id p, map application_checkpoint_of (aps_applications p))) (job_typical_applications r),
       cp_validation = job_validation r, cp_provenance = job_provenance r,
       cp_evidence_available = job_evidence_available r, cp_pipeline = job_pipeline r,
       cp_pipelines = job_pipelines r \<rparr>"

text \<open>An update touches none of the identity of a record.\<close>

lemma assign_job_field_identity [simp]:
  "job_id (assign_job_field u r) = job_id r" "jr_job_dir (assign_job_field u r) = jr_job_dir r"
  "jr_controller (assign_job_field u r) = jr_controller r"
  "jr_subscriber_set (assign_job_field u r) = jr_subscriber_set r"
  "jr_object (assign_job_field u r) = jr_object r" "jr_retry_source (assign_job_field u r) = jr_retry_source r"
  "job_logs (assign_job_field u r) = job_logs r" "job_created_at (assign_job_field u r) = job_created_at r"
  by (cases u; simp)+

lemma assign_job_identity [simp]:
  "job_id (assign_job us r) = job_id r" "jr_job_dir (assign_job us r) = jr_job_dir r"
  "jr_controller (assign_job us r) = jr_controller r"
  "jr_subscriber_set (assign_job us r) = jr_subscriber_set r"
  "jr_object (assign_job us r) = jr_object r" "jr_retry_source (assign_job us r) = jr_retry_source r"
  "job_logs (assign_job us r) = job_logs r" "job_created_at (assign_job us r) = job_created_at r"
  unfolding assign_job_def by (induction us arbitrary: r; simp)+

lemma clone_job_record_identity [simp]:
  "job_id (clone_job_record r) = job_id r" "jr_job_dir (clone_job_record r) = jr_job_dir r"
  "jr_controller (clone_job_record r) = jr_controller r"
  "jr_subscriber_set (clone_job_record r) = jr_subscriber_set r"
  "jr_object (clone_job_record r) = jr_object r" "jr_retry_source (clone_job_record r) = jr_retry_source r"
  "job_logs (clone_job_record r) = job_logs r" "job_created_at (clone_job_record r) = job_created_at r"
  "job_display_status (clone_job_record r) = job_display_status r" "job_is_complete (clone_job_record r) = job_is_complete r"
  by (simp_all add: clone_job_record_def)

text \<open>The checkpoint leaves out what belongs to the running server: log, controller, subscribers.\<close>

lemma job_checkpoint_of_runtime [simp]:
  "job_checkpoint_of (r\<lparr>jr_controller := c\<rparr>) = job_checkpoint_of r"
  "job_checkpoint_of (r\<lparr>job_logs := l\<rparr>) = job_checkpoint_of r"
  by (simp_all add: job_checkpoint_of_def)

end
