(* ===== verification/Subscribers.thy ===== *)
theory Subscribers
  imports Run_Monad
begin

text \<open>
  The subscriber sets of the two stores, \<open>publish\<close> and \<open>publishJobList\<close> of
  \<open>src/server/job-store.ts\<close> and their counterparts of \<open>src/server/model-run-store.ts\<close>. A callback
  is known by a number; which notices it throws on is a parameter. A callback that throws is removed
  from the set it was called from.
\<close>

definition add_subscriber :: "nat \<Rightarrow> nat list \<Rightarrow> nat list" where
  "add_subscriber x subs = (if x \<in> set subs then subs else subs @ [x])"

text \<open>The loop runs over a copy of the set.\<close>

definition deliver :: "(nat \<Rightarrow> 'n \<Rightarrow> bool) \<Rightarrow> 'n \<Rightarrow> nat list \<Rightarrow> (nat \<times> 'n) list \<times> nat list" where
  "deliver rejects notice subs =
     foldl (\<lambda>(sent, left) x. (sent @ [(x, notice)], if rejects x notice then remove1 x left else left)) ([], subs) subs"

lemma deliver_from:
  "foldl (\<lambda>(sent, left) x. (sent @ [(x, notice)], if rejects x notice then remove1 x left else left)) (sent, left) xs
   = (sent @ map (\<lambda>x. (x, notice)) xs, foldl (\<lambda>left x. if rejects x notice then remove1 x left else left) left xs)"
  by (induction xs arbitrary: sent left) auto

lemma removed_from:
  "distinct left \<Longrightarrow> foldl (\<lambda>left x. if rejects x notice then remove1 x left else left) left xs
     = filter (\<lambda>x. \<not> (x \<in> set xs \<and> rejects x notice)) left"
  by (induction xs arbitrary: left) (auto simp: distinct_remove1_removeAll removeAll_filter_not_eq intro!: filter_cong)

text \<open>Every subscriber gets the notice once, in order, and exactly those that accept it stay.\<close>

lemma deliver_all:
  "distinct subs \<Longrightarrow>
     deliver rejects notice subs = (map (\<lambda>x. (x, notice)) subs, filter (\<lambda>x. \<not> rejects x notice) subs)"
  by (simp add: deliver_def deliver_from removed_from cong: filter_cong)

end
