(* ===== verification/Store_Base.thy ===== *)
theory Store_Base
  imports Subscribers Bounded_Log
begin

text \<open>
  What the job store and the model run store have in common: objects shared by reference (abort
  controllers, subscriber sets, records) known by numbers, the disk their checkpoints are written to,
  the notices that were sent, and the appends that wait for their log writer. The writer of
  checkpoints and the subscribers' reactions are parameters.
\<close>

text \<open>An append that waits for its log writer holds the record it was called for.\<close>

record pending_log =
  pending_owner :: string
  pending_object :: nat
  pending_subscriber_set :: nat
  pending_event :: job_log

record ('d, 'n) store_base =
  st_next :: nat  \<comment> \<open>identity of the next object created\<close>
  st_aborted :: "nat list"
  st_list_subscribers :: "nat list"
  st_subscriber_sets :: "(nat, nat list) omap"
  st_pending_logs :: "(nat, pending_log) omap"
  st_disk :: 'd
  st_sent :: "(nat \<times> 'n) list"

record ('d, 'c, 'n) store_env =
  env_writer :: "string \<Rightarrow> 'c \<Rightarrow> 'd \<Rightarrow> (string + unit) \<times> 'd"
  env_rejects :: "nat \<Rightarrow> 'n \<Rightarrow> bool"

type_synonym ('d, 'n, 'z, 'a) store_run = "(('d, 'n, 'z) store_base_scheme, string, 'a) run"

definition new_object :: "('d, 'n, 'z, nat) store_run" where
  "new_object = bind (gets st_next) (\<lambda>n. next_do (modify (\<lambda>s. s\<lparr>st_next := Suc n\<rparr>)) (return n))"

definition abort_controller :: "nat \<Rightarrow> ('d, 'n, 'z, unit) store_run" where
  "abort_controller c = modify (\<lambda>s. s\<lparr>st_aborted := st_aborted s @ [c]\<rparr>)"

definition persist_at :: "('d, 'c, 'n, 'e) store_env_scheme \<Rightarrow> string \<Rightarrow> 'c \<Rightarrow> ('d, 'n, 'z, unit) store_run" where
  "persist_at env path v =
     (\<lambda>s. case env_writer env path v (st_disk s) of (x, d) \<Rightarrow> (x, s\<lparr>st_disk := d\<rparr>))"

definition subscriber_set :: "('d, 'n, 'z) store_base_scheme \<Rightarrow> nat \<Rightarrow> nat list" where
  "subscriber_set s k = (case oget (st_subscriber_sets s) k of None \<Rightarrow> [] | Some xs \<Rightarrow> xs)"

definition publish_in :: "('d, 'c, 'n, 'e) store_env_scheme \<Rightarrow> nat \<Rightarrow> 'n \<Rightarrow> ('d, 'n, 'z, unit) store_run" where
  "publish_in env k notice =
     modify (\<lambda>s. case deliver (env_rejects env) notice (subscriber_set s k) of
       (sent, left) \<Rightarrow> s\<lparr>st_subscriber_sets := oput k left (st_subscriber_sets s), st_sent := st_sent s @ sent\<rparr>)"

definition publish_list :: "('d, 'c, 'n, 'e) store_env_scheme \<Rightarrow> 'n \<Rightarrow> ('d, 'n, 'z, unit) store_run" where
  "publish_list env notice =
     modify (\<lambda>s. case deliver (env_rejects env) notice (st_list_subscribers s) of
       (sent, left) \<Rightarrow> s\<lparr>st_list_subscribers := left, st_sent := st_sent s @ sent\<rparr>)"

definition subscribe_in :: "nat \<Rightarrow> nat \<Rightarrow> ('d, 'n, 'z, unit) store_run" where
  "subscribe_in k x =
     modify (\<lambda>s. s\<lparr>st_subscriber_sets := oput k (add_subscriber x (subscriber_set s k)) (st_subscriber_sets s)\<rparr>)"

definition unsubscribe_in :: "nat \<Rightarrow> nat \<Rightarrow> ('d, 'n, 'z, unit) store_run" where
  "unsubscribe_in k x =
     modify (\<lambda>s. s\<lparr>st_subscriber_sets := oput k (removeAll x (subscriber_set s k)) (st_subscriber_sets s)\<rparr>)"

definition subscribe_list :: "nat \<Rightarrow> ('d, 'n, 'z, unit) store_run" where
  "subscribe_list x = modify (\<lambda>s. s\<lparr>st_list_subscribers := add_subscriber x (st_list_subscribers s)\<rparr>)"

definition unsubscribe_list :: "nat \<Rightarrow> ('d, 'n, 'z, unit) store_run" where
  "unsubscribe_list x = modify (\<lambda>s. s\<lparr>st_list_subscribers := removeAll x (st_list_subscribers s)\<rparr>)"

lemmas store_base_defs = new_object_def abort_controller_def persist_at_def publish_in_def publish_list_def
  subscribe_in_def unsubscribe_in_def subscribe_list_def unsubscribe_list_def

section \<open>Running them\<close>

lemma new_object_run [run_rules]: "new_object s = (x, t) \<longleftrightarrow> x = Inr (st_next s) \<and> t = s\<lparr>st_next := Suc (st_next s)\<rparr>"
  by (auto simp: new_object_def bind_def gets_def next_do_def modify_def return_def)

lemma abort_controller_run [run_rules]:
  "abort_controller c s = (x, t) \<longleftrightarrow> x = Inr () \<and> t = s\<lparr>st_aborted := st_aborted s @ [c]\<rparr>"
  by (auto simp: abort_controller_def run_rules)

lemma persist_at_run [run_rules]:
  "persist_at env path v s = (x, t) \<longleftrightarrow>
     (\<exists>d. env_writer env path v (st_disk s) = (x, d) \<and> t = s\<lparr>st_disk := d\<rparr>)"
  by (auto simp: persist_at_def split: prod.splits)

lemma persist_at_cases: "\<exists>x d. persist_at env path v s = (x, s\<lparr>st_disk := d\<rparr>)"
  by (auto simp: persist_at_def split: prod.splits)

text \<open>A write by the server's writer, seen through the contract of the writer.\<close>

lemma persist_json_cases:
  assumes "env_writer env = write_json_checkpoint render" and "checkpoint_name path"
    and "persist_at env path v s = (x, t)"
  shows "(\<exists>e d. x = Inl e \<and> t = s\<lparr>st_disk := d\<rparr> \<and> (\<forall>q. checkpoint_name q \<longrightarrow> holds_json render d q = holds_json render (st_disk s) q))
    \<or> (\<exists>d. x = Inr () \<and> t = s\<lparr>st_disk := d\<rparr> \<and> holds_json render d path v
         \<and> (\<forall>q. checkpoint_name q \<and> q \<noteq> path \<longrightarrow> holds_json render d q = holds_json render (st_disk s) q))"
proof -
  obtain d where d: "write_json_checkpoint render path v (st_disk s) = (x, d)" "t = s\<lparr>st_disk := d\<rparr>"
    using assms by (auto simp: persist_at_run)
  from atomic_json.write_cases [OF assms(2) d(1)] d(2) show ?thesis by auto
qed

end
