(* ===== verification/Job_Store.thy ===== *)
theory Job_Store
  imports Job_Data Store_Base
begin

text \<open>
  The job store, \<open>src/server/job-store.ts\<close>: its maps, the checkpoint it writes before a change
  becomes visible, the controllers it aborts and the notices it publishes. The writer of checkpoints
  and the subscribers' reactions are parameters; the writer of the server satisfies the contract
  \<open>checkpoint_writer\<close>. The time and the random identifier of an operation are its arguments.
\<close>

section \<open>The state\<close>

datatype job_notice =
    JobUpdated job
  | JobLogged job_log
  | ListUpdated job_summary
  | ListDeleted string

record 'd job_store = "('d, job_notice) store_base" +
  st_jobs :: "(string, job_record) omap"
  st_leases :: "(string, nat) omap"
  st_executions :: "(string, string list) omap"

type_synonym 'd job_env = "('d, job_checkpoint, job_notice) store_env"

type_synonym ('d, 'a) job_run = "('d job_store, string, 'a) run"

definition empty_job_store :: "'d \<Rightarrow> 'd job_store" where
  "empty_job_store d =
     \<lparr> st_next = 0, st_aborted = [], st_list_subscribers = [], st_subscriber_sets = [], st_pending_logs = [],
       st_disk = d, st_sent = [], st_jobs = [], st_leases = [], st_executions = [] \<rparr>"

definition put_job :: "string \<Rightarrow> job_record \<Rightarrow> ('d, unit) job_run" where
  "put_job k r = modify (\<lambda>s. s\<lparr>st_jobs := oput k r (st_jobs s)\<rparr>)"

definition checkpoint_path :: "job_record \<Rightarrow> string" where
  "checkpoint_path r = path_join (jr_job_dir r) ''job.json''"

definition persist_job :: "'d job_env \<Rightarrow> job_record \<Rightarrow> ('d, unit) job_run" where
  "persist_job env r = persist_at env (checkpoint_path r) (job_checkpoint_of r)"

definition publish_job :: "'d job_env \<Rightarrow> job_record \<Rightarrow> job_notice \<Rightarrow> ('d, unit) job_run" where
  "publish_job env r notice = publish_in env (jr_subscriber_set r) notice"

text \<open>The two notices of a change to a job.\<close>

definition announce_job :: "'d job_env \<Rightarrow> job_record \<Rightarrow> ('d, unit) job_run" where
  "announce_job env r =
     next_do (publish_job env r (JobUpdated (get_public_job r)))
       (publish_list env (ListUpdated (get_job_summary r)))"

section \<open>Creating and restoring\<close>

record create_input =
  ci_job_id :: string
  ci_job_dir :: string
  ci_file_name :: string
  ci_use_openai :: "bool option"
  ci_additional_instructions :: "string option"
  ci_retry_source :: "string option"

definition new_job_record :: "create_input \<Rightarrow> string \<Rightarrow> nat \<Rightarrow> nat \<Rightarrow> nat \<Rightarrow> job_record" where
  "new_job_record i now object controller subscribers =
     \<lparr> job_id = ci_job_id i, job_file_name = ci_file_name i, job_use_openai = ci_use_openai i,
       job_created_at = now, job_completed_at = None, job_display_status = Queued, job_is_complete = False,
       job_has_errors = False, job_error_message = None, job_warnings = Some [], job_logs = [],
       job_component_ready = None, job_component_code = None, job_circuit_json = None,
       job_component_footprints = None, job_application_title = None, job_application_code = None,
       job_application_circuit_json = None, job_typical_applications = None, job_validation = None,
       job_provenance = None, job_evidence_available = None, job_pipeline = None, job_pipelines = None,
       jr_job_dir = ci_job_dir i, jr_additional_instructions = ci_additional_instructions i,
       jr_retry_source = ci_retry_source i, jr_controller = controller, jr_subscriber_set = subscribers,
       jr_object = object \<rparr>"

definition create_job :: "'d job_env \<Rightarrow> string \<Rightarrow> create_input \<Rightarrow> ('d, job) job_run" where
  "create_job env now i =
     bind new_object (\<lambda>controller.
     bind new_object (\<lambda>subscribers.
     bind new_object (\<lambda>object.
     let r = new_job_record i now object controller subscribers in
     next_do (persist_job env r) (
     next_do (put_job (job_id r) r) (
     next_do (publish_list env (ListUpdated (get_job_summary r)))
       (return (get_public_job r)))))))"

text \<open>A checkpoint read back: the properties every one has, and the others it has.\<close>

record restore_input =
  ri_create :: create_input
  ri_created_at :: string
  ri_display_status :: job_display_status
  ri_is_complete :: bool
  ri_has_errors :: bool
  ri_warnings :: "string list"
  ri_logs :: "job_log list"
  ri_others :: job_update
  ri_has_use_openai :: bool
  ri_has_instructions :: bool
  ri_has_retry_source :: bool

definition restored_job_record :: "restore_input \<Rightarrow> nat \<Rightarrow> nat \<Rightarrow> nat \<Rightarrow> job_record" where
  "restored_job_record i object controller subscribers =
     (assign_job (ri_others i) (new_job_record (ri_create i) (ri_created_at i) object controller subscribers))
       \<lparr>job_display_status := ri_display_status i, job_is_complete := ri_is_complete i,
        job_has_errors := ri_has_errors i, job_warnings := Some (ri_warnings i),
        job_logs := cap_recent_logs (ri_logs i)\<rparr>"

definition restore_job :: "'d job_env \<Rightarrow> restore_input \<Rightarrow> ('d, job) job_run" where
  "restore_job env i =
     bind (gets (\<lambda>s. oget (st_jobs s) (ci_job_id (ri_create i)))) (\<lambda>existing.
     case existing of
       Some r \<Rightarrow> return (get_public_job r)
     | None \<Rightarrow>
         bind new_object (\<lambda>controller.
         bind new_object (\<lambda>subscribers.
         bind new_object (\<lambda>object.
         let r = restored_job_record i object controller subscribers in
         next_do (persist_job env r) (
         next_do (put_job (job_id r) r)
           (return (get_public_job r)))))))"

definition refreshed_job_record :: "restore_input \<Rightarrow> nat \<Rightarrow> job_record \<Rightarrow> job_record" where
  "refreshed_job_record i object r =
     (let c = ri_create i in
      (assign_job (ri_others i) r)
        \<lparr>job_id := ci_job_id c, jr_job_dir := ci_job_dir c, job_file_name := ci_file_name c,
         job_use_openai := (if ri_has_use_openai i then ci_use_openai c else job_use_openai r),
         jr_additional_instructions :=
           (if ri_has_instructions i then ci_additional_instructions c else jr_additional_instructions r),
         jr_retry_source := (if ri_has_retry_source i then ci_retry_source c else jr_retry_source r),
         job_created_at := ri_created_at i, job_display_status := ri_display_status i,
         job_is_complete := ri_is_complete i, job_has_errors := ri_has_errors i,
         job_warnings := Some (ri_warnings i), job_logs := cap_recent_logs (ri_logs i),
         jr_object := object\<rparr>)"

definition refresh_restored_job :: "'d job_env \<Rightarrow> restore_input \<Rightarrow> ('d, job) job_run" where
  "refresh_restored_job env i =
     bind (gets (\<lambda>s. oget (st_jobs s) (ci_job_id (ri_create i)))) (\<lambda>existing.
     case existing of
       None \<Rightarrow> restore_job env i
     | Some r \<Rightarrow>
         bind new_object (\<lambda>object.
         let refreshed = refreshed_job_record i object r in
         next_do (put_job (ci_job_id (ri_create i)) refreshed) (
         next_do (announce_job env refreshed)
           (return (get_public_job refreshed)))))"

section \<open>Reading\<close>

definition get_job :: "string \<Rightarrow> 'd job_store \<Rightarrow> job option" where
  "get_job k s = map_option get_public_job (oget (st_jobs s) k)"

definition list_jobs :: "'d job_store \<Rightarrow> job_summary list" where
  "list_jobs s =
     (let newest_first = map get_job_summary (rev (map snd (st_jobs s))) in
      rev (sort_key js_created_at (rev newest_first)))"

definition find_job_summary :: "string \<Rightarrow> 'd job_store \<Rightarrow> job_summary option" where
  "find_job_summary k s = map_option get_job_summary (oget (st_jobs s) k)"

definition get_job_dir :: "string \<Rightarrow> 'd job_store \<Rightarrow> string option" where
  "get_job_dir k s = map_option jr_job_dir (oget (st_jobs s) k)"

record retry_source =
  rs_job_dir :: string
  rs_file_name :: string
  rs_use_openai :: "bool option"
  rs_additional_instructions :: "string option"
  rs_display_status :: job_display_status

definition get_job_retry_source :: "string \<Rightarrow> 'd job_store \<Rightarrow> retry_source option" where
  "get_job_retry_source k s =
     map_option (\<lambda>r. \<lparr> rs_job_dir = jr_job_dir r, rs_file_name = job_file_name r, rs_use_openai = job_use_openai r,
        rs_additional_instructions = jr_additional_instructions r, rs_display_status = job_display_status r \<rparr>)
       (oget (st_jobs s) k)"

definition get_active_retry_for_source :: "string \<Rightarrow> 'd job_store \<Rightarrow> job option" where
  "get_active_retry_for_source source s =
     map_option get_public_job
       (find (\<lambda>r. jr_retry_source r = Some source \<and> \<not> job_is_complete r) (rev (map snd (st_jobs s))))"

definition signal_aborted :: "'d job_store \<Rightarrow> job_record \<Rightarrow> bool" where
  "signal_aborted s r \<longleftrightarrow> jr_controller r \<in> set (st_aborted s)"

section \<open>Leases and executions\<close>

datatype lease_result = LeaseAcquired string nat | AlreadyDeleting | LeaseNotFound

definition acquire_deletion_lease :: "string \<Rightarrow> ('d, lease_result) job_run" where
  "acquire_deletion_lease k =
     bind (gets id) (\<lambda>s.
     if oget (st_jobs s) k = None then return LeaseNotFound
     else if oget (st_leases s) k \<noteq> None then return AlreadyDeleting
     else bind new_object (\<lambda>token.
       next_do (modify (\<lambda>s. s\<lparr>st_leases := oput k token (st_leases s)\<rparr>))
         (return (LeaseAcquired k token))))"

definition release_deletion_lease :: "string \<Rightarrow> nat \<Rightarrow> ('d, bool) job_run" where
  "release_deletion_lease k token =
     bind (gets id) (\<lambda>s.
     if oget (st_leases s) k \<noteq> Some token then return False
     else next_do (modify (\<lambda>s. s\<lparr>st_leases := odel k (st_leases s)\<rparr>)) (return True))"

definition is_job_deleting :: "string \<Rightarrow> 'd job_store \<Rightarrow> bool" where
  "is_job_deleting k s \<longleftrightarrow> oget (st_leases s) k \<noteq> None"

definition active_executions :: "'d job_store \<Rightarrow> string \<Rightarrow> string list" where
  "active_executions s k = (case oget (st_executions s) k of None \<Rightarrow> [] | Some ps \<Rightarrow> ps)"

text \<open>A claim after a cancellation gives the job a controller that is not aborted.\<close>

definition renew_controller :: "string \<Rightarrow> job_record \<Rightarrow> ('d, unit) job_run" where
  "renew_controller k r =
     bind (gets id) (\<lambda>s.
     if signal_aborted s r
     then bind new_object (\<lambda>controller. put_job k (r\<lparr>jr_controller := controller\<rparr>))
     else return ())"

definition claim_pipeline_execution :: "string \<Rightarrow> string \<Rightarrow> ('d, bool) job_run" where
  "claim_pipeline_execution k pipeline =
     bind (gets id) (\<lambda>s.
     case oget (st_jobs s) k of
       None \<Rightarrow> return False
     | Some r \<Rightarrow>
         if oget (st_leases s) k \<noteq> None then return False
         else if length (active_executions s k) > 0 then return False
         else
           next_do (renew_controller k r) (
           next_do (modify (\<lambda>s. s\<lparr>st_executions := oput k (active_executions s k @ [pipeline]) (st_executions s)\<rparr>))
             (return True)))"

definition claim_coordinated_executions :: "string \<Rightarrow> string list \<Rightarrow> ('d, bool) job_run" where
  "claim_coordinated_executions k pipelines =
     bind (gets id) (\<lambda>s.
     case oget (st_jobs s) k of
       None \<Rightarrow> return False
     | Some r \<Rightarrow>
         if oget (st_leases s) k \<noteq> None then return False
         else if length pipelines = 0 \<or> length (js_set pipelines) \<noteq> length pipelines then return False
         else if length (active_executions s k) > 0 then return False
         else
           next_do (renew_controller k r) (
           next_do (modify (\<lambda>s. s\<lparr>st_executions := oput k (js_set pipelines) (st_executions s)\<rparr>))
             (return True)))"

definition release_pipeline_execution :: "string \<Rightarrow> string \<Rightarrow> ('d, unit) job_run" where
  "release_pipeline_execution k pipeline =
     bind (gets (\<lambda>s. oget (st_executions s) k)) (\<lambda>active.
     case active of
       None \<Rightarrow> return ()
     | Some ps \<Rightarrow>
         (let left = removeAll pipeline ps in
          modify (\<lambda>s. s\<lparr>st_executions := (if left = [] then odel k (st_executions s) else oput k left (st_executions s))\<rparr>)))"

section \<open>Cancelling and updating\<close>

datatype cancellation_result = CancelRequested | CancelAlreadyRequested | CancelAlreadyComplete | CancelNotFound

definition request_cancellation :: "'d job_env \<Rightarrow> string \<Rightarrow> ('d, cancellation_result) job_run" where
  "request_cancellation env k =
     bind (gets id) (\<lambda>s.
     case oget (st_jobs s) k of
       None \<Rightarrow> return CancelNotFound
     | Some r \<Rightarrow>
         if job_is_complete r then return CancelAlreadyComplete
         else if signal_aborted s r then return CancelAlreadyRequested
         else
           (let candidate = (clone_job_record r)\<lparr>job_display_status := Cancelling\<rparr> in
            next_do (catch (persist_job env candidate)
                       (\<lambda>e. next_do (abort_controller (jr_controller r)) (throw e))) (
            next_do (put_job k candidate) (
            next_do (abort_controller (jr_controller r)) (
            next_do (announce_job env candidate)
              (return CancelRequested))))))"

definition job_not_found :: "string \<Rightarrow> string" where
  "job_not_found k = ''Job '' @ k @ '' was not found''"

definition require_job :: "string \<Rightarrow> ('d, job_record) job_run" where
  "require_job k =
     bind (gets (\<lambda>s. oget (st_jobs s) k)) (\<lambda>r.
     case r of None \<Rightarrow> throw (job_not_found k) | Some r \<Rightarrow> return r)"

definition update_job :: "'d job_env \<Rightarrow> string \<Rightarrow> job_update \<Rightarrow> ('d, job) job_run" where
  "update_job env k update =
     bind (require_job k) (\<lambda>r.
     let candidate = assign_job update (clone_job_record r) in
     next_do (persist_job env candidate) (
     next_do (put_job k candidate) (
     next_do (announce_job env candidate)
       (return (get_public_job candidate)))))"

text \<open>The projection of a publication that is already committed returns what went wrong with the
  checkpoint.\<close>

definition project_committed_publication ::
  "'d job_env \<Rightarrow> string \<Rightarrow> job_update \<Rightarrow> ('d, job \<times> string option) job_run" where
  "project_committed_publication env k update =
     bind (require_job k) (\<lambda>r.
     let candidate = assign_job update (clone_job_record r) in
     bind (catch (next_do (persist_job env candidate) (return None)) (\<lambda>e. return (Some e))) (\<lambda>checkpoint_error.
     next_do (put_job k candidate) (
     next_do (announce_job env candidate)
       (return (get_public_job candidate, text_if_any checkpoint_error)))))"

section \<open>Logs and subscribers\<close>

definition begin_append_log :: "string \<Rightarrow> string \<Rightarrow> string \<Rightarrow> log_stream \<Rightarrow> string \<Rightarrow> ('d, nat) job_run" where
  "begin_append_log k uuid now stream message =
     bind (require_job k) (\<lambda>r.
     bind new_object (\<lambda>ticket.
     let log = prepare_bounded_log_event
           \<lparr> log_id = uuid, log_created_at = now, log_stream = stream, log_message = message \<rparr> in
     next_do (modify (\<lambda>s. s\<lparr>st_pending_logs := oput ticket
         \<lparr> pending_owner = job_id r, pending_object = jr_object r,
           pending_subscriber_set = jr_subscriber_set r, pending_event = log \<rparr> (st_pending_logs s)\<rparr>))
       (return ticket)))"

text \<open>The append goes on when its log writer has settled: the event joins the record the append holds,
  which the store may have replaced or dropped in between.\<close>

definition extend_logs :: "pending_log \<Rightarrow> 'd job_store \<Rightarrow> 'd job_store" where
  "extend_logs p s =
     s\<lparr>st_jobs := map (\<lambda>(k, r). (k, if jr_object r = pending_object p
        then r\<lparr>job_logs := cap_recent_logs (job_logs r @ [pending_event p])\<rparr> else r)) (st_jobs s)\<rparr>"

definition finish_append_log :: "'d job_env \<Rightarrow> nat \<Rightarrow> string option \<Rightarrow> ('d, job_log option) job_run" where
  "finish_append_log env ticket failure =
     bind (gets (\<lambda>s. oget (st_pending_logs s) ticket)) (\<lambda>pending.
     case pending of
       None \<Rightarrow> return None
     | Some p \<Rightarrow>
         next_do (modify (\<lambda>s. s\<lparr>st_pending_logs := odel ticket (st_pending_logs s)\<rparr>))
           (case failure of
              Some e \<Rightarrow> throw e
            | None \<Rightarrow>
                next_do (modify (extend_logs p)) (
                next_do (publish_in env (pending_subscriber_set p) (JobLogged (pending_event p)))
                  (return (Some (pending_event p))))))"

definition subscribe_job :: "string \<Rightarrow> nat \<Rightarrow> ('d, nat option) job_run" where
  "subscribe_job k x =
     bind (gets (\<lambda>s. oget (st_jobs s) k)) (\<lambda>r.
     case r of
       None \<Rightarrow> return None
     | Some r \<Rightarrow>
         next_do (subscribe_in (jr_subscriber_set r) x) (return (Some (jr_subscriber_set r))))"

definition delete_job :: "'d job_env \<Rightarrow> string \<Rightarrow> ('d, bool) job_run" where
  "delete_job env k =
     bind (gets (\<lambda>s. oget (st_jobs s) k)) (\<lambda>r.
     case r of
       None \<Rightarrow> return False
     | Some r \<Rightarrow>
         if \<not> job_is_complete r then return False
         else
           next_do (modify (\<lambda>s. s\<lparr>st_jobs := odel k (st_jobs s), st_leases := odel k (st_leases s),
              st_executions := odel k (st_executions s)\<rparr>)) (
           next_do (publish_list env (ListDeleted k))
             (return True)))"

section \<open>Calls\<close>

text \<open>The operations that change the store, as calls; a call leaves the store its operation leaves,
  whether it returned or threw.\<close>

datatype job_call =
    CallCreate string create_input
  | CallRestore restore_input
  | CallRefresh restore_input
  | CallAcquireLease string
  | CallReleaseLease string nat
  | CallClaim string string
  | CallClaimAll string "string list"
  | CallRelease string string
  | CallCancel string
  | CallUpdate string job_update
  | CallProject string job_update
  | CallBeginLog string string string log_stream string
  | CallFinishLog nat "string option"
  | CallSubscribe string nat
  | CallUnsubscribe nat nat
  | CallSubscribeList nat
  | CallUnsubscribeList nat
  | CallDelete string

fun perform_job_call :: "'d job_env \<Rightarrow> job_call \<Rightarrow> 'd job_store \<Rightarrow> 'd job_store" where
  "perform_job_call env (CallCreate now i) s = snd (create_job env now i s)"
| "perform_job_call env (CallRestore i) s = snd (restore_job env i s)"
| "perform_job_call env (CallRefresh i) s = snd (refresh_restored_job env i s)"
| "perform_job_call env (CallAcquireLease k) s = snd (acquire_deletion_lease k s)"
| "perform_job_call env (CallReleaseLease k token) s = snd (release_deletion_lease k token s)"
| "perform_job_call env (CallClaim k p) s = snd (claim_pipeline_execution k p s)"
| "perform_job_call env (CallClaimAll k ps) s = snd (claim_coordinated_executions k ps s)"
| "perform_job_call env (CallRelease k p) s = snd (release_pipeline_execution k p s)"
| "perform_job_call env (CallCancel k) s = snd (request_cancellation env k s)"
| "perform_job_call env (CallUpdate k u) s = snd (update_job env k u s)"
| "perform_job_call env (CallProject k u) s = snd (project_committed_publication env k u s)"
| "perform_job_call env (CallBeginLog k uuid now stream message) s = snd (begin_append_log k uuid now stream message s)"
| "perform_job_call env (CallFinishLog ticket failure) s = snd (finish_append_log env ticket failure s)"
| "perform_job_call env (CallSubscribe k x) s = snd (subscribe_job k x s)"
| "perform_job_call env (CallUnsubscribe k x) s = snd (unsubscribe_in k x s)"
| "perform_job_call env (CallSubscribeList x) s = snd (subscribe_list x s)"
| "perform_job_call env (CallUnsubscribeList x) s = snd (unsubscribe_list x s)"
| "perform_job_call env (CallDelete k) s = snd (delete_job env k s)"

definition perform_job_calls :: "'d job_env \<Rightarrow> job_call list \<Rightarrow> 'd job_store \<Rightarrow> 'd job_store" where
  "perform_job_calls env calls s = foldl (\<lambda>s c. perform_job_call env c s) s calls"

end
