(* ===== verification/Job_Store_Safety.thy ===== *)
theory Job_Store_Safety
  imports Job_Store
begin

text \<open>
  What holds of the job store in every state its operations can reach: the invariant of its maps, the
  exclusion of concurrent executions, the leases of deletions, and the effect of a cancellation.
\<close>

section \<open>What each operation does to the maps\<close>

lemma put_job_run [run_rules]: "put_job k r s = (x, t) \<longleftrightarrow> x = Inr () \<and> t = s\<lparr>st_jobs := oput k r (st_jobs s)\<rparr>"
  by (auto simp: put_job_def run_rules)

lemma persist_job_run [run_rules]:
  "persist_job env r s = (x, t) \<longleftrightarrow>
     (\<exists>d. env_writer env (checkpoint_path r) (job_checkpoint_of r) (st_disk s) = (x, d) \<and> t = s\<lparr>st_disk := d\<rparr>)"
  by (simp add: persist_job_def persist_at_run)

lemma require_job_run [run_rules]:
  "require_job k s = (x, t) \<longleftrightarrow> t = s
     \<and> x = (case oget (st_jobs s) k of None \<Rightarrow> Inl (job_not_found k) | Some r \<Rightarrow> Inr r)"
  by (auto simp: require_job_def bind_def gets_def throw_def return_def split: option.splits)

text \<open>Publishing changes the subscriber sets and what was sent, nothing else.\<close>

definition same_maps :: "'d job_store \<Rightarrow> 'd job_store \<Rightarrow> bool" where
  "same_maps s t \<longleftrightarrow> st_jobs t = st_jobs s \<and> st_leases t = st_leases s \<and> st_executions t = st_executions s
     \<and> st_aborted t = st_aborted s \<and> st_pending_logs t = st_pending_logs s \<and> st_next t = st_next s
     \<and> st_disk t = st_disk s"

lemma same_maps_refl [simp]: "same_maps s s"
  by (simp add: same_maps_def)

lemma same_maps_trans: "same_maps s t \<Longrightarrow> same_maps t u \<Longrightarrow> same_maps s u"
  by (simp add: same_maps_def)

lemma publish_in_run: "\<exists>t. publish_in env k notice s = (Inr (), t) \<and> same_maps s t"
  by (auto simp: publish_in_def modify_def same_maps_def split: prod.splits)

lemma publish_list_run: "\<exists>t. publish_list env notice s = (Inr (), t) \<and> same_maps s t"
  by (auto simp: publish_list_def modify_def same_maps_def split: prod.splits)

lemma announce_job_run: "\<exists>t. announce_job env r s = (Inr (), t) \<and> same_maps s t"
proof -
  obtain u where u: "publish_job env r (JobUpdated (get_public_job r)) s = (Inr (), u)" "same_maps s u"
    using publish_in_run unfolding publish_job_def by blast
  obtain t where t: "publish_list env (ListUpdated (get_job_summary r)) u = (Inr (), t)" "same_maps u t"
    using publish_list_run by blast
  show ?thesis using u t by (auto simp: announce_job_def next_do_step intro: same_maps_trans)
qed

lemma announce_job_maps: "announce_job env r s = (x, t) \<Longrightarrow> x = Inr () \<and> same_maps s t"
  using announce_job_run [of env r s] by auto

lemma publish_in_maps: "publish_in env k notice s = (x, t) \<Longrightarrow> x = Inr () \<and> same_maps s t"
  using publish_in_run [of env k notice s] by auto

lemma publish_list_maps: "publish_list env notice s = (x, t) \<Longrightarrow> x = Inr () \<and> same_maps s t"
  using publish_list_run [of env notice s] by auto

section \<open>The invariant\<close>

text \<open>Each record stands under its own identifier and shares neither its controller nor itself with
  another; leases and executions belong to jobs of the store; the executions of a job are a set that
  is not empty; the log in memory is bounded.\<close>

definition record_ok :: "nat \<Rightarrow> string \<Rightarrow> job_record \<Rightarrow> bool" where
  "record_ok n k r \<longleftrightarrow> job_id r = k \<and> jr_controller r < n \<and> jr_object r < n \<and> jr_subscriber_set r < n
     \<and> length (job_logs r) \<le> recent_log_event_limit"

definition jobs_ok :: "nat \<Rightarrow> (string, job_record) omap \<Rightarrow> bool" where
  "jobs_ok n jobs \<longleftrightarrow> distinct (okeys jobs) \<and> (\<forall>k r. oget jobs k = Some r \<longrightarrow> record_ok n k r)
     \<and> (\<forall>k k' r r'. oget jobs k = Some r \<and> oget jobs k' = Some r' \<and> k \<noteq> k' \<longrightarrow>
          jr_controller r \<noteq> jr_controller r' \<and> jr_object r \<noteq> jr_object r')"

definition leases_ok :: "nat \<Rightarrow> string set \<Rightarrow> (string, nat) omap \<Rightarrow> bool" where
  "leases_ok n keys leases \<longleftrightarrow> (\<forall>k token. oget leases k = Some token \<longrightarrow> token < n \<and> k \<in> keys)"

definition executions_ok :: "string set \<Rightarrow> (string, string list) omap \<Rightarrow> bool" where
  "executions_ok keys ex \<longleftrightarrow> (\<forall>k ps. oget ex k = Some ps \<longrightarrow> ps \<noteq> [] \<and> distinct ps \<and> k \<in> keys)"

definition pending_ok :: "nat \<Rightarrow> (nat, pending_log) omap \<Rightarrow> bool" where
  "pending_ok n m \<longleftrightarrow> (\<forall>ticket p. oget m ticket = Some p \<longrightarrow> pending_object p < n)"

definition store_ok :: "'d job_store \<Rightarrow> bool" where
  "store_ok s \<longleftrightarrow> jobs_ok (st_next s) (st_jobs s)
     \<and> leases_ok (st_next s) (fst ` set (st_jobs s)) (st_leases s)
     \<and> executions_ok (fst ` set (st_jobs s)) (st_executions s)
     \<and> list_all (\<lambda>c. c < st_next s) (st_aborted s)
     \<and> pending_ok (st_next s) (st_pending_logs s)"

definition maps_ok ::
  "nat \<Rightarrow> (string, job_record) omap \<Rightarrow> (string, nat) omap \<Rightarrow> (string, string list) omap \<Rightarrow> nat list
    \<Rightarrow> (nat, pending_log) omap \<Rightarrow> bool" where
  "maps_ok n jobs leases execs stopped pending \<longleftrightarrow>
     jobs_ok n jobs \<and> leases_ok n (fst ` set jobs) leases \<and> executions_ok (fst ` set jobs) execs
     \<and> list_all (\<lambda>c. c < n) stopped \<and> pending_ok n pending"

lemma store_ok_maps:
  "store_ok s = maps_ok (st_next s) (st_jobs s) (st_leases s) (st_executions s) (st_aborted s) (st_pending_logs s)"
  by (simp add: store_ok_def maps_ok_def)

lemma same_maps_ok: "same_maps s t \<Longrightarrow> store_ok t = store_ok s"
  by (simp add: same_maps_def store_ok_def)

lemma store_ok_disk [simp]: "store_ok (s\<lparr>st_disk := d\<rparr>) = store_ok s"
  by (simp add: store_ok_def)

lemma record_ok_mono: "record_ok n k r \<Longrightarrow> n \<le> m \<Longrightarrow> record_ok m k r"
  unfolding record_ok_def by linarith

lemma jobs_ok_mono: "jobs_ok n jobs \<Longrightarrow> n \<le> m \<Longrightarrow> jobs_ok m jobs"
  unfolding jobs_ok_def using record_ok_mono by blast

lemma leases_ok_mono: "leases_ok n keys l \<Longrightarrow> n \<le> m \<Longrightarrow> keys \<subseteq> keys' \<Longrightarrow> leases_ok m keys' l"
  unfolding leases_ok_def using less_le_trans by blast

lemma executions_ok_mono: "executions_ok keys ex \<Longrightarrow> keys \<subseteq> keys' \<Longrightarrow> executions_ok keys' ex"
  unfolding executions_ok_def by blast

lemma pending_ok_mono: "pending_ok n m \<Longrightarrow> n \<le> n' \<Longrightarrow> pending_ok n' m"
  unfolding pending_ok_def using less_le_trans by blast

lemma list_all_less_mono: "list_all (\<lambda>c. c < (n::nat)) xs \<Longrightarrow> n \<le> m \<Longrightarrow> list_all (\<lambda>c. c < m) xs"
  unfolding list_all_iff using less_le_trans by blast

lemma store_ok_next: "store_ok s \<Longrightarrow> st_next s \<le> n \<Longrightarrow> store_ok (s\<lparr>st_next := n\<rparr>)"
  unfolding store_ok_def
  by (auto intro: jobs_ok_mono leases_ok_mono [OF _ _ order_refl] pending_ok_mono list_all_less_mono)

text \<open>A record may be put in place when its identities are its own.\<close>

lemma jobs_ok_put:
  assumes "jobs_ok n jobs" and "record_ok n k r"
    and "\<And>k' r'. oget jobs k' = Some r' \<Longrightarrow> k' \<noteq> k \<Longrightarrow> jr_controller r' \<noteq> jr_controller r \<and> jr_object r' \<noteq> jr_object r"
  shows "jobs_ok n (oput k r jobs)"
  unfolding jobs_ok_def
proof (intro conjI allI impI)
  show "distinct (okeys (oput k r jobs))" using assms(1) by (auto simp: jobs_ok_def intro: distinct_okeys_oput)
  fix k1 r1 assume "oget (oput k r jobs) k1 = Some r1"
  then show "record_ok n k1 r1" using assms(1,2) by (auto simp: jobs_ok_def split: if_splits)
next
  fix k1 k2 r1 r2
  assume a: "oget (oput k r jobs) k1 = Some r1 \<and> oget (oput k r jobs) k2 = Some r2 \<and> k1 \<noteq> k2"
  have "jr_controller r1 \<noteq> jr_controller r2 \<and> jr_object r1 \<noteq> jr_object r2"
  proof (cases "k1 = k \<or> k2 = k")
    case True
    with a assms(3) [of k1 r1] assms(3) [of k2 r2] show ?thesis by (auto split: if_splits)
  next
    case False
    with a assms(1) show ?thesis unfolding jobs_ok_def by auto
  qed
  then show "jr_controller r1 \<noteq> jr_controller r2" "jr_object r1 \<noteq> jr_object r2" by auto
qed

text \<open>Replacing a record of the store by one with the same identities.\<close>

lemma jobs_ok_replace:
  assumes "jobs_ok n jobs" and "oget jobs k = Some r" and "job_id r' = k" and "jr_controller r' = jr_controller r"
    and "jr_object r' = jr_object r" and "jr_subscriber_set r' = jr_subscriber_set r"
    and "length (job_logs r') \<le> recent_log_event_limit"
  shows "jobs_ok n (oput k r' jobs)"
proof (rule jobs_ok_put [OF assms(1)])
  show "record_ok n k r'" using assms by (auto simp: record_ok_def jobs_ok_def)
  fix k' r'' assume "oget jobs k' = Some r''" "k' \<noteq> k"
  then show "jr_controller r'' \<noteq> jr_controller r' \<and> jr_object r'' \<noteq> jr_object r'"
    using assms unfolding jobs_ok_def by metis
qed

lemma store_ok_put:
  assumes "store_ok s" and "jobs_ok (st_next s) (oput k r (st_jobs s))"
  shows "store_ok (s\<lparr>st_jobs := oput k r (st_jobs s)\<rparr>)"
  using assms unfolding store_ok_def
  by (simp add: leases_ok_mono [OF _ order_refl subset_insertI] executions_ok_mono [OF _ subset_insertI])

lemma store_ok_record: "store_ok s \<Longrightarrow> oget (st_jobs s) k = Some r \<Longrightarrow> record_ok (st_next s) k r"
  by (simp add: store_ok_def jobs_ok_def)

lemma store_ok_replace:
  assumes "store_ok s" and "oget (st_jobs s) k = Some r" and "job_id r' = k" and "jr_controller r' = jr_controller r"
    and "jr_object r' = jr_object r" and "jr_subscriber_set r' = jr_subscriber_set r" and "job_logs r' = job_logs r"
  shows "store_ok (s\<lparr>st_jobs := oput k r' (st_jobs s)\<rparr>)"
proof (rule store_ok_put [OF assms(1)])
  have "jobs_ok (st_next s) (st_jobs s)" using assms(1) by (simp add: store_ok_def)
  moreover have "length (job_logs r') \<le> recent_log_event_limit"
    using store_ok_record [OF assms(1,2)] assms(7) by (simp add: record_ok_def)
  ultimately show "jobs_ok (st_next s) (oput k r' (st_jobs s))"
    using assms(2-6) by (intro jobs_ok_replace)
qed

text \<open>Putting a record whose controller and object are new.\<close>

lemma store_ok_put_new:
  assumes "store_ok s" and "job_id r = k" and "length (job_logs r) \<le> recent_log_event_limit"
    and "st_next s \<le> jr_controller r" and "st_next s \<le> jr_object r"
    and "jr_controller r < n" and "jr_object r < n" and "jr_subscriber_set r < n"
  shows "store_ok (s\<lparr>st_next := n, st_jobs := oput k r (st_jobs s)\<rparr>)"
proof -
  let ?s = "s\<lparr>st_next := n\<rparr>"
  have s: "store_ok ?s" using assms(1,4,6) by (intro store_ok_next) linarith+
  have "jobs_ok n (oput k r (st_jobs s))"
  proof (rule jobs_ok_put)
    show "jobs_ok n (st_jobs s)" using s by (simp add: store_ok_def)
    show "record_ok n k r" using assms by (simp add: record_ok_def)
    fix k' r' assume "oget (st_jobs s) k' = Some r'"
    from store_ok_record [OF assms(1) this] show "jr_controller r' \<noteq> jr_controller r \<and> jr_object r' \<noteq> jr_object r"
      using assms by (auto simp: record_ok_def)
  qed
  then show ?thesis using store_ok_put [OF s, of k r] by simp
qed

section \<open>Every operation keeps the invariant\<close>

lemma cap_recent_logs_length: "length (cap_recent_logs logs) \<le> recent_log_event_limit"
  by (simp add: cap_recent_logs_def)

lemma store_ok_announce: "announce_job env r s = (x, t) \<Longrightarrow> store_ok t = store_ok s"
  using announce_job_maps same_maps_ok by blast

lemma store_ok_publish_list: "publish_list env notice s = (x, t) \<Longrightarrow> store_ok t = store_ok s"
  using publish_list_maps same_maps_ok by blast

lemma store_ok_abort:
  "store_ok s \<Longrightarrow> c < st_next s \<Longrightarrow> store_ok (s\<lparr>st_aborted := st_aborted s @ [c]\<rparr>)"
  by (simp add: store_ok_def)

lemma create_job_ok: "store_ok s \<Longrightarrow> create_job env now i s = (x, t) \<Longrightarrow> store_ok t"
proof -
  assume s: "store_ok s" and run: "create_job env now i s = (x, t)"
  let ?r = "new_job_record i now (Suc (Suc (st_next s))) (st_next s) (Suc (st_next s))"
  let ?s = "s\<lparr>st_next := Suc (Suc (Suc (st_next s)))\<rparr>"
  have r: "job_id ?r = ci_job_id i" "jr_controller ?r = st_next s" "jr_object ?r = Suc (Suc (st_next s))"
    "jr_subscriber_set ?r = Suc (st_next s)" "job_logs ?r = []"
    by (simp_all add: new_job_record_def)
  have nxt: "store_ok ?s" using s by (intro store_ok_next) simp_all
  have new: "store_ok (?s\<lparr>st_disk := d, st_jobs := oput (job_id ?r) ?r (st_jobs s)\<rparr>)" for d
    using store_ok_put_new [of "s\<lparr>st_disk := d\<rparr>" ?r "job_id ?r" "Suc (Suc (Suc (st_next s)))"] s r
    by (simp add: store_ok_maps)
  show "store_ok t"
  proof (cases x)
    case (Inl e)
    with run nxt show ?thesis
      by (auto simp: create_job_def run_rules Let_def store_ok_maps dest: publish_list_maps)
  next
    case (Inr j)
    with run new show ?thesis
      by (auto simp: create_job_def run_rules Let_def store_ok_maps dest!: store_ok_publish_list)
  qed
qed

lemma restore_job_ok: "store_ok s \<Longrightarrow> restore_job env i s = (x, t) \<Longrightarrow> store_ok t"
proof -
  assume s: "store_ok s" and run: "restore_job env i s = (x, t)"
  let ?r = "restored_job_record i (Suc (Suc (st_next s))) (st_next s) (Suc (st_next s))"
  have r: "job_id ?r = ci_job_id (ri_create i)" "jr_controller ?r = st_next s" "jr_object ?r = Suc (Suc (st_next s))"
    "jr_subscriber_set ?r = Suc (st_next s)" "length (job_logs ?r) \<le> recent_log_event_limit"
    by (simp_all add: restored_job_record_def new_job_record_def cap_recent_logs_length)
  have nxt: "store_ok (s\<lparr>st_next := Suc (Suc (Suc (st_next s)))\<rparr>)" using s by (intro store_ok_next) simp_all
  have new: "store_ok (s\<lparr>st_disk := d, st_next := Suc (Suc (Suc (st_next s))), st_jobs := oput (job_id ?r) ?r (st_jobs s)\<rparr>)" for d
    using store_ok_put_new [of "s\<lparr>st_disk := d\<rparr>" ?r "job_id ?r" "Suc (Suc (Suc (st_next s)))"] s r
    by (simp add: store_ok_maps)
  show "store_ok t"
  proof (cases "oget (st_jobs s) (ci_job_id (ri_create i))")
    case (Some r)
    with run s show ?thesis by (simp add: restore_job_def bind_gets return_def)
  next
    case None
    with run nxt new show ?thesis
      by (cases x) (auto simp: restore_job_def bind_gets run_rules Let_def store_ok_maps)
  qed
qed

lemma refresh_job_ok: "store_ok s \<Longrightarrow> refresh_restored_job env i s = (x, t) \<Longrightarrow> store_ok t"
proof -
  assume s: "store_ok s" and run: "refresh_restored_job env i s = (x, t)"
  show "store_ok t"
  proof (cases "oget (st_jobs s) (ci_job_id (ri_create i))")
    case None
    with run s show ?thesis by (auto simp: refresh_restored_job_def bind_gets intro: restore_job_ok)
  next
    case (Some r)
    let ?r = "refreshed_job_record i (st_next s) r" and ?k = "ci_job_id (ri_create i)"
    let ?t = "s\<lparr>st_next := Suc (st_next s), st_jobs := oput ?k ?r (st_jobs s)\<rparr>"
    have r: "job_id ?r = ?k" "jr_controller ?r = jr_controller r" "jr_object ?r = st_next s"
      "jr_subscriber_set ?r = jr_subscriber_set r" "length (job_logs ?r) \<le> recent_log_event_limit"
      by (simp_all add: refreshed_job_record_def Let_def cap_recent_logs_length)
    have old: "record_ok (st_next s) ?k r" using store_ok_record [OF s Some] .
    have jobs: "jobs_ok (Suc (st_next s)) (oput ?k ?r (st_jobs s))"
    proof (rule jobs_ok_put)
      show "jobs_ok (Suc (st_next s)) (st_jobs s)"
        using s unfolding store_ok_def by (meson jobs_ok_mono le_SucI order_refl)
      show "record_ok (Suc (st_next s)) ?k ?r" using r old by (auto simp: record_ok_def)
      fix k' r' assume a: "oget (st_jobs s) k' = Some r'" "k' \<noteq> ?k"
      have "jr_controller r' \<noteq> jr_controller r" using s a Some unfolding store_ok_def jobs_ok_def by blast
      moreover have "jr_object r' \<noteq> st_next s" using store_ok_record [OF s a(1)] by (simp add: record_ok_def)
      ultimately show "jr_controller r' \<noteq> jr_controller ?r \<and> jr_object r' \<noteq> jr_object ?r" using r by simp
    qed
    have "store_ok (s\<lparr>st_next := Suc (st_next s)\<rparr>)" using s by (intro store_ok_next) simp_all
    from store_ok_put [OF this, of ?k ?r] jobs have "store_ok ?t" by simp
    with run Some show ?thesis
      by (cases x) (auto simp: refresh_restored_job_def bind_gets run_rules Let_def dest: store_ok_announce announce_job_maps)
  qed
qed

lemma acquire_lease_ok: "store_ok s \<Longrightarrow> acquire_deletion_lease k s = (x, t) \<Longrightarrow> store_ok t"
proof -
  assume s: "store_ok s" and run: "acquire_deletion_lease k s = (x, t)"
  have nxt: "store_ok (s\<lparr>st_next := Suc (st_next s)\<rparr>)" using s by (intro store_ok_next) simp_all
  have "store_ok (s\<lparr>st_next := Suc (st_next s), st_leases := oput k (st_next s) (st_leases s)\<rparr>)"
    if "oget (st_jobs s) k = Some r" for r
    using nxt oget_Some_key [OF that] by (auto simp: store_ok_def leases_ok_def)
  with s run show "store_ok t"
    by (cases x) (auto simp: acquire_deletion_lease_def bind_gets run_rules split: if_splits)
qed

lemma release_lease_ok: "store_ok s \<Longrightarrow> release_deletion_lease k token s = (x, t) \<Longrightarrow> store_ok t"
proof -
  assume s: "store_ok s" and run: "release_deletion_lease k token s = (x, t)"
  have "store_ok (s\<lparr>st_leases := odel k (st_leases s)\<rparr>)"
    using s by (auto simp: store_ok_def leases_ok_def)
  with s run show "store_ok t"
    by (cases x) (auto simp: release_deletion_lease_def bind_gets run_rules split: if_splits)
qed

lemma renew_controller_ok:
  assumes s: "store_ok s" and r: "oget (st_jobs s) k = Some r" and run: "renew_controller k r s = (x, t)"
  shows "x = Inr () \<and> store_ok t \<and> st_leases t = st_leases s \<and> st_executions t = st_executions s
    \<and> st_aborted t = st_aborted s \<and> fst ` set (st_jobs t) = fst ` set (st_jobs s)
    \<and> (\<exists>c. oget (st_jobs t) k = Some (r\<lparr>jr_controller := c\<rparr>) \<and> c \<notin> set (st_aborted s))
    \<and> (\<forall>k'. k' \<noteq> k \<longrightarrow> oget (st_jobs t) k' = oget (st_jobs s) k')"
proof (cases "signal_aborted s r")
  case False
  with r s run show ?thesis
    by (auto simp: renew_controller_def bind_gets return_def signal_aborted_def intro!: exI [of _ "jr_controller r"])
next
  case True
  let ?r = "r\<lparr>jr_controller := st_next s\<rparr>"
  let ?t = "s\<lparr>st_next := Suc (st_next s), st_jobs := oput k ?r (st_jobs s)\<rparr>"
  have t: "t = ?t" "x = Inr ()" using True run by (cases x; auto simp: renew_controller_def bind_gets run_rules)+
  have old: "record_ok (st_next s) k r" using store_ok_record [OF s r] .
  have jobs: "jobs_ok (Suc (st_next s)) (oput k ?r (st_jobs s))"
  proof (rule jobs_ok_put)
    show "jobs_ok (Suc (st_next s)) (st_jobs s)"
      using s unfolding store_ok_def by (meson jobs_ok_mono le_SucI order_refl)
    show "record_ok (Suc (st_next s)) k ?r" using old by (auto simp: record_ok_def)
    fix k' r' assume a: "oget (st_jobs s) k' = Some r'" "k' \<noteq> k"
    have "jr_object r' \<noteq> jr_object r" using s a r unfolding store_ok_def jobs_ok_def by blast
    moreover have "jr_controller r' \<noteq> st_next s" using store_ok_record [OF s a(1)] by (simp add: record_ok_def)
    ultimately show "jr_controller r' \<noteq> jr_controller ?r \<and> jr_object r' \<noteq> jr_object ?r" by simp
  qed
  have "store_ok (s\<lparr>st_next := Suc (st_next s)\<rparr>)" using s by (intro store_ok_next) simp_all
  from store_ok_put [OF this, of k ?r] jobs have "store_ok ?t" by simp
  moreover have "st_next s \<notin> set (st_aborted s)" using s by (auto simp: store_ok_def list_all_iff)
  ultimately show ?thesis using t oget_Some_key [OF r] by auto
qed

lemma executions_ok_put:
  "executions_ok keys ex \<Longrightarrow> k \<in> keys \<Longrightarrow> ps \<noteq> [] \<Longrightarrow> distinct ps \<Longrightarrow> executions_ok keys (oput k ps ex)"
  unfolding executions_ok_def by (metis oget_oput option.inject)

lemma executions_ok_del: "executions_ok keys ex \<Longrightarrow> executions_ok keys (odel k ex)"
  unfolding executions_ok_def by (metis oget_odel option.distinct(1))

lemma store_ok_executions:
  assumes "store_ok s" and "oget (st_jobs s) k = Some r" and "ps \<noteq> []" and "distinct ps"
  shows "store_ok (s\<lparr>st_executions := oput k ps (st_executions s)\<rparr>)"
proof -
  have "k \<in> fst ` set (st_jobs s)" using oget_Some_key [OF assms(2)] by simp
  with assms show ?thesis by (simp add: store_ok_def executions_ok_put)
qed

text \<open>A claim either changes nothing or leaves the executions claimed as the only ones of the job, with
  a controller that is not aborted.\<close>

definition claimed :: "string \<Rightarrow> string list \<Rightarrow> 'd job_store \<Rightarrow> 'd job_store \<Rightarrow> bool" where
  "claimed k ps s t \<longleftrightarrow> active_executions t k = ps \<and> st_leases t = st_leases s
     \<and> (\<exists>r c. oget (st_jobs s) k = Some r \<and> oget (st_jobs t) k = Some (r\<lparr>jr_controller := c\<rparr>)
          \<and> \<not> signal_aborted t (r\<lparr>jr_controller := c\<rparr>))
     \<and> (\<forall>k'. k' \<noteq> k \<longrightarrow> oget (st_jobs t) k' = oget (st_jobs s) k' \<and> active_executions t k' = active_executions s k')"

lemma claim_after_renewal:
  assumes "store_ok s" and "oget (st_jobs s) k = Some r" and "renew_controller k r s = (y, u)"
    and "ps \<noteq> []" and "distinct ps" and "t = u\<lparr>st_executions := oput k ps (st_executions u)\<rparr>"
  shows "store_ok t \<and> claimed k ps s t"
proof
  note u = renew_controller_ok [OF assms(1-3)]
  then obtain c where c: "oget (st_jobs u) k = Some (r\<lparr>jr_controller := c\<rparr>)" "c \<notin> set (st_aborted s)" by blast
  show "store_ok t" unfolding assms(6)
    by (rule store_ok_executions [OF _ c(1) assms(4,5)]) (use u in simp)
  show "claimed k ps s t"
    using u c assms(2) by (auto simp: claimed_def assms(6) active_executions_def signal_aborted_def)
qed

definition claimable :: "'d job_store \<Rightarrow> string \<Rightarrow> bool" where
  "claimable s k \<longleftrightarrow> oget (st_jobs s) k \<noteq> None \<and> \<not> is_job_deleting k s \<and> active_executions s k = []"

lemma claim_unavailable: "\<not> claimable s k \<Longrightarrow> claim_pipeline_execution k p s = (Inr False, s)"
  by (cases "oget (st_jobs s) k")
    (auto simp: claim_pipeline_execution_def bind_gets return_def claimable_def is_job_deleting_def)

lemma claim_available:
  assumes "store_ok s" and "claimable s k"
  shows "\<exists>t. claim_pipeline_execution k p s = (Inr True, t) \<and> store_ok t \<and> claimed k [p] s t"
proof -
  obtain r where r: "oget (st_jobs s) k = Some r" using assms(2) by (auto simp: claimable_def)
  obtain y u where ren: "renew_controller k r s = (y, u)" by fastforce
  note u = renew_controller_ok [OF assms(1) r ren]
  let ?t = "u\<lparr>st_executions := oput k [p] (st_executions u)\<rparr>"
  have act: "active_executions u k = []" using assms(2) u by (simp add: claimable_def active_executions_def)
  have "claim_pipeline_execution k p s = (Inr True, ?t)"
    using assms(2) r ren u act
    by (simp add: claim_pipeline_execution_def bind_gets claimable_def is_job_deleting_def next_do_step modify_def return_def)
  with claim_after_renewal [OF assms(1) r ren _ _ refl, of "[p]"] show ?thesis by simp
qed

lemma claim_ok: "store_ok s \<Longrightarrow> claim_pipeline_execution k p s = (x, t) \<Longrightarrow> store_ok t"
  using claim_available [of s k p] claim_unavailable [of s k p] by (cases "claimable s k") auto

lemma claim_all_unavailable:
  "\<not> (claimable s k \<and> ps \<noteq> [] \<and> distinct ps) \<Longrightarrow> claim_coordinated_executions k ps s = (Inr False, s)"
  by (cases "oget (st_jobs s) k")
    (auto simp: claim_coordinated_executions_def bind_gets return_def claimable_def is_job_deleting_def
      js_set_length_distinct split: if_splits)

lemma claim_all_available:
  assumes "store_ok s" and "claimable s k" and "ps \<noteq> []" and "distinct ps"
  shows "\<exists>t. claim_coordinated_executions k ps s = (Inr True, t) \<and> store_ok t \<and> claimed k ps s t"
proof -
  obtain r where r: "oget (st_jobs s) k = Some r" using assms(2) by (auto simp: claimable_def)
  obtain y u where ren: "renew_controller k r s = (y, u)" by fastforce
  note u = renew_controller_ok [OF assms(1) r ren]
  let ?t = "u\<lparr>st_executions := oput k ps (st_executions u)\<rparr>"
  have "claim_coordinated_executions k ps s = (Inr True, ?t)"
    using assms r ren u
    by (simp add: claim_coordinated_executions_def bind_gets claimable_def is_job_deleting_def next_do_step
        modify_def return_def js_set_distinct)
  with claim_after_renewal [OF assms(1) r ren assms(3,4) refl] show ?thesis by simp
qed

lemma claim_all_ok: "store_ok s \<Longrightarrow> claim_coordinated_executions k ps s = (x, t) \<Longrightarrow> store_ok t"
  using claim_all_available [of s k ps] claim_all_unavailable [of s k ps]
  by (cases "claimable s k \<and> ps \<noteq> [] \<and> distinct ps") auto

lemma release_execution_ok: "store_ok s \<Longrightarrow> release_pipeline_execution k p s = (x, t) \<Longrightarrow> store_ok t"
proof -
  assume s: "store_ok s" and run: "release_pipeline_execution k p s = (x, t)"
  show "store_ok t"
  proof (cases "oget (st_executions s) k")
    case None
    with s run show ?thesis by (simp add: release_pipeline_execution_def bind_gets return_def)
  next
    case (Some ps)
    have ex: "executions_ok (fst ` set (st_jobs s)) (st_executions s)" using s by (simp add: store_ok_def)
    then have "k \<in> fst ` set (st_jobs s)" "distinct ps" using Some unfolding executions_ok_def by blast+
    then have "removeAll p ps \<noteq> [] \<Longrightarrow>
        executions_ok (fst ` set (st_jobs s)) (oput k (removeAll p ps) (st_executions s))"
      using ex by (simp add: executions_ok_put distinct_removeAll)
    with s run Some ex show ?thesis
      by (auto simp: release_pipeline_execution_def bind_gets modify_def Let_def store_ok_def executions_ok_del
          split: if_splits)
  qed
qed

lemma cancel_ok: "store_ok s \<Longrightarrow> request_cancellation env k s = (x, t) \<Longrightarrow> store_ok t"
proof -
  assume s: "store_ok s" and run: "request_cancellation env k s = (x, t)"
  show "store_ok t"
  proof (cases "\<exists>r. oget (st_jobs s) k = Some r \<and> \<not> job_is_complete r \<and> \<not> signal_aborted s r")
    case False
    with s run show ?thesis
      by (auto simp: request_cancellation_def bind_gets return_def split: option.splits if_splits)
  next
    case True
    then obtain r where r: "oget (st_jobs s) k = Some r" "\<not> job_is_complete r" "\<not> signal_aborted s r" by blast
    let ?c = "(clone_job_record r)\<lparr>job_display_status := Cancelling\<rparr>"
    have less: "jr_controller r < st_next s" "job_id r = k" using store_ok_record [OF s r(1)] by (simp_all add: record_ok_def)
    have put: "store_ok (s\<lparr>st_jobs := oput k ?c (st_jobs s)\<rparr>)"
      by (rule store_ok_replace [OF s r(1)]) (simp_all add: less)
    from run r have "(case x of Inl e \<Rightarrow> \<exists>d. t = s\<lparr>st_disk := d, st_aborted := st_aborted s @ [jr_controller r]\<rparr>
      | Inr _ \<Rightarrow> \<exists>d. same_maps (s\<lparr>st_disk := d, st_jobs := oput k ?c (st_jobs s), st_aborted := st_aborted s @ [jr_controller r]\<rparr>) t)"
      by (cases x) (auto simp: request_cancellation_def bind_gets Let_def run_rules dest!: announce_job_maps)
    with s put less show ?thesis
      by (auto simp: store_ok_maps maps_ok_def same_maps_def split: sum.splits)
  qed
qed

text \<open>A candidate of an update differs from the record in its data only.\<close>

lemma store_ok_candidate:
  "store_ok s \<Longrightarrow> oget (st_jobs s) k = Some r \<Longrightarrow>
     store_ok (s\<lparr>st_jobs := oput k (assign_job u (clone_job_record r)) (st_jobs s)\<rparr>)"
  using store_ok_record [of s k r] by (intro store_ok_replace) (auto simp: record_ok_def)

lemma update_ok: "store_ok s \<Longrightarrow> update_job env k u s = (x, t) \<Longrightarrow> store_ok t"
proof -
  assume s: "store_ok s" and run: "update_job env k u s = (x, t)"
  show "store_ok t"
  proof (cases "oget (st_jobs s) k")
    case None
    with s run show ?thesis by (cases x) (auto simp: update_job_def run_rules)
  next
    case (Some r)
    let ?c = "assign_job u (clone_job_record r)"
    from run Some have "(case x of Inl e \<Rightarrow> \<exists>d. t = s\<lparr>st_disk := d\<rparr>
      | Inr _ \<Rightarrow> \<exists>d. same_maps (s\<lparr>st_disk := d, st_jobs := oput k ?c (st_jobs s)\<rparr>) t)"
      by (cases x) (auto simp: update_job_def Let_def run_rules dest!: announce_job_maps)
    with s store_ok_candidate [OF s Some, of u] show ?thesis
      by (auto simp: store_ok_maps same_maps_def split: sum.splits)
  qed
qed

lemma project_ok: "store_ok s \<Longrightarrow> project_committed_publication env k u s = (x, t) \<Longrightarrow> store_ok t"
proof -
  assume s: "store_ok s" and run: "project_committed_publication env k u s = (x, t)"
  show "store_ok t"
  proof (cases "oget (st_jobs s) k")
    case None
    with s run show ?thesis by (cases x) (auto simp: project_committed_publication_def run_rules)
  next
    case (Some r)
    let ?c = "assign_job u (clone_job_record r)"
    from run Some have "\<exists>d. same_maps (s\<lparr>st_disk := d, st_jobs := oput k ?c (st_jobs s)\<rparr>) t"
      by (cases x) (auto simp: project_committed_publication_def Let_def run_rules dest!: announce_job_maps)
    with s store_ok_candidate [OF s Some, of u] show ?thesis
      by (auto simp: store_ok_maps same_maps_def)
  qed
qed

lemma begin_log_ok: "store_ok s \<Longrightarrow> begin_append_log k uuid now stream message s = (x, t) \<Longrightarrow> store_ok t"
proof -
  assume s: "store_ok s" and run: "begin_append_log k uuid now stream message s = (x, t)"
  have nxt: "store_ok (s\<lparr>st_next := Suc (st_next s)\<rparr>)" using s by (intro store_ok_next) simp_all
  show "store_ok t"
  proof (cases "oget (st_jobs s) k")
    case None
    with s run show ?thesis by (cases x) (auto simp: begin_append_log_def run_rules)
  next
    case (Some r)
    have "jr_object r < st_next s" using store_ok_record [OF s Some] by (simp add: record_ok_def)
    with nxt run Some show ?thesis
      by (cases x) (auto simp: begin_append_log_def run_rules Let_def store_ok_def pending_ok_def)
  qed
qed

text \<open>Which records an append extends: those that are the object it was called for.\<close>

definition log_extended :: "pending_log \<Rightarrow> job_record \<Rightarrow> job_record" where
  "log_extended p r = (if jr_object r = pending_object p
     then r\<lparr>job_logs := cap_recent_logs (job_logs r @ [pending_event p])\<rparr> else r)"

lemma extend_logs_jobs: "st_jobs (extend_logs p s) = map (\<lambda>(k, r). (k, log_extended p r)) (st_jobs s)"
  by (simp add: extend_logs_def log_extended_def)

lemma oget_extend_logs: "oget (st_jobs (extend_logs p s)) k = map_option (log_extended p) (oget (st_jobs s) k)"
  unfolding extend_logs_jobs by (induction "st_jobs s") (auto simp: map_of_map)

lemma log_extended_identity [simp]:
  "job_id (log_extended p r) = job_id r" "jr_controller (log_extended p r) = jr_controller r"
  "jr_object (log_extended p r) = jr_object r" "jr_subscriber_set (log_extended p r) = jr_subscriber_set r"
  "jr_job_dir (log_extended p r) = jr_job_dir r" "job_checkpoint_of (log_extended p r) = job_checkpoint_of r"
  by (simp_all add: log_extended_def)

lemma log_extended_bounded:
  "length (job_logs r) \<le> recent_log_event_limit \<Longrightarrow> length (job_logs (log_extended p r)) \<le> recent_log_event_limit"
  by (simp add: log_extended_def cap_recent_logs_length)

lemma extend_logs_keys: "okeys (st_jobs (extend_logs p s)) = okeys (st_jobs s)"
  unfolding extend_logs_jobs by (induction "st_jobs s") auto

lemma extend_logs_ok: "store_ok s \<Longrightarrow> store_ok (extend_logs p s)"
proof -
  assume s: "store_ok s"
  have other: "st_next (extend_logs p s) = st_next s" "st_leases (extend_logs p s) = st_leases s"
    "st_executions (extend_logs p s) = st_executions s" "st_aborted (extend_logs p s) = st_aborted s"
    "st_pending_logs (extend_logs p s) = st_pending_logs s"
    by (simp_all add: extend_logs_def)
  have keys: "fst ` set (st_jobs (extend_logs p s)) = fst ` set (st_jobs s)"
    using extend_logs_keys [of p s] by (metis set_map)
  have "jobs_ok (st_next s) (st_jobs (extend_logs p s))"
    unfolding jobs_ok_def
  proof (intro conjI allI impI)
    show "distinct (okeys (st_jobs (extend_logs p s)))"
      using s unfolding extend_logs_keys by (simp add: store_ok_def jobs_ok_def)
    fix k r assume "oget (st_jobs (extend_logs p s)) k = Some r"
    then obtain r0 where "oget (st_jobs s) k = Some r0" "r = log_extended p r0" by (auto simp: oget_extend_logs)
    with store_ok_record [OF s] show "record_ok (st_next s) k r"
      by (auto simp: record_ok_def log_extended_bounded)
  next
    fix k k' r r'
    assume a: "oget (st_jobs (extend_logs p s)) k = Some r \<and> oget (st_jobs (extend_logs p s)) k' = Some r' \<and> k \<noteq> k'"
    then obtain r0 r0' where "oget (st_jobs s) k = Some r0" "r = log_extended p r0"
      "oget (st_jobs s) k' = Some r0'" "r' = log_extended p r0'" by (auto simp: oget_extend_logs)
    moreover from this a s have "jr_controller r0 \<noteq> jr_controller r0' \<and> jr_object r0 \<noteq> jr_object r0'"
      unfolding store_ok_def jobs_ok_def by blast
    ultimately show "jr_controller r \<noteq> jr_controller r'" "jr_object r \<noteq> jr_object r'" by simp_all
  qed
  with s show ?thesis unfolding store_ok_maps maps_ok_def other keys by simp
qed

lemma finish_log_ok: "store_ok s \<Longrightarrow> finish_append_log env ticket failure s = (x, t) \<Longrightarrow> store_ok t"
proof -
  assume s: "store_ok s" and run: "finish_append_log env ticket failure s = (x, t)"
  let ?s = "s\<lparr>st_pending_logs := odel ticket (st_pending_logs s)\<rparr>"
  have "store_ok ?s" using s by (auto simp: store_ok_def pending_ok_def)
  then show "store_ok t"
    using run s extend_logs_ok [of ?s]
    by (cases x; cases failure; cases "oget (st_pending_logs s) ticket")
      (auto simp: finish_append_log_def bind_gets run_rules dest!: publish_in_maps dest: same_maps_ok)
qed

lemma leases_ok_drop: "leases_ok n keys l \<Longrightarrow> leases_ok n (keys - {k}) (odel k l)"
  unfolding leases_ok_def by (metis DiffI oget_odel option.distinct(1) singletonD)

lemma executions_ok_drop: "executions_ok keys ex \<Longrightarrow> executions_ok (keys - {k}) (odel k ex)"
  unfolding executions_ok_def by (metis DiffI oget_odel option.distinct(1) singletonD)

lemma jobs_ok_drop: "jobs_ok n jobs \<Longrightarrow> jobs_ok n (odel k jobs)"
  unfolding jobs_ok_def
  by (metis (no_types, lifting) distinct_okeys_odel oget_odel option.distinct(1))

lemma delete_ok: "store_ok s \<Longrightarrow> delete_job env k s = (x, t) \<Longrightarrow> store_ok t"
proof -
  assume s: "store_ok s" and run: "delete_job env k s = (x, t)"
  let ?t = "s\<lparr>st_jobs := odel k (st_jobs s), st_leases := odel k (st_leases s), st_executions := odel k (st_executions s)\<rparr>"
  have "fst ` set (odel k (st_jobs s)) = fst ` set (st_jobs s) - {k}" by (auto simp: odel_def)
  with s have "store_ok ?t"
    by (simp add: store_ok_def jobs_ok_drop leases_ok_drop executions_ok_drop)
  with s run show "store_ok t"
    by (cases x) (auto simp: delete_job_def bind_gets run_rules dest!: store_ok_publish_list split: option.splits if_splits)
qed

text \<open>Subscribing touches no map of the invariant.\<close>

lemma subscribe_ok: "store_ok s \<Longrightarrow> subscribe_job k x s = (y, t) \<Longrightarrow> store_ok t"
  by (cases y) (auto simp: subscribe_job_def subscribe_in_def bind_gets run_rules store_ok_maps split: option.splits)

lemma other_subscriptions_ok:
  "store_ok s \<Longrightarrow> store_ok (snd (unsubscribe_in n x s))"
  "store_ok s \<Longrightarrow> store_ok (snd (subscribe_list x s))"
  "store_ok s \<Longrightarrow> store_ok (snd (unsubscribe_list x s))"
  by (simp_all add: unsubscribe_in_def subscribe_list_def unsubscribe_list_def modify_def store_ok_maps)

lemma operations_keep:
  "keeps store_ok (create_job env now i)"
  "keeps store_ok (restore_job env j)"
  "keeps store_ok (refresh_restored_job env j)"
  "keeps store_ok (acquire_deletion_lease k)"
  "keeps store_ok (release_deletion_lease k token)"
  "keeps store_ok (claim_pipeline_execution k p)"
  "keeps store_ok (claim_coordinated_executions k ps)"
  "keeps store_ok (release_pipeline_execution k p)"
  "keeps store_ok (request_cancellation env k)"
  "keeps store_ok (update_job env k u)"
  "keeps store_ok (project_committed_publication env k u)"
  "keeps store_ok (begin_append_log k uuid now stream message)"
  "keeps store_ok (finish_append_log env ticket failure)"
  "keeps store_ok (subscribe_job k x)"
  "keeps store_ok (delete_job env k)"
  subgoal by (rule keepsI) (erule create_job_ok)
  subgoal by (rule keepsI) (erule restore_job_ok)
  subgoal by (rule keepsI) (erule refresh_job_ok)
  subgoal by (rule keepsI) (erule acquire_lease_ok)
  subgoal by (rule keepsI) (erule release_lease_ok)
  subgoal by (rule keepsI) (erule claim_ok)
  subgoal by (rule keepsI) (erule claim_all_ok)
  subgoal by (rule keepsI) (erule release_execution_ok)
  subgoal by (rule keepsI) (erule cancel_ok)
  subgoal by (rule keepsI) (erule update_ok)
  subgoal by (rule keepsI) (erule project_ok)
  subgoal by (rule keepsI) (erule begin_log_ok)
  subgoal by (rule keepsI) (erule finish_log_ok)
  subgoal by (rule keepsI) (erule subscribe_ok)
  subgoal by (rule keepsI) (erule delete_ok)
  done

lemma perform_ok: "store_ok s \<Longrightarrow> store_ok (perform_job_call env c s)"
  by (cases c) (simp_all add: operations_keep [unfolded keeps_def, rule_format] other_subscriptions_ok)

lemma perform_job_calls_simps [simp]:
  "perform_job_calls env [] s = s"
  "perform_job_calls env (c # cs) s = perform_job_calls env cs (perform_job_call env c s)"
  by (simp_all add: perform_job_calls_def)

lemma calls_ok: "store_ok s \<Longrightarrow> store_ok (perform_job_calls env calls s)"
proof (induction calls arbitrary: s)
  case (Cons c cs)
  show ?case unfolding perform_job_calls_simps by (rule Cons.IH) (rule perform_ok [OF Cons.prems])
qed simp

lemma empty_store_ok: "store_ok (empty_job_store d)"
  by (simp add: empty_job_store_def store_ok_def jobs_ok_def leases_ok_def executions_ok_def pending_ok_def)

text \<open>C4. In every state that calls of the store can reach, each job stands under its own identifier and
  shares neither its controller nor its record with another, leases and executions belong to jobs
  of the store, and every log in memory is bounded.\<close>

theorem job_store_invariant: "store_ok (perform_job_calls env calls (empty_job_store d))"
  by (rule calls_ok) (rule empty_store_ok)

end
