(* ===== verification/Job_Store_Guarantees.thy ===== *)
theory Job_Store_Guarantees
  imports Job_Store_Safety "HOL-Library.Multiset"
begin

text \<open>
  What the callers of the job store rely on: executions of a job exclude each other and the deletion
  of the job, a token of a lease works once, a cancellation always reaches the signal, and the
  checkpoint on disk follows the record in memory.
\<close>

section \<open>A small store\<close>

text \<open>One job, a writer that always succeeds, and the states the witnesses start from.\<close>

definition sample_create :: create_input where
  "sample_create = \<lparr> ci_job_id = ''a'', ci_job_dir = ''/j/a'', ci_file_name = ''a.pdf'', ci_use_openai = None,
     ci_additional_instructions = None, ci_retry_source = None \<rparr>"

definition sample_job_env :: "unit job_env" where
  "sample_job_env = \<lparr> env_writer = \<lambda>p c d. (Inr (), d), env_rejects = \<lambda>x n. False \<rparr>"

definition disk_job_env :: "disk job_env" where
  "disk_job_env = \<lparr> env_writer = write_json_checkpoint (\<lambda>c. cp_job_id c), env_rejects = \<lambda>x n. False \<rparr>"

definition sample_record :: job_record where
  "sample_record = new_job_record sample_create ''t'' 2 0 1"

definition sample_disk_store :: "disk job_store" where
  "sample_disk_store = (empty_job_store \<lparr> disk_files = [], disk_plans = [] \<rparr>)\<lparr>st_jobs := [(''a'', sample_record)], st_next := 3\<rparr>"

definition sample_store :: "unit job_store" where
  "sample_store = perform_job_calls sample_job_env [CallCreate ''t'' sample_create, CallClaim ''a'' ''component''] (empty_job_store ())"

lemmas job_store_eval = sample_store_def sample_job_env_def sample_create_def empty_job_store_def create_job_def
  claim_pipeline_execution_def renew_controller_def signal_aborted_def active_executions_def new_object_def
  persist_job_def persist_at_def publish_list_def deliver_def put_job_def new_job_record_def run_defs Let_def

lemma sample_store_active: "active_executions sample_store ''a'' = [''component'']"
  by (simp add: job_store_eval)

section \<open>Executions exclude each other\<close>

text \<open>C19. A claim succeeds exactly when the job exists, is not being deleted and has no active
  execution; it then makes the claimed pipeline the only active one, under a signal that is not
  aborted, and changes no other job. Otherwise it changes nothing.\<close>

theorem claim_exact:
  "let s = perform_job_calls env calls (empty_job_store d) in
   if claimable s k then \<exists>t. claim_pipeline_execution k p s = (Inr True, t) \<and> claimed k [p] s t
   else claim_pipeline_execution k p s = (Inr False, s)"
proof -
  have "store_ok (perform_job_calls env calls (empty_job_store d))"
    by (rule calls_ok) (rule empty_store_ok)
  from claim_available [OF this] claim_unavailable show ?thesis by (fastforce simp: Let_def)
qed

text \<open>Operations that leave the executions and the leases as they are.\<close>

definition same_claims :: "(string, nat) omap \<Rightarrow> (string, string list) omap \<Rightarrow> 'd job_store \<Rightarrow> bool" where
  "same_claims l ex s \<longleftrightarrow> st_leases s = l \<and> st_executions s = ex"

lemma same_claims_basic [intro, simp]:
  "keeps (same_claims l ex) new_object" "keeps (same_claims l ex) (put_job k r)"
  "keeps (same_claims l ex) (persist_job env r)" "keeps (same_claims l ex) (publish_in env n notice)"
  "keeps (same_claims l ex) (publish_list env notice)" "keeps (same_claims l ex) (abort_controller c)"
  "keeps (same_claims l ex) (require_job k)" "keeps (same_claims l ex) (modify (extend_logs p))"
  by (auto simp: keeps_def same_claims_def store_base_defs put_job_def persist_job_def require_job_def extend_logs_def run_defs
      split: prod.splits option.splits)

lemma same_claims_announce [intro, simp]: "keeps (same_claims l ex) (announce_job env r)"
  unfolding announce_job_def publish_job_def by (intro keeps_next_do same_claims_basic)

lemma same_claims_modify:
  "(\<And>s. st_leases (f s) = st_leases s \<and> st_executions (f s) = st_executions s) \<Longrightarrow> keeps (same_claims l ex) (modify f)"
  by (rule keeps_modify) (simp add: same_claims_def)

lemmas same_claims_rules = keeps_bind keeps_next_do keeps_catch keeps_if keeps_option keeps_return keeps_throw
  keeps_gets same_claims_basic same_claims_announce same_claims_modify

lemma same_claims_restore: "keeps (same_claims l ex) (restore_job env j)"
  unfolding restore_job_def Let_def by (intro same_claims_rules)

lemma same_claims_operations:
  "keeps (same_claims l ex) (create_job env now i)" "keeps (same_claims l ex) (refresh_restored_job env j)"
  "keeps (same_claims l ex) (request_cancellation env k)" "keeps (same_claims l ex) (update_job env k u)"
  "keeps (same_claims l ex) (project_committed_publication env k u)"
  "keeps (same_claims l ex) (begin_append_log k uuid now stream message)"
  "keeps (same_claims l ex) (finish_append_log env ticket failure)" "keeps (same_claims l ex) (subscribe_job k x)"
  "keeps (same_claims l ex) (unsubscribe_in n x)" "keeps (same_claims l ex) (subscribe_list x)"
  "keeps (same_claims l ex) (unsubscribe_list x)"
  unfolding create_job_def refresh_restored_job_def request_cancellation_def update_job_def
    project_committed_publication_def begin_append_log_def finish_append_log_def subscribe_job_def
    subscribe_in_def unsubscribe_in_def subscribe_list_def unsubscribe_list_def Let_def
  by (intro same_claims_rules same_claims_restore; simp)+

lemma same_claims_renew: "keeps (same_claims l ex) (renew_controller k r)"
  unfolding renew_controller_def by (intro same_claims_rules)

text \<open>The lease and the executions of one job, which operations on other jobs leave alone.\<close>

definition claims_of :: "string \<Rightarrow> nat option \<Rightarrow> string list option \<Rightarrow> 'd job_store \<Rightarrow> bool" where
  "claims_of k lease ps s \<longleftrightarrow> oget (st_leases s) k = lease \<and> oget (st_executions s) k = ps"

lemma keeps_claims_of:
  "(\<And>l ex. keeps (same_claims l ex) m) \<Longrightarrow> keeps (claims_of k lease ps) m"
  unfolding keeps_def claims_of_def same_claims_def by metis

lemma claims_of_claim: "k' \<noteq> k \<Longrightarrow> keeps (claims_of k lease ps) (claim_pipeline_execution k' p)"
  unfolding claim_pipeline_execution_def
  by (intro keeps_bind keeps_next_do keeps_option keeps_if keeps_return keeps_gets keeps_claims_of [OF same_claims_renew]
      keeps_modify) (simp add: claims_of_def)

lemma claims_of_claim_all: "k' \<noteq> k \<Longrightarrow> keeps (claims_of k lease ps) (claim_coordinated_executions k' qs)"
  unfolding claim_coordinated_executions_def
  by (intro keeps_bind keeps_next_do keeps_option keeps_if keeps_return keeps_gets keeps_claims_of [OF same_claims_renew]
      keeps_modify) (simp add: claims_of_def)

lemma claims_of_release: "k' \<noteq> k \<Longrightarrow> keeps (claims_of k lease ps) (release_pipeline_execution k' p)"
  unfolding release_pipeline_execution_def Let_def
  by (intro keeps_bind keeps_option keeps_return keeps_gets keeps_modify) (simp add: claims_of_def)

lemma claims_of_acquire: "k' \<noteq> k \<Longrightarrow> keeps (claims_of k lease ps) (acquire_deletion_lease k')"
  unfolding acquire_deletion_lease_def
  by (intro keeps_bind keeps_next_do keeps_if keeps_return keeps_gets keeps_claims_of [OF same_claims_basic(1)]
      keeps_modify) (simp add: claims_of_def)

lemma claims_of_release_lease: "k' \<noteq> k \<Longrightarrow> keeps (claims_of k lease ps) (release_deletion_lease k' token)"
  unfolding release_deletion_lease_def
  by (intro keeps_bind keeps_next_do keeps_if keeps_return keeps_gets keeps_modify) (simp add: claims_of_def)

lemma claims_of_delete: "k' \<noteq> k \<Longrightarrow> keeps (claims_of k lease ps) (delete_job env k')"
  unfolding delete_job_def
  by (intro keeps_bind keeps_next_do keeps_option keeps_if keeps_return keeps_gets
      keeps_claims_of [OF same_claims_basic(5)] keeps_modify) (simp add: claims_of_def)

lemmas claims_of_other = claims_of_claim claims_of_claim_all claims_of_release claims_of_acquire
  claims_of_release_lease claims_of_delete

text \<open>The calls that name a job and may change its lease or its executions.\<close>

fun claims_job :: "string \<Rightarrow> job_call \<Rightarrow> bool" where
  "claims_job k (CallAcquireLease k') = (k' = k)"
| "claims_job k (CallReleaseLease k' token) = (k' = k)"
| "claims_job k (CallClaim k' p) = (k' = k)"
| "claims_job k (CallClaimAll k' ps) = (k' = k)"
| "claims_job k (CallRelease k' p) = (k' = k)"
| "claims_job k (CallDelete k') = (k' = k)"
| "claims_job k _ = False"

lemma claims_of_unnamed:
  "\<not> claims_job k c \<Longrightarrow> claims_of k lease ps s \<Longrightarrow> claims_of k lease ps (perform_job_call env c s)"
  using claims_of_other [unfolded keeps_def, rule_format] same_claims_operations [THEN keeps_claims_of, unfolded keeps_def, rule_format]
    same_claims_restore [THEN keeps_claims_of, unfolded keeps_def, rule_format]
  by (cases c) simp_all

lemma unnamed_claims:
  "\<not> claims_job k c \<Longrightarrow> oget (st_leases (perform_job_call env c s)) k = oget (st_leases s) k
     \<and> oget (st_executions (perform_job_call env c s)) k = oget (st_executions s) k"
  using claims_of_unnamed [of k c "oget (st_leases s) k" "oget (st_executions s) k" s env] by (simp add: claims_of_def)

lemma lease_operations_executions:
  "st_executions (snd (acquire_deletion_lease k s)) = st_executions s"
  "st_executions (snd (release_deletion_lease k token s)) = st_executions s"
  by (simp_all add: acquire_deletion_lease_def release_deletion_lease_def bind_gets run_defs new_object_def)

fun releases_job :: "string \<Rightarrow> job_call \<Rightarrow> bool" where
  "releases_job k (CallRelease k' p) = (k' = k)"
| "releases_job k (CallDelete k') = (k' = k)"
| "releases_job k _ = False"

lemma executions_step:
  assumes "active_executions s k \<noteq> []" and "\<not> releases_job k c"
  shows "active_executions (perform_job_call env c s) k = active_executions s k"
proof (cases "claims_job k c")
  case False
  from unnamed_claims [OF this, of env s] show ?thesis by (simp add: active_executions_def)
next
  case True
  have "\<not> claimable s k" using assms(1) by (simp add: claimable_def)
  with True assms(2) show ?thesis
    by (cases c) (simp_all add: claim_unavailable claim_all_unavailable lease_operations_executions active_executions_def)
qed

text \<open>C20. From the moment a job has an active execution until one of its executions is released or the
  job is deleted, its executions stay as they are and every claim for it fails, whatever other calls
  the store serves.\<close>

theorem no_second_execution:
  assumes "active_executions s k \<noteq> []" and "list_all (\<lambda>c. \<not> releases_job k c) calls"
  shows "active_executions (perform_job_calls env calls s) k = active_executions s k
    \<and> fst (claim_pipeline_execution k p (perform_job_calls env calls s)) = Inr False
    \<and> fst (claim_coordinated_executions k ps (perform_job_calls env calls s)) = Inr False"
proof -
  have "active_executions (perform_job_calls env calls s) k = active_executions s k"
    using assms
  proof (induction calls arbitrary: s)
    case (Cons c cs)
    then have "active_executions (perform_job_call env c s) k = active_executions s k"
      by (simp add: executions_step)
    with Cons show ?case by simp
  qed simp
  with assms(1) show ?thesis by (simp add: claim_unavailable claim_all_unavailable claimable_def)
qed

theorem no_second_execution_witness:
  "active_executions (perform_job_calls sample_job_env [CallClaim ''a'' ''application'', CallCancel ''a''] sample_store) ''a''
     = [''component'']"
  using no_second_execution [of sample_store "''a''" "[CallClaim ''a'' ''application'', CallCancel ''a'']" sample_job_env]
  by (simp add: sample_store_active)

section \<open>Deletion leases\<close>

fun ends_lease :: "string \<Rightarrow> nat \<Rightarrow> job_call \<Rightarrow> bool" where
  "ends_lease k token (CallReleaseLease k' token') = (k' = k \<and> token' = token)"
| "ends_lease k token (CallDelete k') = (k' = k)"
| "ends_lease k token _ = False"

lemma release_shrinks: "set (active_executions (snd (release_pipeline_execution k p s)) k) \<subseteq> set (active_executions s k)"
  by (auto simp: release_pipeline_execution_def bind_gets return_def modify_def active_executions_def Let_def
      split: option.splits if_splits)

lemma release_leases: "st_leases (snd (release_pipeline_execution k p s)) = st_leases s"
  by (simp add: release_pipeline_execution_def bind_gets return_def modify_def Let_def split: option.splits)

lemma lease_unavailable:
  "oget (st_leases s) k = Some token \<Longrightarrow> snd (acquire_deletion_lease k s) = s"
  "oget (st_leases s) k \<noteq> Some token \<Longrightarrow> release_deletion_lease k token s = (Inr False, s)"
  by (simp_all add: acquire_deletion_lease_def release_deletion_lease_def bind_gets return_def)

lemma lease_step:
  assumes "oget (st_leases s) k = Some token" and "\<not> ends_lease k token c"
  shows "oget (st_leases (perform_job_call env c s)) k = Some token
    \<and> set (active_executions (perform_job_call env c s) k) \<subseteq> set (active_executions s k)"
proof (cases "claims_job k c")
  case False
  from unnamed_claims [OF this, of env s] assms(1) show ?thesis by (simp add: active_executions_def)
next
  case True
  have "\<not> claimable s k" using assms(1) by (simp add: claimable_def is_job_deleting_def)
  with True assms show ?thesis
    by (cases c) (auto simp: claim_unavailable claim_all_unavailable lease_unavailable release_leases
        dest: release_shrinks [THEN subsetD])
qed

text \<open>While a deletion lease is held, whatever calls the store serves, the lease stays, no execution
  of the job starts, and nobody else can acquire a lease; only its token or the deletion ends it.\<close>

theorem lease_blocks_executions:
  assumes "oget (st_leases s) k = Some token" and "list_all (\<lambda>c. \<not> ends_lease k token c) calls"
  shows "oget (st_leases (perform_job_calls env calls s)) k = Some token
    \<and> set (active_executions (perform_job_calls env calls s) k) \<subseteq> set (active_executions s k)
    \<and> fst (claim_pipeline_execution k p (perform_job_calls env calls s)) = Inr False
    \<and> fst (acquire_deletion_lease k (perform_job_calls env calls s)) \<in> {Inr AlreadyDeleting, Inr LeaseNotFound}"
proof -
  have held: "oget (st_leases (perform_job_calls env calls s)) k = Some token
    \<and> set (active_executions (perform_job_calls env calls s) k) \<subseteq> set (active_executions s k)"
    using assms
  proof (induction calls arbitrary: s)
    case (Cons c cs)
    then have "oget (st_leases (perform_job_call env c s)) k = Some token"
      "set (active_executions (perform_job_call env c s) k) \<subseteq> set (active_executions s k)"
      using lease_step [of s k token c env] by auto
    with Cons show ?case by fastforce
  qed simp
  then show ?thesis
    by (simp add: claim_unavailable claimable_def is_job_deleting_def acquire_deletion_lease_def bind_gets return_def)
qed

theorem lease_blocks_executions_witness:
  "oget (st_leases (perform_job_calls sample_job_env [CallReleaseLease ''a'' 3, CallClaim ''a'' ''x'']
       (sample_store\<lparr>st_leases := [(''a'', 7)]\<rparr>))) ''a'' = Some 7"
  using lease_blocks_executions [of "sample_store\<lparr>st_leases := [(''a'', 7)]\<rparr>" "''a''" 7
      "[CallReleaseLease ''a'' 3, CallClaim ''a'' ''x'']" sample_job_env]
  by simp

text \<open>A token that has been issued and is no longer a lease never is one again.\<close>

definition spent :: "string \<Rightarrow> nat \<Rightarrow> 'd job_store \<Rightarrow> bool" where
  "spent k token s \<longleftrightarrow> token < st_next s \<and> oget (st_leases s) k \<noteq> Some token"

lemma spent_basic [intro, simp]:
  "keeps (spent k token) new_object" "keeps (spent k token) (put_job k' r)"
  "keeps (spent k token) (persist_job env r)" "keeps (spent k token) (publish_in env n notice)"
  "keeps (spent k token) (publish_list env notice)" "keeps (spent k token) (abort_controller c)"
  "keeps (spent k token) (require_job k')" "keeps (spent k token) (modify (extend_logs p))"
  by (auto simp: keeps_def spent_def store_base_defs put_job_def persist_job_def require_job_def extend_logs_def run_defs
      split: prod.splits option.splits)

lemma spent_announce [intro, simp]: "keeps (spent k token) (announce_job env r)"
  unfolding announce_job_def publish_job_def by (intro keeps_next_do spent_basic)

lemma spent_modify:
  assumes "\<And>s. st_next (f s) = st_next s \<and> (st_leases (f s) = st_leases s \<or> (\<exists>k'. st_leases (f s) = odel k' (st_leases s)))"
  shows "keeps (spent k token) (modify f)"
proof (rule keeps_modify)
  fix s :: "'a job_store"
  assume "spent k token s"
  then show "spent k token (f s)" using assms [of s] by (auto simp: spent_def split: if_splits)
qed

lemmas spent_rules = keeps_bind keeps_next_do keeps_catch keeps_if keeps_option keeps_return keeps_throw
  keeps_gets spent_basic spent_announce spent_modify

lemma spent_restore: "keeps (spent k token) (restore_job env j)"
  unfolding restore_job_def Let_def by (intro spent_rules)

lemma spent_renew: "keeps (spent k token) (renew_controller k' r)"
  unfolding renew_controller_def by (intro spent_rules)

lemma spent_operations:
  "keeps (spent k token) (create_job env now i)" "keeps (spent k token) (refresh_restored_job env j)"
  "keeps (spent k token) (request_cancellation env k')" "keeps (spent k token) (update_job env k' u)"
  "keeps (spent k token) (project_committed_publication env k' u)"
  "keeps (spent k token) (begin_append_log k' uuid now stream message)"
  "keeps (spent k token) (finish_append_log env ticket failure)" "keeps (spent k token) (subscribe_job k' x)"
  "keeps (spent k token) (unsubscribe_in n x)" "keeps (spent k token) (subscribe_list x)"
  "keeps (spent k token) (unsubscribe_list x)" "keeps (spent k token) (claim_pipeline_execution k' p)"
  "keeps (spent k token) (claim_coordinated_executions k' ps)" "keeps (spent k token) (release_pipeline_execution k' p)"
  "keeps (spent k token) (release_deletion_lease k' token')" "keeps (spent k token) (delete_job env k')"
  unfolding create_job_def refresh_restored_job_def request_cancellation_def update_job_def
    project_committed_publication_def begin_append_log_def finish_append_log_def subscribe_job_def
    subscribe_in_def unsubscribe_in_def subscribe_list_def unsubscribe_list_def claim_pipeline_execution_def
    claim_coordinated_executions_def release_pipeline_execution_def release_deletion_lease_def delete_job_def Let_def
  by (intro spent_rules spent_restore spent_renew; auto)+

lemma spent_acquire: "spent k token s \<Longrightarrow> spent k token (snd (acquire_deletion_lease k' s))"
  by (auto simp: spent_def acquire_deletion_lease_def bind_gets new_object_def run_defs)

lemma spent_step: "spent k token s \<Longrightarrow> spent k token (perform_job_call env c s)"
  using spent_operations [unfolded keeps_def, rule_format] spent_restore [unfolded keeps_def, rule_format] spent_acquire
  by (cases c) simp_all

text \<open>The token of a deletion lease works once: after it has released its lease, no later use of it
  releases another holder's lease on the job, whatever happened in between.\<close>

theorem lease_token_works_once:
  assumes "release_deletion_lease k token (perform_job_calls env before (empty_job_store d)) = (Inr True, s)"
  shows "release_deletion_lease k token (perform_job_calls env calls s) = (Inr False, perform_job_calls env calls s)"
proof -
  let ?b = "perform_job_calls env before (empty_job_store d)"
  have ok: "store_ok ?b" by (rule calls_ok) (rule empty_store_ok)
  have held: "oget (st_leases ?b) k = Some token"
    using assms by (simp add: release_deletion_lease_def bind_gets return_def split: if_splits)
  then have "s = ?b\<lparr>st_leases := odel k (st_leases ?b)\<rparr>"
    using assms by (simp add: release_deletion_lease_def bind_gets run_defs)
  moreover have "token < st_next ?b" using ok held by (simp add: store_ok_def leases_ok_def)
  ultimately have "spent k token s" by (simp add: spent_def)
  then have "spent k token (perform_job_calls env calls s)"
    by (induction calls arbitrary: s) (simp_all add: spent_step)
  then show ?thesis by (simp add: spent_def lease_unavailable)
qed

theorem lease_token_works_once_witness:
  "\<exists>s. release_deletion_lease ''a'' 3 (perform_job_calls sample_job_env
         [CallCreate ''t'' sample_create, CallAcquireLease ''a''] (empty_job_store ())) = (Inr True, s)
     \<and> fst (release_deletion_lease ''a'' 3 (perform_job_calls sample_job_env [CallAcquireLease ''a''] s)) = Inr False"
proof -
  let ?b = "perform_job_calls sample_job_env [CallCreate ''t'' sample_create, CallAcquireLease ''a''] (empty_job_store ())"
  have "oget (st_leases ?b) ''a'' = Some 3"
    by (simp add: job_store_eval acquire_deletion_lease_def)
  then obtain s where s: "release_deletion_lease ''a'' 3 ?b = (Inr True, s)"
    by (simp add: release_deletion_lease_def run_defs)
  from lease_token_works_once [OF s, of "[CallAcquireLease ''a'']"] s show ?thesis
    by (metis fst_conv)
qed

section \<open>Memory and disk\<close>

lemma json_checkpoint_name: "checkpoint_name (checkpoint_path r)"
  unfolding checkpoint_path_def
  by (rule checkpoint_name_join) (auto simp: plain_segment_def suffix_def)

text \<open>A write of a checkpoint by the server's writer, seen through the contract of the writer.\<close>

lemmas persist_cases =
  persist_json_cases [where path = "checkpoint_path r" and v = "job_checkpoint_of r",
    OF _ json_checkpoint_name] for r

definition on_disk :: "(job_checkpoint \<Rightarrow> string) \<Rightarrow> disk job_store \<Rightarrow> job_record \<Rightarrow> bool" where
  "on_disk render s r \<longleftrightarrow> holds_json render (st_disk s) (checkpoint_path r) (job_checkpoint_of r)"

text \<open>C22. With the server's checkpoint writer, an update that throws leaves every job and every checkpoint
  as they were; one that returns has stored the checkpoint of the updated record, has replaced the
  record of this job only, and returns its public view.\<close>

theorem update_all_or_nothing:
  assumes "env_writer env = write_json_checkpoint render" and "oget (st_jobs s) k = Some r"
    and "update_job env k u s = (x, t)"
  shows "case x of
      Inl e \<Rightarrow> st_jobs t = st_jobs s \<and> st_sent t = st_sent s
        \<and> (\<forall>q. checkpoint_name q \<longrightarrow> holds_json render (st_disk t) q = holds_json render (st_disk s) q)
    | Inr j \<Rightarrow> (let r' = assign_job u (clone_job_record r) in
        j = get_public_job r' \<and> st_jobs t = oput k r' (st_jobs s) \<and> on_disk render t r')"
proof -
  let ?r' = "assign_job u (clone_job_record r)"
  obtain y v where p: "persist_job env ?r' s = (y, v)" by fastforce
  from persist_cases [OF assms(1) p [unfolded persist_job_def]] show ?thesis
  proof (elim disjE exE conjE)
    fix e d
    assume "y = Inl e" "v = s\<lparr>st_disk := d\<rparr>"
      and same: "\<forall>q. checkpoint_name q \<longrightarrow> holds_json render d q = holds_json render (st_disk s) q"
    then have "x = Inl e" "t = s\<lparr>st_disk := d\<rparr>"
      using assms(2,3) p by (simp_all add: update_job_def require_job_def bind_def gets_def return_def next_do_def Let_def)
    with same show ?thesis by simp
  next
    fix d
    assume y: "y = Inr ()" "v = s\<lparr>st_disk := d\<rparr>" and d: "holds_json render d (checkpoint_path ?r') (job_checkpoint_of ?r')"
    obtain w where w: "announce_job env ?r' (v\<lparr>st_jobs := oput k ?r' (st_jobs v)\<rparr>) = (Inr (), w)"
      "same_maps (v\<lparr>st_jobs := oput k ?r' (st_jobs v)\<rparr>) w" using announce_job_run by blast
    have "x = Inr (get_public_job ?r')" "t = w"
      using assms(2,3) p y w
      by (simp_all add: update_job_def require_job_def bind_def gets_def return_def next_do_def Let_def put_job_def modify_def)
    with w d y show ?thesis by (simp add: same_maps_def on_disk_def Let_def)
  qed
qed

theorem update_all_or_nothing_witness:
  "\<exists>x t. update_job disk_job_env ''a'' [SetHasErrors True] sample_disk_store = (x, t)
     \<and> (case x of Inl e \<Rightarrow> st_jobs t = st_jobs sample_disk_store | Inr j \<Rightarrow> job_has_errors j)"
proof -
  obtain x t where run: "update_job disk_job_env ''a'' [SetHasErrors True] sample_disk_store = (x, t)" by fastforce
  have "oget (st_jobs sample_disk_store) ''a'' = Some sample_record" by (simp add: sample_disk_store_def)
  from update_all_or_nothing [OF _ this run, of "\<lambda>c. cp_job_id c"] run show ?thesis
    by (auto simp: disk_job_env_def Let_def assign_job_def get_public_job_def split: sum.splits)
qed



text \<open>A cancellation of a running job always aborts the signal of its record, even when its checkpoint
  cannot be written; it reports the request exactly when the job is stored as cancelling.\<close>

theorem cancellation_reaches_signal:
  assumes "env_writer env = write_json_checkpoint render" and "oget (st_jobs s) k = Some r"
    and "\<not> job_is_complete r" and "\<not> signal_aborted s r" and "request_cancellation env k s = (x, t)"
  shows "signal_aborted t r \<and>
    (case x of
       Inl e \<Rightarrow> st_jobs t = st_jobs s
     | Inr y \<Rightarrow> y = CancelRequested
         \<and> (\<exists>r'. oget (st_jobs t) k = Some r' \<and> job_display_status r' = Cancelling
              \<and> jr_controller r' = jr_controller r \<and> on_disk render t r'))"
proof -
  let ?r' = "(clone_job_record r)\<lparr>job_display_status := Cancelling\<rparr>"
  obtain y v where p: "persist_job env ?r' s = (y, v)" by fastforce
  from persist_cases [OF assms(1) p [unfolded persist_job_def]] show ?thesis
  proof (elim disjE exE conjE)
    fix e d
    assume "y = Inl e" "v = s\<lparr>st_disk := d\<rparr>"
    then have "x = Inl e" "t = s\<lparr>st_disk := d, st_aborted := st_aborted s @ [jr_controller r]\<rparr>"
      using assms(2-5) p
      by (simp_all add: request_cancellation_def gets_def Let_def next_do_def bind_def catch_def throw_def
          abort_controller_def modify_def)
    then show ?thesis by (simp add: signal_aborted_def)
  next
    fix d
    assume y: "y = Inr ()" "v = s\<lparr>st_disk := d\<rparr>" and d: "holds_json render d (checkpoint_path ?r') (job_checkpoint_of ?r')"
    let ?s = "s\<lparr>st_disk := d, st_jobs := oput k ?r' (st_jobs s), st_aborted := st_aborted s @ [jr_controller r]\<rparr>"
    obtain w where w: "announce_job env ?r' ?s = (Inr (), w)" "same_maps ?s w" using announce_job_run by blast
    have "x = Inr CancelRequested" "t = w"
      using assms(2-5) p y w
      by (simp_all add: request_cancellation_def gets_def Let_def next_do_def bind_def catch_def return_def
          abort_controller_def put_job_def modify_def)
    with w d show ?thesis by (simp add: same_maps_def on_disk_def signal_aborted_def)
  qed
qed

theorem cancellation_reaches_signal_witness:
  "\<exists>x t. request_cancellation disk_job_env ''a'' sample_disk_store = (x, t) \<and> signal_aborted t sample_record"
proof -
  obtain x t where run: "request_cancellation disk_job_env ''a'' sample_disk_store = (x, t)" by fastforce
  have "oget (st_jobs sample_disk_store) ''a'' = Some sample_record" "\<not> job_is_complete sample_record"
    "\<not> signal_aborted sample_disk_store sample_record"
    by (simp_all add: sample_disk_store_def sample_record_def new_job_record_def signal_aborted_def empty_job_store_def)
  from cancellation_reaches_signal [OF _ this run, of "\<lambda>c. cp_job_id c"] run show ?thesis
    by (auto simp: disk_job_env_def)
qed

section \<open>Logs and listing\<close>

text \<open>When its log writer has succeeded, an append adds the event to the log of exactly the record it
  was called for, keeping the five hundred most recent events; when the store has replaced or
  dropped that record in the meantime, no log changes.\<close>

theorem append_reaches_its_record:
  assumes "oget (st_pending_logs s) ticket = Some p" and "finish_append_log env ticket None s = (x, t)"
  shows "x = Inr (Some (pending_event p))
    \<and> (\<forall>k. oget (st_jobs t) k = (case oget (st_jobs s) k of None \<Rightarrow> None
        | Some r \<Rightarrow> Some (if jr_object r = pending_object p
            then r\<lparr>job_logs := cap_recent_logs (job_logs r @ [pending_event p])\<rparr> else r)))"
proof -
  let ?s = "extend_logs p (s\<lparr>st_pending_logs := odel ticket (st_pending_logs s)\<rparr>)"
  obtain w where w: "publish_in env (pending_subscriber_set p) (JobLogged (pending_event p)) ?s = (Inr (), w)"
    "same_maps ?s w" using publish_in_run by blast
  have "x = Inr (Some (pending_event p))" "t = w"
    using assms w by (simp_all add: finish_append_log_def gets_def next_do_def bind_def modify_def return_def)
  moreover have "oget (st_jobs w) k = map_option (log_extended p) (oget (st_jobs s) k)" for k
    using w(2) oget_extend_logs [of p "s\<lparr>st_pending_logs := odel ticket (st_pending_logs s)\<rparr>" k]
    by (simp add: same_maps_def)
  ultimately show ?thesis by (simp add: log_extended_def split: option.split)
qed

theorem append_reaches_its_record_witness:
  "\<exists>t. finish_append_log disk_job_env 5 None (sample_disk_store\<lparr>st_pending_logs := [(5, \<lparr> pending_owner = ''a'',
       pending_object = 2, pending_subscriber_set = 1, pending_event = sample_log \<rparr>)]\<rparr>) = (Inr (Some sample_log), t)
     \<and> map_option job_logs (oget (st_jobs t) ''a'') = Some [sample_log]"
proof -
  let ?p = "\<lparr> pending_owner = ''a'', pending_object = 2, pending_subscriber_set = 1, pending_event = sample_log \<rparr>"
  let ?s = "sample_disk_store\<lparr>st_pending_logs := [(5, ?p)]\<rparr>"
  obtain x t where run: "finish_append_log disk_job_env 5 None ?s = (x, t)" by fastforce
  have "oget (st_pending_logs ?s) 5 = Some ?p" by simp
  from append_reaches_its_record [OF this run] run show ?thesis
    by (auto simp: sample_disk_store_def sample_record_def new_job_record_def cap_recent_logs_def recent_log_event_limit_def)
qed

lemma sorted_rev_sort_key: "sorted_wrt (\<lambda>x y. f y \<le> f x) (rev (sort_key f xs))"
  using sorted_sort_key [of f xs] by (simp add: sorted_wrt_rev sorted_wrt_map)

text \<open>The list of jobs holds the summary of every job of the store once, from the newest to the
  oldest.\<close>

theorem jobs_listed_newest_first:
  "mset (list_jobs s) = mset (map (get_job_summary \<circ> snd) (st_jobs s))
   \<and> sorted_wrt (\<lambda>a b. js_created_at b \<le> js_created_at a) (list_jobs s)"
proof
  show "sorted_wrt (\<lambda>a b. js_created_at b \<le> js_created_at a) (list_jobs s)"
    unfolding list_jobs_def Let_def by (rule sorted_rev_sort_key)
qed (simp add: list_jobs_def Let_def multiset.map_comp)

end
