(* ===== verification/Model_Run_Data.thy ===== *)
theory Model_Run_Data
  imports Job_Data
begin

text \<open>
  The data of a model run, \<open>src/shared/job-types.ts\<close>, with the record the model run store keeps, its
  public view and its summary (\<open>src/server/model-run-store.ts\<close>,
  \<open>src/shared/model-warnings.ts\<close>). Counters, efforts and durations are rationals, measured values
  are doubles as JSON has them.
\<close>

datatype model_run_status =
    RunQueued | RunSettingUp | RunWaiting | RunRunning | RunValidating | RunCancelling | RunCancelled
  | RunComplete | RunUnsupported | RunTimedOut | RunFailed

section \<open>Validation, manifest, progress\<close>

datatype series_role = ResponseSeries | StimulusSeries

record validation_series =
  vs_series_id :: string
  vs_title :: string
  vs_role :: series_role
  vs_unit :: string
  vs_tolerance :: jsnum
  vs_normalized_rmse :: "jsnum option"
  vs_normalized_max_error :: "jsnum option"
  vs_passed :: bool
  vs_error_message :: "string option"

record validation_benchmark =
  vb_benchmark_id :: string
  vb_title :: string
  vb_critical :: bool
  vb_tolerance :: jsnum
  vb_normalized_rmse :: "jsnum option"
  vb_normalized_max_error :: "jsnum option"
  vb_passed :: bool
  vb_error_message :: "string option"
  vb_series :: "validation_series list option"

datatype artifact_state = CandidateArtifact | AcceptedArtifact

datatype validation_quality = ScalarOnly | RangeChecked | CurveAttempted | CurveValidated

record documented_requirement =
  dr_requirement_id :: string
  dr_title :: string
  dr_reason :: string

record validation_scope =
  sc_total_requirements :: nat
  sc_modeled_requirements :: nat
  sc_documented_only :: nat
  sc_validated_samples :: nat
  sc_scalar_observations :: nat
  sc_curve_observations :: nat
  sc_compared_curves :: nat
  sc_curve_samples :: nat
  sc_swept_cases :: nat
  sc_quality :: validation_quality
  sc_documented :: "documented_requirement list"
  sc_limitations :: "string list"

record validation_summary =
  sm_artifact_state :: "artifact_state option"
  sm_model_revision :: "string option"
  sm_preview_generation :: "string option"
  sm_benchmark_count :: nat
  sm_passing_count :: nat
  sm_critical_count :: nat
  sm_critical_passing_count :: nat
  sm_score :: "jsnum option"
  sm_worst_normalized_error :: "jsnum option"
  sm_curve_score :: "jsnum option"
  sm_curve_worst_error :: "jsnum option"
  sm_all_critical_passed :: bool
  sm_all_passed :: bool
  sm_benchmarks :: "validation_benchmark list"
  sm_scope :: "validation_scope option"

datatype spice_dialect = Pspice | Ngspice | PortableSpice

record model_manifest =
  mm_part_number :: string
  mm_dialect :: spice_dialect
  mm_entry_name :: string
  mm_model_file :: string
  mm_revision :: string
  mm_simulator :: string
  mm_generated_at :: string
  mm_pins :: "(string \<times> string) list"  \<comment> \<open>component pin, SPICE node\<close>

record development_artifact =
  da_model_source :: string
  da_manifest :: model_manifest
  da_model_card :: string

datatype progress_phase =
    PhaseQueued | PhaseCharacterizing | PhaseDesigningValidation | PhaseGeneratingModel | PhaseRepairing
  | PhasePublishing | PhaseExtracting | PhaseDigitizing | PhasePreparing | PhaseWaiting | PhaseLocking
  | PhaseBaseline | PhaseSimulating | PhaseScoring | PhaseRefining | PhaseFinalizing | PhaseValidating
  | PhaseComplete | PhaseUnsupported | PhaseTimedOut | PhaseFailed | PhaseCancelled

record progress_event =
  pg_sequence :: rat
  pg_phase :: progress_phase
  pg_message :: string
  pg_updated_at :: string
  pg_iteration :: "rat option"

record progress_evidence =
  pe_pages_reviewed :: "nat option"
  pe_graphs_found :: "nat option"
  pe_graphs_digitized :: "nat option"
  pe_figures_found :: "nat option"
  pe_figures_digitized :: "nat option"
  pe_channels_found :: "nat option"
  pe_channels_digitized :: "nat option"
  pe_benchmark_drafts :: "nat option"

record progress_benchmark =
  pb_current :: "string option"
  pb_completed :: "nat option"
  pb_total :: "nat option"
  pb_draft_total :: "nat option"
  pb_locked_total :: "nat option"
  pb_omitted :: "nat option"

record progress_champion =
  pc_revision :: "string option"
  pc_passing :: "nat option"
  pc_total :: "nat option"
  pc_score :: "jsnum option"
  pc_worst_error :: "jsnum option"

record model_progress = progress_event +
  pg_evidence :: "progress_evidence option"
  pg_benchmark :: "progress_benchmark option"
  pg_champion :: "progress_champion option"

section \<open>Previews\<close>

record curve_point =
  pt_x :: jsnum
  pt_y :: jsnum

datatype axis_scale = LinearScale | LogScale
datatype reference_kind = CurveReference | TargetReference | BoundsReference

record reference_bounds =
  rb_min :: "jsnum option"
  rb_max :: "jsnum option"

record reference_series =
  sr_series_id :: string
  sr_title :: string
  sr_role :: series_role
  sr_quantity :: string
  sr_unit :: string
  sr_source_file :: string
  sr_result_file :: "string option"
  sr_y_scale :: axis_scale
  sr_reference_kind :: "reference_kind option"
  sr_reference_points :: "curve_point list"
  sr_reference_bounds :: "reference_bounds option"
  sr_result_points :: "curve_point list option"
  sr_normalized_rmse :: "jsnum option"
  sr_normalized_max_error :: "jsnum option"
  sr_matches_reference :: "bool option"

datatype build_status = SourceReady | BuildingPreview | PreviewReady | PreviewFailed
datatype analysis_type = OperatingPoint | DcSweep | Transient
datatype analog_status = AnalogAvailable | AnalogUnsupported | AnalogFailed
datatype snapshot_origin = WorkspaceOrigin | ServerValidation | TscircuitViewer

record circuit_preview =
  cv_source_file :: string
  cv_code :: string
  cv_build_status :: build_status
  cv_updated_at :: string
  cv_circuit_json :: "json list option"
  cv_analysis_type :: "analysis_type option"
  cv_analog_status :: "analog_status option"
  cv_snapshot_origin :: "snapshot_origin option"
  cv_is_stale :: "bool option"
  cv_error_message :: "string option"

datatype result_status = Unverified | Partial | Verified | ResultFailed | ResultCancelled | Deprecated

record reference_preview =
  rp_benchmark_id :: "string option"
  rp_title :: string
  rp_source_file :: string
  rp_result_file :: "string option"
  rp_x_label :: "string option"
  rp_x_unit :: "string option"
  rp_y_label :: "string option"
  rp_y_unit :: "string option"
  rp_x_scale :: axis_scale
  rp_y_scale :: axis_scale
  rp_reference_kind :: "reference_kind option"
  rp_reference_points :: "curve_point list"
  rp_reference_bounds :: "reference_bounds option"
  rp_result_points :: "curve_point list option"
  rp_series :: "reference_series list option"
  rp_result_status :: "result_status option"
  rp_result_origin :: "snapshot_origin option"
  rp_normalized_rmse :: "jsnum option"
  rp_normalized_max_error :: "jsnum option"
  rp_matches_reference :: "bool option"
  rp_is_stale :: "bool option"
  rp_updated_at :: string

record preview_option =
  po_benchmark_id :: string
  po_title :: string
  po_circuit_file :: string
  po_reference_file :: "string option"
  po_result_file :: "string option"

record found_reference =
  fr_reference_id :: string
  fr_title :: string
  fr_source_file :: string
  fr_page :: "nat option"
  fr_figure :: "string option"
  fr_updated_at :: string

section \<open>The run\<close>

record model_run =
  mr_model_run_id :: string
  mr_job_id :: string
  mr_use_openai :: "bool option"
  mr_created_at :: string
  mr_updated_at :: string
  mr_completed_at :: "string option"
  mr_status :: model_run_status
  mr_is_complete :: bool
  mr_has_errors :: bool
  mr_error_message :: "string option"
  mr_warnings :: "string list option"
  mr_effort_multiplier :: rat
  mr_elapsed_time_ms :: rat
  mr_segment_started_at :: "string option"
  mr_repair_elapsed_ms :: "rat option"
  mr_repair_budget_ms :: "rat option"
  mr_repair_started_at :: "string option"
  mr_current_invocation :: "string option"
  mr_iteration :: rat
  mr_logs :: "job_log list"
  mr_development_model :: "development_artifact option"
  mr_model_source :: "string option"
  mr_manifest :: "model_manifest option"
  mr_validation :: "validation_summary option"
  mr_model_card :: "string option"
  mr_progress :: "model_progress option"
  mr_progress_history :: "progress_event list"
  mr_circuit_preview :: "circuit_preview option"
  mr_reference_preview :: "reference_preview option"
  mr_preview_options :: "preview_option list"
  mr_found_references :: "found_reference list option"
  mr_pipeline :: "public_snapshot option"

record model_run_record = model_run +
  rr_model_dir :: string
  rr_controller :: nat
  rr_subscriber_set :: nat
  rr_object :: nat

record model_run_summary =
  ms_model_run_id :: string
  ms_job_id :: string
  ms_status :: model_run_status
  ms_is_complete :: bool
  ms_has_errors :: bool
  ms_error_message :: "string option"
  ms_has_model :: bool
  ms_has_retained_model :: bool

definition found_of :: "found_reference list option \<Rightarrow> found_reference list" where
  "found_of f = (case f of None \<Rightarrow> [] | Some xs \<Rightarrow> xs)"

text \<open>A model accepted earlier is retained when a later run warns that the visible one is that model.\<close>

definition retained_warning_prefix :: string where
  "retained_warning_prefix = ''The visible SPICE artifacts are from accepted revision''"

definition is_retained_warning :: "string \<Rightarrow> bool" where
  "is_retained_warning w \<longleftrightarrow> prefix retained_warning_prefix w"

definition is_evidence_quality_warning :: "string \<Rightarrow> bool" where
  "is_evidence_quality_warning w \<longleftrightarrow> prefix ''Evidence quality:'' (dropWhile is_space w)"

definition has_retained_accepted_model :: "model_run_status \<Rightarrow> string option \<Rightarrow> string list option \<Rightarrow> bool" where
  "has_retained_accepted_model status source warnings \<longleftrightarrow>
     status \<noteq> RunComplete \<and> text_if_any source \<noteq> None \<and> list_ex is_retained_warning (warnings_of warnings)"

definition get_public_model_run :: "model_run_record \<Rightarrow> model_run" where
  "get_public_model_run r =
     \<lparr> mr_model_run_id = mr_model_run_id r, mr_job_id = mr_job_id r, mr_use_openai = mr_use_openai r,
       mr_created_at = mr_created_at r, mr_updated_at = mr_updated_at r, mr_completed_at = mr_completed_at r,
       mr_status = mr_status r, mr_is_complete = mr_is_complete r, mr_has_errors = mr_has_errors r,
       mr_error_message = mr_error_message r, mr_warnings = Some (warnings_of (mr_warnings r)),
       mr_effort_multiplier = mr_effort_multiplier r, mr_elapsed_time_ms = mr_elapsed_time_ms r,
       mr_segment_started_at = mr_segment_started_at r, mr_repair_elapsed_ms = mr_repair_elapsed_ms r,
       mr_repair_budget_ms = mr_repair_budget_ms r, mr_repair_started_at = mr_repair_started_at r,
       mr_current_invocation = mr_current_invocation r, mr_iteration = mr_iteration r, mr_logs = mr_logs r,
       mr_development_model = mr_development_model r, mr_model_source = mr_model_source r,
       mr_manifest = mr_manifest r, mr_validation = mr_validation r, mr_model_card = mr_model_card r,
       mr_progress = mr_progress r, mr_progress_history = mr_progress_history r,
       mr_circuit_preview = mr_circuit_preview r, mr_reference_preview = mr_reference_preview r,
       mr_preview_options = mr_preview_options r,
       mr_found_references = Some (found_of (mr_found_references r)), mr_pipeline = mr_pipeline r \<rparr>"

definition get_model_run_summary :: "model_run_record \<Rightarrow> model_run_summary" where
  "get_model_run_summary r =
     \<lparr> ms_model_run_id = mr_model_run_id r, ms_job_id = mr_job_id r, ms_status = mr_status r,
       ms_is_complete = mr_is_complete r, ms_has_errors = mr_has_errors r,
       ms_error_message = mr_error_message r, ms_has_model = (text_if_any (mr_model_source r) \<noteq> None),
       ms_has_retained_model = has_retained_accepted_model (mr_status r) (mr_model_source r) (mr_warnings r) \<rparr>"

definition clone_model_run_record :: "model_run_record \<Rightarrow> model_run_record" where
  "clone_model_run_record r =
     r\<lparr>mr_warnings := Some (warnings_of (mr_warnings r)), mr_found_references := Some (found_of (mr_found_references r))\<rparr>"

text \<open>The checkpoint is the public view without the log.\<close>

definition model_run_checkpoint_of :: "model_run_record \<Rightarrow> model_run" where
  "model_run_checkpoint_of r = (get_public_model_run r)\<lparr>mr_logs := []\<rparr>"

section \<open>Updates\<close>

datatype model_run_field =
    RunSetStatus model_run_status
  | RunSetIsComplete bool
  | RunSetHasErrors bool
  | RunSetErrorMessage "string option"
  | RunSetWarnings "string list option"
  | RunSetCompletedAt "string option"
  | RunSetInvocation "string option"
  | RunSetIteration rat
  | RunSetDevelopmentModel "development_artifact option"
  | RunSetModelSource "string option"
  | RunSetManifest "model_manifest option"
  | RunSetValidation "validation_summary option"
  | RunSetModelCard "string option"
  | RunSetUseOpenai "bool option"
  | RunSetPipeline "public_snapshot option"
  | RunSetRepairElapsed "rat option"
  | RunSetRepairBudget "rat option"
  | RunSetRepairStarted "string option"

type_synonym model_run_update = "model_run_field list"

fun assign_run_field :: "model_run_field \<Rightarrow> model_run_record \<Rightarrow> model_run_record" where
  "assign_run_field (RunSetStatus v) r = r\<lparr>mr_status := v\<rparr>"
| "assign_run_field (RunSetIsComplete v) r = r\<lparr>mr_is_complete := v\<rparr>"
| "assign_run_field (RunSetHasErrors v) r = r\<lparr>mr_has_errors := v\<rparr>"
| "assign_run_field (RunSetErrorMessage v) r = r\<lparr>mr_error_message := v\<rparr>"
| "assign_run_field (RunSetWarnings v) r = r\<lparr>mr_warnings := v\<rparr>"
| "assign_run_field (RunSetCompletedAt v) r = r\<lparr>mr_completed_at := v\<rparr>"
| "assign_run_field (RunSetInvocation v) r = r\<lparr>mr_current_invocation := v\<rparr>"
| "assign_run_field (RunSetIteration v) r = r\<lparr>mr_iteration := v\<rparr>"
| "assign_run_field (RunSetDevelopmentModel v) r = r\<lparr>mr_development_model := v\<rparr>"
| "assign_run_field (RunSetModelSource v) r = r\<lparr>mr_model_source := v\<rparr>"
| "assign_run_field (RunSetManifest v) r = r\<lparr>mr_manifest := v\<rparr>"
| "assign_run_field (RunSetValidation v) r = r\<lparr>mr_validation := v\<rparr>"
| "assign_run_field (RunSetModelCard v) r = r\<lparr>mr_model_card := v\<rparr>"
| "assign_run_field (RunSetUseOpenai v) r = r\<lparr>mr_use_openai := v\<rparr>"
| "assign_run_field (RunSetPipeline v) r = r\<lparr>mr_pipeline := v\<rparr>"
| "assign_run_field (RunSetRepairElapsed v) r = r\<lparr>mr_repair_elapsed_ms := v\<rparr>"
| "assign_run_field (RunSetRepairBudget v) r = r\<lparr>mr_repair_budget_ms := v\<rparr>"
| "assign_run_field (RunSetRepairStarted v) r = r\<lparr>mr_repair_started_at := v\<rparr>"

definition assign_run :: "model_run_update \<Rightarrow> model_run_record \<Rightarrow> model_run_record" where
  "assign_run update r = fold assign_run_field update r"

text \<open>What an update cannot touch.\<close>

definition run_identity :: "model_run_record \<Rightarrow> string \<times> string \<times> string \<times> nat \<times> nat \<times> nat" where
  "run_identity r = (mr_model_run_id r, mr_job_id r, rr_model_dir r, rr_controller r, rr_subscriber_set r, rr_object r)"

lemma run_identity_fields [simp]:
  "run_identity (r\<lparr>mr_use_openai := v0\<rparr>) = run_identity r"
  "run_identity (r\<lparr>mr_updated_at := v1\<rparr>) = run_identity r"
  "run_identity (r\<lparr>mr_completed_at := v2\<rparr>) = run_identity r"
  "run_identity (r\<lparr>mr_status := v3\<rparr>) = run_identity r"
  "run_identity (r\<lparr>mr_is_complete := v4\<rparr>) = run_identity r"
  "run_identity (r\<lparr>mr_has_errors := v5\<rparr>) = run_identity r"
  "run_identity (r\<lparr>mr_error_message := v6\<rparr>) = run_identity r"
  "run_identity (r\<lparr>mr_warnings := v7\<rparr>) = run_identity r"
  "run_identity (r\<lparr>mr_effort_multiplier := v8\<rparr>) = run_identity r"
  "run_identity (r\<lparr>mr_elapsed_time_ms := v9\<rparr>) = run_identity r"
  "run_identity (r\<lparr>mr_segment_started_at := v10\<rparr>) = run_identity r"
  "run_identity (r\<lparr>mr_repair_elapsed_ms := v11\<rparr>) = run_identity r"
  "run_identity (r\<lparr>mr_repair_budget_ms := v12\<rparr>) = run_identity r"
  "run_identity (r\<lparr>mr_repair_started_at := v13\<rparr>) = run_identity r"
  "run_identity (r\<lparr>mr_current_invocation := v14\<rparr>) = run_identity r"
  "run_identity (r\<lparr>mr_iteration := v15\<rparr>) = run_identity r"
  "run_identity (r\<lparr>mr_logs := v16\<rparr>) = run_identity r"
  "run_identity (r\<lparr>mr_development_model := v17\<rparr>) = run_identity r"
  "run_identity (r\<lparr>mr_validation := v18\<rparr>) = run_identity r"
  "run_identity (r\<lparr>mr_progress := v19\<rparr>) = run_identity r"
  "run_identity (r\<lparr>mr_progress_history := v20\<rparr>) = run_identity r"
  "run_identity (r\<lparr>mr_circuit_preview := v21\<rparr>) = run_identity r"
  "run_identity (r\<lparr>mr_reference_preview := v22\<rparr>) = run_identity r"
  "run_identity (r\<lparr>mr_preview_options := v23\<rparr>) = run_identity r"
  "run_identity (r\<lparr>mr_found_references := v24\<rparr>) = run_identity r"
  by (simp_all add: run_identity_def)

lemma assign_run_field_untouched [simp]:
  "run_identity (assign_run_field u r) = run_identity r"
  "mr_effort_multiplier (assign_run_field u r) = mr_effort_multiplier r"
  "mr_logs (assign_run_field u r) = mr_logs r"
  "mr_progress_history (assign_run_field u r) = mr_progress_history r"
  by (cases u; simp add: run_identity_def)+

lemma assign_run_untouched [simp]:
  "run_identity (assign_run us r) = run_identity r"
  "mr_effort_multiplier (assign_run us r) = mr_effort_multiplier r"
  "mr_logs (assign_run us r) = mr_logs r"
  "mr_progress_history (assign_run us r) = mr_progress_history r"
  unfolding assign_run_def by (induction us arbitrary: r; simp)+

lemma clone_model_run_untouched [simp]:
  "run_identity (clone_model_run_record r) = run_identity r"
  "mr_effort_multiplier (clone_model_run_record r) = mr_effort_multiplier r"
  "mr_logs (clone_model_run_record r) = mr_logs r"
  "mr_progress_history (clone_model_run_record r) = mr_progress_history r"
  by (simp_all add: clone_model_run_record_def run_identity_def)

lemma public_run_of_clone: "get_public_model_run (clone_model_run_record r) = get_public_model_run r"
  by (simp add: get_public_model_run_def clone_model_run_record_def warnings_of_def found_of_def)

end
