(* ===== verification/Model_Run_Store.thy ===== *)
theory Model_Run_Store
  imports Model_Run_Data Store_Base
begin

text \<open>
  The model run store, \<open>src/server/model-run-store.ts\<close>, in the order of its methods. The parsing of a
  timestamp and the creation of a directory are parameters, next to the writer of checkpoints and
  the subscribers' reactions; the present moment is an argument, as text and in milliseconds.
\<close>

section \<open>The state\<close>

datatype model_notice =
    ModelUpdated model_run
  | ModelLogged job_log
  | ModelSummary model_run_summary

record 'd model_store = "('d, model_notice) store_base" +
  st_runs :: "(string, model_run_record) omap"
  st_job_runs :: "(string, string) omap"
  st_active :: "string list"

record 'd model_env = "('d, model_run, model_notice) store_env" +
  env_mkdir :: "string \<Rightarrow> 'd \<Rightarrow> (string + unit) \<times> 'd"
  env_parse_time :: "string \<Rightarrow> int option"

record moment =
  now_text :: string
  now_ms :: int

type_synonym ('d, 'a) model_io = "('d model_store, string, 'a) run"

definition empty_model_store :: "'d \<Rightarrow> 'd model_store" where
  "empty_model_store d =
     \<lparr> st_next = 0, st_aborted = [], st_list_subscribers = [], st_subscriber_sets = [], st_pending_logs = [],
       st_disk = d, st_sent = [], st_runs = [], st_job_runs = [], st_active = [] \<rparr>"

definition put_run :: "string \<Rightarrow> model_run_record \<Rightarrow> ('d, unit) model_io" where
  "put_run k r = modify (\<lambda>s. s\<lparr>st_runs := oput k r (st_runs s)\<rparr>)"

definition put_job_run :: "string \<Rightarrow> string \<Rightarrow> ('d, unit) model_io" where
  "put_job_run j k = modify (\<lambda>s. s\<lparr>st_job_runs := oput j k (st_job_runs s)\<rparr>)"

definition model_checkpoint_path :: "model_run_record \<Rightarrow> string" where
  "model_checkpoint_path r = path_join (rr_model_dir r) ''model-run.json''"

definition persist_run :: "'d model_env \<Rightarrow> model_run_record \<Rightarrow> ('d, unit) model_io" where
  "persist_run env r = persist_at env (model_checkpoint_path r) (model_run_checkpoint_of r)"

definition make_directory :: "'d model_env \<Rightarrow> string \<Rightarrow> ('d, unit) model_io" where
  "make_directory env dir = (\<lambda>s. case env_mkdir env dir (st_disk s) of (x, d) \<Rightarrow> (x, s\<lparr>st_disk := d\<rparr>))"

definition publish_run :: "'d model_env \<Rightarrow> model_run_record \<Rightarrow> model_notice \<Rightarrow> ('d, unit) model_io" where
  "publish_run env r notice = publish_in env (rr_subscriber_set r) notice"

definition publish_summary :: "'d model_env \<Rightarrow> model_run_record \<Rightarrow> ('d, unit) model_io" where
  "publish_summary env r = publish_list env (ModelSummary (get_model_run_summary r))"

definition announce_run :: "'d model_env \<Rightarrow> model_run_record \<Rightarrow> ('d, unit) model_io" where
  "announce_run env r =
     next_do (publish_run env r (ModelUpdated (get_public_model_run r))) (publish_summary env r)"

section \<open>Creating and restoring\<close>

definition active_status :: "model_run_status \<Rightarrow> bool" where
  "active_status s \<longleftrightarrow> s \<in> set [RunQueued, RunSettingUp, RunWaiting, RunRunning, RunValidating, RunCancelling]"

definition restartable_status :: "model_run_status \<Rightarrow> bool" where
  "restartable_status s \<longleftrightarrow> s \<in> set [RunCancelled, RunComplete, RunUnsupported, RunFailed, RunTimedOut]"

definition default_budget :: "rat \<Rightarrow> rat" where
  "default_budget effort = effort * 30 * 60 * 1000"

definition or_default :: "'a option \<Rightarrow> 'a \<Rightarrow> 'a" where
  "or_default v a = (case v of None \<Rightarrow> a | Some x \<Rightarrow> x)"

text \<open>The time since a timestamp, 0 when it is absent, not a date, or in the future.\<close>

definition time_since :: "'d model_env \<Rightarrow> moment \<Rightarrow> string option \<Rightarrow> rat" where
  "time_since env now started =
     (case text_if_any started of
        None \<Rightarrow> 0
      | Some s \<Rightarrow> (case env_parse_time env s of None \<Rightarrow> 0 | Some start \<Rightarrow> of_int (max 0 (now_ms now - start))))"

definition compute_elapsed_time :: "'d model_env \<Rightarrow> moment \<Rightarrow> model_run_record \<Rightarrow> rat" where
  "compute_elapsed_time env now r = mr_elapsed_time_ms r + time_since env now (mr_segment_started_at r)"

record create_run_input =
  cr_model_run_id :: string
  cr_job_id :: string
  cr_model_dir :: string
  cr_use_openai :: "bool option"
  cr_effort_multiplier :: rat

definition new_run_record :: "create_run_input \<Rightarrow> string \<Rightarrow> nat \<Rightarrow> nat \<Rightarrow> nat \<Rightarrow> model_run_record" where
  "new_run_record i now object controller subscribers =
     \<lparr> mr_model_run_id = cr_model_run_id i, mr_job_id = cr_job_id i,
       mr_use_openai = Some (or_default (cr_use_openai i) False), mr_created_at = now, mr_updated_at = now,
       mr_completed_at = None, mr_status = RunQueued, mr_is_complete = False, mr_has_errors = False,
       mr_error_message = None, mr_warnings = Some [], mr_effort_multiplier = cr_effort_multiplier i,
       mr_elapsed_time_ms = 0, mr_segment_started_at = None, mr_repair_elapsed_ms = Some 0,
       mr_repair_budget_ms = Some (default_budget (cr_effort_multiplier i)), mr_repair_started_at = None,
       mr_current_invocation = None, mr_iteration = 0, mr_logs = [], mr_development_model = None,
       mr_model_source = None, mr_manifest = None, mr_validation = None, mr_model_card = None,
       mr_progress = None, mr_progress_history = [], mr_circuit_preview = None, mr_reference_preview = None,
       mr_preview_options = [], mr_found_references = Some [], mr_pipeline = None,
       rr_model_dir = cr_model_dir i, rr_controller = controller, rr_subscriber_set = subscribers,
       rr_object = object \<rparr>"

datatype create_run_result = RunCreated model_run | RunAlreadyExists model_run

definition run_for_job :: "'d model_store \<Rightarrow> string \<Rightarrow> model_run_record option" where
  "run_for_job s j =
     (case text_if_any (oget (st_job_runs s) j) of None \<Rightarrow> None | Some k \<Rightarrow> oget (st_runs s) k)"

definition create_model_run_if_absent :: "'d model_env \<Rightarrow> moment \<Rightarrow> create_run_input \<Rightarrow> ('d, create_run_result) model_io" where
  "create_model_run_if_absent env now i =
     bind (gets (\<lambda>s. run_for_job s (cr_job_id i))) (\<lambda>existing.
     case existing of
       Some r \<Rightarrow> return (RunAlreadyExists (get_public_model_run r))
     | None \<Rightarrow>
         bind new_object (\<lambda>controller.
         bind new_object (\<lambda>subscribers.
         bind new_object (\<lambda>object.
         let r = new_run_record i (now_text now) object controller subscribers in
         next_do (make_directory env (rr_model_dir r)) (
         next_do (persist_run env r) (
         next_do (put_run (mr_model_run_id r) r) (
         next_do (put_job_run (mr_job_id r) (mr_model_run_id r)) (
         next_do (publish_summary env r)
           (return (RunCreated (get_public_model_run r)))))))))))"

definition create_model_run :: "'d model_env \<Rightarrow> moment \<Rightarrow> create_run_input \<Rightarrow> ('d, model_run) model_io" where
  "create_model_run env now i =
     bind (create_model_run_if_absent env now i) (\<lambda>x.
     case x of
       RunAlreadyExists _ \<Rightarrow> throw (''Job '' @ cr_job_id i @ '' already has a model run'')
     | RunCreated r \<Rightarrow> return r)"

definition interrupted_message :: string where
  "interrupted_message = ''The server restarted while this model run was active. Retry to continue from its checkpoints.''"

text \<open>The run of a restoration is a public view, in which every property is present.\<close>

record restore_run_input =
  rs_model_dir :: string
  rs_model_run :: model_run
  rs_logs :: "job_log list"

definition as_record :: "model_run \<Rightarrow> string \<Rightarrow> nat \<Rightarrow> nat \<Rightarrow> nat \<Rightarrow> model_run_record" where
  "as_record r dir object controller subscribers =
     model_run.extend r \<lparr> rr_model_dir = dir, rr_controller = controller, rr_subscriber_set = subscribers, rr_object = object \<rparr>"

definition restored_run_record ::
  "'d model_env \<Rightarrow> moment \<Rightarrow> restore_run_input \<Rightarrow> nat \<Rightarrow> nat \<Rightarrow> nat \<Rightarrow> model_run_record" where
  "restored_run_record env now i object controller subscribers =
     (let r = as_record (rs_model_run i) (rs_model_dir i) object controller subscribers;
          was_active = active_status (mr_status r);
          interrupted_ms = (if was_active then time_since env now (mr_segment_started_at r) else 0) in
      r\<lparr>mr_status := (if was_active then RunFailed else mr_status r),
        mr_is_complete := (if was_active then True else mr_is_complete r),
        mr_has_errors := (if was_active then True else mr_has_errors r),
        mr_error_message := (if was_active then Some interrupted_message else mr_error_message r),
        mr_warnings := Some (warnings_of (mr_warnings r)),
        mr_completed_at := (if was_active then Some (now_text now) else mr_completed_at r),
        mr_elapsed_time_ms := mr_elapsed_time_ms r + interrupted_ms,
        mr_segment_started_at := None,
        mr_repair_elapsed_ms := Some (or_default (mr_repair_elapsed_ms r) 0),
        mr_repair_budget_ms := Some (or_default (mr_repair_budget_ms r) (default_budget (mr_effort_multiplier r))),
        mr_repair_started_at := None,
        mr_logs := cap_recent_logs (rs_logs i),
        mr_found_references := Some (found_of (mr_found_references r))\<rparr>)"

definition restore_model_run :: "'d model_env \<Rightarrow> moment \<Rightarrow> restore_run_input \<Rightarrow> ('d, model_run) model_io" where
  "restore_model_run env now i =
     bind (gets (\<lambda>s. oget (st_runs s) (mr_model_run_id (rs_model_run i)))) (\<lambda>existing.
     case existing of
       Some r \<Rightarrow> return (get_public_model_run r)
     | None \<Rightarrow>
         bind new_object (\<lambda>controller.
         bind new_object (\<lambda>subscribers.
         bind new_object (\<lambda>object.
         let r = restored_run_record env now i object controller subscribers in
         next_do (persist_run env r) (
         next_do (put_run (mr_model_run_id r) r) (
         next_do (put_job_run (mr_job_id r) (mr_model_run_id r)) (
         next_do (publish_summary env r)
           (return (get_public_model_run r)))))))))"

definition refreshed_run_record :: "restore_run_input \<Rightarrow> nat \<Rightarrow> model_run_record \<Rightarrow> model_run_record" where
  "refreshed_run_record i object r =
     (let fresh = as_record (rs_model_run i) (rs_model_dir i) object (rr_controller r) (rr_subscriber_set r) in
      fresh\<lparr>mr_logs := cap_recent_logs (rs_logs i), mr_warnings := Some (warnings_of (mr_warnings fresh)),
        mr_found_references := Some (found_of (mr_found_references fresh))\<rparr>)"

definition refresh_restored_model_run :: "'d model_env \<Rightarrow> moment \<Rightarrow> restore_run_input \<Rightarrow> ('d, model_run) model_io" where
  "refresh_restored_model_run env now i =
     bind (gets (\<lambda>s. oget (st_runs s) (mr_model_run_id (rs_model_run i)))) (\<lambda>existing.
     case existing of
       None \<Rightarrow> restore_model_run env now i
     | Some r \<Rightarrow>
         bind new_object (\<lambda>object.
         let refreshed = refreshed_run_record i object r in
         next_do (put_run (mr_model_run_id refreshed) refreshed) (
         next_do (put_job_run (mr_job_id refreshed) (mr_model_run_id refreshed)) (
         next_do (announce_run env refreshed)
           (return (get_public_model_run refreshed))))))"

section \<open>Reading and claiming\<close>

definition get_model_run :: "string \<Rightarrow> 'd model_store \<Rightarrow> model_run option" where
  "get_model_run k s = map_option get_public_model_run (oget (st_runs s) k)"

definition get_model_run_for_job :: "string \<Rightarrow> 'd model_store \<Rightarrow> model_run option" where
  "get_model_run_for_job j s = map_option get_public_model_run (run_for_job s j)"

definition get_model_run_id_for_job :: "string \<Rightarrow> 'd model_store \<Rightarrow> string option" where
  "get_model_run_id_for_job j s = oget (st_job_runs s) j"

definition get_model_dir :: "string \<Rightarrow> 'd model_store \<Rightarrow> string option" where
  "get_model_dir k s = map_option rr_model_dir (oget (st_runs s) k)"

definition model_summary_for_job :: "string \<Rightarrow> 'd model_store \<Rightarrow> model_run_summary option" where
  "model_summary_for_job j s = map_option get_model_run_summary (run_for_job s j)"

definition run_aborted :: "'d model_store \<Rightarrow> model_run_record \<Rightarrow> bool" where
  "run_aborted s r \<longleftrightarrow> rr_controller r \<in> set (st_aborted s)"

definition claim_model_execution :: "string \<Rightarrow> ('d, bool) model_io" where
  "claim_model_execution k =
     bind (gets id) (\<lambda>s.
     case oget (st_runs s) k of
       None \<Rightarrow> return False
     | Some r \<Rightarrow>
         if k \<in> set (st_active s) then return False
         else
           next_do (if run_aborted s r
                    then bind new_object (\<lambda>controller. put_run k (r\<lparr>rr_controller := controller\<rparr>))
                    else return ()) (
           next_do (modify (\<lambda>s. s\<lparr>st_active := st_active s @ [k]\<rparr>))
             (return True)))"

definition release_model_execution :: "string \<Rightarrow> ('d, unit) model_io" where
  "release_model_execution k = modify (\<lambda>s. s\<lparr>st_active := removeAll k (st_active s)\<rparr>)"

section \<open>Changing a run\<close>

definition require_run :: "string \<Rightarrow> ('d, model_run_record) model_io" where
  "require_run k =
     bind (gets (\<lambda>s. oget (st_runs s) k)) (\<lambda>r.
     case r of None \<Rightarrow> throw (''Model run '' @ k @ '' was not found'') | Some r \<Rightarrow> return r)"

definition run_candidate :: "moment \<Rightarrow> (model_run_record \<Rightarrow> model_run_record) \<Rightarrow> model_run_record \<Rightarrow> model_run_record" where
  "run_candidate now mutate r = (mutate (clone_model_run_record r))\<lparr>mr_updated_at := now_text now\<rparr>"

definition mutate_and_publish ::
  "'d model_env \<Rightarrow> moment \<Rightarrow> string \<Rightarrow> model_run_record \<Rightarrow> (model_run_record \<Rightarrow> model_run_record) \<Rightarrow> ('d, model_run) model_io" where
  "mutate_and_publish env now k r mutate =
     (let candidate = run_candidate now mutate r in
      next_do (persist_run env candidate) (
      next_do (put_run k candidate) (
      next_do (announce_run env candidate)
        (return (get_public_model_run candidate)))))"

definition mutate_committed_and_publish ::
  "'d model_env \<Rightarrow> moment \<Rightarrow> string \<Rightarrow> model_run_record \<Rightarrow> (model_run_record \<Rightarrow> model_run_record)
    \<Rightarrow> ('d, model_run \<times> string option) model_io" where
  "mutate_committed_and_publish env now k r mutate =
     (let candidate = run_candidate now mutate r in
      bind (catch (next_do (persist_run env candidate) (return None)) (\<lambda>e. return (Some e))) (\<lambda>checkpoint_error.
      next_do (put_run k candidate) (
      next_do (announce_run env candidate)
        (return (get_public_model_run candidate, text_if_any checkpoint_error)))))"

text \<open>Changes of a record that is looked up and must exist.\<close>

definition change_run ::
  "'d model_env \<Rightarrow> moment \<Rightarrow> string \<Rightarrow> (model_run_record \<Rightarrow> model_run_record \<Rightarrow> model_run_record) \<Rightarrow> ('d, model_run) model_io" where
  "change_run env now k mutate = bind (require_run k) (\<lambda>r. mutate_and_publish env now k r (mutate r))"

definition started_segment :: "moment \<Rightarrow> model_run_record \<Rightarrow> model_run_record" where
  "started_segment now c =
     c\<lparr>mr_segment_started_at := Some (now_text now), mr_completed_at := None, mr_status := RunRunning,
       mr_is_complete := False, mr_has_errors := False, mr_error_message := None\<rparr>"

definition start_segment :: "'d model_env \<Rightarrow> moment \<Rightarrow> string \<Rightarrow> ('d, model_run) model_io" where
  "start_segment env now k =
     bind (require_run k) (\<lambda>r.
     if text_if_any (mr_segment_started_at r) \<noteq> None then return (get_public_model_run r)
     else mutate_and_publish env now k r (started_segment now))"

definition finished_segment :: "rat \<Rightarrow> model_run_update \<Rightarrow> model_run_record \<Rightarrow> model_run_record" where
  "finished_segment elapsed update c =
     assign_run update (c\<lparr>mr_elapsed_time_ms := elapsed, mr_segment_started_at := None\<rparr>)"

definition finish_segment :: "'d model_env \<Rightarrow> moment \<Rightarrow> string \<Rightarrow> model_run_update \<Rightarrow> ('d, model_run) model_io" where
  "finish_segment env now k update =
     change_run env now k (\<lambda>r. finished_segment (compute_elapsed_time env now r) update)"

definition repair_budget_error :: string where
  "repair_budget_error = ''Repair budget must be a positive duration''"

definition start_repair_budget :: "'d model_env \<Rightarrow> moment \<Rightarrow> string \<Rightarrow> jsnum \<Rightarrow> ('d, model_run) model_io" where
  "start_repair_budget env now k budget =
     bind (require_run k) (\<lambda>r.
     case budget of
       Fin b \<Rightarrow>
         if b \<le> 0 then throw repair_budget_error
         else mutate_and_publish env now k r (\<lambda>c. c\<lparr>mr_repair_budget_ms := Some (of_int \<lfloor>b\<rfloor>),
                mr_repair_elapsed_ms := Some 0, mr_repair_started_at := Some (now_text now)\<rparr>)
     | _ \<Rightarrow> throw repair_budget_error)"

definition finish_repair_budget :: "'d model_env \<Rightarrow> moment \<Rightarrow> string \<Rightarrow> ('d, model_run) model_io" where
  "finish_repair_budget env now k =
     change_run env now k (\<lambda>r c.
       let elapsed = or_default (mr_repair_elapsed_ms r) 0 + time_since env now (mr_repair_started_at r) in
       c\<lparr>mr_repair_elapsed_ms := Some (min (or_default (mr_repair_budget_ms c) elapsed) elapsed),
         mr_repair_started_at := None\<rparr>)"

definition set_previews :: "circuit_preview option \<Rightarrow> reference_preview option \<Rightarrow> model_run_record \<Rightarrow> model_run_record" where
  "set_previews circuit reference c = c\<lparr>mr_circuit_preview := circuit, mr_reference_preview := reference\<rparr>"

definition project_committed_run ::
  "'d model_env \<Rightarrow> moment \<Rightarrow> string \<Rightarrow> model_run_update \<Rightarrow> preview_option list \<Rightarrow> circuit_preview option
    \<Rightarrow> reference_preview option \<Rightarrow> ('d, model_run \<times> string option) model_io" where
  "project_committed_run env now k update options circuit reference =
     bind (require_run k) (\<lambda>r.
     mutate_committed_and_publish env now k r (\<lambda>c.
       set_previews circuit reference ((assign_run update c)\<lparr>mr_preview_options := options\<rparr>)))"

definition finish_committed_segment ::
  "'d model_env \<Rightarrow> moment \<Rightarrow> string \<Rightarrow> model_run_update \<Rightarrow> ('d, model_run \<times> string option) model_io" where
  "finish_committed_segment env now k update =
     bind (require_run k) (\<lambda>r.
     mutate_committed_and_publish env now k r (finished_segment (compute_elapsed_time env now r) update))"

definition update_model_run :: "'d model_env \<Rightarrow> moment \<Rightarrow> string \<Rightarrow> model_run_update \<Rightarrow> ('d, model_run) model_io" where
  "update_model_run env now k update = change_run env now k (\<lambda>r. assign_run update)"

text \<open>A progress event joins the history unless it repeats the last one; fifty are kept.\<close>

definition same_progress_event :: "progress_event \<Rightarrow> model_progress \<Rightarrow> bool" where
  "same_progress_event e p \<longleftrightarrow> pg_sequence e = pg_sequence p \<and> pg_phase e = pg_phase p
     \<and> pg_message e = pg_message p \<and> pg_updated_at e = pg_updated_at p"

definition event_of_progress :: "model_progress \<Rightarrow> progress_event" where
  "event_of_progress p = \<lparr> pg_sequence = pg_sequence p, pg_phase = pg_phase p, pg_message = pg_message p,
     pg_updated_at = pg_updated_at p, pg_iteration = pg_iteration p \<rparr>"

definition last_fifty :: "'a list \<Rightarrow> 'a list" where
  "last_fifty xs = drop (length xs - 50) xs"

definition with_progress :: "model_progress \<Rightarrow> model_run_record \<Rightarrow> model_run_record" where
  "with_progress p c =
     (let history = mr_progress_history c in
      c\<lparr>mr_progress := Some p,
        mr_iteration := (case pg_iteration p of None \<Rightarrow> mr_iteration c | Some i \<Rightarrow> max (mr_iteration c) i),
        mr_progress_history :=
          (if history = [] \<or> \<not> same_progress_event (last history) p
           then last_fifty (history @ [event_of_progress p]) else history)\<rparr>)"

definition update_progress :: "'d model_env \<Rightarrow> moment \<Rightarrow> string \<Rightarrow> model_progress \<Rightarrow> ('d, model_run) model_io" where
  "update_progress env now k p = change_run env now k (\<lambda>r. with_progress p)"

definition update_previews ::
  "'d model_env \<Rightarrow> moment \<Rightarrow> string \<Rightarrow> circuit_preview option \<Rightarrow> reference_preview option \<Rightarrow> ('d, model_run) model_io" where
  "update_previews env now k circuit reference = change_run env now k (\<lambda>r. set_previews circuit reference)"

definition update_preview_options :: "'d model_env \<Rightarrow> moment \<Rightarrow> string \<Rightarrow> preview_option list \<Rightarrow> ('d, model_run) model_io" where
  "update_preview_options env now k options =
     bind (require_run k) (\<lambda>r.
     if mr_preview_options r = options then return (get_public_model_run r)
     else mutate_and_publish env now k r (\<lambda>c. c\<lparr>mr_preview_options := options\<rparr>))"

definition project_development_model :: "'d model_env \<Rightarrow> moment \<Rightarrow> string \<Rightarrow> development_artifact \<Rightarrow> ('d, model_run) model_io" where
  "project_development_model env now k model =
     change_run env now k (\<lambda>r c. c\<lparr>mr_development_model := Some model\<rparr>)"

definition project_found_references :: "'d model_env \<Rightarrow> moment \<Rightarrow> string \<Rightarrow> found_reference list \<Rightarrow> ('d, model_run) model_io" where
  "project_found_references env now k found =
     change_run env now k (\<lambda>r c.
       set_previews None None (c\<lparr>mr_found_references := Some found, mr_preview_options := []\<rparr>))"

definition project_comparison_draft ::
  "'d model_env \<Rightarrow> moment \<Rightarrow> string \<Rightarrow> preview_option list \<Rightarrow> reference_preview \<Rightarrow> ('d, model_run) model_io" where
  "project_comparison_draft env now k options reference =
     change_run env now k (\<lambda>r c. set_previews None (Some reference) (c\<lparr>mr_preview_options := options\<rparr>))"

definition project_simulation_sources ::
  "'d model_env \<Rightarrow> moment \<Rightarrow> string \<Rightarrow> preview_option list \<Rightarrow> circuit_preview \<Rightarrow> reference_preview \<Rightarrow> ('d, model_run) model_io" where
  "project_simulation_sources env now k options circuit reference =
     change_run env now k (\<lambda>r c. set_previews (Some circuit) (Some reference) (c\<lparr>mr_preview_options := options\<rparr>))"

definition project_candidate_validation ::
  "'d model_env \<Rightarrow> moment \<Rightarrow> string \<Rightarrow> validation_summary \<Rightarrow> development_artifact option \<Rightarrow> preview_option list
    \<Rightarrow> circuit_preview option \<Rightarrow> reference_preview option \<Rightarrow> ('d, model_run) model_io" where
  "project_candidate_validation env now k summary development options circuit reference =
     change_run env now k (\<lambda>r c.
       set_previews circuit reference
         (c\<lparr>mr_validation := Some summary,
            mr_development_model := (case development of None \<Rightarrow> mr_development_model c | d \<Rightarrow> d),
            mr_preview_options := options\<rparr>))"

section \<open>Extending, retrying, cancelling\<close>

datatype extend_result =
    RunExtended model_run bool | InvalidEffort model_run | ExtendBusy model_run | ExtendNotFound

definition requeued :: "model_run_record \<Rightarrow> model_run_record" where
  "requeued c = c\<lparr>mr_status := RunQueued, mr_is_complete := False, mr_has_errors := False,
     mr_error_message := None, mr_completed_at := None\<rparr>"

definition extended_run :: "rat \<Rightarrow> bool \<Rightarrow> nat \<Rightarrow> model_run_record \<Rightarrow> model_run_record" where
  "extended_run additional should_start controller c =
     (let effort = mr_effort_multiplier c + additional;
          c' = c\<lparr>mr_effort_multiplier := effort, mr_repair_budget_ms := Some (default_budget effort)\<rparr> in
      if should_start then (requeued c')\<lparr>rr_controller := controller\<rparr> else c')"

definition valid_extension :: "jsnum \<Rightarrow> rat \<Rightarrow> bool" where
  "valid_extension additional effort \<longleftrightarrow>
     (case additional of Fin a \<Rightarrow> a = of_int \<lfloor>a\<rfloor> \<and> 1 \<le> a \<and> effort + a \<le> 8 | _ \<Rightarrow> False)"

fun finite_part :: "jsnum \<Rightarrow> rat" where
  "finite_part (Fin a) = a"
| "finite_part _ = 0"

definition extend_model_run :: "'d model_env \<Rightarrow> moment \<Rightarrow> string \<Rightarrow> jsnum \<Rightarrow> ('d, extend_result) model_io" where
  "extend_model_run env now k additional =
     bind (gets id) (\<lambda>s.
     case oget (st_runs s) k of
       None \<Rightarrow> return ExtendNotFound
     | Some r \<Rightarrow>
         if mr_status r = RunValidating \<or> mr_status r = RunCancelling
            \<or> (\<not> active_status (mr_status r) \<and> k \<in> set (st_active s))
         then return (ExtendBusy (get_public_model_run r))
         else if \<not> valid_extension additional (mr_effort_multiplier r)
         then return (InvalidEffort (get_public_model_run r))
         else
           (let should_start = \<not> active_status (mr_status r) in
            bind (if should_start then new_object else return 0) (\<lambda>controller.
            bind (mutate_and_publish env now k r (extended_run (finite_part additional) should_start controller)) (\<lambda>m.
            return (RunExtended m should_start)))))"

datatype retry_result = RunRetried model_run | RetryBusy model_run | NotRetryable model_run | RetryNotFound

definition retry_model_run :: "'d model_env \<Rightarrow> moment \<Rightarrow> string \<Rightarrow> ('d, retry_result) model_io" where
  "retry_model_run env now k =
     bind (gets id) (\<lambda>s.
     case oget (st_runs s) k of
       None \<Rightarrow> return RetryNotFound
     | Some r \<Rightarrow>
         if \<not> restartable_status (mr_status r) then return (NotRetryable (get_public_model_run r))
         else if k \<in> set (st_active s) then return (RetryBusy (get_public_model_run r))
         else
           bind new_object (\<lambda>controller.
           bind (mutate_and_publish env now k r (\<lambda>c.
               (requeued c)\<lparr>mr_segment_started_at := None, rr_controller := controller\<rparr>)) (\<lambda>m.
           return (RunRetried m))))"

datatype run_cancellation = RunCancelRequested | RunCancelAlreadyRequested | RunCancelAlreadyComplete | RunCancelNotFound

definition request_run_cancellation :: "'d model_env \<Rightarrow> moment \<Rightarrow> string \<Rightarrow> ('d, run_cancellation) model_io" where
  "request_run_cancellation env now k =
     bind (gets id) (\<lambda>s.
     case oget (st_runs s) k of
       None \<Rightarrow> return RunCancelNotFound
     | Some r \<Rightarrow>
         if mr_is_complete r then return RunCancelAlreadyComplete
         else if run_aborted s r then return RunCancelAlreadyRequested
         else
           (let candidate = (clone_model_run_record r)\<lparr>mr_status := RunCancelling, mr_updated_at := now_text now\<rparr> in
            next_do (catch (persist_run env candidate)
                       (\<lambda>e. next_do (abort_controller (rr_controller r)) (throw e))) (
            next_do (put_run k candidate) (
            next_do (abort_controller (rr_controller r)) (
            next_do (announce_run env candidate)
              (return RunCancelRequested))))))"

section \<open>Logs, subscribers, deletion\<close>

definition begin_run_log :: "string \<Rightarrow> string \<Rightarrow> moment \<Rightarrow> log_stream \<Rightarrow> string \<Rightarrow> ('d, nat) model_io" where
  "begin_run_log k uuid now stream message =
     bind (require_run k) (\<lambda>r.
     bind new_object (\<lambda>ticket.
     let log = prepare_bounded_log_event
           \<lparr> log_id = uuid, log_created_at = now_text now, log_stream = stream, log_message = message \<rparr> in
     next_do (modify (\<lambda>s. s\<lparr>st_pending_logs := oput ticket
         \<lparr> pending_owner = mr_model_run_id r, pending_object = rr_object r,
           pending_subscriber_set = rr_subscriber_set r, pending_event = log \<rparr> (st_pending_logs s)\<rparr>))
       (return ticket)))"

definition run_log_extended :: "pending_log \<Rightarrow> model_run_record \<Rightarrow> model_run_record" where
  "run_log_extended p r =
     (if rr_object r = pending_object p
      then r\<lparr>mr_logs := cap_recent_logs (mr_logs r @ [pending_event p]), mr_updated_at := log_created_at (pending_event p)\<rparr>
      else r)"

definition finish_run_log :: "'d model_env \<Rightarrow> nat \<Rightarrow> string option \<Rightarrow> ('d, job_log option) model_io" where
  "finish_run_log env ticket failure =
     bind (gets (\<lambda>s. oget (st_pending_logs s) ticket)) (\<lambda>pending.
     case pending of
       None \<Rightarrow> return None
     | Some p \<Rightarrow>
         next_do (modify (\<lambda>s. s\<lparr>st_pending_logs := odel ticket (st_pending_logs s)\<rparr>))
           (case failure of
              Some e \<Rightarrow> throw e
            | None \<Rightarrow>
                next_do (modify (\<lambda>s. s\<lparr>st_runs := map (\<lambda>(k, r). (k, run_log_extended p r)) (st_runs s)\<rparr>)) (
                next_do (publish_in env (pending_subscriber_set p) (ModelLogged (pending_event p)))
                  (return (Some (pending_event p))))))"

definition subscribe_run :: "string \<Rightarrow> nat \<Rightarrow> ('d, nat option) model_io" where
  "subscribe_run k x =
     bind (gets (\<lambda>s. oget (st_runs s) k)) (\<lambda>r.
     case r of
       None \<Rightarrow> return None
     | Some r \<Rightarrow> next_do (subscribe_in (rr_subscriber_set r) x) (return (Some (rr_subscriber_set r))))"

definition delete_model_run_for_job :: "string \<Rightarrow> ('d, unit) model_io" where
  "delete_model_run_for_job j =
     bind (gets (\<lambda>s. text_if_any (oget (st_job_runs s) j))) (\<lambda>k.
     case k of
       None \<Rightarrow> return ()
     | Some k \<Rightarrow> modify (\<lambda>s. s\<lparr>st_runs := odel k (st_runs s), st_job_runs := odel j (st_job_runs s)\<rparr>))"

section \<open>Calls\<close>

text \<open>The operations that change the store, as calls.\<close>

datatype model_call =
    CallCreateRun moment create_run_input
  | CallRestoreRun moment restore_run_input
  | CallRefreshRun moment restore_run_input
  | CallClaimRun string
  | CallReleaseRun string
  | CallStartSegment moment string
  | CallFinishSegment moment string model_run_update
  | CallStartBudget moment string jsnum
  | CallFinishBudget moment string
  | CallProjectCommitted moment string model_run_update "preview_option list" "circuit_preview option" "reference_preview option"
  | CallFinishCommitted moment string model_run_update
  | CallUpdateRun moment string model_run_update
  | CallProgress moment string model_progress
  | CallPreviews moment string "circuit_preview option" "reference_preview option"
  | CallPreviewOptions moment string "preview_option list"
  | CallDevelopment moment string development_artifact
  | CallFound moment string "found_reference list"
  | CallDraft moment string "preview_option list" reference_preview
  | CallSources moment string "preview_option list" circuit_preview reference_preview
  | CallCandidate moment string validation_summary "development_artifact option" "preview_option list"
      "circuit_preview option" "reference_preview option"
  | CallExtend moment string jsnum
  | CallRetry moment string
  | CallCancelRun moment string
  | CallBeginRunLog string string moment log_stream string
  | CallFinishRunLog nat "string option"
  | CallSubscribeRun string nat
  | CallUnsubscribeRun nat nat
  | CallSubscribeRuns nat
  | CallUnsubscribeRuns nat
  | CallDeleteRun string

fun perform_model_call :: "'d model_env \<Rightarrow> model_call \<Rightarrow> 'd model_store \<Rightarrow> 'd model_store" where
  "perform_model_call env (CallCreateRun now i) s = snd (create_model_run_if_absent env now i s)"
| "perform_model_call env (CallRestoreRun now i) s = snd (restore_model_run env now i s)"
| "perform_model_call env (CallRefreshRun now i) s = snd (refresh_restored_model_run env now i s)"
| "perform_model_call env (CallClaimRun k) s = snd (claim_model_execution k s)"
| "perform_model_call env (CallReleaseRun k) s = snd (release_model_execution k s)"
| "perform_model_call env (CallStartSegment now k) s = snd (start_segment env now k s)"
| "perform_model_call env (CallFinishSegment now k u) s = snd (finish_segment env now k u s)"
| "perform_model_call env (CallStartBudget now k b) s = snd (start_repair_budget env now k b s)"
| "perform_model_call env (CallFinishBudget now k) s = snd (finish_repair_budget env now k s)"
| "perform_model_call env (CallProjectCommitted now k u options circuit reference) s =
     snd (project_committed_run env now k u options circuit reference s)"
| "perform_model_call env (CallFinishCommitted now k u) s = snd (finish_committed_segment env now k u s)"
| "perform_model_call env (CallUpdateRun now k u) s = snd (update_model_run env now k u s)"
| "perform_model_call env (CallProgress now k p) s = snd (update_progress env now k p s)"
| "perform_model_call env (CallPreviews now k circuit reference) s = snd (update_previews env now k circuit reference s)"
| "perform_model_call env (CallPreviewOptions now k options) s = snd (update_preview_options env now k options s)"
| "perform_model_call env (CallDevelopment now k d) s = snd (project_development_model env now k d s)"
| "perform_model_call env (CallFound now k found) s = snd (project_found_references env now k found s)"
| "perform_model_call env (CallDraft now k options reference) s = snd (project_comparison_draft env now k options reference s)"
| "perform_model_call env (CallSources now k options circuit reference) s =
     snd (project_simulation_sources env now k options circuit reference s)"
| "perform_model_call env (CallCandidate now k v d options circuit reference) s =
     snd (project_candidate_validation env now k v d options circuit reference s)"
| "perform_model_call env (CallExtend now k a) s = snd (extend_model_run env now k a s)"
| "perform_model_call env (CallRetry now k) s = snd (retry_model_run env now k s)"
| "perform_model_call env (CallCancelRun now k) s = snd (request_run_cancellation env now k s)"
| "perform_model_call env (CallBeginRunLog k uuid now stream message) s = snd (begin_run_log k uuid now stream message s)"
| "perform_model_call env (CallFinishRunLog ticket failure) s = snd (finish_run_log env ticket failure s)"
| "perform_model_call env (CallSubscribeRun k x) s = snd (subscribe_run k x s)"
| "perform_model_call env (CallUnsubscribeRun k x) s = snd (unsubscribe_in k x s)"
| "perform_model_call env (CallSubscribeRuns x) s = snd (subscribe_list x s)"
| "perform_model_call env (CallUnsubscribeRuns x) s = snd (unsubscribe_list x s)"
| "perform_model_call env (CallDeleteRun j) s = snd (delete_model_run_for_job j s)"

definition perform_model_calls :: "'d model_env \<Rightarrow> model_call list \<Rightarrow> 'd model_store \<Rightarrow> 'd model_store" where
  "perform_model_calls env calls s = foldl (\<lambda>s c. perform_model_call env c s) s calls"

end
