(* ===== verification/Model_Run_Safety.thy ===== *)
theory Model_Run_Safety
  imports Model_Run_Store
begin

text \<open>
  What holds of the model run store in every state its operations can reach: the agreement of its two
  maps, the identity of controllers and records, and the bounds on the log, the progress history and
  the effort. The identifiers that calls carry belong to one job each.
\<close>

section \<open>Running the shared steps\<close>

lemma put_run_run [run_rules]: "put_run k r s = (x, t) \<longleftrightarrow> x = Inr () \<and> t = s\<lparr>st_runs := oput k r (st_runs s)\<rparr>"
  by (auto simp: put_run_def run_rules)

lemma put_job_run_run [run_rules]:
  "put_job_run j k s = (x, t) \<longleftrightarrow> x = Inr () \<and> t = s\<lparr>st_job_runs := oput j k (st_job_runs s)\<rparr>"
  by (auto simp: put_job_run_def run_rules)

lemma require_run_run [run_rules]:
  "require_run k s = (x, t) \<longleftrightarrow> t = s
     \<and> x = (case oget (st_runs s) k of None \<Rightarrow> Inl (''Model run '' @ k @ '' was not found'') | Some r \<Rightarrow> Inr r)"
  by (auto simp: require_run_def bind_def gets_def throw_def return_def split: option.splits)

definition same_model :: "'d model_store \<Rightarrow> 'd model_store \<Rightarrow> bool" where
  "same_model s t \<longleftrightarrow> st_runs t = st_runs s \<and> st_job_runs t = st_job_runs s \<and> st_active t = st_active s
     \<and> st_aborted t = st_aborted s \<and> st_next t = st_next s"

lemma same_model_refl [simp]: "same_model s s"
  by (simp add: same_model_def)

lemma same_model_trans: "same_model s t \<Longrightarrow> same_model t u \<Longrightarrow> same_model s u"
  by (simp add: same_model_def)

lemma persist_run_same: "persist_run env r s = (x, t) \<Longrightarrow> \<exists>d. t = s\<lparr>st_disk := d\<rparr>"
  by (auto simp: persist_run_def persist_at_run)

lemma make_directory_same: "make_directory env dir s = (x, t) \<Longrightarrow> \<exists>d. t = s\<lparr>st_disk := d\<rparr>"
  by (auto simp: make_directory_def split: prod.splits)

lemma publish_in_same: "publish_in env n notice s = (x, t) \<Longrightarrow> x = Inr () \<and> same_model s t \<and> st_disk t = st_disk s"
  by (auto simp: publish_in_def modify_def same_model_def split: prod.splits)

lemma publish_summary_same: "publish_summary env r s = (x, t) \<Longrightarrow> x = Inr () \<and> same_model s t \<and> st_disk t = st_disk s"
  by (auto simp: publish_summary_def publish_list_def modify_def same_model_def split: prod.splits)

lemma announce_run_same: "announce_run env r s = (x, t) \<Longrightarrow> x = Inr () \<and> same_model s t \<and> st_disk t = st_disk s"
  by (cases x) (auto simp: announce_run_def publish_run_def run_rules same_model_def
      dest!: publish_in_same publish_summary_same)

text \<open>A change either fails with the record as it was, or puts the candidate in place.\<close>

lemma mutate_outcome:
  assumes "mutate_and_publish env now k r f s = (x, t)"
  shows "(\<exists>e d. x = Inl e \<and> t = s\<lparr>st_disk := d\<rparr>)
    \<or> (\<exists>d. x = Inr (get_public_model_run (run_candidate now f r))
         \<and> same_model (s\<lparr>st_disk := d, st_runs := oput k (run_candidate now f r) (st_runs s)\<rparr>) t)"
  using assms
  by (cases x) (auto simp: mutate_and_publish_def Let_def run_rules dest!: persist_run_same announce_run_same)

lemma mutate_committed_outcome:
  assumes "mutate_committed_and_publish env now k r f s = (x, t)"
  shows "\<exists>failure d. x = Inr (get_public_model_run (run_candidate now f r), failure)
    \<and> same_model (s\<lparr>st_disk := d, st_runs := oput k (run_candidate now f r) (st_runs s)\<rparr>) t"
  using assms
  by (cases x) (auto simp: mutate_committed_and_publish_def Let_def run_rules dest!: persist_run_same announce_run_same)

section \<open>The invariant\<close>

text \<open>The job a run belongs to is a function \<open>owner\<close> of the run's identifier.\<close>

definition run_ok :: "(string \<Rightarrow> string) \<Rightarrow> nat \<Rightarrow> string \<Rightarrow> model_run_record \<Rightarrow> bool" where
  "run_ok owner n k r \<longleftrightarrow> mr_model_run_id r = k \<and> mr_job_id r = owner k
     \<and> rr_controller r < n \<and> rr_object r < n \<and> rr_subscriber_set r < n
     \<and> length (mr_logs r) \<le> recent_log_event_limit \<and> length (mr_progress_history r) \<le> 50
     \<and> mr_effort_multiplier r \<le> 8"

definition runs_ok :: "(string \<Rightarrow> string) \<Rightarrow> nat \<Rightarrow> (string, model_run_record) omap \<Rightarrow> bool" where
  "runs_ok owner n runs \<longleftrightarrow> distinct (okeys runs) \<and> (\<forall>k r. oget runs k = Some r \<longrightarrow> run_ok owner n k r)
     \<and> (\<forall>k k' r r'. oget runs k = Some r \<and> oget runs k' = Some r' \<and> k \<noteq> k' \<longrightarrow>
          rr_controller r \<noteq> rr_controller r' \<and> rr_object r \<noteq> rr_object r')"

definition index_ok :: "(string \<Rightarrow> string) \<Rightarrow> string set \<Rightarrow> (string, string) omap \<Rightarrow> bool" where
  "index_ok owner keys index \<longleftrightarrow> (\<forall>j k. oget index j = Some k \<longrightarrow> owner k = j \<and> k \<in> keys)"

definition model_ok :: "(string \<Rightarrow> string) \<Rightarrow> 'd model_store \<Rightarrow> bool" where
  "model_ok owner s \<longleftrightarrow> runs_ok owner (st_next s) (st_runs s)
     \<and> index_ok owner (fst ` set (st_runs s)) (st_job_runs s)
     \<and> list_all (\<lambda>c. c < st_next s) (st_aborted s) \<and> distinct (st_active s)"

lemma same_model_ok: "same_model s t \<Longrightarrow> model_ok owner t = model_ok owner s"
  by (simp add: same_model_def model_ok_def)

lemma model_ok_run: "model_ok owner s \<Longrightarrow> oget (st_runs s) k = Some r \<Longrightarrow> run_ok owner (st_next s) k r"
  by (simp add: model_ok_def runs_ok_def)

lemma run_ok_mono: "run_ok owner n k r \<Longrightarrow> n \<le> m \<Longrightarrow> run_ok owner m k r"
  unfolding run_ok_def by linarith

lemma index_ok_mono: "index_ok owner keys index \<Longrightarrow> keys \<subseteq> keys' \<Longrightarrow> index_ok owner keys' index"
  unfolding index_ok_def by blast

lemma list_all_below: "list_all (\<lambda>c. c < (n::nat)) xs \<Longrightarrow> n \<le> m \<Longrightarrow> list_all (\<lambda>c. c < m) xs"
  unfolding list_all_iff using less_le_trans by blast

lemma runs_ok_mono: "runs_ok owner n runs \<Longrightarrow> n \<le> m \<Longrightarrow> runs_ok owner m runs"
  unfolding runs_ok_def using run_ok_mono by blast

lemma model_ok_next: "model_ok owner s \<Longrightarrow> st_next s \<le> n \<Longrightarrow> model_ok owner (s\<lparr>st_next := n\<rparr>)"
  unfolding model_ok_def by (auto intro: runs_ok_mono list_all_below)

lemma runs_ok_put:
  assumes "runs_ok owner n runs" and "run_ok owner n k r"
    and "\<And>k' r'. oget runs k' = Some r' \<Longrightarrow> k' \<noteq> k \<Longrightarrow> rr_controller r' \<noteq> rr_controller r \<and> rr_object r' \<noteq> rr_object r"
  shows "runs_ok owner n (oput k r runs)"
  unfolding runs_ok_def
proof (intro conjI allI impI)
  show "distinct (okeys (oput k r runs))" using assms(1) by (auto simp: runs_ok_def intro: distinct_okeys_oput)
  fix k1 r1 assume "oget (oput k r runs) k1 = Some r1"
  then show "run_ok owner n k1 r1" using assms(1,2) by (auto simp: runs_ok_def split: if_splits)
next
  fix k1 k2 r1 r2
  assume a: "oget (oput k r runs) k1 = Some r1 \<and> oget (oput k r runs) k2 = Some r2 \<and> k1 \<noteq> k2"
  have "rr_controller r1 \<noteq> rr_controller r2 \<and> rr_object r1 \<noteq> rr_object r2"
  proof (cases "k1 = k \<or> k2 = k")
    case True
    with a assms(3) [of k1 r1] assms(3) [of k2 r2] show ?thesis by (auto split: if_splits)
  next
    case False
    with a assms(1) show ?thesis unfolding runs_ok_def by auto
  qed
  then show "rr_controller r1 \<noteq> rr_controller r2" "rr_object r1 \<noteq> rr_object r2" by auto
qed

text \<open>Putting a record whose controller and object are its own: the old ones, or new ones.\<close>

definition own_or_new :: "nat \<Rightarrow> model_run_record \<Rightarrow> model_run_record \<Rightarrow> bool" where
  "own_or_new n r r' \<longleftrightarrow> (rr_controller r' = rr_controller r \<or> n \<le> rr_controller r')
     \<and> (rr_object r' = rr_object r \<or> n \<le> rr_object r')"

lemma model_ok_put:
  assumes s: "model_ok owner s" and n: "st_next s \<le> n" and r': "run_ok owner n k r'"
    and own: "\<And>r. oget (st_runs s) k = Some r \<Longrightarrow> own_or_new (st_next s) r r'"
    and new: "oget (st_runs s) k = None \<Longrightarrow> st_next s \<le> rr_controller r' \<and> st_next s \<le> rr_object r'"
  shows "model_ok owner (s\<lparr>st_next := n, st_runs := oput k r' (st_runs s)\<rparr>)"
proof -
  have runs: "runs_ok owner (st_next s) (st_runs s)" using s by (simp add: model_ok_def)
  have "runs_ok owner n (oput k r' (st_runs s))"
  proof (rule runs_ok_put [OF runs_ok_mono [OF runs n] r'])
    fix k1 r1 assume k1: "oget (st_runs s) k1 = Some r1" "k1 \<noteq> k"
    have below: "rr_controller r1 < st_next s" "rr_object r1 < st_next s"
      using model_ok_run [OF s k1(1)] by (simp_all add: run_ok_def)
    show "rr_controller r1 \<noteq> rr_controller r' \<and> rr_object r1 \<noteq> rr_object r'"
    proof (cases "oget (st_runs s) k")
      case None
      with new below show ?thesis by auto
    next
      case (Some r)
      have "rr_controller r1 \<noteq> rr_controller r \<and> rr_object r1 \<noteq> rr_object r"
        using runs k1 Some unfolding runs_ok_def by blast
      with own [OF Some] below show ?thesis by (auto simp: own_or_new_def)
    qed
  qed
  moreover have "list_all (\<lambda>c. c < n) (st_aborted s)"
    using s n by (auto simp: model_ok_def intro: list_all_below)
  ultimately show ?thesis
    using s by (simp add: model_ok_def index_ok_mono [OF _ subset_insertI])
qed

lemma model_ok_index:
  "model_ok owner s \<Longrightarrow> k \<in> fst ` set (st_runs s) \<Longrightarrow> owner k = j \<Longrightarrow>
     model_ok owner (s\<lparr>st_job_runs := oput j k (st_job_runs s)\<rparr>)"
  unfolding model_ok_def index_ok_def by auto

section \<open>Changes that leave the identity alone\<close>

text \<open>Such a change keeps the bounds.\<close>

definition benign :: "(model_run_record \<Rightarrow> model_run_record) \<Rightarrow> bool" where
  "benign f \<longleftrightarrow> (\<forall>c. run_identity (f c) = run_identity c \<and> mr_effort_multiplier (f c) = mr_effort_multiplier c
     \<and> mr_logs (f c) = mr_logs c
     \<and> (length (mr_progress_history c) \<le> 50 \<longrightarrow> length (mr_progress_history (f c)) \<le> 50))"

lemma benign_candidate:
  assumes "benign f" and "run_ok owner n k r"
  shows "run_ok owner n k (run_candidate now f r) \<and> run_identity (run_candidate now f r) = run_identity r"
proof -
  let ?c = "clone_model_run_record r"
  have f: "run_identity (f ?c) = run_identity r" "mr_effort_multiplier (f ?c) = mr_effort_multiplier r"
    "mr_logs (f ?c) = mr_logs r" "length (mr_progress_history (f ?c)) \<le> 50"
    using assms by (simp_all add: benign_def run_ok_def)
  have "run_identity (run_candidate now f r) = run_identity r" using f by (simp add: run_candidate_def)
  with f assms(2) show ?thesis by (simp add: run_ok_def run_identity_def run_candidate_def)
qed

lemma model_ok_candidate:
  assumes "model_ok owner s" and "oget (st_runs s) k = Some r" and "benign f"
  shows "model_ok owner (s\<lparr>st_runs := oput k (run_candidate now f r) (st_runs s)\<rparr>)"
proof -
  from benign_candidate [OF assms(3) model_ok_run [OF assms(1,2)]]
  have "run_ok owner (st_next s) k (run_candidate now f r)" "run_identity (run_candidate now f r) = run_identity r" by auto
  then show ?thesis
    using model_ok_put [OF assms(1) order_refl, of k "run_candidate now f r"] assms(2)
    by (simp add: own_or_new_def run_identity_def)
qed

lemma mutate_ok:
  assumes "model_ok owner s" and "oget (st_runs s) k = Some r" and "benign f"
    and "mutate_and_publish env now k r f s = (x, t)"
  shows "model_ok owner t"
  using mutate_outcome [OF assms(4)] model_ok_candidate [OF assms(1-3), of now] assms(1)
  by (auto simp: model_ok_def same_model_def)

lemma mutate_committed_ok:
  assumes "model_ok owner s" and "oget (st_runs s) k = Some r" and "benign f"
    and "mutate_committed_and_publish env now k r f s = (x, t)"
  shows "model_ok owner t"
  using mutate_committed_outcome [OF assms(4)] model_ok_candidate [OF assms(1-3), of now] assms(1)
  by (auto simp: model_ok_def same_model_def)

lemma keeps_required:
  assumes "\<And>r s x t. model_ok owner s \<Longrightarrow> oget (st_runs s) k = Some r \<Longrightarrow> m r s = (x, t) \<Longrightarrow> model_ok owner t"
  shows "keeps (model_ok owner) (bind (require_run k) m)"
proof (rule keepsI)
  fix s x t assume "model_ok owner s" "bind (require_run k) m s = (x, t)"
  then show "model_ok owner t"
    using assms by (cases x) (auto simp: run_rules split: option.splits)
qed

lemma keeps_change: "(\<And>r. benign (f r)) \<Longrightarrow> keeps (model_ok owner) (change_run env now k f)"
  unfolding change_run_def by (intro keeps_required) (blast intro: mutate_ok)

lemma benign_updates [simp]:
  "benign (assign_run u)" "benign (started_segment now)" "benign (finished_segment e u)"
  "benign (set_previews circuit reference)" "benign (with_progress p)"
  "benign (\<lambda>c. c\<lparr>mr_preview_options := options\<rparr>)" "benign (\<lambda>c. c\<lparr>mr_development_model := d\<rparr>)"
  by (auto simp: benign_def started_segment_def finished_segment_def set_previews_def with_progress_def
      last_fifty_def Let_def)

lemma benign_candidates [simp]:
  "benign (\<lambda>c. set_previews circuit reference (g c))" if "benign g" for g
  using that by (simp add: benign_def set_previews_def)

lemma changes_keep:
  "keeps (model_ok owner) (start_segment env now k)" "keeps (model_ok owner) (finish_segment env now k u)"
  "keeps (model_ok owner) (start_repair_budget env now k b)" "keeps (model_ok owner) (finish_repair_budget env now k)"
  "keeps (model_ok owner) (project_committed_run env now k u options circuit reference)"
  "keeps (model_ok owner) (finish_committed_segment env now k u)" "keeps (model_ok owner) (update_model_run env now k u)"
  "keeps (model_ok owner) (update_progress env now k p)" "keeps (model_ok owner) (update_previews env now k circuit reference)"
  "keeps (model_ok owner) (update_preview_options env now k options)"
  "keeps (model_ok owner) (project_development_model env now k d)"
  "keeps (model_ok owner) (project_found_references env now k found)"
  "keeps (model_ok owner) (project_comparison_draft env now k options rp)"
  "keeps (model_ok owner) (project_simulation_sources env now k options cp rp)"
  "keeps (model_ok owner) (project_candidate_validation env now k v da options circuit reference)"
proof -
  show "keeps (model_ok owner) (start_segment env now k)"
    unfolding start_segment_def
  proof (rule keeps_required)
    fix r and s :: "'a model_store" and x t
    assume s: "model_ok owner s" "oget (st_runs s) k = Some r"
      and run: "(if text_if_any (mr_segment_started_at r) \<noteq> None then return (get_public_model_run r)
        else mutate_and_publish env now k r (started_segment now)) s = (x, t)"
    then show "model_ok owner t"
      using mutate_ok [OF s, of "started_segment now" env now x t] by (auto simp: return_def split: if_splits)
  qed
  show "keeps (model_ok owner) (start_repair_budget env now k b)"
    unfolding start_repair_budget_def
  proof (rule keeps_required)
    fix r and s :: "'a model_store" and x t
    assume s: "model_ok owner s" "oget (st_runs s) k = Some r"
      and run: "(case b of Fin b \<Rightarrow> if b \<le> 0 then throw repair_budget_error
         else mutate_and_publish env now k r (\<lambda>c. c\<lparr>mr_repair_budget_ms := Some (of_int \<lfloor>b\<rfloor>),
                mr_repair_elapsed_ms := Some 0, mr_repair_started_at := Some (now_text now)\<rparr>)
       | _ \<Rightarrow> throw repair_budget_error) s = (x, t)"
    have "benign (\<lambda>c. c\<lparr>mr_repair_budget_ms := v, mr_repair_elapsed_ms := e, mr_repair_started_at := st\<rparr>)" for v e st
      by (simp add: benign_def)
    from mutate_ok [OF s this] run s show "model_ok owner t"
      by (auto simp: throw_def split: jsnum.splits if_splits)
  qed
  show "keeps (model_ok owner) (update_preview_options env now k options)"
    unfolding update_preview_options_def
  proof (rule keeps_required)
    fix r and s :: "'a model_store" and x t
    assume s: "model_ok owner s" "oget (st_runs s) k = Some r"
      and run: "(if mr_preview_options r = options then return (get_public_model_run r)
        else mutate_and_publish env now k r (\<lambda>c. c\<lparr>mr_preview_options := options\<rparr>)) s = (x, t)"
    then show "model_ok owner t"
      using mutate_ok [OF s benign_updates(6)] by (auto simp: return_def split: if_splits)
  qed
  show "keeps (model_ok owner) (project_committed_run env now k u options circuit reference)"
    unfolding project_committed_run_def
    by (rule keeps_required, erule mutate_committed_ok, assumption) (simp_all add: benign_def set_previews_def)
  show "keeps (model_ok owner) (finish_committed_segment env now k u)"
    unfolding finish_committed_segment_def
    by (rule keeps_required, erule mutate_committed_ok, assumption) simp_all
  show "keeps (model_ok owner) (finish_segment env now k u)" "keeps (model_ok owner) (update_progress env now k p)"
    by (simp_all add: finish_segment_def update_progress_def keeps_change)
qed (simp_all add: finish_repair_budget_def update_model_run_def
  update_previews_def project_development_model_def project_found_references_def project_comparison_draft_def
  project_simulation_sources_def project_candidate_validation_def keeps_change benign_def set_previews_def Let_def)

section \<open>The other operations\<close>

lemma model_ok_sel:
  "st_runs t = st_runs s \<Longrightarrow> st_job_runs t = st_job_runs s \<Longrightarrow> st_active t = st_active s \<Longrightarrow>
     st_aborted t = st_aborted s \<Longrightarrow> st_next t = st_next s \<Longrightarrow> model_ok owner s \<Longrightarrow> model_ok owner t"
  by (simp add: model_ok_def)

text \<open>A new record under its identifier, listed for its job.\<close>

lemma model_ok_new:
  assumes s: "model_ok owner s" and k: "mr_model_run_id r = k" "mr_job_id r = owner k"
    and ids: "rr_controller r = st_next s" "rr_subscriber_set r = Suc (st_next s)" "rr_object r = Suc (Suc (st_next s))"
    and bounds: "length (mr_logs r) \<le> recent_log_event_limit" "length (mr_progress_history r) \<le> 50"
      "mr_effort_multiplier r \<le> 8"
  shows "model_ok owner (s\<lparr>st_next := Suc (Suc (Suc (st_next s))), st_runs := oput k r (st_runs s),
    st_job_runs := oput (mr_job_id r) k (st_job_runs s)\<rparr>)"
proof -
  let ?s = "s\<lparr>st_next := Suc (Suc (Suc (st_next s))), st_runs := oput k r (st_runs s)\<rparr>"
  have "model_ok owner ?s"
    using assms by (intro model_ok_put) (auto simp: run_ok_def own_or_new_def)
  moreover have "k \<in> fst ` set (st_runs ?s)" by simp
  ultimately show ?thesis using model_ok_index [of owner ?s k "mr_job_id r"] k by simp
qed

lemma create_run_ok:
  assumes s: "model_ok owner s" and run: "create_model_run_if_absent env now i s = (x, t)"
    and i: "owner (cr_model_run_id i) = cr_job_id i" "cr_effort_multiplier i \<le> 8"
  shows "model_ok owner t"
proof (cases "run_for_job s (cr_job_id i)")
  case (Some r)
  with s run show ?thesis by (simp add: create_model_run_if_absent_def bind_gets return_def)
next
  case None
  let ?r = "new_run_record i (now_text now) (Suc (Suc (st_next s))) (st_next s) (Suc (st_next s))"
  have new: "model_ok owner (s\<lparr>st_next := Suc (Suc (Suc (st_next s))),
      st_runs := oput (mr_model_run_id ?r) ?r (st_runs s),
      st_job_runs := oput (mr_job_id ?r) (mr_model_run_id ?r) (st_job_runs s)\<rparr>)"
    using s i by (intro model_ok_new) (simp_all add: new_run_record_def)
  have nxt: "model_ok owner (s\<lparr>st_next := Suc (Suc (Suc (st_next s)))\<rparr>)" using s by (intro model_ok_next) simp_all
  show ?thesis
  proof (cases x)
    case (Inl e)
    with run None have "\<exists>d. t = s\<lparr>st_next := Suc (Suc (Suc (st_next s))), st_disk := d\<rparr>"
      by (auto simp: create_model_run_if_absent_def bind_gets run_rules Let_def
          dest!: make_directory_same persist_run_same publish_summary_same)
    with nxt show ?thesis by (auto intro: model_ok_sel [rotated -1])
  next
    case (Inr c)
    with run None have "\<exists>d. same_model (s\<lparr>st_next := Suc (Suc (Suc (st_next s))), st_disk := d,
      st_runs := oput (mr_model_run_id ?r) ?r (st_runs s),
      st_job_runs := oput (mr_job_id ?r) (mr_model_run_id ?r) (st_job_runs s)\<rparr>) t"
      by (auto simp: create_model_run_if_absent_def bind_gets run_rules Let_def
          dest!: make_directory_same persist_run_same publish_summary_same)
    with new show ?thesis by (auto simp: same_model_def intro: model_ok_sel [rotated -1])
  qed
qed

definition restorable :: "(string \<Rightarrow> string) \<Rightarrow> restore_run_input \<Rightarrow> bool" where
  "restorable owner i \<longleftrightarrow> owner (mr_model_run_id (rs_model_run i)) = mr_job_id (rs_model_run i)
     \<and> length (mr_progress_history (rs_model_run i)) \<le> 50 \<and> mr_effort_multiplier (rs_model_run i) \<le> 8"

lemma cap_length: "length (cap_recent_logs logs) \<le> recent_log_event_limit"
  by (simp add: cap_recent_logs_def)

lemma as_record_fields [simp]:
  "mr_model_run_id (as_record m dir ob c subs) = mr_model_run_id m" "mr_job_id (as_record m dir ob c subs) = mr_job_id m"
  "rr_controller (as_record m dir ob c subs) = c" "rr_subscriber_set (as_record m dir ob c subs) = subs"
  "rr_object (as_record m dir ob c subs) = ob" "rr_model_dir (as_record m dir ob c subs) = dir"
  "mr_progress_history (as_record m dir ob c subs) = mr_progress_history m"
  "mr_effort_multiplier (as_record m dir ob c subs) = mr_effort_multiplier m"
  "mr_status (as_record m dir ob c subs) = mr_status m" "mr_is_complete (as_record m dir ob c subs) = mr_is_complete m"
  "mr_has_errors (as_record m dir ob c subs) = mr_has_errors m"
  "mr_elapsed_time_ms (as_record m dir ob c subs) = mr_elapsed_time_ms m"
  "mr_segment_started_at (as_record m dir ob c subs) = mr_segment_started_at m"
  by (simp_all add: as_record_def model_run.extend_def)

lemma restore_run_ok:
  assumes s: "model_ok owner s" and run: "restore_model_run env now i s = (x, t)" and i: "restorable owner i"
  shows "model_ok owner t"
proof (cases "oget (st_runs s) (mr_model_run_id (rs_model_run i))")
  case (Some r)
  with s run show ?thesis by (simp add: restore_model_run_def bind_gets return_def)
next
  case None
  let ?r = "restored_run_record env now i (Suc (Suc (st_next s))) (st_next s) (Suc (st_next s))"
  have new: "model_ok owner (s\<lparr>st_next := Suc (Suc (Suc (st_next s))),
      st_runs := oput (mr_model_run_id ?r) ?r (st_runs s),
      st_job_runs := oput (mr_job_id ?r) (mr_model_run_id ?r) (st_job_runs s)\<rparr>)"
    using s i by (intro model_ok_new) (simp_all add: restored_run_record_def Let_def restorable_def cap_length)
  have nxt: "model_ok owner (s\<lparr>st_next := Suc (Suc (Suc (st_next s)))\<rparr>)" using s by (intro model_ok_next) simp_all
  show ?thesis
  proof (cases x)
    case (Inl e)
    with run None have "\<exists>d. t = s\<lparr>st_next := Suc (Suc (Suc (st_next s))), st_disk := d\<rparr>"
      by (auto simp: restore_model_run_def bind_gets run_rules Let_def dest!: persist_run_same publish_summary_same)
    with nxt show ?thesis by (auto intro: model_ok_sel [rotated -1])
  next
    case (Inr c)
    with run None have "\<exists>d. same_model (s\<lparr>st_next := Suc (Suc (Suc (st_next s))), st_disk := d,
      st_runs := oput (mr_model_run_id ?r) ?r (st_runs s),
      st_job_runs := oput (mr_job_id ?r) (mr_model_run_id ?r) (st_job_runs s)\<rparr>) t"
      by (auto simp: restore_model_run_def bind_gets run_rules Let_def dest!: persist_run_same publish_summary_same)
    with new show ?thesis by (auto simp: same_model_def intro: model_ok_sel [rotated -1])
  qed
qed

lemma refresh_run_ok:
  assumes s: "model_ok owner s" and run: "refresh_restored_model_run env now i s = (x, t)" and i: "restorable owner i"
  shows "model_ok owner t"
proof (cases "oget (st_runs s) (mr_model_run_id (rs_model_run i))")
  case None
  with s run i show ?thesis by (auto simp: refresh_restored_model_run_def bind_gets intro: restore_run_ok)
next
  case (Some r)
  let ?r = "refreshed_run_record i (st_next s) r" and ?k = "mr_model_run_id (rs_model_run i)"
  let ?s = "s\<lparr>st_next := Suc (st_next s), st_runs := oput ?k ?r (st_runs s)\<rparr>"
  have r: "mr_model_run_id ?r = ?k" "mr_job_id ?r = owner ?k" "rr_controller ?r = rr_controller r"
    "rr_object ?r = st_next s" "rr_subscriber_set ?r = rr_subscriber_set r"
    "length (mr_logs ?r) \<le> recent_log_event_limit" "length (mr_progress_history ?r) \<le> 50" "mr_effort_multiplier ?r \<le> 8"
    using i by (simp_all add: refreshed_run_record_def Let_def restorable_def cap_length)
  have "model_ok owner ?s"
    using model_ok_run [OF s Some] r Some by (intro model_ok_put [OF s]) (auto simp: run_ok_def own_or_new_def)
  from model_ok_index [OF this, of ?k "mr_job_id ?r"] r
  have new: "model_ok owner (?s\<lparr>st_job_runs := oput (mr_job_id ?r) ?k (st_job_runs s)\<rparr>)" by simp
  from run Some have "same_model (?s\<lparr>st_job_runs := oput (mr_job_id ?r) ?k (st_job_runs s)\<rparr>) t"
    by (cases x) (auto simp: refresh_restored_model_run_def bind_gets run_rules Let_def r(1) dest!: announce_run_same)
  with new show ?thesis by (simp add: same_model_ok)
qed

lemma claim_run_ok:
  assumes s: "model_ok owner s" and run: "claim_model_execution k s = (x, t)"
  shows "model_ok owner t"
proof (cases "oget (st_runs s) k")
  case None
  with s run show ?thesis by (simp add: claim_model_execution_def bind_gets return_def)
next
  case (Some r)
  have "model_ok owner (s\<lparr>st_next := Suc (st_next s), st_runs := oput k (r\<lparr>rr_controller := st_next s\<rparr>) (st_runs s)\<rparr>)"
    using model_ok_run [OF s Some] Some by (intro model_ok_put [OF s]) (auto simp: run_ok_def own_or_new_def)
  with s run Some show ?thesis
    by (cases x) (auto simp: claim_model_execution_def bind_gets run_rules model_ok_def split: if_splits)
qed

lemma release_run_ok: "model_ok owner s \<Longrightarrow> model_ok owner (snd (release_model_execution k s))"
  by (simp add: release_model_execution_def modify_def model_ok_def distinct_removeAll)

text \<open>A change may also give the run a new controller and a higher effort.\<close>

definition renewing :: "nat \<Rightarrow> model_run_record \<Rightarrow> model_run_record \<Rightarrow> bool" where
  "renewing n r r' \<longleftrightarrow> mr_model_run_id r' = mr_model_run_id r \<and> mr_job_id r' = mr_job_id r
     \<and> rr_subscriber_set r' = rr_subscriber_set r \<and> rr_object r' = rr_object r
     \<and> (rr_controller r' = rr_controller r \<or> rr_controller r' = n) \<and> mr_logs r' = mr_logs r
     \<and> mr_progress_history r' = mr_progress_history r \<and> mr_effort_multiplier r' \<le> 8"

lemma model_ok_renewed:
  assumes "model_ok owner s" and "oget (st_runs s) k = Some r" and "renewing (st_next s) r r'"
  shows "model_ok owner (s\<lparr>st_next := Suc (st_next s), st_runs := oput k r' (st_runs s)\<rparr>)"
  using model_ok_run [OF assms(1,2)] assms
  by (intro model_ok_put [OF assms(1)]) (auto simp: run_ok_def own_or_new_def renewing_def)

lemma renewing_mutate:
  assumes s: "model_ok owner s" and r: "oget (st_runs s) k = Some r"
    and f: "renewing (st_next s) r (run_candidate now f r)"
    and run: "mutate_and_publish env now k r f (s\<lparr>st_next := Suc (st_next s)\<rparr>) = (x, t)"
  shows "model_ok owner t"
proof -
  have "model_ok owner (s\<lparr>st_next := Suc (st_next s)\<rparr>)" using s by (intro model_ok_next) simp_all
  with mutate_outcome [OF run] model_ok_renewed [OF s r f] show ?thesis
    by (auto simp: model_ok_def same_model_def)
qed

lemma clone_fields [simp]:
  "mr_model_run_id (clone_model_run_record r) = mr_model_run_id r" "mr_job_id (clone_model_run_record r) = mr_job_id r"
  "rr_controller (clone_model_run_record r) = rr_controller r" "rr_object (clone_model_run_record r) = rr_object r"
  "rr_subscriber_set (clone_model_run_record r) = rr_subscriber_set r"
  "rr_model_dir (clone_model_run_record r) = rr_model_dir r"
  by (simp_all add: clone_model_run_record_def)

lemma requeued_fields [simp]:
  "mr_model_run_id (requeued r) = mr_model_run_id r" "mr_job_id (requeued r) = mr_job_id r"
  "rr_controller (requeued r) = rr_controller r" "rr_object (requeued r) = rr_object r"
  "rr_subscriber_set (requeued r) = rr_subscriber_set r" "mr_logs (requeued r) = mr_logs r"
  "mr_progress_history (requeued r) = mr_progress_history r" "mr_effort_multiplier (requeued r) = mr_effort_multiplier r"
  by (simp_all add: requeued_def)

lemma valid_extension_bound: "valid_extension a effort \<Longrightarrow> effort + finite_part a \<le> 8"
  by (cases a) (simp_all add: valid_extension_def)

lemma extended_renews:
  assumes "valid_extension a (mr_effort_multiplier r)"
  shows "renewing n r (run_candidate now (extended_run (finite_part a) b n) r)"
  using valid_extension_bound [OF assms]
  by (simp add: renewing_def run_candidate_def extended_run_def Let_def)

lemma extend_run_ok:
  assumes s: "model_ok owner s" and run: "extend_model_run env now k a s = (x, t)"
  shows "model_ok owner t"
proof (cases "oget (st_runs s) k")
  case None
  with s run show ?thesis by (simp add: extend_model_run_def bind_gets return_def)
next
  case (Some r)
  let ?start = "\<not> active_status (mr_status r)"
  show ?thesis
  proof (cases "(mr_status r = RunValidating \<or> mr_status r = RunCancelling \<or> ?start \<and> k \<in> set (st_active s))
      \<or> \<not> valid_extension a (mr_effort_multiplier r)")
    case True
    with s run Some show ?thesis
      by (auto simp: extend_model_run_def bind_gets return_def split: if_splits)
  next
    case False
    then have valid: "valid_extension a (mr_effort_multiplier r)" by simp
    show ?thesis
    proof (cases ?start)
      case True
      with run Some False obtain y where
        "mutate_and_publish env now k r (extended_run (finite_part a) True (st_next s)) (s\<lparr>st_next := Suc (st_next s)\<rparr>) = (y, t)"
        by (cases x) (auto simp: extend_model_run_def bind_gets Let_def run_rules)
      with renewing_mutate [OF s Some extended_renews [OF valid]] show ?thesis by blast
    next
      case False': False
      with run Some False obtain y where
        y: "mutate_and_publish env now k r (extended_run (finite_part a) False 0) s = (y, t)"
        by (cases x) (auto simp: extend_model_run_def bind_gets Let_def run_rules)
      let ?c = "run_candidate now (extended_run (finite_part a) False 0) r"
      have "run_ok owner (st_next s) k ?c \<and> own_or_new (st_next s) r ?c"
        using model_ok_run [OF s Some] valid_extension_bound [OF valid]
        by (simp add: run_ok_def own_or_new_def run_candidate_def extended_run_def Let_def)
      then have "model_ok owner (s\<lparr>st_runs := oput k ?c (st_runs s)\<rparr>)"
        using model_ok_put [OF s order_refl, of k ?c] Some by simp
      with mutate_outcome [OF y] s show ?thesis by (auto simp: model_ok_def same_model_def)
    qed
  qed
qed

lemma retry_run_ok:
  assumes s: "model_ok owner s" and run: "retry_model_run env now k s = (x, t)"
  shows "model_ok owner t"
proof (cases "oget (st_runs s) k")
  case None
  with s run show ?thesis by (simp add: retry_model_run_def bind_gets return_def)
next
  case (Some r)
  let ?f = "\<lambda>c. (requeued c)\<lparr>mr_segment_started_at := None, rr_controller := st_next s\<rparr>"
  have f: "renewing (st_next s) r (run_candidate now ?f r)"
    using model_ok_run [OF s Some] by (simp add: renewing_def run_candidate_def run_ok_def)
  show ?thesis
  proof (cases "restartable_status (mr_status r) \<and> k \<notin> set (st_active s)")
    case True
    with run Some obtain y where "mutate_and_publish env now k r ?f (s\<lparr>st_next := Suc (st_next s)\<rparr>) = (y, t)"
      by (cases x) (auto simp: retry_model_run_def bind_gets run_rules)
    with renewing_mutate [OF s Some f] show ?thesis by blast
  next
    case False
    with s run Some show ?thesis by (auto simp: retry_model_run_def bind_gets return_def split: if_splits)
  qed
qed

lemma cancel_run_ok:
  assumes s: "model_ok owner s" and run: "request_run_cancellation env now k s = (x, t)"
  shows "model_ok owner t"
proof (cases "\<exists>r. oget (st_runs s) k = Some r \<and> \<not> mr_is_complete r \<and> \<not> run_aborted s r")
  case False
  with s run show ?thesis
    by (auto simp: request_run_cancellation_def bind_gets return_def split: option.splits if_splits)
next
  case True
  then obtain r where r: "oget (st_runs s) k = Some r" "\<not> mr_is_complete r" "\<not> run_aborted s r" by blast
  let ?f = "\<lambda>c. c\<lparr>mr_status := RunCancelling\<rparr>"
  let ?c = "(clone_model_run_record r)\<lparr>mr_status := RunCancelling, mr_updated_at := now_text now\<rparr>"
  have "benign ?f" by (simp add: benign_def)
  from model_ok_candidate [OF s r(1) this, of now]
  have put: "model_ok owner (s\<lparr>st_runs := oput k ?c (st_runs s)\<rparr>)" by (simp add: run_candidate_def)
  have less: "rr_controller r < st_next s" using model_ok_run [OF s r(1)] by (simp add: run_ok_def)
  from run r have "(case x of Inl e \<Rightarrow> \<exists>d. t = s\<lparr>st_disk := d, st_aborted := st_aborted s @ [rr_controller r]\<rparr>
    | Inr _ \<Rightarrow> \<exists>d. same_model (s\<lparr>st_disk := d, st_runs := oput k ?c (st_runs s), st_aborted := st_aborted s @ [rr_controller r]\<rparr>) t)"
    by (cases x) (auto simp: request_run_cancellation_def bind_gets Let_def run_rules
        dest!: persist_run_same announce_run_same)
  with s put less show ?thesis
    by (auto simp: model_ok_def same_model_def split: sum.splits)
qed

lemma begin_run_log_ok:
  assumes s: "model_ok owner s" and run: "begin_run_log k uuid now stream message s = (x, t)"
  shows "model_ok owner t"
proof -
  have nxt: "model_ok owner (s\<lparr>st_next := Suc (st_next s)\<rparr>)" using s by (intro model_ok_next) simp_all
  with s run show ?thesis
    by (cases x) (auto simp: begin_run_log_def run_rules Let_def model_ok_def split: option.splits)
qed

lemma run_log_extended_fields [simp]:
  "mr_model_run_id (run_log_extended p r) = mr_model_run_id r" "mr_job_id (run_log_extended p r) = mr_job_id r"
  "rr_controller (run_log_extended p r) = rr_controller r" "rr_object (run_log_extended p r) = rr_object r"
  "rr_subscriber_set (run_log_extended p r) = rr_subscriber_set r"
  "mr_progress_history (run_log_extended p r) = mr_progress_history r"
  "mr_effort_multiplier (run_log_extended p r) = mr_effort_multiplier r"
  by (simp_all add: run_log_extended_def)

lemma run_log_extended_bound:
  "length (mr_logs r) \<le> recent_log_event_limit \<Longrightarrow> length (mr_logs (run_log_extended p r)) \<le> recent_log_event_limit"
  by (simp add: run_log_extended_def cap_length)

lemma oget_map_runs: "oget (map (\<lambda>(k, r). (k, g r)) runs) k = map_option g (oget runs k)"
  by (simp add: map_of_map)

lemma runs_ok_logs:
  assumes "runs_ok owner n runs"
  shows "runs_ok owner n (map (\<lambda>(k, r). (k, run_log_extended p r)) runs)"
  unfolding runs_ok_def
proof (intro conjI allI impI)
  have "okeys (map (\<lambda>(k, r). (k, run_log_extended p r)) runs) = okeys runs" by (induction runs) auto
  then show "distinct (okeys (map (\<lambda>(k, r). (k, run_log_extended p r)) runs))"
    using assms unfolding runs_ok_def by metis
  fix k r assume "oget (map (\<lambda>(k, r). (k, run_log_extended p r)) runs) k = Some r"
  then obtain r0 where "oget runs k = Some r0" "r = run_log_extended p r0" by (auto simp: oget_map_runs)
  with assms show "run_ok owner n k r" by (auto simp: runs_ok_def run_ok_def run_log_extended_bound)
next
  fix k k' r r'
  assume a: "oget (map (\<lambda>(k, r). (k, run_log_extended p r)) runs) k = Some r
    \<and> oget (map (\<lambda>(k, r). (k, run_log_extended p r)) runs) k' = Some r' \<and> k \<noteq> k'"
  then obtain r0 r0' where "oget runs k = Some r0" "r = run_log_extended p r0"
    "oget runs k' = Some r0'" "r' = run_log_extended p r0'" by (auto simp: oget_map_runs)
  moreover from this a assms have "rr_controller r0 \<noteq> rr_controller r0' \<and> rr_object r0 \<noteq> rr_object r0'"
    unfolding runs_ok_def by blast
  ultimately show "rr_controller r \<noteq> rr_controller r'" "rr_object r \<noteq> rr_object r'" by simp_all
qed

lemma finish_run_log_ok:
  assumes s: "model_ok owner s" and run: "finish_run_log env ticket failure s = (x, t)"
  shows "model_ok owner t"
proof (cases "oget (st_pending_logs s) ticket")
  case None
  with s run show ?thesis by (simp add: finish_run_log_def bind_gets return_def)
next
  case (Some p)
  let ?s = "s\<lparr>st_pending_logs := odel ticket (st_pending_logs s)\<rparr>"
  let ?t = "?s\<lparr>st_runs := map (\<lambda>(k, r). (k, run_log_extended p r)) (st_runs s)\<rparr>"
  have keys: "fst ` set (map (\<lambda>(k, r). (k, run_log_extended p r)) (st_runs s)) = fst ` set (st_runs s)" by force
  have "model_ok owner ?s" using s by (simp add: model_ok_def)
  moreover have "model_ok owner ?t"
    using s runs_ok_logs [of owner "st_next s" "st_runs s" p] keys by (simp add: model_ok_def)
  ultimately show ?thesis
    using run Some by (cases x; cases failure)
      (auto simp: finish_run_log_def bind_gets run_rules same_model_ok dest!: publish_in_same)
qed

lemma subscriptions_ok:
  "model_ok owner s \<Longrightarrow> model_ok owner (snd (subscribe_run k x s))"
  "model_ok owner s \<Longrightarrow> model_ok owner (snd (unsubscribe_in n x s))"
  "model_ok owner s \<Longrightarrow> model_ok owner (snd (subscribe_list x s))"
  "model_ok owner s \<Longrightarrow> model_ok owner (snd (unsubscribe_list x s))"
  by (simp_all add: subscribe_run_def bind_gets store_base_defs run_defs model_ok_def split: option.split)

lemma runs_ok_drop: "runs_ok owner n runs \<Longrightarrow> runs_ok owner n (odel k runs)"
  unfolding runs_ok_def by (metis (no_types, lifting) distinct_okeys_odel oget_odel option.distinct(1))

lemma index_ok_drop:
  "index_ok owner keys index \<Longrightarrow> oget index j = Some k \<Longrightarrow> index_ok owner (keys - {k}) (odel j index)"
  unfolding index_ok_def by (metis DiffI oget_odel option.distinct(1) singletonD)

lemma delete_run_ok: "model_ok owner s \<Longrightarrow> model_ok owner (snd (delete_model_run_for_job j s))"
proof -
  assume s: "model_ok owner s"
  show ?thesis
  proof (cases "text_if_any (oget (st_job_runs s) j)")
    case None
    with s show ?thesis by (simp add: delete_model_run_for_job_def bind_gets return_def)
  next
    case (Some k)
    then have k: "oget (st_job_runs s) j = Some k" by (auto simp: text_if_any_def split: option.splits list.splits)
    have "fst ` set (odel k (st_runs s)) = fst ` set (st_runs s) - {k}" by (auto simp: odel_def)
    with s Some k show ?thesis
      by (simp add: delete_model_run_for_job_def bind_gets modify_def model_ok_def runs_ok_drop index_ok_drop)
  qed
qed

section \<open>Every reachable state\<close>

text \<open>The calls whose inputs come from outside name runs of the right job, within the bounds.\<close>

fun admissible :: "(string \<Rightarrow> string) \<Rightarrow> model_call \<Rightarrow> bool" where
  "admissible owner (CallCreateRun now i) = (owner (cr_model_run_id i) = cr_job_id i \<and> cr_effort_multiplier i \<le> 8)"
| "admissible owner (CallRestoreRun now i) = restorable owner i"
| "admissible owner (CallRefreshRun now i) = restorable owner i"
| "admissible owner _ = True"

lemma other_runs_keep:
  "keeps (model_ok owner) (claim_model_execution k)" "keeps (model_ok owner) (extend_model_run env now k a)"
  "keeps (model_ok owner) (retry_model_run env now k)" "keeps (model_ok owner) (request_run_cancellation env now k)"
  "keeps (model_ok owner) (begin_run_log k uuid now stream message)" "keeps (model_ok owner) (finish_run_log env ticket failure)"
  subgoal by (rule keepsI) (erule claim_run_ok)
  subgoal by (rule keepsI) (erule extend_run_ok)
  subgoal by (rule keepsI) (erule retry_run_ok)
  subgoal by (rule keepsI) (erule cancel_run_ok)
  subgoal by (rule keepsI) (erule begin_run_log_ok)
  subgoal by (rule keepsI) (erule finish_run_log_ok)
  done

lemma inputs_ok:
  "model_ok owner s \<Longrightarrow> admissible owner (CallCreateRun now i) \<Longrightarrow> model_ok owner (snd (create_model_run_if_absent env now i s))"
  "model_ok owner s \<Longrightarrow> restorable owner j \<Longrightarrow> model_ok owner (snd (restore_model_run env now j s))"
  "model_ok owner s \<Longrightarrow> restorable owner j \<Longrightarrow> model_ok owner (snd (refresh_restored_model_run env now j s))"
  using create_run_ok [of owner s env now i] restore_run_ok [of owner s env now j] refresh_run_ok [of owner s env now j]
  by (metis admissible.simps(1) prod.collapse)+

lemma model_step_ok: "model_ok owner s \<Longrightarrow> admissible owner c \<Longrightarrow> model_ok owner (perform_model_call env c s)"
  by (cases c) (simp_all add: changes_keep [unfolded keeps_def, rule_format] other_runs_keep [unfolded keeps_def, rule_format]
      inputs_ok subscriptions_ok release_run_ok delete_run_ok)

lemma perform_model_calls_simps [simp]:
  "perform_model_calls env [] s = s"
  "perform_model_calls env (c # cs) s = perform_model_calls env cs (perform_model_call env c s)"
  by (simp_all add: perform_model_calls_def)

lemma model_calls_ok: "model_ok owner s \<Longrightarrow> list_all (admissible owner) calls \<Longrightarrow> model_ok owner (perform_model_calls env calls s)"
  by (induction calls arbitrary: s) (simp_all add: model_step_ok)

lemma empty_model_ok: "model_ok owner (empty_model_store d)"
  by (simp add: empty_model_store_def model_ok_def runs_ok_def index_ok_def)



end
