(* ===== verification/Model_Run_Frames.thy ===== *)
theory Model_Run_Frames
  imports Model_Run_Safety
begin

text \<open>
  Which operations of the model run store change its two indexes, the active executions and the runs
  by job: a predicate on the indexes that survives those few operations survives every call.
\<close>

definition indexed :: "(string list \<Rightarrow> (string, string) omap \<Rightarrow> bool) \<Rightarrow> 'd model_store \<Rightarrow> bool" where
  "indexed Q s \<longleftrightarrow> Q (st_active s) (st_job_runs s)"

lemma indexed_modify:
  "(\<And>s. st_active (f s) = st_active s) \<Longrightarrow> (\<And>s. st_job_runs (f s) = st_job_runs s) \<Longrightarrow> keeps (indexed Q) (modify f)"
  by (rule keeps_modify) (simp add: indexed_def)

lemma indexed_basic [intro, simp]:
  "keeps (indexed Q) new_object" "keeps (indexed Q) (put_run k' r)" "keeps (indexed Q) (persist_run env r)"
  "keeps (indexed Q) (make_directory env dir)" "keeps (indexed Q) (publish_in env n notice)"
  "keeps (indexed Q) (publish_summary env r)" "keeps (indexed Q) (abort_controller c)"
  "keeps (indexed Q) (require_run k')" "keeps (indexed Q) (subscribe_in n x)" "keeps (indexed Q) (unsubscribe_in n x)"
  "keeps (indexed Q) (subscribe_list x)" "keeps (indexed Q) (unsubscribe_list x)"
  by (auto simp: keeps_def indexed_def store_base_defs put_run_def persist_run_def
      make_directory_def publish_summary_def require_run_def run_defs split: prod.splits option.splits)

lemma indexed_announce [intro, simp]: "keeps (indexed Q) (announce_run env r)"
  unfolding announce_run_def publish_run_def by (intro keeps_next_do indexed_basic)

lemmas indexed_rules = keeps_bind keeps_next_do keeps_catch keeps_if keeps_option keeps_return keeps_throw keeps_gets
  indexed_basic indexed_announce indexed_modify

lemma indexed_mutate [intro, simp]:
  "keeps (indexed Q) (mutate_and_publish env now k' r f)"
  "keeps (indexed Q) (mutate_committed_and_publish env now k' r f)"
  unfolding mutate_and_publish_def mutate_committed_and_publish_def Let_def by (intro indexed_rules)+

lemma indexed_change [intro, simp]: "keeps (indexed Q) (change_run env now k' f)"
  unfolding change_run_def by (intro indexed_rules indexed_mutate)

lemma indexed_operations:
  "keeps (indexed Q) (start_segment env now k')" "keeps (indexed Q) (finish_segment env now k' u)"
  "keeps (indexed Q) (finish_repair_budget env now k')"
  "keeps (indexed Q) (project_committed_run env now k' u options circuit reference)"
  "keeps (indexed Q) (finish_committed_segment env now k' u)" "keeps (indexed Q) (update_model_run env now k' u)"
  "keeps (indexed Q) (update_progress env now k' p)" "keeps (indexed Q) (update_previews env now k' circuit reference)"
  "keeps (indexed Q) (update_preview_options env now k' options)"
  "keeps (indexed Q) (project_development_model env now k' d)" "keeps (indexed Q) (project_found_references env now k' found)"
  "keeps (indexed Q) (project_comparison_draft env now k' options rp)"
  "keeps (indexed Q) (project_simulation_sources env now k' options cp rp)"
  "keeps (indexed Q) (project_candidate_validation env now k' v da options circuit reference)"
  "keeps (indexed Q) (extend_model_run env now k' a)" "keeps (indexed Q) (retry_model_run env now k')"
  "keeps (indexed Q) (request_run_cancellation env now k')"
  "keeps (indexed Q) (begin_run_log k' uuid now stream message)" "keeps (indexed Q) (finish_run_log env ticket failure)"
  "keeps (indexed Q) (subscribe_run k' x)"
  unfolding start_segment_def finish_segment_def
    finish_repair_budget_def project_committed_run_def finish_committed_segment_def update_model_run_def
    update_progress_def update_previews_def update_preview_options_def project_development_model_def
    project_found_references_def project_comparison_draft_def project_simulation_sources_def
    project_candidate_validation_def extend_model_run_def retry_model_run_def request_run_cancellation_def
    begin_run_log_def finish_run_log_def subscribe_run_def Let_def
  by (intro indexed_rules indexed_mutate indexed_change; simp)+

lemma indexed_budget: "keeps (indexed Q) (start_repair_budget env now k' b)"
  unfolding start_repair_budget_def by (intro indexed_rules; cases b; simp)

text \<open>The operations that add a run for a job.\<close>

lemma indexed_put_job_run: "(\<And>a m. Q a m \<Longrightarrow> Q a (oput j k m)) \<Longrightarrow> keeps (indexed Q) (put_job_run j k)"
  unfolding put_job_run_def by (rule keeps_modify) (simp add: indexed_def)

lemma indexed_create:
  "(\<And>a m. Q a m \<Longrightarrow> Q a (oput (cr_job_id i) (cr_model_run_id i) m)) \<Longrightarrow> keeps (indexed Q) (create_model_run_if_absent env now i)"
  unfolding create_model_run_if_absent_def Let_def
  by (intro indexed_rules indexed_put_job_run) (simp_all add: new_run_record_def)

lemma indexed_restore:
  "(\<And>a m. Q a m \<Longrightarrow> Q a (oput (mr_job_id (rs_model_run i)) (mr_model_run_id (rs_model_run i)) m)) \<Longrightarrow>
    keeps (indexed Q) (restore_model_run env now i)"
  unfolding restore_model_run_def Let_def
  by (intro indexed_rules indexed_put_job_run) (simp_all add: restored_run_record_def as_record_def model_run.defs Let_def)

lemma indexed_refresh:
  "(\<And>a m. Q a m \<Longrightarrow> Q a (oput (mr_job_id (rs_model_run i)) (mr_model_run_id (rs_model_run i)) m)) \<Longrightarrow>
    keeps (indexed Q) (refresh_restored_model_run env now i)"
  unfolding refresh_restored_model_run_def Let_def
  by (intro indexed_rules indexed_put_job_run indexed_restore)
    (simp_all add: refreshed_run_record_def as_record_def model_run.defs Let_def)

text \<open>A predicate on the indexes survives a call when it survives what the call does to them.\<close>

fun index_effect :: "model_call \<Rightarrow> string list \<Rightarrow> (string, string) omap \<Rightarrow> (string list \<times> (string, string) omap) list" where
  "index_effect (CallCreateRun now i) a m = [(a, m), (a, oput (cr_job_id i) (cr_model_run_id i) m)]"
| "index_effect (CallRestoreRun now i) a m = [(a, m), (a, oput (mr_job_id (rs_model_run i)) (mr_model_run_id (rs_model_run i)) m)]"
| "index_effect (CallRefreshRun now i) a m = [(a, m), (a, oput (mr_job_id (rs_model_run i)) (mr_model_run_id (rs_model_run i)) m)]"
| "index_effect (CallClaimRun k) a m = [(a, m), (a @ [k], m)]"
| "index_effect (CallReleaseRun k) a m = [(removeAll k a, m)]"
| "index_effect (CallDeleteRun j) a m = [(a, m), (a, odel j m)]"
| "index_effect _ a m = [(a, m)]"

lemma indexed_claim:
  "indexed Q s \<Longrightarrow> (\<And>a m. Q a m \<Longrightarrow> Q (a @ [k]) m) \<Longrightarrow> indexed Q (snd (claim_model_execution k s))"
  by (auto simp: claim_model_execution_def bind_gets indexed_def new_object_def put_run_def run_defs
      split: option.splits)

lemma indexed_delete:
  "indexed Q s \<Longrightarrow> (\<And>a m. Q a m \<Longrightarrow> Q a (odel j m)) \<Longrightarrow> indexed Q (snd (delete_model_run_for_job j s))"
  by (auto simp: delete_model_run_for_job_def bind_gets indexed_def run_defs split: option.splits)

lemma indexed_step:
  assumes "indexed Q s" and "\<And>a m. Q a m \<Longrightarrow> list_all (\<lambda>(a', m'). Q a' m') (index_effect c a m)"
  shows "indexed Q (perform_model_call env c s)"
proof (cases c)
  case (CallReleaseRun k)
  with assms show ?thesis by (simp add: release_model_execution_def modify_def indexed_def)
next
  case (CallCreateRun now i)
  have "keeps (indexed Q) (create_model_run_if_absent env now i)"
    by (rule indexed_create) (use assms(2) CallCreateRun in simp)
  with CallCreateRun assms(1) show ?thesis by (simp add: keeps_def)
next
  case (CallRestoreRun now i)
  have "keeps (indexed Q) (restore_model_run env now i)"
    by (rule indexed_restore) (use assms(2) CallRestoreRun in simp)
  with CallRestoreRun assms(1) show ?thesis by (simp add: keeps_def)
next
  case (CallRefreshRun now i)
  have "keeps (indexed Q) (refresh_restored_model_run env now i)"
    by (rule indexed_refresh) (use assms(2) CallRefreshRun in simp)
  with CallRefreshRun assms(1) show ?thesis by (simp add: keeps_def)
next
  case (CallClaimRun k)
  with indexed_claim [OF assms(1)] assms(2) show ?thesis by simp
next
  case (CallDeleteRun j)
  with indexed_delete [OF assms(1)] assms(2) show ?thesis by simp
qed (use assms(1) indexed_operations [unfolded keeps_def, rule_format] indexed_budget [unfolded keeps_def, rule_format]
      indexed_basic [unfolded keeps_def, rule_format] in simp_all)

end
