(* ===== verification/Model_Run_Guarantees.thy ===== *)
theory Model_Run_Guarantees
  imports Model_Run_Frames Model_Run_Safety
begin

text \<open>
  What the callers of the model run store rely on: a run interrupted by a restart is closed, an
  extension or a retry is granted exactly under the guards of the code and puts the run back under a
  live signal, changes are all or nothing on disk, and one execution of a run excludes another.
\<close>

section \<open>A small store\<close>

definition sample_moment :: moment where
  "sample_moment = \<lparr> now_text = ''t'', now_ms = 500 \<rparr>"

definition sample_run :: model_run_record where
  "sample_run = new_run_record \<lparr> cr_model_run_id = ''r'', cr_job_id = ''j'', cr_model_dir = ''/m'', cr_use_openai = None,
     cr_effort_multiplier = 1 \<rparr> ''t'' 2 0 1"

definition finished_run :: model_run_record where
  "finished_run = sample_run\<lparr>mr_status := RunFailed, mr_is_complete := True\<rparr>"

definition disk_model_env :: "disk model_env" where
  "disk_model_env = \<lparr> env_writer = write_json_checkpoint (\<lambda>m. mr_model_run_id m), env_rejects = \<lambda>x n. False,
     env_mkdir = \<lambda>p d. (Inr (), d), env_parse_time = \<lambda>s. Some 0 \<rparr>"

definition sample_model_store :: "model_run_record \<Rightarrow> disk model_store" where
  "sample_model_store r = (empty_model_store \<lparr> disk_files = [], disk_plans = [] \<rparr>)
     \<lparr>st_runs := [(''r'', r)], st_job_runs := [(''j'', ''r'')], st_next := 3\<rparr>"

section \<open>Restoring after a restart\<close>

text \<open>A run whose checkpoint says it was active when the server stopped is restored as failed and
  complete, with the time of its interrupted segment counted and no segment open; a run that was
  not active keeps its status.\<close>

theorem interrupted_run_is_closed:
  assumes "oget (st_runs s) (mr_model_run_id (rs_model_run i)) = None"
    and "restore_model_run env now i s = (Inr m, t)"
  shows "mr_segment_started_at m = None \<and> mr_repair_started_at m = None
    \<and> oget (st_job_runs t) (mr_job_id m) = Some (mr_model_run_id m)
    \<and> (if active_status (mr_status (rs_model_run i))
       then mr_status m = RunFailed \<and> mr_is_complete m \<and> mr_has_errors m
         \<and> mr_error_message m = Some interrupted_message
         \<and> mr_elapsed_time_ms m = mr_elapsed_time_ms (rs_model_run i)
             + time_since env now (mr_segment_started_at (rs_model_run i))
       else mr_status m = mr_status (rs_model_run i) \<and> mr_elapsed_time_ms m = mr_elapsed_time_ms (rs_model_run i))"
proof -
  let ?r = "restored_run_record env now i (Suc (Suc (st_next s))) (st_next s) (Suc (st_next s))"
  from assms have m: "m = get_public_model_run ?r"
    and t: "\<exists>d. same_model (s\<lparr>st_next := Suc (Suc (Suc (st_next s))), st_disk := d,
      st_runs := oput (mr_model_run_id ?r) ?r (st_runs s),
      st_job_runs := oput (mr_job_id ?r) (mr_model_run_id ?r) (st_job_runs s)\<rparr>) t"
    by (auto simp: restore_model_run_def bind_gets run_rules Let_def dest!: persist_run_same publish_summary_same)
  show ?thesis
    using t unfolding m
    by (auto simp: get_public_model_run_def restored_run_record_def Let_def run_for_job_def same_model_def)
qed

theorem interrupted_run_is_closed_witness:
  "\<exists>m t. restore_model_run disk_model_env sample_moment
      \<lparr> rs_model_dir = ''/m'', rs_model_run = get_public_model_run (sample_run\<lparr>mr_segment_started_at := Some ''s''\<rparr>), rs_logs = [] \<rparr>
      (empty_model_store \<lparr> disk_files = [], disk_plans = [] \<rparr>) = (Inr m, t)
    \<and> mr_status m = RunFailed \<and> mr_elapsed_time_ms m = 500"
proof -
  let ?i = "\<lparr> rs_model_dir = ''/m'', rs_model_run = get_public_model_run (sample_run\<lparr>mr_segment_started_at := Some ''s''\<rparr>), rs_logs = [] \<rparr>"
  let ?s = "empty_model_store \<lparr> disk_files = [], disk_plans = [] \<rparr>"
  have none: "oget (st_runs ?s) (mr_model_run_id (rs_model_run ?i)) = None" by (simp add: empty_model_store_def)
  have w: "fst (write_json_checkpoint (\<lambda>m. mr_model_run_id m) p v \<lparr> disk_files = [], disk_plans = [] \<rparr>) = Inr ()" for p v
    by (simp add: write_json_checkpoint_def atomic_write_json_def atomic_write_text_def replace_file_def
        remove_temporary_def sync_directory_def finally_do_def sys_call_def no_faults_def set_open_def change_files_def Let_def run_defs)
  have "fst (persist_at disk_model_env p v (?s\<lparr>st_next := n\<rparr>)) = Inr ()" for p v n
    using w [of p v]
    by (cases "write_json_checkpoint (\<lambda>m. mr_model_run_id m) p v \<lparr> disk_files = [], disk_plans = [] \<rparr>")
      (simp add: persist_at_def disk_model_env_def empty_model_store_def)
  then have p: "\<exists>u. persist_run disk_model_env r (?s\<lparr>st_next := n\<rparr>) = (Inr (), u)" for r n
    unfolding persist_run_def by (metis prod.collapse)
  let ?r = "restored_run_record disk_model_env sample_moment ?i (Suc (Suc 0)) 0 (Suc 0)"
  obtain u where u: "persist_run disk_model_env ?r (?s\<lparr>st_next := Suc (Suc (Suc 0))\<rparr>) = (Inr (), u)" using p by blast
  obtain z w where z: "publish_summary disk_model_env ?r (u\<lparr>st_runs := oput (mr_model_run_id ?r) ?r (st_runs u),
      st_job_runs := oput (mr_job_id ?r) (mr_model_run_id ?r) (st_job_runs u)\<rparr>) = (z, w)" by fastforce
  have "z = Inr ()" "st_next ?s = 0" using publish_summary_same [OF z] by (simp_all add: empty_model_store_def)
  with u z none obtain m t where run: "restore_model_run disk_model_env sample_moment ?i ?s = (Inr m, t)"
    by (simp add: restore_model_run_def bind_gets Let_def new_object_def put_run_def put_job_run_def run_defs)
  have "active_status (mr_status (rs_model_run ?i))" "mr_elapsed_time_ms (rs_model_run ?i) = 0"
    "time_since disk_model_env sample_moment (mr_segment_started_at (rs_model_run ?i)) = 500"
    by (simp_all add: get_public_model_run_def sample_run_def new_run_record_def active_status_def time_since_def
        text_if_any_def disk_model_env_def sample_moment_def)
  with interrupted_run_is_closed [OF none run] run show ?thesis by auto
qed

section \<open>Changes are all or nothing\<close>

lemma model_checkpoint_name: "checkpoint_name (model_checkpoint_path r)"
  unfolding model_checkpoint_path_def
  by (rule checkpoint_name_join) (auto simp: plain_segment_def suffix_def)

definition run_on_disk :: "(model_run \<Rightarrow> string) \<Rightarrow> disk model_store \<Rightarrow> model_run_record \<Rightarrow> bool" where
  "run_on_disk render s r \<longleftrightarrow> holds_json render (st_disk s) (model_checkpoint_path r) (model_run_checkpoint_of r)"

lemma persist_run_cases:
  assumes "env_writer env = write_json_checkpoint render" and "persist_run env r s = (x, t)"
  shows "(\<exists>e d. x = Inl e \<and> t = s\<lparr>st_disk := d\<rparr> \<and> (\<forall>q. checkpoint_name q \<longrightarrow> holds_json render d q = holds_json render (st_disk s) q))
    \<or> (\<exists>d. x = Inr () \<and> t = s\<lparr>st_disk := d\<rparr> \<and> holds_json render d (model_checkpoint_path r) (model_run_checkpoint_of r))"
proof -
  obtain d where d: "write_json_checkpoint render (model_checkpoint_path r) (model_run_checkpoint_of r) (st_disk s) = (x, d)"
    "t = s\<lparr>st_disk := d\<rparr>" using assms by (auto simp: persist_run_def persist_at_run)
  from atomic_json.write_cases [OF model_checkpoint_name d(1)] d(2) show ?thesis by auto
qed

lemma mutate_all_or_nothing:
  assumes "env_writer env = write_json_checkpoint render" and "mutate_and_publish env now k r f s = (x, t)"
  shows "case x of
      Inl e \<Rightarrow> st_runs t = st_runs s \<and> st_sent t = st_sent s
        \<and> (\<forall>q. checkpoint_name q \<longrightarrow> holds_json render (st_disk t) q = holds_json render (st_disk s) q)
    | Inr m \<Rightarrow> m = get_public_model_run (run_candidate now f r)
        \<and> st_runs t = oput k (run_candidate now f r) (st_runs s) \<and> run_on_disk render t (run_candidate now f r)"
proof -
  let ?c = "run_candidate now f r"
  obtain y v where p: "persist_run env ?c s = (y, v)" by fastforce
  from persist_run_cases [OF assms(1) p] show ?thesis
  proof (elim disjE exE conjE)
    fix e d
    assume "y = Inl e" "v = s\<lparr>st_disk := d\<rparr>"
      and same: "\<forall>q. checkpoint_name q \<longrightarrow> holds_json render d q = holds_json render (st_disk s) q"
    then have "x = Inl e" "t = s\<lparr>st_disk := d\<rparr>"
      using assms(2) p by (simp_all add: mutate_and_publish_def Let_def next_do_def bind_def)
    with same show ?thesis by simp
  next
    fix d
    assume y: "y = Inr ()" "v = s\<lparr>st_disk := d\<rparr>" and d: "holds_json render d (model_checkpoint_path ?c) (model_run_checkpoint_of ?c)"
    let ?s = "s\<lparr>st_disk := d, st_runs := oput k ?c (st_runs s)\<rparr>"
    obtain z w where w: "announce_run env ?c ?s = (z, w)" by fastforce
    from announce_run_same [OF w] have z: "z = Inr ()" "same_model ?s w" "st_disk w = d" by simp_all
    have "x = Inr (get_public_model_run ?c)" "t = w"
      using assms(2) p y w z by (simp_all add: mutate_and_publish_def Let_def next_do_def bind_def put_run_def modify_def return_def)
    with z d show ?thesis by (simp add: same_model_def run_on_disk_def)
  qed
qed

text \<open>With the server's checkpoint writer, the end of a segment is recorded completely or not at all:
  when it throws, the runs in memory, the checkpoints and the subscribers have seen nothing; when it
  returns, the checkpoint of the updated run is on disk and the elapsed time has grown by exactly
  the length of the segment.\<close>

theorem finished_segment_all_or_nothing:
  assumes "env_writer env = write_json_checkpoint render" and "oget (st_runs s) k = Some r"
    and "finish_segment env now k u s = (x, t)"
  shows "case x of
      Inl e \<Rightarrow> st_runs t = st_runs s \<and> st_sent t = st_sent s
        \<and> (\<forall>q. checkpoint_name q \<longrightarrow> holds_json render (st_disk t) q = holds_json render (st_disk s) q)
    | Inr m \<Rightarrow> (\<exists>r'. m = get_public_model_run r' \<and> st_runs t = oput k r' (st_runs s) \<and> run_on_disk render t r'
        \<and> mr_elapsed_time_ms r' = mr_elapsed_time_ms r + time_since env now (mr_segment_started_at r)
        \<and> mr_segment_started_at r' = None \<and> mr_updated_at r' = now_text now)"
proof -
  let ?f = "finished_segment (compute_elapsed_time env now r) u"
  have "mutate_and_publish env now k r ?f s = (x, t)"
    using assms(2,3) by (simp add: finish_segment_def change_run_def require_run_def bind_def gets_def return_def)
  note out = mutate_all_or_nothing [OF assms(1) this]
  have elapsed: "mr_elapsed_time_ms (assign_run us c) = mr_elapsed_time_ms c
      \<and> mr_segment_started_at (assign_run us c) = mr_segment_started_at c" for us c
    unfolding assign_run_def
  proof (induction us arbitrary: c)
    case (Cons a us)
    have "mr_elapsed_time_ms (assign_run_field a c) = mr_elapsed_time_ms c
      \<and> mr_segment_started_at (assign_run_field a c) = mr_segment_started_at c" by (cases a) simp_all
    with Cons show ?case by simp
  qed simp
  have "mr_elapsed_time_ms (run_candidate now ?f r) = mr_elapsed_time_ms r + time_since env now (mr_segment_started_at r)"
    "mr_segment_started_at (run_candidate now ?f r) = None" "mr_updated_at (run_candidate now ?f r) = now_text now"
    by (simp_all add: run_candidate_def finished_segment_def compute_elapsed_time_def elapsed)
  with out show ?thesis by (auto split: sum.splits)
qed

theorem finished_segment_all_or_nothing_witness:
  "\<exists>x t. finish_segment disk_model_env sample_moment ''r'' [RunSetStatus RunComplete] (sample_model_store sample_run) = (x, t)
     \<and> (case x of Inl e \<Rightarrow> st_runs t = [(''r'', sample_run)] | Inr m \<Rightarrow> mr_segment_started_at m = None)"
proof -
  obtain x t where run: "finish_segment disk_model_env sample_moment ''r'' [RunSetStatus RunComplete] (sample_model_store sample_run) = (x, t)"
    by fastforce
  have "oget (st_runs (sample_model_store sample_run)) ''r'' = Some sample_run" by (simp add: sample_model_store_def)
  from finished_segment_all_or_nothing [OF _ this run, of "\<lambda>m. mr_model_run_id m"] run show ?thesis
    by (auto simp: disk_model_env_def sample_model_store_def get_public_model_run_def split: sum.splits)
qed

section \<open>Extending and retrying\<close>

definition extension_busy :: "'d model_store \<Rightarrow> string \<Rightarrow> model_run_record \<Rightarrow> bool" where
  "extension_busy s k r \<longleftrightarrow> mr_status r = RunValidating \<or> mr_status r = RunCancelling
     \<or> (\<not> active_status (mr_status r) \<and> k \<in> set (st_active s))"

text \<open>A run that is put back in the queue: open, without the errors of the last attempt, under a signal
  that is not aborted.\<close>

definition queued_again :: "'d model_store \<Rightarrow> model_run_record \<Rightarrow> bool" where
  "queued_again s r \<longleftrightarrow> mr_status r = RunQueued \<and> \<not> mr_is_complete r \<and> \<not> mr_has_errors r
     \<and> mr_error_message r = None \<and> mr_completed_at r = None \<and> \<not> run_aborted s r"

lemma reached_model_ok:
  "list_all (admissible owner) calls \<Longrightarrow> s = perform_model_calls env calls (empty_model_store d) \<Longrightarrow> model_ok owner s"
  by (simp add: model_calls_ok empty_model_ok)

lemma fresh_controller: "model_ok owner s \<Longrightarrow> st_next s \<notin> set (st_aborted s)"
  by (auto simp: model_ok_def list_all_iff)

text \<open>An extension of a run is refused while the run is validating, being cancelled or still executing
  after it has ended, and when the added effort is not a positive integer within the total of 8;
  otherwise it adds exactly that effort, recomputes the repair budget, and puts a run that had
  ended back in the queue under a live signal.\<close>

theorem extension_exact:
  assumes "list_all (admissible owner) calls" and "s = perform_model_calls env calls (empty_model_store d)"
    and "oget (st_runs s) k = Some r" and "extend_model_run env now k a s = (x, t)"
  shows "if extension_busy s k r then x = Inr (ExtendBusy (get_public_model_run r)) \<and> t = s
    else if \<not> valid_extension a (mr_effort_multiplier r) then x = Inr (InvalidEffort (get_public_model_run r)) \<and> t = s
    else (\<exists>e. x = Inl e \<and> st_runs t = st_runs s)
      \<or> (\<exists>r'. x = Inr (RunExtended (get_public_model_run r') (\<not> active_status (mr_status r)))
           \<and> oget (st_runs t) k = Some r' \<and> mr_effort_multiplier r' = mr_effort_multiplier r + finite_part a
           \<and> mr_effort_multiplier r' \<le> 8
           \<and> mr_repair_budget_ms r' = Some (default_budget (mr_effort_multiplier r'))
           \<and> (active_status (mr_status r) \<or> queued_again t r'))"
proof (cases "extension_busy s k r \<or> \<not> valid_extension a (mr_effort_multiplier r)")
  case True
  with assms(3,4) show ?thesis
    by (auto simp: extend_model_run_def extension_busy_def bind_gets return_def split: if_splits)
next
  case False
  let ?start = "\<not> active_status (mr_status r)"
  let ?c = "if ?start then st_next s else 0"
  let ?f = "extended_run (finite_part a) ?start ?c"
  let ?s = "if ?start then s\<lparr>st_next := Suc (st_next s)\<rparr> else s"
  obtain y u where y: "mutate_and_publish env now k r ?f ?s = (y, u)" by fastforce
  have x: "x = (case y of Inl e \<Rightarrow> Inl e | Inr m \<Rightarrow> Inr (RunExtended m ?start))" "t = u"
    using assms(3,4) False y
    by (auto simp: extend_model_run_def extension_busy_def bind_gets bind_def new_object_def run_defs Let_def split: if_splits sum.splits)
  have fresh: "st_next s \<notin> set (st_aborted s)" using fresh_controller [OF reached_model_ok [OF assms(1,2)]] .
  have new: "mr_effort_multiplier (run_candidate now ?f r) = mr_effort_multiplier r + finite_part a"
    "mr_repair_budget_ms (run_candidate now ?f r) = Some (default_budget (mr_effort_multiplier r + finite_part a))"
    by (simp_all add: run_candidate_def extended_run_def requeued_def Let_def)
  have queued: "?start \<Longrightarrow> mr_status (run_candidate now ?f r) = RunQueued \<and> \<not> mr_is_complete (run_candidate now ?f r)
      \<and> \<not> mr_has_errors (run_candidate now ?f r) \<and> mr_error_message (run_candidate now ?f r) = None
      \<and> mr_completed_at (run_candidate now ?f r) = None \<and> rr_controller (run_candidate now ?f r) = st_next s"
    by (simp add: run_candidate_def extended_run_def requeued_def Let_def)
  have le: "mr_effort_multiplier r + finite_part a \<le> 8" using False by (simp add: valid_extension_bound)
  from mutate_outcome [OF y] show ?thesis
  proof (elim disjE exE conjE)
    fix e e' assume "y = Inl e" "u = ?s\<lparr>st_disk := e'\<rparr>"
    with x False show ?thesis by simp
  next
    fix e' assume "y = Inr (get_public_model_run (run_candidate now ?f r))"
      and "same_model (?s\<lparr>st_disk := e', st_runs := oput k (run_candidate now ?f r) (st_runs ?s)\<rparr>) u"
    then have "x = Inr (RunExtended (get_public_model_run (run_candidate now ?f r)) ?start)"
      "oget (st_runs t) k = Some (run_candidate now ?f r)" "st_aborted t = st_aborted s"
      using x by (auto simp: same_model_def)
    with False new queued le fresh show ?thesis by (auto simp: queued_again_def run_aborted_def)
  qed
qed

text \<open>A retry is refused for a run that has not ended and for one that is still executing; otherwise
  the run is put back in the queue with no open segment, under a signal that is not aborted.\<close>

theorem retry_exact:
  assumes "list_all (admissible owner) calls" and "s = perform_model_calls env calls (empty_model_store d)"
    and "oget (st_runs s) k = Some r" and "retry_model_run env now k s = (x, t)"
  shows "if \<not> restartable_status (mr_status r) then x = Inr (NotRetryable (get_public_model_run r)) \<and> t = s
    else if k \<in> set (st_active s) then x = Inr (RetryBusy (get_public_model_run r)) \<and> t = s
    else (\<exists>e. x = Inl e \<and> st_runs t = st_runs s)
      \<or> (\<exists>r'. x = Inr (RunRetried (get_public_model_run r')) \<and> oget (st_runs t) k = Some r'
           \<and> queued_again t r' \<and> mr_segment_started_at r' = None
           \<and> mr_effort_multiplier r' = mr_effort_multiplier r)"
proof (cases "restartable_status (mr_status r) \<and> k \<notin> set (st_active s)")
  case False
  with assms(3,4) show ?thesis by (auto simp: retry_model_run_def bind_gets return_def split: if_splits)
next
  case True
  let ?f = "\<lambda>c. (requeued c)\<lparr>mr_segment_started_at := None, rr_controller := st_next s\<rparr>"
  obtain y u where y: "mutate_and_publish env now k r ?f (s\<lparr>st_next := Suc (st_next s)\<rparr>) = (y, u)" by fastforce
  have x: "x = (case y of Inl e \<Rightarrow> Inl e | Inr m \<Rightarrow> Inr (RunRetried m))" "t = u"
    using assms(3,4) True y
    by (auto simp: retry_model_run_def bind_gets bind_def new_object_def run_defs split: sum.splits)
  have fresh: "st_next s \<notin> set (st_aborted s)" using fresh_controller [OF reached_model_ok [OF assms(1,2)]] .
  from mutate_outcome [OF y] x True fresh show ?thesis
    by (auto simp: same_model_def queued_again_def run_aborted_def run_candidate_def requeued_def)
qed

text \<open>A store that has created a run and seen it fail.\<close>

definition plain_model_env :: "unit model_env" where
  "plain_model_env = \<lparr> env_writer = \<lambda>p c d. (Inr (), d), env_rejects = \<lambda>x n. False,
     env_mkdir = \<lambda>p d. (Inr (), d), env_parse_time = \<lambda>s. Some 0 \<rparr>"

definition sample_calls :: "model_call list" where
  "sample_calls = [CallCreateRun sample_moment \<lparr> cr_model_run_id = ''r'', cr_job_id = ''j'', cr_model_dir = ''/m'',
     cr_use_openai = None, cr_effort_multiplier = 1 \<rparr>, CallUpdateRun sample_moment ''r'' [RunSetStatus RunFailed]]"

definition failed_sample :: model_run_record where
  "failed_sample = run_candidate sample_moment (assign_run [RunSetStatus RunFailed]) sample_run"

lemma sample_calls_admissible: "list_all (admissible (\<lambda>k. ''j'')) sample_calls"
  by (simp add: sample_calls_def)

lemma sample_reached:
  "st_runs (perform_model_calls plain_model_env sample_calls (empty_model_store ())) = [(''r'', failed_sample)]"
  "st_active (perform_model_calls plain_model_env sample_calls (empty_model_store ())) = []"
  by (simp_all add: sample_calls_def plain_model_env_def empty_model_store_def create_model_run_if_absent_def
      run_for_job_def text_if_any_def new_object_def make_directory_def persist_run_def persist_at_def put_run_def
      put_job_run_def publish_summary_def publish_list_def deliver_def update_model_run_def change_run_def
      mutate_and_publish_def require_run_def announce_run_def publish_run_def publish_in_def subscriber_set_def
      failed_sample_def sample_run_def sample_moment_def run_defs Let_def new_run_record_def eval_nat_numeral)

lemma failed_sample_status [simp]: "mr_status failed_sample = RunFailed" "mr_effort_multiplier failed_sample = 1"
  by (simp_all add: failed_sample_def run_candidate_def assign_run_def clone_model_run_record_def sample_run_def new_run_record_def)

theorem retry_exact_witness:
  "\<exists>x t. retry_model_run plain_model_env sample_moment ''r'' (perform_model_calls plain_model_env sample_calls (empty_model_store ())) = (x, t)
     \<and> ((\<exists>e. x = Inl e) \<or> (\<exists>r'. oget (st_runs t) ''r'' = Some r' \<and> queued_again t r'))"
proof -
  let ?s = "perform_model_calls plain_model_env sample_calls (empty_model_store ())"
  obtain x t where run: "retry_model_run plain_model_env sample_moment ''r'' ?s = (x, t)" by fastforce
  have "oget (st_runs ?s) ''r'' = Some failed_sample" by (simp add: sample_reached)
  from retry_exact [OF sample_calls_admissible refl this run] run show ?thesis
    by (auto simp: sample_reached restartable_status_def)
qed

theorem extension_exact_witness:
  "\<exists>x t. extend_model_run plain_model_env sample_moment ''r'' (Fin 2) (perform_model_calls plain_model_env sample_calls (empty_model_store ())) = (x, t)
     \<and> ((\<exists>e. x = Inl e) \<or> (\<exists>r'. oget (st_runs t) ''r'' = Some r' \<and> mr_effort_multiplier r' = 3 \<and> queued_again t r'))"
proof -
  let ?s = "perform_model_calls plain_model_env sample_calls (empty_model_store ())"
  obtain x t where run: "extend_model_run plain_model_env sample_moment ''r'' (Fin 2) ?s = (x, t)" by fastforce
  have r: "oget (st_runs ?s) ''r'' = Some failed_sample" by (simp add: sample_reached)
  have "\<not> extension_busy ?s ''r'' failed_sample" "valid_extension (Fin 2) (mr_effort_multiplier failed_sample)"
    "\<not> active_status (mr_status failed_sample)"
    by (simp_all add: extension_busy_def sample_reached valid_extension_def active_status_def)
  with extension_exact [OF sample_calls_admissible refl r run] run show ?thesis by auto
qed

section \<open>Executions and progress\<close>

fun ends_execution :: "string \<Rightarrow> model_call \<Rightarrow> bool" where
  "ends_execution k (CallReleaseRun k') = (k' = k)"
| "ends_execution k _ = False"

definition keeps_active :: "string \<Rightarrow> 'd model_store \<Rightarrow> bool" where
  "keeps_active k = indexed (\<lambda>active runs. k \<in> set active)"

lemma active_step: "keeps_active k s \<Longrightarrow> \<not> ends_execution k c \<Longrightarrow> keeps_active k (perform_model_call env c s)"
  unfolding keeps_active_def by (rule indexed_step, assumption, cases c) auto

text \<open>C23. From the moment an execution of a run is claimed until it is released, no other claim of the run
  succeeds, no retry is granted, and a run that has ended cannot be extended.\<close>

theorem no_second_model_execution:
  assumes "claim_model_execution k s = (Inr True, s')" and "list_all (\<lambda>c. \<not> ends_execution k c) calls"
    and "t = perform_model_calls env calls s'"
  shows "fst (claim_model_execution k t) = Inr False
    \<and> (\<nexists>m. fst (retry_model_run env now k t) = Inr (RunRetried m))
    \<and> (\<nexists>m. fst (extend_model_run env now k a t) = Inr (RunExtended m True))"
proof -
  have "keeps_active k s'"
    using assms(1) by (auto simp: claim_model_execution_def bind_gets keeps_active_def indexed_def run_rules split: option.splits if_splits)
  then have "keeps_active k t"
    unfolding assms(3) using assms(2) by (induction calls arbitrary: s') (simp_all add: active_step)
  then have k: "k \<in> set (st_active t)" by (simp add: keeps_active_def indexed_def)
  have claim: "fst (claim_model_execution k t) = Inr False"
    using k by (simp add: claim_model_execution_def bind_gets return_def split: option.split)
  have retry: "fst (retry_model_run env now k t) \<noteq> Inr (RunRetried m)" for m
    using k by (simp add: retry_model_run_def bind_gets return_def split: option.split)
  have extend: "fst (extend_model_run env now k a t) \<noteq> Inr (RunExtended m True)" for m
  proof (cases "oget (st_runs t) k")
    case None
    then show ?thesis by (simp add: extend_model_run_def bind_gets return_def)
  next
    case (Some r)
    then show ?thesis using k
      by (cases "active_status (mr_status r)")
        (auto simp: extend_model_run_def gets_def bind_def return_def Let_def split: prod.splits sum.splits)
  qed
  from claim retry extend show ?thesis by blast
qed

theorem no_second_model_execution_witness:
  "\<exists>s'. claim_model_execution ''r'' (sample_model_store sample_run) = (Inr True, s')
     \<and> fst (claim_model_execution ''r'' (perform_model_calls disk_model_env [CallReleaseRun ''q''] s')) = Inr False"
proof -
  obtain s' where run: "claim_model_execution ''r'' (sample_model_store sample_run) = (Inr True, s')"
    by (simp add: claim_model_execution_def bind_gets sample_model_store_def empty_model_store_def run_aborted_def
        run_defs split: if_splits)
  from no_second_model_execution [OF run, of "[CallReleaseRun ''q'']", OF _ refl] run show ?thesis by auto
qed

end
