(* ===== verification/Model_Run_Status.thy ===== *)
theory Model_Run_Status
  imports Model_Run_Data
begin

text \<open>
  What a client shows of a model run, \<open>src/shared/model-run-status.ts\<close>. The parsing of a timestamp is
  a parameter; the present moment is given in milliseconds.
\<close>

definition is_model_run_paused :: "model_run \<Rightarrow> bool" where
  "is_model_run_paused m \<longleftrightarrow> mr_status m = RunComplete
     \<and> (case mr_pipeline m of None \<Rightarrow> False
        | Some p \<Rightarrow> pub_pipeline_id p = ''spice_generation''
            \<and> (case oget (pub_stage_results p) ''publish'' of None \<Rightarrow> True | Some st \<Rightarrow> ps_status st \<noteq> ''completed''))"

text \<open>The loop keeps the number of the last completed stage.\<close>

fun furthest_completed :: "nat \<Rightarrow> nat \<Rightarrow> public_stage list \<Rightarrow> nat" where
  "furthest_completed index completed [] = completed"
| "furthest_completed index completed (st # sts) =
     furthest_completed (Suc index) (if ps_status st = ''completed'' then Suc index else completed) sts"

definition get_model_pipeline_progress :: "model_run \<Rightarrow> nat \<times> nat" where
  "get_model_pipeline_progress m =
     (let stages = (case mr_pipeline m of None \<Rightarrow> [] | Some p \<Rightarrow> map snd (pub_stage_results p)) in
      (furthest_completed 0 0 stages, length stages))"

definition since :: "(string \<Rightarrow> int option) \<Rightarrow> int \<Rightarrow> string option \<Rightarrow> rat" where
  "since parse now started =
     (case text_if_any started of None \<Rightarrow> 0
      | Some s \<Rightarrow> (case parse s of None \<Rightarrow> 0 | Some t \<Rightarrow> of_int (max 0 (now - t))))"

definition get_model_pipeline_elapsed_time :: "(string \<Rightarrow> int option) \<Rightarrow> int \<Rightarrow> model_run \<Rightarrow> rat" where
  "get_model_pipeline_elapsed_time parse now m =
     (let segment_time = mr_elapsed_time_ms m + since parse now (mr_segment_started_at m) in
      case mr_pipeline m of
        None \<Rightarrow> segment_time
      | Some p \<Rightarrow>
          (case (parse (pub_started_at p),
                 if pub_status p = ''running'' then Some now else parse (pub_updated_at p)) of
             (Some started, Some finished) \<Rightarrow> of_int (max 0 (finished - started))
           | _ \<Rightarrow> segment_time))"

definition get_model_repair_elapsed_time :: "(string \<Rightarrow> int option) \<Rightarrow> int \<Rightarrow> model_run \<Rightarrow> rat \<times> rat" where
  "get_model_repair_elapsed_time parse now m =
     (let budget = (case mr_repair_budget_ms m of None \<Rightarrow> mr_effort_multiplier m * 30 * 60 * 1000 | Some b \<Rightarrow> b);
          elapsed = (case mr_repair_elapsed_ms m of None \<Rightarrow> 0 | Some e \<Rightarrow> e) + since parse now (mr_repair_started_at m) in
      (min budget elapsed, budget))"

lemma furthest_completed_snoc:
  "furthest_completed index completed (sts @ [st]) =
     (if ps_status st = ''completed'' then index + Suc (length sts) else furthest_completed index completed sts)"
  by (induction index completed sts rule: furthest_completed.induct) simp_all

definition last_completed :: "public_stage list \<Rightarrow> nat \<Rightarrow> bool" where
  "last_completed sts n \<longleftrightarrow>
     n \<le> length sts \<and> list_all (\<lambda>st. ps_status st \<noteq> ''completed'') (drop n sts)
     \<and> (n = 0 \<or> ps_status (last (take n sts)) = ''completed'')"

lemma furthest_last_completed: "last_completed sts (furthest_completed 0 0 sts)"
proof (induction sts rule: rev_induct)
  case (snoc st sts)
  then show ?case by (auto simp: last_completed_def furthest_completed_snoc)
qed (simp add: last_completed_def)

text \<open>The progress shown of a model run is the position of its last completed stage among all the
  stages of its pipeline, 0 when none is completed.\<close>

theorem progress_is_last_completed:
  "case get_model_pipeline_progress m of (furthest, count) \<Rightarrow>
     (let stages = (case mr_pipeline m of None \<Rightarrow> [] | Some p \<Rightarrow> map snd (pub_stage_results p)) in
      count = length stages \<and> last_completed stages furthest)"
  by (simp add: get_model_pipeline_progress_def Let_def furthest_last_completed)

text \<open>The repair time shown never exceeds the budget.\<close>

lemma repair_time_within_budget:
  "fst (get_model_repair_elapsed_time parse now m) \<le> snd (get_model_repair_elapsed_time parse now m)"
  by (simp add: get_model_repair_elapsed_time_def Let_def)

end
