(* ===== verification/Server_Api.thy ===== *)
theory Server_Api
  imports Job_Store Model_Run_Store
begin

text \<open>
  What the request handlers of \<open>src/server/job-api\<close> and \<open>src/server/model-run-api\<close> share: the
  server with its two stores and the directories of its jobs, the responses, and the points where a
  handler waits. A handler runs alone until it awaits; at an await the schedule says whether the
  awaited operation succeeded and which store operations other code performs before the handler goes
  on. The clock, the random identifiers and the schedule are parameters.
\<close>

section \<open>Responses and requests\<close>

datatype response =
    ErrorResponse string string nat  \<comment> \<open>error code, message, status\<close>
  | JobResponse job nat
  | CreatedResponse job "model_run option"
  | ModelRunResponse "model_run option" nat
  | JobListResponse "(job_summary \<times> model_run_summary option) list"
  | FileRequest string
  | EventStream string
  | JobListStream
  | NoContent
  | NotHandled

fun status_of :: "response \<Rightarrow> nat" where
  "status_of (ErrorResponse code message status) = status"
| "status_of (JobResponse j status) = status"
| "status_of (CreatedResponse j m) = 202"
| "status_of (ModelRunResponse m status) = status"
| "status_of NoContent = 204"
| "status_of r = 200"

datatype unavailable_reason = SourceDeleting | SourceNotFound

datatype api_failure = RetryUnavailable unavailable_reason | Failure string

text \<open>\<open>getJobId\<close>: a blank parameter is absent.\<close>

definition get_job_id :: "string option \<Rightarrow> string option" where
  "get_job_id param = text_if_any (map_option js_trim param)"

definition job_id_required :: response where
  "job_id_required = ErrorResponse ''job_id_required'' ''job_id is required.'' 400"

definition job_missing :: "string \<Rightarrow> response" where
  "job_missing k = ErrorResponse ''job_not_found'' (''No job exists for '' @ k @ ''.'') 404"

definition job_deleting_response :: response where
  "job_deleting_response =
     ErrorResponse ''job_deleting'' ''This task is being deleted; its SPICE model cannot be changed.'' 409"

text \<open>The provider a request falls back to.\<close>

definition fallback_provider :: "string option \<Rightarrow> bool option \<Rightarrow> bool" where
  "fallback_provider requested configured =
     (if requested = Some ''true'' then True
      else if requested = Some ''false'' then False
      else or_default configured False)"

text \<open>An effort is an integer from 1 through 8.\<close>

definition effort_in_range :: "jsnum \<Rightarrow> rat option" where
  "effort_in_range v =
     (case v of Fin e \<Rightarrow> if e = of_int \<lfloor>e\<rfloor> \<and> 1 \<le> e \<and> e \<le> 8 then Some e else None | _ \<Rightarrow> None)"

definition read_effort :: "json option \<Rightarrow> string \<Rightarrow> rat option" where
  "read_effort body name =
     (case body of
        Some (JObj m) \<Rightarrow> (case oget m name of Some (JNum v) \<Rightarrow> effort_in_range v | _ \<Rightarrow> None)
      | _ \<Rightarrow> None)"

fun failure_text :: "api_failure \<Rightarrow> string" where
  "failure_text (Failure e) = e"
| "failure_text (RetryUnavailable SourceDeleting) = ''job_deleting''"
| "failure_text (RetryUnavailable SourceNotFound) = ''job_not_found''"

text \<open>\<open>dirname\<close> and \<open>basename\<close> of a path: trailing slashes do not count.\<close>

definition without_trailing_slashes :: "string \<Rightarrow> string" where
  "without_trailing_slashes p = rev (dropWhile (\<lambda>c. c = CHR ''/'') (rev p))"

definition path_basename :: "string \<Rightarrow> string" where
  "path_basename p = last (split_char CHR ''/'' (without_trailing_slashes p))"

definition path_dirname :: "string \<Rightarrow> string" where
  "path_dirname p =
     (let q = without_trailing_slashes p;
          upto_slash = rev (dropWhile (\<lambda>c. c \<noteq> CHR ''/'') (rev q));
          rooted = is_absolute p in
      if length upto_slash \<le> 1 then (if rooted then ''/'' else ''.'')
      else if rooted \<and> length upto_slash = 2 then ''//''
      else butlast upto_slash)"

section \<open>The server\<close>

datatype server_call = OnJobs job_call | OnRuns model_call

record awaiting =
  aw_ok :: bool
  aw_failure :: string
  aw_calls :: "server_call list"

text \<open>A runner that was started: the identifier of its job or run, its instructions, its provider.\<close>

datatype launched_runner = JobRunner string "string option" bool | ModelRunner string bool

record 'd server =
  sv_jobs :: "'d job_store"
  sv_runs :: "'d model_store"
  sv_dirs :: "string list"
  sv_launched :: "launched_runner list"
  sv_schedule :: "awaiting list"
  sv_fresh :: nat

record 'd server_env =
  sx_jobs :: "'d job_env"
  sx_runs :: "'d model_env"
  sx_now :: "nat \<Rightarrow> moment"
  sx_uuid :: "nat \<Rightarrow> string"
  sx_jobs_root :: string
  sx_use_openai :: "bool option"
  sx_models :: bool  \<comment> \<open>the context has a model run store\<close>
  sx_source_commit :: string

type_synonym ('d, 'a) api = "('d server, api_failure, 'a) run"

fun failed_as :: "string + 'a \<Rightarrow> api_failure + 'a" where
  "failed_as (Inl e) = Inl (Failure e)"
| "failed_as (Inr a) = Inr a"

definition on_jobs :: "('d, 'a) job_run \<Rightarrow> ('d, 'a) api" where
  "on_jobs m = (\<lambda>s. case m (sv_jobs s) of (x, t) \<Rightarrow> (failed_as x, s\<lparr>sv_jobs := t\<rparr>))"

definition on_runs :: "('d, 'a) model_io \<Rightarrow> ('d, 'a) api" where
  "on_runs m = (\<lambda>s. case m (sv_runs s) of (x, t) \<Rightarrow> (failed_as x, s\<lparr>sv_runs := t\<rparr>))"

fun perform_server_call :: "'d server_env \<Rightarrow> server_call \<Rightarrow> 'd server \<Rightarrow> 'd server" where
  "perform_server_call env (OnJobs c) s = s\<lparr>sv_jobs := perform_job_call (sx_jobs env) c (sv_jobs s)\<rparr>"
| "perform_server_call env (OnRuns c) s = s\<lparr>sv_runs := perform_model_call (sx_runs env) c (sv_runs s)\<rparr>"

definition perform_server_calls :: "'d server_env \<Rightarrow> server_call list \<Rightarrow> 'd server \<Rightarrow> 'd server" where
  "perform_server_calls env calls s = foldl (\<lambda>s c. perform_server_call env c s) s calls"

definition nothing_awaited :: awaiting where
  "nothing_awaited = \<lparr> aw_ok = True, aw_failure = [], aw_calls = [] \<rparr>"

text \<open>An await returns what went wrong, if anything.\<close>

definition await :: "'d server_env \<Rightarrow> ('d, string option) api" where
  "await env = (\<lambda>s.
     let a = (case sv_schedule s of [] \<Rightarrow> nothing_awaited | a # as \<Rightarrow> a) in
     (Inr (if aw_ok a then None else Some (aw_failure a)),
      perform_server_calls env (aw_calls a) (s\<lparr>sv_schedule := drop 1 (sv_schedule s)\<rparr>)))"

definition now_of :: "'d server_env \<Rightarrow> ('d, moment) api" where
  "now_of env = bind (gets sv_fresh) (\<lambda>n. next_do (modify (\<lambda>s. s\<lparr>sv_fresh := Suc n\<rparr>)) (return (sx_now env n)))"

definition random_uuid :: "'d server_env \<Rightarrow> ('d, string) api" where
  "random_uuid env = bind (gets sv_fresh) (\<lambda>n. next_do (modify (\<lambda>s. s\<lparr>sv_fresh := Suc n\<rparr>)) (return (sx_uuid env n)))"

definition launch :: "launched_runner \<Rightarrow> ('d, unit) api" where
  "launch l = modify (\<lambda>s. s\<lparr>sv_launched := sv_launched s @ [l]\<rparr>)"

definition add_dir :: "string \<Rightarrow> ('d, unit) api" where
  "add_dir dir = modify (\<lambda>s. s\<lparr>sv_dirs := List.insert dir (sv_dirs s)\<rparr>)"

definition remove_dir :: "string \<Rightarrow> ('d, unit) api" where
  "remove_dir dir = modify (\<lambda>s. s\<lparr>sv_dirs := removeAll dir (sv_dirs s)\<rparr>)"

section \<open>Waiting for completion\<close>

text \<open>The listener of \<open>waitForJobCompletion\<close> and \<open>waitForModelRunCompletion\<close>: other code performs
  store operations until a notice says that the job, or the run, is complete; the listener then
  leaves, and so it does when the time is up.\<close>

fun completed_job :: "job_notice \<Rightarrow> bool" where
  "completed_job (JobUpdated j) = job_is_complete j"
| "completed_job _ = False"

fun completed_run :: "model_notice \<Rightarrow> bool" where
  "completed_run (ModelUpdated m) = mr_is_complete m"
| "completed_run _ = False"

definition told :: "nat \<Rightarrow> ('n \<Rightarrow> bool) \<Rightarrow> (nat \<times> 'n) list \<Rightarrow> bool" where
  "told x p sent \<longleftrightarrow> list_ex (\<lambda>(y, n). y = x \<and> p n) sent"

fun watch ::
  "'d server_env \<Rightarrow> ('d server \<Rightarrow> bool) \<Rightarrow> ('d server \<Rightarrow> 'd server) \<Rightarrow> server_call list \<Rightarrow> 'd server \<Rightarrow> bool \<times> 'd server" where
  "watch env finished leave [] s = (False, leave s)"
| "watch env finished leave (c # cs) s =
     (let s' = perform_server_call env c s in
      if finished s' then (True, perform_server_calls env cs (leave s')) else watch env finished leave cs s')"

definition await_notice ::
  "'d server_env \<Rightarrow> ('d server \<Rightarrow> bool) \<Rightarrow> ('d server \<Rightarrow> 'd server) \<Rightarrow> ('d, bool) api" where
  "await_notice env finished leave = (\<lambda>s.
     let calls = (case sv_schedule s of [] \<Rightarrow> [] | a # as \<Rightarrow> aw_calls a) in
     case watch env finished leave calls (s\<lparr>sv_schedule := drop 1 (sv_schedule s)\<rparr>) of (b, t) \<Rightarrow> (Inr b, t))"

definition job_complete :: "string \<Rightarrow> 'd job_store \<Rightarrow> bool" where
  "job_complete k s \<longleftrightarrow> (case get_job k s of None \<Rightarrow> False | Some j \<Rightarrow> job_is_complete j)"

definition run_complete :: "string \<Rightarrow> 'd model_store \<Rightarrow> bool" where
  "run_complete k s \<longleftrightarrow> (case get_model_run k s of None \<Rightarrow> False | Some m \<Rightarrow> mr_is_complete m)"

definition wait_for_job_completion :: "'d server_env \<Rightarrow> string \<Rightarrow> ('d, bool) api" where
  "wait_for_job_completion env k =
     bind (gets (\<lambda>s. job_complete k (sv_jobs s))) (\<lambda>already.
     if already then next_do (await env) (return True)
     else
       bind (on_jobs new_object) (\<lambda>x.
       bind (on_jobs (subscribe_job k x)) (\<lambda>subscription.
       case subscription of
         None \<Rightarrow> next_do (await env) (return False)
       | Some n \<Rightarrow>
           await_notice env (\<lambda>s. told x completed_job (st_sent (sv_jobs s)))
             (\<lambda>s. s\<lparr>sv_jobs := snd (unsubscribe_in n x (sv_jobs s))\<rparr>))))"

definition wait_for_model_run_completion :: "'d server_env \<Rightarrow> string \<Rightarrow> ('d, bool) api" where
  "wait_for_model_run_completion env k =
     bind (gets (\<lambda>s. run_complete k (sv_runs s))) (\<lambda>already.
     if already then next_do (await env) (return True)
     else
       bind (on_runs new_object) (\<lambda>x.
       bind (on_runs (subscribe_run k x)) (\<lambda>subscription.
       case subscription of
         None \<Rightarrow> next_do (await env) (return False)
       | Some n \<Rightarrow>
           await_notice env (\<lambda>s. told x completed_run (st_sent (sv_runs s)))
             (\<lambda>s. s\<lparr>sv_runs := snd (unsubscribe_in n x (sv_runs s))\<rparr>))))"

end
