(* ===== verification/Model_Run_Api.thy ===== *)
theory Model_Run_Api
  imports Server_Api
begin

text \<open>
  The handlers of \<open>src/server/model-run-api\<close>: creating, extending, retrying and cancelling the model
  run of a job, starting its runner and recovering from the runner's failure. The runner itself is a
  launch that is recorded; an append to the log that the code does not wait for is begun and left
  pending.
\<close>

section \<open>Launching\<close>

definition run_missing :: response where
  "run_missing = ErrorResponse ''model_run_not_found'' ''This job has no SPICE model run.'' 404"

definition run_exists :: response where
  "run_exists = ErrorResponse ''model_run_exists'' ''This job already has a SPICE model run.'' 409"

definition phase_busy :: response where
  "phase_busy = ErrorResponse ''model_run_busy'' ''Wait for the current model-run phase to finish.'' 409"

definition append_run_log_best_effort :: "'d server_env \<Rightarrow> string \<Rightarrow> string \<Rightarrow> ('d, unit) api" where
  "append_run_log_best_effort env k message =
     bind (random_uuid env) (\<lambda>uuid.
     bind (now_of env) (\<lambda>now.
     catch (next_do (on_runs (begin_run_log k uuid now SystemStream message)) (return ())) (\<lambda>_. return ())))"

definition launch_model_runner :: "string \<Rightarrow> bool \<Rightarrow> ('d, unit) api" where
  "launch_model_runner k use_openai = launch (ModelRunner k use_openai)"

text \<open>The recovery of a run whose runner has failed. The record may end while the log is written.\<close>

definition run_failure_update :: "string \<Rightarrow> string \<Rightarrow> model_run_update" where
  "run_failure_update now message =
     [RunSetStatus RunFailed, RunSetIsComplete True, RunSetHasErrors True,
      RunSetErrorMessage (Some message), RunSetCompletedAt (Some now)]"

definition run_log_awaited :: "'d server_env \<Rightarrow> string \<Rightarrow> string \<Rightarrow> ('d, unit) api" where
  "run_log_awaited env k message =
     bind (random_uuid env) (\<lambda>uuid.
     bind (now_of env) (\<lambda>now.
     bind (on_runs (begin_run_log k uuid now SystemStream message)) (\<lambda>ticket.
     bind (await env) (\<lambda>failure.
     next_do (on_runs (finish_run_log (sx_runs env) ticket failure)) (return ())))))"

definition record_unexpected_model_failure :: "'d server_env \<Rightarrow> string \<Rightarrow> string \<Rightarrow> ('d, unit) api" where
  "record_unexpected_model_failure env k message =
     catch
       (bind (gets (\<lambda>s. get_model_run k (sv_runs s))) (\<lambda>model_run.
        case model_run of
          None \<Rightarrow> return ()
        | Some m \<Rightarrow>
            if mr_is_complete m then return ()
            else
              next_do (catch (run_log_awaited env k
                  (''Model pipeline stopped after an unexpected runner failure: '' @ message @ [CHR 0x0A]))
                (\<lambda>_. return ())) (
              bind (gets (\<lambda>s. get_model_run k (sv_runs s))) (\<lambda>current.
              case current of
                None \<Rightarrow> return ()
              | Some m' \<Rightarrow>
                  if mr_is_complete m' then return ()
                  else
                    bind (now_of env) (\<lambda>now.
                    next_do (on_runs (finish_segment (sx_runs env) now k (run_failure_update (now_text now) message)))
                      (return ()))))))
       (\<lambda>_. return ())"

datatype launch_result = RunLaunched model_run | LaunchExists model_run | LaunchJobDeleting | LaunchJobNotFound

definition creation_message :: "rat \<Rightarrow> string \<Rightarrow> string" where
  "creation_message effort commit =
     ''Created a '' @ nat_str (nat \<lfloor>effort\<rfloor>) @ [CHR 0xD7] @ '' SPICE model run using workflow source '' @ commit
     @ ''. The server owns pin mapping, tscircuit execution, scoring, and publication; each effort unit provides 30 minutes of repair time.''
     @ [CHR 0x0A]"

definition launch_model_run ::
  "'d server_env \<Rightarrow> bool option \<Rightarrow> string \<Rightarrow> string \<Rightarrow> rat \<Rightarrow> ('d, launch_result) api" where
  "launch_model_run env use_openai j dir effort =
     bind (gets sv_jobs) (\<lambda>jobs.
     if get_job j jobs = None then return LaunchJobNotFound
     else if is_job_deleting j jobs then return LaunchJobDeleting
     else
       bind (random_uuid env) (\<lambda>k.
       bind (now_of env) (\<lambda>now.
       bind (on_runs (create_model_run_if_absent (sx_runs env) now
          \<lparr> cr_model_run_id = k, cr_job_id = j, cr_model_dir = path_join dir ''spice'',
            cr_use_openai = use_openai, cr_effort_multiplier = effort \<rparr>)) (\<lambda>creation.
       case creation of
         RunAlreadyExists m \<Rightarrow> return (LaunchExists m)
       | RunCreated _ \<Rightarrow>
           next_do (await env) (
           next_do (append_run_log_best_effort env k (creation_message effort (sx_source_commit env))) (
           next_do (launch_model_runner k (or_default use_openai False)) (
           bind (gets (\<lambda>s. get_model_run k (sv_runs s))) (\<lambda>current.
           case current of
             None \<Rightarrow> throw (Failure (''Model run '' @ k @ '' disappeared immediately after launch''))
           | Some m \<Rightarrow> return (RunLaunched m)))))))))"

text \<open>The response to a launch that was refused.\<close>

fun launch_refusal :: "string \<Rightarrow> launch_result \<Rightarrow> response" where
  "launch_refusal j LaunchJobDeleting = job_deleting_response"
| "launch_refusal j LaunchJobNotFound = job_missing j"
| "launch_refusal j (LaunchExists m) = run_exists"
| "launch_refusal j (RunLaunched m) = ModelRunResponse (Some m) 202"

section \<open>Creating\<close>

definition invalid_effort :: "string \<Rightarrow> response" where
  "invalid_effort message = ErrorResponse ''invalid_effort'' message 400"

text \<open>The provider a request settles on, which a job without one keeps.\<close>

definition settle_job_provider :: "'d server_env \<Rightarrow> string \<Rightarrow> job \<Rightarrow> bool \<Rightarrow> ('d, unit) api" where
  "settle_job_provider env j job use_openai =
     (if job_use_openai job = None
      then next_do (on_jobs (update_job (sx_jobs env) j [SetUseOpenai (Some use_openai)])) (return ())
      else return ())"

definition settle_run_provider :: "'d server_env \<Rightarrow> model_run \<Rightarrow> bool \<Rightarrow> ('d, unit) api" where
  "settle_run_provider env m use_openai =
     (if mr_use_openai m = None
      then bind (now_of env) (\<lambda>now.
        next_do (on_runs (update_model_run (sx_runs env) now (mr_model_run_id m) [RunSetUseOpenai (Some use_openai)])) (return ()))
      else return ())"

definition create_model_run_request ::
  "'d server_env \<Rightarrow> string option \<Rightarrow> string option \<Rightarrow> json option \<Rightarrow> ('d, response) api" where
  "create_model_run_request env param provider body =
     (case get_job_id param of
        None \<Rightarrow> return job_id_required
      | Some j \<Rightarrow>
          bind (gets id) (\<lambda>s.
          if get_job j (sv_jobs s) = None \<or> text_if_any (get_job_dir j (sv_jobs s)) = None then return (job_missing j)
          else if is_job_deleting j (sv_jobs s) then return job_deleting_response
          else if get_model_run_for_job j (sv_runs s) \<noteq> None then return run_exists
          else
            next_do (await env) (
            bind (gets id) (\<lambda>s.
            case (get_job j (sv_jobs s), text_if_any (get_job_dir j (sv_jobs s))) of
              (Some job, Some dir) \<Rightarrow>
                if is_job_deleting j (sv_jobs s) then return job_deleting_response
                else
                  (case read_effort body ''effort_multiplier'' of
                     None \<Rightarrow> return (invalid_effort ''effort_multiplier must be an integer from 1 through 8.'')
                   | Some effort \<Rightarrow>
                       if get_model_run_for_job j (sv_runs s) \<noteq> None then return run_exists
                       else
                         (let use_openai = or_default (job_use_openai job) (fallback_provider provider (sx_use_openai env)) in
                          next_do (settle_job_provider env j job use_openai) (
                          bind (launch_model_run env (Some use_openai) j dir effort) (\<lambda>r.
                          return (launch_refusal j r)))))
            | _ \<Rightarrow> return (job_missing j)))))"

section \<open>Extending, retrying, cancelling\<close>

definition total_effort_text :: "rat \<Rightarrow> string" where
  "total_effort_text effort =
     ''The total repair budget cannot exceed 8'' @ [CHR 0xD7] @ ''; this run already has ''
     @ nat_str (nat \<lfloor>effort\<rfloor>) @ [CHR 0xD7] @ ''.''"

definition phase_in_progress :: "model_run \<Rightarrow> bool" where
  "phase_in_progress m \<longleftrightarrow> mr_status m = RunValidating \<or> mr_status m = RunCancelling"

definition extension_message :: "rat \<Rightarrow> bool \<Rightarrow> string" where
  "extension_message effort should_start =
     ''Added '' @ nat_str (nat \<lfloor>effort\<rfloor>) @ [CHR 0xD7]
     @ (if should_start
        then '' repair effort and started a new full pipeline trace; the previous contract, plan, candidates, and debug bundles remain preserved.''
        else '' repair effort to the active pipeline; its accepted contract and validation plan remain unchanged.'') @ [CHR 0x0A]"

text \<open>The part of the extension that follows the checks.\<close>

definition extend_checked ::
  "'d server_env \<Rightarrow> string option \<Rightarrow> string \<Rightarrow> job \<Rightarrow> model_run \<Rightarrow> rat \<Rightarrow> ('d, response) api" where
  "extend_checked env provider j job latest effort =
     (let k = mr_model_run_id latest;
          use_openai = or_default (mr_use_openai latest)
            (or_default (job_use_openai job) (fallback_provider provider (sx_use_openai env))) in
      next_do (settle_run_provider env latest use_openai) (
      next_do (settle_job_provider env j job use_openai) (
      bind (now_of env) (\<lambda>now.
      bind (on_runs (extend_model_run (sx_runs env) now k (Fin effort))) (\<lambda>result.
      case result of
        ExtendNotFound \<Rightarrow> return run_missing
      | ExtendBusy m \<Rightarrow>
          return (ErrorResponse ''model_run_busy'' ''Wait for the current model-run execution to finish, then try again.'' 409)
      | InvalidEffort m \<Rightarrow> return (invalid_effort (total_effort_text (mr_effort_multiplier m)))
      | RunExtended m should_start \<Rightarrow>
          next_do (append_run_log_best_effort env k (extension_message effort should_start)) (
          next_do (if should_start then launch_model_runner k use_openai else return ()) (
          bind (gets (\<lambda>s. get_model_run k (sv_runs s))) (\<lambda>m. return (ModelRunResponse m 202)))))))))"

definition extend_model_run_request ::
  "'d server_env \<Rightarrow> string option \<Rightarrow> string option \<Rightarrow> json option \<Rightarrow> ('d, response) api" where
  "extend_model_run_request env param provider body =
     (case get_job_id param of
        None \<Rightarrow> return job_id_required
      | Some j \<Rightarrow>
          bind (gets id) (\<lambda>s.
          if get_job j (sv_jobs s) = None then return (job_missing j)
          else if is_job_deleting j (sv_jobs s) then return job_deleting_response
          else
            (case get_model_run_for_job j (sv_runs s) of
               None \<Rightarrow> return run_missing
             | Some current \<Rightarrow>
                 if phase_in_progress current then return phase_busy
                 else
                   next_do (await env) (
                   bind (gets id) (\<lambda>s.
                   case get_job j (sv_jobs s) of
                     None \<Rightarrow> return (job_missing j)
                   | Some job \<Rightarrow>
                       if is_job_deleting j (sv_jobs s) then return job_deleting_response
                       else
                         (case read_effort body ''additional_effort'' of
                            None \<Rightarrow> return (invalid_effort ''additional_effort must be an integer from 1 through 8.'')
                          | Some effort \<Rightarrow>
                              (case get_model_run_for_job j (sv_runs s) of
                                 None \<Rightarrow> return run_missing
                               | Some latest \<Rightarrow>
                                   if phase_in_progress latest then return phase_busy
                                   else if mr_effort_multiplier latest + effort > 8
                                   then return (invalid_effort (total_effort_text (mr_effort_multiplier latest)))
                                   else extend_checked env provider j job latest effort)))))))"

fun restart_reason :: "model_run_status \<Rightarrow> string" where
  "restart_reason RunComplete = ''successful completion''"
| "restart_reason RunUnsupported = ''the prior datasheet had no supported executable transient''"
| "restart_reason RunCancelled = ''the stopped run''"
| "restart_reason RunTimedOut = ''the run timed out''"
| "restart_reason _ = ''failure''"

definition run_not_retryable :: response where
  "run_not_retryable = ErrorResponse ''model_run_not_retryable'' ''Only a finished SPICE model run can be restarted.'' 409"

definition retry_model_run_request :: "'d server_env \<Rightarrow> string option \<Rightarrow> string option \<Rightarrow> ('d, response) api" where
  "retry_model_run_request env param provider =
     (case get_job_id param of
        None \<Rightarrow> return job_id_required
      | Some j \<Rightarrow>
          bind (gets id) (\<lambda>s.
          case get_job j (sv_jobs s) of
            None \<Rightarrow> return (job_missing j)
          | Some job \<Rightarrow>
              if is_job_deleting j (sv_jobs s) then return job_deleting_response
              else
                (case get_model_run_for_job j (sv_runs s) of
                   None \<Rightarrow> return run_missing
                 | Some current \<Rightarrow>
                     if \<not> mr_is_complete current then return run_not_retryable
                     else
                       (let k = mr_model_run_id current;
                            use_openai = or_default (mr_use_openai current)
                              (or_default (job_use_openai job) (fallback_provider provider (sx_use_openai env))) in
                        next_do (settle_run_provider env current use_openai) (
                        next_do (settle_job_provider env j job use_openai) (
                        bind (now_of env) (\<lambda>now.
                        bind (on_runs (retry_model_run (sx_runs env) now k)) (\<lambda>result.
                        case result of
                          RetryNotFound \<Rightarrow> return run_missing
                        | RetryBusy m \<Rightarrow>
                            return (ErrorResponse ''model_run_busy''
                              ''The current model-run execution is still finishing. Retry shortly.'' 409)
                        | NotRetryable m \<Rightarrow> return run_not_retryable
                        | RunRetried m \<Rightarrow>
                            next_do (append_run_log_best_effort env k
                              (''Restarting SPICE generation after '' @ restart_reason (mr_status current)
                               @ ''; prior contracts, plans, candidates, and debug bundles remain preserved.'' @ [CHR 0x0A])) (
                            next_do (launch_model_runner k use_openai) (
                            bind (gets (\<lambda>s. get_model_run k (sv_runs s))) (\<lambda>m.
                            return (ModelRunResponse m 202))))))))))))"

definition cancel_model_run_request :: "'d server_env \<Rightarrow> string option \<Rightarrow> ('d, response) api" where
  "cancel_model_run_request env param =
     (case get_job_id param of
        None \<Rightarrow> return job_id_required
      | Some j \<Rightarrow>
          bind (gets (\<lambda>s. get_model_run_for_job j (sv_runs s))) (\<lambda>model_run.
          case model_run of
            None \<Rightarrow> return run_missing
          | Some m \<Rightarrow>
              bind (now_of env) (\<lambda>now.
              bind (on_runs (request_run_cancellation (sx_runs env) now (mr_model_run_id m))) (\<lambda>result.
              if result = RunCancelAlreadyComplete
              then return (ErrorResponse ''model_run_complete'' ''This SPICE model run has already finished.'' 409)
              else
                bind (gets (\<lambda>s. get_model_run (mr_model_run_id m) (sv_runs s))) (\<lambda>m'.
                return (ModelRunResponse m' (if result = RunCancelRequested then 202 else 200)))))))"

definition get_model_run_request :: "string option \<Rightarrow> ('d, response) api" where
  "get_model_run_request param =
     (case get_job_id param of
        None \<Rightarrow> return job_id_required
      | Some j \<Rightarrow>
          bind (gets (\<lambda>s. get_model_run_for_job j (sv_runs s))) (\<lambda>model_run.
          return (case model_run of None \<Rightarrow> run_missing | Some m \<Rightarrow> ModelRunResponse (Some m) 200)))"

section \<open>Routes\<close>

record model_request =
  mq_method :: string
  mq_path :: string
  mq_job_id :: "string option"
  mq_provider :: "string option"
  mq_body :: "json option"

text \<open>The routes that read files answer with the file they are asked for.\<close>

definition model_file_routes :: "string list" where
  "model_file_routes =
     [''/api/model-run/preview'', ''/api/model-run/reference-image'', ''/api/model-run/found-reference-image'',
      ''/api/model-run/file'']"

definition model_run_api_handler :: "'d server_env \<Rightarrow> model_request \<Rightarrow> ('d, response) api" where
  "model_run_api_handler env q =
     (let path = mq_path q; verb = mq_method q in
      if \<not> prefix ''/api/model-run/'' path then return NotHandled
      else if verb = ''OPTIONS'' then return NoContent
      else if path = ''/api/model-run/create'' \<and> verb = ''POST''
      then create_model_run_request env (mq_job_id q) (mq_provider q) (mq_body q)
      else if path = ''/api/model-run/extend'' \<and> verb = ''POST''
      then extend_model_run_request env (mq_job_id q) (mq_provider q) (mq_body q)
      else if path = ''/api/model-run/cancel'' \<and> verb = ''POST'' then cancel_model_run_request env (mq_job_id q)
      else if path = ''/api/model-run/retry'' \<and> verb = ''POST''
      then retry_model_run_request env (mq_job_id q) (mq_provider q)
      else if path = ''/api/model-run/get'' \<and> verb = ''GET'' then get_model_run_request (mq_job_id q)
      else if path \<in> set model_file_routes \<and> verb = ''GET'' then return (FileRequest path)
      else if path = ''/api/model-run/events'' \<and> verb = ''GET'' then
        (case get_job_id (mq_job_id q) of
           None \<Rightarrow> return job_id_required
         | Some j \<Rightarrow> bind (gets (\<lambda>s. text_if_any (get_model_run_id_for_job j (sv_runs s)))) (\<lambda>k.
             return (case k of None \<Rightarrow> run_missing | Some k \<Rightarrow> EventStream k)))
      else return (ErrorResponse ''route_not_found'' ''Model-run API route not found.'' 404))"

end
