(* ===== verification/Job_Api.thy ===== *)
theory Job_Api
  imports Model_Run_Api
begin

text \<open>
  The handlers of \<open>src/server/job-api\<close>: creating a job from an upload, cancelling and deleting it,
  starting its runner and recovering from the runner's failure, and the routes. Multipart parsing,
  the agent's login status and the file system are awaited operations of the schedule; the runner is
  a launch that is recorded.
\<close>

section \<open>Cancelling\<close>

definition cancel_job :: "'d server_env \<Rightarrow> string option \<Rightarrow> ('d, response) api" where
  "cancel_job env param =
     (case get_job_id param of
        None \<Rightarrow> return job_id_required
      | Some k \<Rightarrow>
          bind (on_jobs (request_cancellation (sx_jobs env) k)) (\<lambda>result.
          if result = CancelNotFound then return (job_missing k)
          else if result = CancelAlreadyComplete
          then return (ErrorResponse ''job_already_complete'' ''This job has already finished.'' 409)
          else
            bind (gets (\<lambda>s. get_job k (sv_jobs s))) (\<lambda>job.
            case job of
              None \<Rightarrow> return (job_missing k)
            | Some j \<Rightarrow> return (JobResponse j (if result = CancelRequested then 202 else 200)))))"

section \<open>Runners\<close>

definition publishable_output :: "job \<Rightarrow> bool" where
  "publishable_output j \<longleftrightarrow> job_component_ready j = Some True
     \<and> (case job_component_code j of None \<Rightarrow> False | Some code \<Rightarrow> js_trim code \<noteq> [])
     \<and> (case job_circuit_json j of None \<Rightarrow> False | Some elements \<Rightarrow> elements \<noteq> [])"

text \<open>The update that ends a job whose runner has failed. The order of the properties of an update is
  irrelevant, as they are different.\<close>

definition recovery_update :: "job \<Rightarrow> string \<Rightarrow> string \<Rightarrow> job_update" where
  "recovery_update j now detail =
     (let usable = publishable_output j in
      [SetDisplayStatus (if usable then JobComplete else JobFailed), SetIsComplete True, SetHasErrors (\<not> usable),
       SetCompletedAt (Some now), SetErrorMessage (if usable then None else Some detail)]
      @ (if usable
         then [SetWarnings (Some (warnings_of (job_warnings j)
                 @ [''The best available output was published after an unexpected runner recovery: '' @ detail]))]
         else []))"

definition append_log_awaited ::
  "'d server_env \<Rightarrow> string \<Rightarrow> string \<Rightarrow> ('d, unit) api" where
  "append_log_awaited env k message =
     bind (random_uuid env) (\<lambda>uuid.
     bind (now_of env) (\<lambda>now.
     bind (on_jobs (begin_append_log k uuid (now_text now) SystemStream message)) (\<lambda>ticket.
     bind (await env) (\<lambda>failure.
     next_do (on_jobs (finish_append_log (sx_jobs env) ticket failure)) (return ())))))"

definition record_unexpected_runner_failure :: "'d server_env \<Rightarrow> string \<Rightarrow> string \<Rightarrow> ('d, unit) api" where
  "record_unexpected_runner_failure env k detail =
     catch
       (bind (gets (\<lambda>s. get_job k (sv_jobs s))) (\<lambda>job.
        case job of
          None \<Rightarrow> return ()
        | Some j \<Rightarrow>
            if job_is_complete j then return ()
            else
              next_do (catch (append_log_awaited env k
                  ([CHR 0x0A] @ ''Conversion stopped after an unexpected runner failure: '' @ detail @ [CHR 0x0A]))
                (\<lambda>_. return ())) (
              bind (now_of env) (\<lambda>now.
              next_do (on_jobs (update_job (sx_jobs env) k (recovery_update j (now_text now) detail))) (return ())))))
       (\<lambda>_. return ())"

definition launch_job_runner :: "string \<Rightarrow> string option \<Rightarrow> bool \<Rightarrow> ('d, unit) api" where
  "launch_job_runner k instructions use_openai = launch (JobRunner k instructions use_openai)"

section \<open>The workspace of a new job\<close>

definition preparation_error :: "string \<Rightarrow> string \<Rightarrow> api_failure" where
  "preparation_error phase detail = Failure (''Failed while '' @ phase @ '': '' @ detail)"

definition staging_dir :: "'d server_env \<Rightarrow> string \<Rightarrow> string" where
  "staging_dir env k = path_join (sx_jobs_root env) (''.creating-'' @ k)"

definition job_dir_of :: "'d server_env \<Rightarrow> string \<Rightarrow> string" where
  "job_dir_of env k = path_join (sx_jobs_root env) k"

text \<open>The handler of a failed step removes the staging directory when the step owned it; that the
  removal fails is ignored.\<close>

definition abandon :: "'d server_env \<Rightarrow> string \<Rightarrow> string \<Rightarrow> string \<Rightarrow> ('d, 'a) api" where
  "abandon env dir phase detail =
     bind (await env) (\<lambda>failure.
     next_do (if failure = None then remove_dir dir else return ())
       (throw (preparation_error phase detail)))"

definition prepare_job_workspace :: "'d server_env \<Rightarrow> string \<Rightarrow> ('d, string) api" where
  "prepare_job_workspace env k =
     (let staging = staging_dir env k; creating = ''creating the private workspace'' in
      bind (await env) (\<lambda>failure. case failure of Some e \<Rightarrow> throw (preparation_error creating e) | None \<Rightarrow>
      bind (await env) (\<lambda>failure. case failure of Some e \<Rightarrow> throw (preparation_error creating e) | None \<Rightarrow>
      next_do (add_dir staging) (
      bind (await env) (\<lambda>failure. case failure of
        Some e \<Rightarrow> abandon env staging ''writing the workflow scaffold'' e | None \<Rightarrow>
      bind (await env) (\<lambda>failure. case failure of
        Some e \<Rightarrow> abandon env staging ''storing the datasheet'' e | None \<Rightarrow>
      bind (await env) (\<lambda>failure. case failure of
        Some e \<Rightarrow> abandon env staging ''publishing the workspace'' e | None \<Rightarrow>
      next_do (remove_dir staging) (
      next_do (add_dir (job_dir_of env k))
        (return (job_dir_of env k))))))))))"

text \<open>\<open>discard\<close> tells whether the workspace was removed.\<close>

definition discard_workspace :: "'d server_env \<Rightarrow> string \<Rightarrow> ('d, bool) api" where
  "discard_workspace env dir =
     bind (await env) (\<lambda>failure.
     if failure = None then next_do (remove_dir dir) (return True) else return False)"

section \<open>Creating a job\<close>

definition max_pdf_bytes :: nat where
  "max_pdf_bytes = 30 * 1024 * 1024"

record upload =
  up_name :: string
  up_size :: nat
  up_start :: string  \<comment> \<open>the first five bytes\<close>

record creation_form =
  fm_datasheet :: "upload option"
  fm_create_model :: "string option"
  fm_effort :: "jsnum option"  \<comment> \<open>the field as a number; None when the field is absent\<close>
  fm_use_openai :: "string option"
  fm_instructions :: "string option"

definition lower_char :: "char \<Rightarrow> char" where
  "lower_char c = (if is_upper c then char_of (of_char c + 32 :: nat) else c)"

definition validate_pdf :: "upload \<Rightarrow> string option" where
  "validate_pdf u =
     (if up_size u = 0 then Some ''The selected PDF is empty.''
      else if up_size u > max_pdf_bytes then Some ''Datasheets must be 30 MB or smaller.''
      else if \<not> suffix ''.pdf'' (map lower_char (up_name u)) then Some ''Upload a PDF datasheet.''
      else if up_start u \<noteq> ''%PDF-'' then Some ''The selected file is not a valid PDF.''
      else None)"

definition instructions_of :: "string option \<Rightarrow> string option" where
  "instructions_of v = text_if_any (map_option (\<lambda>s. take 4000 (js_trim s)) v)"

definition creation_effort :: "creation_form \<Rightarrow> rat option" where
  "creation_effort f = effort_in_range (or_default (fm_effort f) (Fin 1))"

definition invalid_model_effort :: response where
  "invalid_model_effort =
     ErrorResponse ''invalid_model_effort'' ''model_effort_multiplier must be an integer from 1 through 8.'' 400"

text \<open>The part of the handler that follows the checks of the form.\<close>

definition register_job ::
  "'d server_env \<Rightarrow> string \<Rightarrow> upload \<Rightarrow> bool \<Rightarrow> string option \<Rightarrow> rat option \<Rightarrow> string \<Rightarrow> ('d, response) api" where
  "register_job env k u use_openai instructions model_effort dir =
     bind (now_of env) (\<lambda>now.
     bind (catch
        (bind (on_jobs (create_job (sx_jobs env) (now_text now)
           \<lparr> ci_job_id = k, ci_job_dir = dir, ci_file_name = up_name u, ci_use_openai = Some use_openai,
             ci_additional_instructions = instructions, ci_retry_source = None \<rparr>)) (\<lambda>j. return (Inr j)))
        (\<lambda>x. bind (discard_workspace env dir) (\<lambda>removed. return (Inl
           (ErrorResponse ''job_create_failed''
              (''Task '' @ k @ '' could not be registered: '' @ failure_text x
               @ (if removed then [] else '' The uncommitted workspace could not be removed and will be ignored on restart.''))
              500))))) (\<lambda>created.
     case created of
       Inl refusal \<Rightarrow> return refusal
     | Inr j \<Rightarrow>
         next_do (catch (append_log_awaited env k
             (''Uploaded '' @ up_name u @ '' ('' @ nat_str (up_size u) @ '' bytes).'' @ [CHR 0x0A])) (\<lambda>_. return ())) (
         bind (case model_effort of
             None \<Rightarrow> return (Inr None)
           | Some effort \<Rightarrow>
               bind (launch_model_run env (Some use_openai) k dir effort) (\<lambda>r.
               return (case r of RunLaunched m \<Rightarrow> Inr (Some m) | refused \<Rightarrow> Inl (launch_refusal k refused)))) (\<lambda>outcome.
         case outcome of
           Inl refusal \<Rightarrow> return refusal
         | Inr model_run \<Rightarrow>
             next_do (launch_job_runner k instructions use_openai)
               (return (CreatedResponse j model_run))))))"

definition create_job_from_request :: "'d server_env \<Rightarrow> creation_form option \<Rightarrow> ('d, response) api" where
  "create_job_from_request env form =
     next_do (await env) (case form of
       None \<Rightarrow> return (ErrorResponse ''invalid_form'' ''Expected a multipart form upload.'' 400)
     | Some f \<Rightarrow>
         (case fm_datasheet f of
           None \<Rightarrow> return (ErrorResponse ''datasheet_required'' ''Select a PDF datasheet to continue.'' 400)
         | Some u \<Rightarrow>
             next_do (await env) (case validate_pdf u of
               Some message \<Rightarrow> return (ErrorResponse ''invalid_datasheet'' message 400)
             | None \<Rightarrow>
                 (let wants_model = fm_create_model f = Some ''true''; effort = creation_effort f in
                  if wants_model \<and> effort = None then return invalid_model_effort
                  else if wants_model \<and> \<not> sx_models env
                  then return (ErrorResponse ''model_runner_unavailable'' ''SPICE model generation is unavailable.'' 503)
                  else
                    (let use_openai = fm_use_openai f = Some ''true'' in
                     bind (if use_openai then bind (await env) (\<lambda>failure. return (failure = None)) else return True) (\<lambda>authenticated.
                     if \<not> authenticated
                     then return (ErrorResponse ''openai_auth_required''
                       (''OpenAI authentication is missing or invalid. Run this command, then try again:''
                        @ [CHR 0x0A] @ ''bun run auth:openai'') 409)
                     else
                       bind (random_uuid env) (\<lambda>k.
                       bind (catch (bind (prepare_job_workspace env k) (\<lambda>dir. return (Inr dir)))
                              (\<lambda>x. return (Inl (ErrorResponse ''job_create_failed''
                                (''Task '' @ k @ '' could not be created. '' @ failure_text x) 500)))) (\<lambda>prepared.
                       case prepared of
                         Inl refusal \<Rightarrow> return refusal
                       | Inr dir \<Rightarrow>
                           register_job env k u use_openai (instructions_of (fm_instructions f))
                             (if wants_model then effort else None) dir))))))))"

section \<open>Deleting a job\<close>

text \<open>The work under the lease up to the renaming of the directory: a refusal, or the directory and its
  tombstone.\<close>

definition stop_model_run :: "'d server_env \<Rightarrow> string \<Rightarrow> ('d, bool) api" where
  "stop_model_run env k =
     bind (gets (\<lambda>s. if sx_models env then get_model_run_for_job k (sv_runs s) else None)) (\<lambda>model_run.
     case model_run of
       None \<Rightarrow> return True
     | Some m \<Rightarrow>
         if mr_is_complete m then return True
         else
           bind (now_of env) (\<lambda>now.
           next_do (on_runs (request_run_cancellation (sx_runs env) now (mr_model_run_id m)))
             (wait_for_model_run_completion env (mr_model_run_id m))))"

definition stop_job :: "'d server_env \<Rightarrow> string \<Rightarrow> job \<Rightarrow> ('d, bool) api" where
  "stop_job env k j =
     (if job_is_complete j then return True
      else next_do (on_jobs (request_cancellation (sx_jobs env) k)) (wait_for_job_completion env k))"

definition entomb :: "'d server_env \<Rightarrow> string \<Rightarrow> ('d, response + (string \<times> string)) api" where
  "entomb env dir =
     bind (random_uuid env) (\<lambda>uuid.
     let tombstone = path_join (path_dirname dir) (''.deleting-'' @ path_basename dir @ ''-'' @ uuid) in
     bind (await env) (\<lambda>failure.
     case failure of
       Some e \<Rightarrow> return (Inl (ErrorResponse ''job_delete_failed''
          (''The task directory could not be tombstoned: '' @ e) 500))
     | None \<Rightarrow>
         next_do (remove_dir dir) (next_do (add_dir tombstone) (return (Inr (dir, tombstone))))))"

definition stop_and_entomb :: "'d server_env \<Rightarrow> string \<Rightarrow> ('d, response + (string \<times> string)) api" where
  "stop_and_entomb env k =
     bind (gets (\<lambda>s. (get_job_dir k (sv_jobs s), get_job k (sv_jobs s)))) (\<lambda>(dir, job).
     case (text_if_any dir, job) of
       (Some dir, Some j) \<Rightarrow>
         bind (stop_model_run env k) (\<lambda>stopped.
         if \<not> stopped
         then return (Inl (ErrorResponse ''model_stop_timeout'' ''The SPICE model run could not be stopped.'' 409))
         else
           bind (stop_job env k j) (\<lambda>stopped.
           if \<not> stopped
           then return (Inl (ErrorResponse ''job_stop_timeout'' ''The task could not be stopped before deletion.'' 409))
           else entomb env dir))
     | _ \<Rightarrow> return (Inl (job_missing k)))"

text \<open>The work after the directory was renamed; it tells whether the lease is released.\<close>

definition bury :: "'d server_env \<Rightarrow> string \<Rightarrow> string \<Rightarrow> string \<Rightarrow> ('d, bool \<times> response) api" where
  "bury env k dir tombstone =
     bind (on_jobs (delete_job (sx_jobs env) k)) (\<lambda>deleted.
     if \<not> deleted
     then
       bind (await env) (\<lambda>failure.
       next_do (if failure = None then next_do (remove_dir tombstone) (add_dir dir) else return ())
         (return (failure = None,
            ErrorResponse ''job_delete_conflict'' ''The task is still active and cannot be deleted.'' 409)))
     else
       next_do (if sx_models env then on_runs (delete_model_run_for_job k) else return ()) (
       bind (await env) (\<lambda>failure.
       next_do (if failure = None then remove_dir tombstone else return ())
         (return (False, NoContent)))))"

definition release_lease :: "string \<Rightarrow> nat \<Rightarrow> ('d, unit) api" where
  "release_lease k token = next_do (on_jobs (release_deletion_lease k token)) (return ())"

definition delete_leased :: "'d server_env \<Rightarrow> string \<Rightarrow> nat \<Rightarrow> ('d, response) api" where
  "delete_leased env k token =
     bind (catch (stop_and_entomb env k) (\<lambda>x. next_do (release_lease k token) (throw x))) (\<lambda>outcome.
     case outcome of
       Inl refusal \<Rightarrow> next_do (release_lease k token) (return refusal)
     | Inr (dir, tombstone) \<Rightarrow>
         bind (bury env k dir tombstone) (\<lambda>(release, answer).
         next_do (if release then release_lease k token else return ()) (return answer)))"

definition delete_job_request :: "'d server_env \<Rightarrow> string option \<Rightarrow> ('d, response) api" where
  "delete_job_request env param =
     (case get_job_id param of
        None \<Rightarrow> return job_id_required
      | Some k \<Rightarrow>
          bind (on_jobs (acquire_deletion_lease k)) (\<lambda>lease.
          case lease of
            LeaseNotFound \<Rightarrow> return (job_missing k)
          | AlreadyDeleting \<Rightarrow>
              return (ErrorResponse ''job_delete_in_progress'' ''This task is already being deleted.'' 409)
          | LeaseAcquired k' token \<Rightarrow> delete_leased env k' token))"

section \<open>Lists and routes\<close>

definition list_job_summaries :: "'d server_env \<Rightarrow> 'd server \<Rightarrow> (job_summary \<times> model_run_summary option) list" where
  "list_job_summaries env s =
     map (\<lambda>j. (j, if sx_models env then model_summary_for_job (js_job_id j) (sv_runs s) else None))
       (list_jobs (sv_jobs s))"

record request =
  rq_method :: string
  rq_path :: string
  rq_job_id :: "string option"
  rq_provider :: "string option"  \<comment> \<open>the parameter \<open>use_openai\<close>\<close>
  rq_form :: "creation_form option"
  rq_body :: "json option"

text \<open>The retry is a protocol of its own; the handler takes it as an argument.\<close>

definition job_api_handler ::
  "'d server_env \<Rightarrow> (request \<Rightarrow> ('d, response) api) \<Rightarrow> request \<Rightarrow> ('d, response) api" where
  "job_api_handler env retry q =
     (let path = rq_path q; verb = rq_method q in
      if \<not> prefix ''/api/'' path then return NotHandled
      else if verb = ''OPTIONS'' then return NoContent
      else if path = ''/api/job/create'' \<and> verb = ''POST'' then create_job_from_request env (rq_form q)
      else if path = ''/api/jobs'' \<and> verb = ''GET'' then bind (gets (list_job_summaries env)) (\<lambda>l. return (JobListResponse l))
      else if path = ''/api/jobs/events'' \<and> verb = ''GET'' then return JobListStream
      else if path = ''/api/job/cancel'' \<and> verb = ''POST'' then cancel_job env (rq_job_id q)
      else if path = ''/api/job/retry'' \<and> verb = ''POST'' then retry q
      else if path = ''/api/job/delete'' \<and> verb = ''DELETE'' then delete_job_request env (rq_job_id q)
      else if path = ''/api/job/get'' \<and> verb = ''GET'' then
        (case get_job_id (rq_job_id q) of
           None \<Rightarrow> return job_id_required
         | Some k \<Rightarrow> bind (gets (\<lambda>s. get_job k (sv_jobs s))) (\<lambda>job.
             return (case job of Some j \<Rightarrow> JobResponse j 200 | None \<Rightarrow> job_missing k)))
      else if path = ''/api/job/events'' \<and> verb = ''GET'' then
        (case get_job_id (rq_job_id q) of
           None \<Rightarrow> return job_id_required
         | Some k \<Rightarrow> bind (gets (\<lambda>s. get_job k (sv_jobs s))) (\<lambda>job.
             return (if job = None then job_missing k else EventStream k)))
      else if path = ''/api/job/file'' \<and> verb = ''GET'' then return (FileRequest path)
      else return (ErrorResponse ''route_not_found'' ''API route not found.'' 404))"

end
