(* ===== verification/Job_Store_Frames.thy ===== *)
theory Job_Store_Frames
  imports Job_Store_Safety
begin

text \<open>
  What a call of the job store does to the jobs: it leaves them, replaces the record of one job by one
  made from it, adds a record, extends a log, or drops a complete job. A property of the jobs that
  survives these changes survives every call.
\<close>

fun alters :: "job_call \<Rightarrow> string \<Rightarrow> job_record \<Rightarrow> job_record \<Rightarrow> bool" where
  "alters (CallCancel k) k' r r' = (k' = k \<and> r' = (clone_job_record r)\<lparr>job_display_status := Cancelling\<rparr>)"
| "alters (CallUpdate k u) k' r r' = (k' = k \<and> r' = assign_job u (clone_job_record r))"
| "alters (CallProject k u) k' r r' = (k' = k \<and> r' = assign_job u (clone_job_record r))"
| "alters (CallClaim k p) k' r r' = (k' = k \<and> (\<exists>c. r' = r\<lparr>jr_controller := c\<rparr>))"
| "alters (CallClaimAll k ps) k' r r' = (k' = k \<and> (\<exists>c. r' = r\<lparr>jr_controller := c\<rparr>))"
| "alters (CallRefresh i) k' r r' = (k' = ci_job_id (ri_create i) \<and> (\<exists>n. r' = refreshed_job_record i n r))"
| "alters _ k' r r' = False"

fun enters :: "job_call \<Rightarrow> job_record \<Rightarrow> bool" where
  "enters (CallCreate now i) r = (\<exists>a b c. r = new_job_record i now a b c)"
| "enters (CallRestore i) r = (\<exists>a b c. r = restored_job_record i a b c)"
| "enters (CallRefresh i) r = (\<exists>a b c. r = restored_job_record i a b c)"
| "enters _ r = False"

definition jobs_change :: "job_call \<Rightarrow> (string, job_record) omap \<Rightarrow> (string, job_record) omap \<Rightarrow> bool" where
  "jobs_change c m m' \<longleftrightarrow> m' = m
     \<or> (\<exists>k r r'. oget m k = Some r \<and> alters c k r r' \<and> m' = oput k r' m)
     \<or> (\<exists>r. enters c r \<and> m' = oput (job_id r) r m)
     \<or> (\<exists>p. m' = map (\<lambda>(k, r). (k, log_extended p r)) m)
     \<or> (\<exists>k r. c = CallDelete k \<and> oget m k = Some r \<and> job_is_complete r \<and> m' = odel k m)"

lemma jobs_unchanged [intro]: "m' = m \<Longrightarrow> jobs_change c m m'"
  by (simp add: jobs_change_def)

lemma jobs_rewritten: "oget m k = Some r \<Longrightarrow> alters c k r r' \<Longrightarrow> m' = oput k r' m \<Longrightarrow> jobs_change c m m'"
  unfolding jobs_change_def by blast

lemma jobs_entered: "enters c r \<Longrightarrow> m' = oput (job_id r) r m \<Longrightarrow> jobs_change c m m'"
  unfolding jobs_change_def by blast

lemma jobs_rewrittenI: "oget m k = Some r \<Longrightarrow> alters c k r r' \<Longrightarrow> jobs_change c m (oput k r' m)"
  by (rule jobs_rewritten) auto

lemma jobs_enteredI: "enters c r \<Longrightarrow> jobs_change c m (oput (job_id r) r m)"
  by (rule jobs_entered) auto

lemma jobs_rewrites:
  "oget m k = Some r \<Longrightarrow> jobs_change (CallCancel k) m (oput k ((clone_job_record r)\<lparr>job_display_status := Cancelling\<rparr>) m)"
  "oget m k = Some r \<Longrightarrow> jobs_change (CallUpdate k u) m (oput k (assign_job u (clone_job_record r)) m)"
  "oget m k = Some r \<Longrightarrow> jobs_change (CallProject k u) m (oput k (assign_job u (clone_job_record r)) m)"
  "oget m k = Some r \<Longrightarrow> jobs_change (CallClaim k p) m (oput k (r\<lparr>jr_controller := n\<rparr>) m)"
  "oget m k = Some r \<Longrightarrow> jobs_change (CallClaimAll k ps) m (oput k (r\<lparr>jr_controller := n\<rparr>) m)"
  by (rule jobs_rewrittenI; auto)+

lemma jobs_enters:
  "jobs_change (CallRestore i) m (oput (job_id (restored_job_record i a b n)) (restored_job_record i a b n) m)"
  "jobs_change (CallRefresh i) m (oput (job_id (restored_job_record i a b n)) (restored_job_record i a b n) m)"
  by (rule jobs_enteredI; auto)+

lemma same_maps_jobs: "same_maps s t \<Longrightarrow> st_jobs t = st_jobs s"
  by (simp add: same_maps_def)

lemmas effects = announce_job_maps publish_list_maps publish_in_maps

lemma created_jobs:
  "create_job env now i s = (x, t) \<Longrightarrow>
     case x of Inl e \<Rightarrow> st_jobs t = st_jobs s
     | Inr j \<Rightarrow> \<exists>a b c. st_jobs t = oput (ci_job_id i) (new_job_record i now a b c) (st_jobs s)"
proof (cases x)
  case (Inl e)
  moreover assume "create_job env now i s = (x, t)"
  ultimately show ?thesis by (auto simp: create_job_def run_rules Let_def dest!: effects same_maps_jobs)
next
  case (Inr j)
  moreover assume "create_job env now i s = (x, t)"
  moreover have "job_id (new_job_record i now a b c) = ci_job_id i" for a b c by (simp add: new_job_record_def)
  ultimately show ?thesis by (fastforce simp: create_job_def run_rules Let_def dest!: effects same_maps_jobs)
qed

lemma create_jobs: "create_job env now i s = (x, t) \<Longrightarrow> jobs_change (CallCreate now i) (st_jobs s) (st_jobs t)"
proof -
  have "job_id (new_job_record i now a b c) = ci_job_id i" for a b c by (simp add: new_job_record_def)
  then have "jobs_change (CallCreate now i) m (oput (ci_job_id i) (new_job_record i now a b c) m)" for a b c m
    using jobs_enteredI [of "CallCreate now i" "new_job_record i now a b c" m] by auto
  moreover assume "create_job env now i s = (x, t)"
  note created_jobs [OF this]
  ultimately show ?thesis by (cases x) auto
qed

lemma restored_jobs:
  "restore_job env i s = (x, t) \<Longrightarrow> st_jobs t = st_jobs s \<or>
     (\<exists>a b c. let r = restored_job_record i a b c in st_jobs t = oput (job_id r) r (st_jobs s))"
proof (cases "oget (st_jobs s) (ci_job_id (ri_create i))")
  case (Some r)
  moreover assume "restore_job env i s = (x, t)"
  ultimately show ?thesis by (simp add: restore_job_def bind_gets return_def)
next
  case None
  moreover assume "restore_job env i s = (x, t)"
  ultimately show ?thesis
    by (cases x) (force simp: restore_job_def bind_gets run_rules Let_def)+
qed

lemma restore_jobs: "restore_job env i s = (x, t) \<Longrightarrow> jobs_change (CallRestore i) (st_jobs s) (st_jobs t)"
  by (drule restored_jobs) (auto simp: Let_def jobs_enters)

lemma refresh_jobs: "refresh_restored_job env i s = (x, t) \<Longrightarrow> jobs_change (CallRefresh i) (st_jobs s) (st_jobs t)"
proof (cases "oget (st_jobs s) (ci_job_id (ri_create i))")
  case None
  assume "refresh_restored_job env i s = (x, t)"
  with None have "restore_job env i s = (x, t)" by (simp add: refresh_restored_job_def bind_gets)
  then show ?thesis by (auto simp: Let_def simp: jobs_enters dest!: restored_jobs)
next
  case (Some r)
  moreover assume "refresh_restored_job env i s = (x, t)"
  ultimately have "st_jobs t = oput (ci_job_id (ri_create i)) (refreshed_job_record i (st_next s) r) (st_jobs s)"
    by (cases x) (auto simp: refresh_restored_job_def bind_gets run_rules Let_def dest!: effects same_maps_jobs)
  with Some show ?thesis by (intro jobs_rewritten) auto
qed

lemma cancel_jobs: "request_cancellation env k s = (x, t) \<Longrightarrow> jobs_change (CallCancel k) (st_jobs s) (st_jobs t)"
proof (cases "\<exists>r. oget (st_jobs s) k = Some r \<and> \<not> job_is_complete r \<and> \<not> signal_aborted s r")
  case False
  moreover assume "request_cancellation env k s = (x, t)"
  ultimately show ?thesis
    by (intro jobs_unchanged) (auto simp: request_cancellation_def bind_gets return_def split: option.splits if_splits)
next
  case True
  then obtain r where r: "oget (st_jobs s) k = Some r" "\<not> job_is_complete r" "\<not> signal_aborted s r" by blast
  assume "request_cancellation env k s = (x, t)"
  with r have "st_jobs t = st_jobs s \<or> st_jobs t = oput k ((clone_job_record r)\<lparr>job_display_status := Cancelling\<rparr>) (st_jobs s)"
    by (cases x) (auto simp: request_cancellation_def bind_gets Let_def run_rules dest!: effects same_maps_jobs)
  with r(1) show ?thesis by (auto simp: jobs_rewrites)
qed

lemma updated_jobs:
  "update_job env k u s = (x, t) \<Longrightarrow> st_jobs t = st_jobs s \<or>
     (\<exists>r. oget (st_jobs s) k = Some r \<and> st_jobs t = oput k (assign_job u (clone_job_record r)) (st_jobs s))"
  by (cases x) (auto simp: update_job_def Let_def run_rules dest!: effects same_maps_jobs split: option.splits)

lemma projected_jobs:
  "project_committed_publication env k u s = (x, t) \<Longrightarrow> st_jobs t = st_jobs s \<or>
     (\<exists>r. oget (st_jobs s) k = Some r \<and> st_jobs t = oput k (assign_job u (clone_job_record r)) (st_jobs s))"
  by (cases x) (auto simp: project_committed_publication_def Let_def run_rules dest!: effects same_maps_jobs split: option.splits)

lemma renewed_jobs:
  "renew_controller k r s = (x, t) \<Longrightarrow> st_jobs t = st_jobs s \<or> (\<exists>c. st_jobs t = oput k (r\<lparr>jr_controller := c\<rparr>) (st_jobs s))"
  by (cases x) (auto simp: renew_controller_def bind_gets run_rules split: if_splits)

lemma claim_jobs: "claim_pipeline_execution k p s = (x, t) \<Longrightarrow> jobs_change (CallClaim k p) (st_jobs s) (st_jobs t)"
  by (cases x)
    (auto simp: claim_pipeline_execution_def bind_gets run_rules split: option.splits if_splits dest!: renewed_jobs
      simp: jobs_rewrites)

lemma claim_all_jobs: "claim_coordinated_executions k ps s = (x, t) \<Longrightarrow> jobs_change (CallClaimAll k ps) (st_jobs s) (st_jobs t)"
  by (cases x)
    (auto simp: claim_coordinated_executions_def bind_gets run_rules split: option.splits if_splits dest!: renewed_jobs
      simp: jobs_rewrites)

lemma finish_log_jobs: "finish_append_log env n e s = (x, t) \<Longrightarrow> jobs_change (CallFinishLog n e) (st_jobs s) (st_jobs t)"
proof -
  assume "finish_append_log env n e s = (x, t)"
  then have "st_jobs t = st_jobs s \<or> (\<exists>p. st_jobs t = map (\<lambda>(k, r). (k, log_extended p r)) (st_jobs s))"
    by (cases x; cases e; cases "oget (st_pending_logs s) n")
      (auto simp: finish_append_log_def bind_gets run_rules extend_logs_jobs dest!: effects same_maps_jobs)
  then show ?thesis unfolding jobs_change_def by blast
qed

lemma delete_jobs: "delete_job env k s = (x, t) \<Longrightarrow> jobs_change (CallDelete k) (st_jobs s) (st_jobs t)"
proof -
  assume "delete_job env k s = (x, t)"
  then have "st_jobs t = st_jobs s \<or> (\<exists>r. oget (st_jobs s) k = Some r \<and> job_is_complete r \<and> st_jobs t = odel k (st_jobs s))"
    by (cases x) (auto simp: delete_job_def bind_gets run_rules dest!: effects same_maps_jobs split: option.splits if_splits)
  then show ?thesis unfolding jobs_change_def by blast
qed

lemma quiet_jobs:
  "st_jobs (snd (acquire_deletion_lease k s)) = st_jobs s" "st_jobs (snd (release_deletion_lease k n s)) = st_jobs s"
  "st_jobs (snd (release_pipeline_execution k p s)) = st_jobs s"
  "st_jobs (snd (begin_append_log k uuid now stream message s)) = st_jobs s"
  "st_jobs (snd (subscribe_job k x s)) = st_jobs s" "st_jobs (snd (unsubscribe_in n x s)) = st_jobs s"
  "st_jobs (snd (subscribe_list x s)) = st_jobs s" "st_jobs (snd (unsubscribe_list x s)) = st_jobs s"
  by (auto simp: acquire_deletion_lease_def release_deletion_lease_def release_pipeline_execution_def
      begin_append_log_def subscribe_job_def require_job_def store_base_defs bind_gets run_defs Let_def
      split: option.splits prod.splits)

lemma jobs_step: "jobs_change c (st_jobs s) (st_jobs (perform_job_call env c s))"
proof (cases c)
  case (CallUpdate k u)
  then show ?thesis
    using updated_jobs [of env k u s "fst (update_job env k u s)" "snd (update_job env k u s)"] by (auto simp: jobs_rewrites)
next
  case (CallProject k u)
  then show ?thesis
    using projected_jobs [of env k u s "fst (project_committed_publication env k u s)" "snd (project_committed_publication env k u s)"]
    by (auto simp: jobs_rewrites)
qed (auto simp: quiet_jobs intro: create_jobs restore_jobs refresh_jobs cancel_jobs claim_jobs claim_all_jobs
      finish_log_jobs delete_jobs prod.collapse [symmetric])

text \<open>A job that is not there does not appear but by being registered.\<close>

lemma altered_absent: "oget m k = None \<Longrightarrow> oget m k' = Some r \<Longrightarrow> oget (oput k' r' m) k = None"
  by auto

fun registers_job :: "string \<Rightarrow> job_call \<Rightarrow> bool" where
  "registers_job k (CallCreate now i) = (ci_job_id i = k)"
| "registers_job k (CallRestore i) = (ci_job_id (ri_create i) = k)"
| "registers_job k (CallRefresh i) = (ci_job_id (ri_create i) = k)"
| "registers_job k _ = False"

lemma enters_id: "enters c r \<Longrightarrow> \<not> registers_job k c \<Longrightarrow> job_id r \<noteq> k"
  by (cases c) (auto simp: new_job_record_def restored_job_record_def)

lemma oget_map_values: "oget (map (\<lambda>(k, r). (k, f r)) m) k = map_option f (oget m k)"
  by (induction m) auto

lemma absent_step:
  "oget (st_jobs s) k = None \<Longrightarrow> \<not> registers_job k c \<Longrightarrow> oget (st_jobs (perform_job_call env c s)) k = None"
  using jobs_step [of c s env] enters_id [of c _ k] unfolding jobs_change_def
  by (auto simp: oget_map_values) blast

end
