(* ===== verification/Run_Logic.thy ===== *)
theory Run_Logic
  imports Run_Monad
begin

text \<open>
  Contracts of computations: what holds before, what holds after a return, what holds after a throw.
  The rules follow the combinators, so that the contract of a handler is put together from the
  contracts of its steps.
\<close>

definition ensures ::
  "('s \<Rightarrow> bool) \<Rightarrow> ('s, 'e, 'a) run \<Rightarrow> ('a \<Rightarrow> 's \<Rightarrow> bool) \<Rightarrow> ('e \<Rightarrow> 's \<Rightarrow> bool) \<Rightarrow> bool" where
  "ensures P m Q E \<longleftrightarrow> (\<forall>s. P s \<longrightarrow> (case m s of (Inl e, t) \<Rightarrow> E e t | (Inr a, t) \<Rightarrow> Q a t))"

lemma ensuresI:
  "(\<And>s a t. P s \<Longrightarrow> m s = (Inr a, t) \<Longrightarrow> Q a t) \<Longrightarrow> (\<And>s e t. P s \<Longrightarrow> m s = (Inl e, t) \<Longrightarrow> E e t) \<Longrightarrow> ensures P m Q E"
  unfolding ensures_def by (auto split: prod.split sum.split)

lemma ensures_returned: "ensures P m Q E \<Longrightarrow> P s \<Longrightarrow> m s = (Inr a, t) \<Longrightarrow> Q a t"
  by (auto simp: ensures_def dest!: spec [of _ s])

lemma ensures_threw: "ensures P m Q E \<Longrightarrow> P s \<Longrightarrow> m s = (Inl e, t) \<Longrightarrow> E e t"
  by (auto simp: ensures_def dest!: spec [of _ s])

lemma ensures_result: "ensures P m Q E \<Longrightarrow> P s \<Longrightarrow> m s = (x, t) \<Longrightarrow> (case x of Inl e \<Rightarrow> E e t | Inr a \<Rightarrow> Q a t)"
  by (auto simp: ensures_def dest!: spec [of _ s])

lemma ensures_weaken:
  "ensures P m Q E \<Longrightarrow> (\<And>s. P' s \<Longrightarrow> P s) \<Longrightarrow> (\<And>a t. Q a t \<Longrightarrow> Q' a t) \<Longrightarrow> (\<And>e t. E e t \<Longrightarrow> E' e t) \<Longrightarrow>
     ensures P' m Q' E'"
  unfolding ensures_def by (fastforce split: prod.splits sum.splits)

lemma ensures_return: "(\<And>s. P s \<Longrightarrow> Q a s) \<Longrightarrow> ensures P (return a) Q E"
  by (simp add: ensures_def return_def)

lemma ensures_throw: "(\<And>s. P s \<Longrightarrow> E e s) \<Longrightarrow> ensures P (throw e) Q E"
  by (simp add: ensures_def throw_def)

lemma ensures_gets: "(\<And>s. P s \<Longrightarrow> Q (f s) s) \<Longrightarrow> ensures P (gets f) Q E"
  by (simp add: ensures_def gets_def)

lemma ensures_modify: "(\<And>s. P s \<Longrightarrow> Q () (f s)) \<Longrightarrow> ensures P (modify f) Q E"
  by (simp add: ensures_def modify_def)

lemma ensures_bind: "ensures P m R E \<Longrightarrow> (\<And>a. ensures (R a) (f a) Q E) \<Longrightarrow> ensures P (bind m f) Q E"
  unfolding ensures_def bind_def by (fastforce split: prod.splits sum.splits)

lemma ensures_next_do: "ensures P m (\<lambda>_. R) E \<Longrightarrow> ensures R n Q E \<Longrightarrow> ensures P (next_do m n) Q E"
  unfolding next_do_def by (rule ensures_bind)

lemma ensures_catch: "ensures P m Q R \<Longrightarrow> (\<And>e. ensures (R e) (h e) Q E) \<Longrightarrow> ensures P (catch m h) Q E"
  unfolding ensures_def catch_def by (fastforce split: prod.splits sum.splits)

lemma ensures_if: "(b \<Longrightarrow> ensures P m Q E) \<Longrightarrow> (\<not> b \<Longrightarrow> ensures P n Q E) \<Longrightarrow> ensures P (if b then m else n) Q E"
  by simp

lemma ensures_option:
  "(v = None \<Longrightarrow> ensures P m Q E) \<Longrightarrow> (\<And>x. v = Some x \<Longrightarrow> ensures P (f x) Q E) \<Longrightarrow>
     ensures P (case v of None \<Rightarrow> m | Some x \<Rightarrow> f x) Q E"
  by (cases v) simp_all

lemma ensures_keeps: "keeps P m \<Longrightarrow> ensures P m (\<lambda>_. P) (\<lambda>_. P)"
  unfolding keeps_def ensures_def by (force split: prod.split sum.split)

lemma keeps_ensures: "ensures P m (\<lambda>_. P) (\<lambda>_. P) \<Longrightarrow> keeps P m"
proof (rule keepsI)
  fix s x t
  assume "ensures P m (\<lambda>_. P) (\<lambda>_. P)" "P s" "m s = (x, t)"
  from ensures_result [OF this] show "P t" by (cases x) simp_all
qed

text \<open>Frame: what a computation keeps joins its contract.\<close>

lemma ensures_keeping:
  "ensures P m Q E \<Longrightarrow> keeps I m \<Longrightarrow> ensures (\<lambda>s. P s \<and> I s) m (\<lambda>a t. Q a t \<and> I t) (\<lambda>e t. E e t \<and> I t)"
  unfolding keeps_def ensures_def by (fastforce split: prod.splits sum.splits)

lemma keeps_case_sum:
  "(\<And>e. v = Inl e \<Longrightarrow> keeps P (f e)) \<Longrightarrow> (\<And>a. v = Inr a \<Longrightarrow> keeps P (g a)) \<Longrightarrow> keeps P (case v of Inl e \<Rightarrow> f e | Inr a \<Rightarrow> g a)"
  by (cases v) simp_all

lemma keeps_case_prod: "(\<And>a b. v = (a, b) \<Longrightarrow> keeps P (f a b)) \<Longrightarrow> keeps P (case v of (a, b) \<Rightarrow> f a b)"
  by (cases v) simp

end
