(* ===== verification/Job_Deletion.thy ===== *)
theory Job_Deletion
  imports Job_Api Job_Store_Guarantees Job_Store_Frames Model_Run_Guarantees Run_Logic
begin

text \<open>
  The deletion of a job, from the request to the last clean-up: whatever other code does at the
  points where the handler waits, the job either is gone from both stores, with its directory moved
  away, or it is whole and free again, or it stays under the lease because its directory could not be
  moved back.
\<close>

section \<open>Other code\<close>

text \<open>What other code does not do while the handler holds the lease: use its token, delete the job, or
  register the job or a run of the job anew.\<close>

fun registers_run :: "string \<Rightarrow> model_call \<Rightarrow> bool" where
  "registers_run j (CallCreateRun now i) = (cr_job_id i = j)"
| "registers_run j (CallRestoreRun now i) = (mr_job_id (rs_model_run i) = j)"
| "registers_run j (CallRefreshRun now i) = (mr_job_id (rs_model_run i) = j)"
| "registers_run j _ = False"

fun leaves_alone :: "string \<Rightarrow> nat \<Rightarrow> server_call \<Rightarrow> bool" where
  "leaves_alone k token (OnJobs c) = (\<not> ends_lease k token c \<and> \<not> registers_job k c)"
| "leaves_alone k token (OnRuns c) = (\<not> registers_run k c)"

definition respectful :: "string \<Rightarrow> nat \<Rightarrow> awaiting list \<Rightarrow> bool" where
  "respectful k token as \<longleftrightarrow> list_all (\<lambda>a. list_all (leaves_alone k token) (aw_calls a)) as"

lemma respectful_drop [simp]: "respectful k token as \<Longrightarrow> respectful k token (drop n as)"
  by (auto simp: respectful_def list_all_iff dest: in_set_dropD)

lemma perform_server_calls_simps [simp]:
  "perform_server_calls env [] s = s"
  "perform_server_calls env (c # cs) s = perform_server_calls env cs (perform_server_call env c s)"
  by (simp_all add: perform_server_calls_def)

lemma perform_server_call_frame [simp]:
  "sv_dirs (perform_server_call env c s) = sv_dirs s" "sv_schedule (perform_server_call env c s) = sv_schedule s"
  by (cases c; simp)+

lemma perform_server_calls_frame [simp]:
  "sv_dirs (perform_server_calls env cs s) = sv_dirs s" "sv_schedule (perform_server_calls env cs s) = sv_schedule s"
  by (induction cs arbitrary: s) simp_all

section \<open>Under the lease\<close>

definition under_lease :: "string \<Rightarrow> nat \<Rightarrow> string list \<Rightarrow> 'd server \<Rightarrow> bool" where
  "under_lease k token dirs s \<longleftrightarrow>
     oget (st_leases (sv_jobs s)) k = Some token \<and> respectful k token (sv_schedule s) \<and> sv_dirs s = dirs
     \<and> store_ok (sv_jobs s)"

lemma under_lease_call: "under_lease k token dirs s \<Longrightarrow> leaves_alone k token c \<Longrightarrow> under_lease k token dirs (perform_server_call env c s)"
  by (cases c) (simp_all add: under_lease_def lease_step perform_ok)

lemma under_lease_calls:
  "under_lease k token dirs s \<Longrightarrow> list_all (leaves_alone k token) cs \<Longrightarrow> under_lease k token dirs (perform_server_calls env cs s)"
  by (induction cs arbitrary: s) (simp_all add: under_lease_call)

lemma next_calls:
  "respectful k token (sv_schedule s) \<Longrightarrow> list_all (leaves_alone k token) (case sv_schedule s of [] \<Rightarrow> [] | a # as \<Rightarrow> aw_calls a)"
  by (cases "sv_schedule s") (simp_all add: respectful_def)

lemma under_lease_schedule:
  "under_lease k token dirs s \<Longrightarrow> under_lease k token dirs (s\<lparr>sv_schedule := drop 1 (sv_schedule s)\<rparr>)"
  using respectful_drop [of k token "sv_schedule s" 1] by (simp add: under_lease_def)

lemma under_lease_await [intro, simp]: "keeps (under_lease k token dirs) (await env)"
proof (rule keepsI)
  fix s x t
  assume s: "under_lease k token dirs s" "await env s = (x, t)"
  then have "list_all (leaves_alone k token) (aw_calls (case sv_schedule s of [] \<Rightarrow> nothing_awaited | a # as \<Rightarrow> a))"
    using next_calls [of k token s] by (cases "sv_schedule s") (simp_all add: nothing_awaited_def under_lease_def)
  with s under_lease_calls [OF under_lease_schedule [OF s(1)]] show "under_lease k token dirs t"
    by (auto simp: await_def Let_def)
qed

lemma under_lease_jobs [intro]:
  "(\<And>l ex. keeps (same_claims l ex) m) \<Longrightarrow> keeps store_ok m \<Longrightarrow> keeps (under_lease k token dirs) (on_jobs m)"
  unfolding keeps_def on_jobs_def under_lease_def same_claims_def
  by (auto split: prod.splits) (metis snd_conv)+

lemma under_lease_runs [intro, simp]: "keeps (under_lease k token dirs) (on_runs m)"
  by (auto simp: keeps_def on_runs_def under_lease_def split: prod.splits)

lemma under_lease_modify:
  "(\<And>s. sv_jobs (f s) = sv_jobs s \<and> sv_schedule (f s) = sv_schedule s \<and> sv_dirs (f s) = sv_dirs s) \<Longrightarrow>
     keeps (under_lease k token dirs) (modify f)"
  by (rule keeps_modify) (simp add: under_lease_def)

lemma under_lease_basic [intro, simp]:
  "keeps (under_lease k token dirs) (now_of env)" "keeps (under_lease k token dirs) (random_uuid env)"
  by (auto simp: now_of_def random_uuid_def intro!: keeps_bind keeps_next_do keeps_gets keeps_return under_lease_modify)

lemma store_ok_new_object: "keeps store_ok new_object"
  by (auto simp: keeps_def new_object_def run_defs intro!: store_ok_next)

lemma under_lease_job_operations [intro, simp]:
  "keeps (under_lease k token dirs) (on_jobs new_object)"
  "keeps (under_lease k token dirs) (on_jobs (subscribe_job j x))"
  "keeps (under_lease k token dirs) (on_jobs (request_cancellation e j))"
  by (intro under_lease_jobs same_claims_operations same_claims_basic operations_keep store_ok_new_object)+

lemma unsubscribe_claims: "st_leases (snd (unsubscribe_in n x s)) = st_leases s"
  by (simp add: unsubscribe_in_def modify_def)

lemma watch_under_lease:
  assumes "\<And>s. under_lease k token dirs s \<Longrightarrow> under_lease k token dirs (leave s)"
  shows "under_lease k token dirs s \<Longrightarrow> list_all (leaves_alone k token) cs \<Longrightarrow>
    under_lease k token dirs (snd (watch env finished leave cs s))"
  by (induction cs arbitrary: s) (simp_all add: Let_def assms under_lease_call under_lease_calls)

lemma under_lease_notice:
  assumes "\<And>s. under_lease k token dirs s \<Longrightarrow> under_lease k token dirs (leave s)"
  shows "keeps (under_lease k token dirs) (await_notice env finished leave)"
proof (rule keepsI)
  fix s x t
  assume s: "under_lease k token dirs s" "await_notice env finished leave s = (x, t)"
  then have "list_all (leaves_alone k token) (case sv_schedule s of [] \<Rightarrow> [] | a # as \<Rightarrow> aw_calls a)"
    using next_calls [of k token s] by (simp add: under_lease_def)
  from watch_under_lease [of k token dirs leave, OF assms under_lease_schedule [OF s(1)] this, of env finished] s(2)
  show "under_lease k token dirs t" by (auto simp: await_notice_def split: prod.splits)
qed

lemma under_lease_waiting [intro, simp]:
  "keeps (under_lease k token dirs) (wait_for_job_completion env j)"
  "keeps (under_lease k token dirs) (wait_for_model_run_completion env j)"
  unfolding wait_for_job_completion_def wait_for_model_run_completion_def
  by (intro keeps_bind keeps_if keeps_option keeps_next_do keeps_return keeps_gets under_lease_await
      under_lease_job_operations under_lease_runs under_lease_notice;
      simp add: under_lease_def unsubscribe_claims other_subscriptions_ok)+

lemma under_lease_stopping [intro, simp]:
  "keeps (under_lease k token dirs) (stop_model_run env j)" "keeps (under_lease k token dirs) (stop_job env j job)"
  unfolding stop_model_run_def stop_job_def
  by (intro keeps_bind keeps_if keeps_option keeps_next_do keeps_return keeps_gets under_lease_basic
      under_lease_job_operations under_lease_runs under_lease_waiting)+

section \<open>Moving the directory away\<close>

definition tombstone_of :: "string \<Rightarrow> string \<Rightarrow> string" where
  "tombstone_of dir uuid = path_join (path_dirname dir) (''.deleting-'' @ path_basename dir @ ''-'' @ uuid)"

lemma basename_suffix:
  assumes "CHR ''/'' \<notin> set name" and "name \<noteq> []" and "suffix name dir"
  shows "length name \<le> length (path_basename dir)"
proof -
  obtain p where dir: "dir = p @ name" using assms(3) by (auto simp: suffix_def)
  have "last name \<noteq> CHR ''/''" using assms(1,2) last_in_set by force
  then have strip: "without_trailing_slashes dir = dir"
    using assms(2) by (cases name rule: rev_cases) (simp_all add: dir without_trailing_slashes_def)
  have "\<exists>q. path_basename (p @ name) = q @ name"
  proof (cases "CHR ''/'' \<in> set p")
    case False
    with assms(1) have "split_char CHR ''/'' dir = [dir]" by (intro split_char_none) (auto simp: dir)
    then show ?thesis using strip dir by (simp add: path_basename_def)
  next
    case True
    then obtain a b where p: "p = a @ CHR ''/'' # b" "CHR ''/'' \<notin> set b" using split_list_last by metis
    have "split_char CHR ''/'' dir = split_char CHR ''/'' a @ [b @ name]"
      using assms(1) p by (simp add: dir split_char_snoc split_char_none)
    then show ?thesis using strip dir by (simp add: path_basename_def)
  qed
  then show ?thesis by (auto simp: dir)
qed

lemma path_basename_no_slash: "CHR ''/'' \<notin> set (path_basename dir)"
proof -
  have "path_basename dir \<in> set (split_char CHR ''/'' (without_trailing_slashes dir))"
    unfolding path_basename_def by (rule last_in_set) simp
  then show ?thesis by (rule split_char_no_sep)
qed

lemma tombstone_differs:
  assumes "CHR ''/'' \<notin> set uuid"
  shows "tombstone_of dir uuid \<noteq> dir"
proof
  define name where "name = ''.deleting-'' @ path_basename dir @ ''-'' @ uuid"
  have slash: "CHR ''/'' \<notin> set name" using assms path_basename_no_slash by (simp add: name_def)
  then have "plain_segment name" by (simp add: plain_segment_def name_def)
  then obtain p where "tombstone_of dir uuid = p @ name"
    using path_join_name [of name "path_dirname dir"] by (auto simp: tombstone_of_def name_def)
  moreover assume "tombstone_of dir uuid = dir"
  ultimately have "suffix name dir" by (simp add: suffix_def)
  from basename_suffix [OF slash _ this] show False by (simp add: name_def)
qed

text \<open>The contracts of the parts of the handler, up to the renaming of the directory and after it.\<close>

definition entombed :: "string \<Rightarrow> string \<Rightarrow> string list \<Rightarrow> string list" where
  "entombed dir tombstone dirs = List.insert tombstone (removeAll dir dirs)"

lemma await_returns: "await env s = (x, t) \<Longrightarrow> \<exists>f. x = Inr f"
  by (auto simp: await_def Let_def)

lemma await_under_lease: "await env s = (x, t) \<Longrightarrow> under_lease k token dirs s \<Longrightarrow> under_lease k token dirs t"
  using under_lease_await [of k token dirs env] unfolding keeps_def by (metis snd_conv)

lemma under_lease_fresh: "under_lease k token dirs (s\<lparr>sv_fresh := n\<rparr>) = under_lease k token dirs s"
  by (simp add: under_lease_def)

lemma under_lease_moved:
  "under_lease k token dirs s \<Longrightarrow> dirs' = f dirs \<Longrightarrow> under_lease k token dirs' (s\<lparr>sv_dirs := f (sv_dirs s)\<rparr>)"
  by (simp add: under_lease_def)

lemma dir_run [run_rules]:
  "remove_dir dir s = (x, t) \<longleftrightarrow> x = Inr () \<and> t = s\<lparr>sv_dirs := removeAll dir (sv_dirs s)\<rparr>"
  "add_dir dir s = (x, t) \<longleftrightarrow> x = Inr () \<and> t = s\<lparr>sv_dirs := List.insert dir (sv_dirs s)\<rparr>"
  by (auto simp: remove_dir_def add_dir_def run_rules)

lemma random_uuid_run [run_rules]:
  "random_uuid env s = (x, t) \<longleftrightarrow> x = Inr (sx_uuid env (sv_fresh s)) \<and> t = s\<lparr>sv_fresh := Suc (sv_fresh s)\<rparr>"
  by (cases x) (auto simp: random_uuid_def run_rules)

lemma entomb_contract:
  assumes "\<And>n. CHR ''/'' \<notin> set (sx_uuid env n)"
  shows "ensures (under_lease k token dirs) (entomb env dir)
    (\<lambda>r t. case r of Inl a \<Rightarrow> a \<noteq> NoContent \<and> under_lease k token dirs t
       | Inr (d, tombstone) \<Rightarrow> d = dir \<and> tombstone \<noteq> dir \<and> under_lease k token (entombed dir tombstone dirs) t)
    (\<lambda>_. under_lease k token dirs)"
  unfolding entomb_def Let_def tombstone_of_def [symmetric]
proof (rule ensuresI, goal_cases)
  case (1 s r t)
  then obtain f u where f: "await env (s\<lparr>sv_fresh := Suc (sv_fresh s)\<rparr>) = (Inr f, u)" by (auto simp: run_rules)
  have u: "under_lease k token dirs u" using await_under_lease [OF f] 1(1) by (simp add: under_lease_fresh)
  show ?case
  proof (cases f)
    case None
    with 1(2) f have "r = Inr (dir, tombstone_of dir (sx_uuid env (sv_fresh s)))"
      "t = u\<lparr>sv_dirs := entombed dir (tombstone_of dir (sx_uuid env (sv_fresh s))) (sv_dirs u)\<rparr>"
      by (auto simp: run_rules entombed_def)
    with u assms show ?thesis by (simp add: tombstone_differs under_lease_moved)
  next
    case (Some e)
    with 1(2) f u show ?thesis by (auto simp: run_rules)
  qed
next
  case (2 s e t)
  then show ?case by (auto simp: run_rules under_lease_fresh dest: await_returns split: option.splits)
qed

lemma job_missing_content [simp]: "job_missing k \<noteq> NoContent"
  by (simp add: job_missing_def)

definition with_dir :: "string \<Rightarrow> string \<Rightarrow> 'd server \<Rightarrow> bool" where
  "with_dir k dir s \<longleftrightarrow> dir \<noteq> [] \<and> get_job_dir k (sv_jobs s) = Some dir"

lemma stop_and_entomb_contract:
  assumes "\<And>n. CHR ''/'' \<notin> set (sx_uuid env n)"
  shows "ensures (\<lambda>s. under_lease k token dirs s \<and> with_dir k dir s) (stop_and_entomb env k)
    (\<lambda>r t. case r of Inl a \<Rightarrow> a \<noteq> NoContent \<and> under_lease k token dirs t
       | Inr (d, tombstone) \<Rightarrow> d = dir \<and> tombstone \<noteq> dir \<and> under_lease k token (entombed dir tombstone dirs) t)
    (\<lambda>_. under_lease k token dirs)" (is "ensures _ _ ?Q ?E")
  unfolding stop_and_entomb_def
proof (rule ensures_bind [where R = "\<lambda>(d, j) s. under_lease k token dirs s \<and> d = Some dir \<and> dir \<noteq> []"], goal_cases)
  case 1
  show ?case by (rule ensures_gets) (simp add: with_dir_def)
next
  case (2 dj)
  obtain d j where dj: "dj = (d, j)" by (cases dj)
  show ?case
  proof (cases "d = Some dir \<and> dir \<noteq> [] \<and> j \<noteq> None")
    case False
    then show ?thesis
      by (cases j) (auto simp: dj text_if_any_def run_rules intro!: ensuresI split: list.splits)
  next
    case True
    then obtain jb where eqs: "text_if_any d = Some dir" "j = Some jb"
      by (auto simp: text_if_any_def split: list.splits)
    have "ensures (under_lease k token dirs)
        (bind (stop_model_run env k) (\<lambda>stopped. if \<not> stopped then return (Inl a)
           else bind (stop_job env k jb) (\<lambda>stopped. if \<not> stopped then return (Inl b) else entomb env dir))) ?Q ?E"
      if "a \<noteq> NoContent" "b \<noteq> NoContent" for a b
      by (intro ensures_bind [OF ensures_keeps [OF under_lease_stopping(1)]] ensures_if
          ensures_bind [OF ensures_keeps [OF under_lease_stopping(2)]] ensures_return entomb_contract assms)
        (simp_all add: that)
    note core = this
    show ?thesis unfolding dj prod.case eqs option.case by (rule ensures_weaken [OF core]) simp_all
  qed
qed

text \<open>When the job is gone, nothing but a registration brings it back.\<close>

definition no_run_of :: "string \<Rightarrow> (string, string) omap \<Rightarrow> bool" where
  "no_run_of k runs \<longleftrightarrow> text_if_any (oget runs k) = None"

lemma no_run_of_put: "j \<noteq> k \<Longrightarrow> no_run_of k (oput j v m) = no_run_of k m"
  by (simp add: no_run_of_def)

lemma no_run_of_del: "no_run_of k m \<or> j = k \<Longrightarrow> no_run_of k (odel j m)"
  by (auto simp: no_run_of_def text_if_any_def)

definition gone :: "bool \<Rightarrow> string \<Rightarrow> nat \<Rightarrow> string list \<Rightarrow> 'd server \<Rightarrow> bool" where
  "gone models k token dirs s \<longleftrightarrow>
     store_ok (sv_jobs s) \<and> oget (st_jobs (sv_jobs s)) k = None \<and> respectful k token (sv_schedule s) \<and> sv_dirs s = dirs
     \<and> (models \<longrightarrow> indexed (\<lambda>active. no_run_of k) (sv_runs s))"

lemma run_index_step:
  "\<not> registers_run k c \<Longrightarrow> indexed (\<lambda>active. no_run_of k) s \<Longrightarrow>
     indexed (\<lambda>active. no_run_of k) (perform_model_call env c s)"
  by (rule indexed_step, assumption, cases c) (auto simp: no_run_of_put no_run_of_del)

lemma gone_call: "gone models k token dirs s \<Longrightarrow> leaves_alone k token c \<Longrightarrow> gone models k token dirs (perform_server_call env c s)"
  by (cases c) (simp_all add: gone_def perform_ok absent_step run_index_step)

lemma gone_calls:
  "gone models k token dirs s \<Longrightarrow> list_all (leaves_alone k token) cs \<Longrightarrow> gone models k token dirs (perform_server_calls env cs s)"
  by (induction cs arbitrary: s) (simp_all add: gone_call)

lemma gone_await: "await env s = (x, t) \<Longrightarrow> gone models k token dirs s \<Longrightarrow> gone models k token dirs t"
proof -
  assume run: "await env s = (x, t)" and s: "gone models k token dirs s"
  from s have "list_all (leaves_alone k token) (aw_calls (case sv_schedule s of [] \<Rightarrow> nothing_awaited | a # as \<Rightarrow> a))"
    using next_calls [of k token s] by (cases "sv_schedule s") (simp_all add: nothing_awaited_def gone_def)
  moreover have "gone models k token dirs (s\<lparr>sv_schedule := drop 1 (sv_schedule s)\<rparr>)"
    using s respectful_drop [of k token "sv_schedule s" 1] by (simp add: gone_def)
  ultimately show ?thesis using run gone_calls by (fastforce simp: await_def Let_def)
qed

lemma unowned:
  "leases_ok n keys l \<Longrightarrow> k \<notin> keys \<Longrightarrow> oget l k = None" "executions_ok keys ex \<Longrightarrow> k \<notin> keys \<Longrightarrow> oget ex k = None"
  unfolding leases_ok_def executions_ok_def by (metis option.exhaust)+

lemma gone_unclaimed:
  assumes "gone models k token dirs s"
  shows "oget (st_leases (sv_jobs s)) k = None" "oget (st_executions (sv_jobs s)) k = None"
proof -
  have absent: "k \<notin> fst ` set (st_jobs (sv_jobs s))" using assms by (simp add: gone_def oget_None_iff)
  have ok: "leases_ok (st_next (sv_jobs s)) (fst ` set (st_jobs (sv_jobs s))) (st_leases (sv_jobs s))"
    "executions_ok (fst ` set (st_jobs (sv_jobs s))) (st_executions (sv_jobs s))"
    using assms by (simp_all add: gone_def store_ok_def)
  from unowned(1) [OF ok(1) absent] unowned(2) [OF ok(2) absent]
  show "oget (st_leases (sv_jobs s)) k = None" "oget (st_executions (sv_jobs s)) k = None" .
qed

lemma on_jobs_run [run_rules]:
  "on_jobs m s = (x, t) \<longleftrightarrow> (\<exists>y v. m (sv_jobs s) = (y, v) \<and> x = failed_as y \<and> t = s\<lparr>sv_jobs := v\<rparr>)"
  by (auto simp: on_jobs_def split: prod.splits)

lemma on_runs_run [run_rules]:
  "on_runs m s = (x, t) \<longleftrightarrow> (\<exists>y v. m (sv_runs s) = (y, v) \<and> x = failed_as y \<and> t = s\<lparr>sv_runs := v\<rparr>)"
  by (auto simp: on_runs_def split: prod.splits)

lemma failed_as_iff [simp]: "failed_as y = Inr a \<longleftrightarrow> y = Inr a" "Inr a = failed_as y \<longleftrightarrow> y = Inr a"
  "Inl e = failed_as y \<longleftrightarrow> (\<exists>m. y = Inl m \<and> e = Failure m)"
  by (cases y; auto)+

lemma delete_job_result:
  "delete_job env k s = (x, t) \<Longrightarrow> x = Inr False \<and> t = s \<or> x = Inr True \<and> oget (st_jobs t) k = None"
  by (cases x) (auto simp: delete_job_def bind_gets run_rules same_maps_def dest!: publish_list_maps split: option.splits if_splits)

lemma delete_run_result:
  "delete_model_run_for_job k s = (x, t) \<Longrightarrow> x = Inr () \<and> indexed (\<lambda>active. no_run_of k) t"
  by (cases "text_if_any (oget (st_job_runs s) k)")
    (auto simp: delete_model_run_for_job_def bind_gets indexed_def run_rules no_run_of_def text_if_any_def)

text \<open>How the work after the renaming ends.\<close>

definition buried ::
  "bool \<Rightarrow> string \<Rightarrow> nat \<Rightarrow> string \<Rightarrow> string list \<Rightarrow> bool \<times> response \<Rightarrow> 'd server \<Rightarrow> bool" where
  "buried models k token dir dirs r t \<longleftrightarrow> (case r of (release, a) \<Rightarrow>
     if a = NoContent then \<not> release \<and> (\<exists>left. dir \<notin> set left \<and> gone models k token left t)
     else status_of a = 409 \<and> (\<exists>left. under_lease k token left t
       \<and> (if release then dir \<in> set left else dir \<notin> set left)))"

lemma bury_contract:
  assumes "dir \<notin> set dirs"
  shows "ensures (under_lease k token dirs) (bury env k dir tombstone) (buried (sx_models env) k token dir dirs) (\<lambda>_ _. False)"
proof (rule ensuresI, goal_cases)
  case (1 s r t)
  then obtain b v where del: "delete_job (sx_jobs env) k (sv_jobs s) = (Inr b, v)"
    unfolding bury_def by (auto simp: run_rules)
  let ?u = "s\<lparr>sv_jobs := v\<rparr>"
  show ?case
  proof (cases b)
    case False
    then have v: "v = sv_jobs s" using delete_job_result [OF del] by simp
    from 1(2) False del obtain f u where u: "await env s = (Inr f, u)"
      and t: "if f = None then r = (True, ErrorResponse ''job_delete_conflict'' ''The task is still active and cannot be deleted.'' 409)
          \<and> t = u\<lparr>sv_dirs := List.insert dir (removeAll tombstone (sv_dirs u))\<rparr>
        else r = (False, ErrorResponse ''job_delete_conflict'' ''The task is still active and cannot be deleted.'' 409) \<and> t = u"
      unfolding bury_def by (auto simp: run_rules v split: if_splits)
    have lease: "under_lease k token dirs u" using await_under_lease [OF u 1(1)] .
    show ?thesis
    proof (cases "f = None")
      case True
      with t under_lease_moved [OF lease, of _ "\<lambda>l. List.insert dir (removeAll tombstone l)"] show ?thesis
        by (auto simp: buried_def)
    next
      case False
      with t lease assms show ?thesis by (auto simp: buried_def)
    qed
  next
    case True
    have left: "gone False k token dirs ?u"
      using 1(1) delete_job_result [OF del] True delete_ok [OF _ del] by (simp add: gone_def under_lease_def)
    from 1(2) True del obtain w f u where w: "if sx_models env then \<exists>v'. delete_model_run_for_job k (sv_runs s) = (Inr (), v') \<and> w = ?u\<lparr>sv_runs := v'\<rparr> else w = ?u"
      and u: "await env w = (Inr f, u)" and t: "r = (False, NoContent)" "t = (if f = None then u\<lparr>sv_dirs := removeAll tombstone (sv_dirs u)\<rparr> else u)"
      unfolding bury_def by (cases "sx_models env") (auto simp: run_rules split: if_splits)
    have "gone (sx_models env) k token dirs w"
      using left w delete_run_result by (fastforce simp: gone_def split: if_splits)
    from gone_await [OF u this] have "gone (sx_models env) k token (sv_dirs t) t" "set (sv_dirs t) \<subseteq> set dirs"
      using t by (auto simp: gone_def)
    with t assms show ?thesis by (auto simp: buried_def)
  qed
next
  case (2 s e t)
  then show ?case
    unfolding bury_def
    by (auto simp: run_rules dest!: delete_job_result delete_run_result await_returns split: if_splits)
qed

section \<open>The request\<close>

lemma release_under_lease:
  "under_lease k token dirs s \<Longrightarrow> release_lease k token s = (x, t) \<Longrightarrow>
     x = Inr () \<and> \<not> is_job_deleting k (sv_jobs t) \<and> sv_dirs t = dirs"
  by (cases x) (auto simp: release_lease_def release_deletion_lease_def bind_gets under_lease_def is_job_deleting_def run_rules)

text \<open>How a request that acquired the lease ends: the job is gone, or it is free and its directory is in
  place, or it stays under the lease without its directory.\<close>

definition settled :: "bool \<Rightarrow> string \<Rightarrow> string \<Rightarrow> api_failure + response \<Rightarrow> 'd server \<Rightarrow> bool" where
  "settled models k dir x t \<longleftrightarrow>
     (if x = Inr NoContent
      then get_job k (sv_jobs t) = None \<and> \<not> is_job_deleting k (sv_jobs t) \<and> active_executions (sv_jobs t) k = []
        \<and> (models \<longrightarrow> get_model_run_for_job k (sv_runs t) = None) \<and> dir \<notin> set (sv_dirs t)
      else if dir \<in> set (sv_dirs t) then \<not> is_job_deleting k (sv_jobs t)
      else is_job_deleting k (sv_jobs t) \<and> (\<exists>a. x = Inr a \<and> status_of a = 409))"

lemma gone_settled: "gone models k token dirs t \<Longrightarrow> dir \<notin> set dirs \<Longrightarrow> settled models k dir (Inr NoContent) t"
  using gone_unclaimed [of models k token dirs t]
  by (auto simp: settled_def gone_def get_job_def is_job_deleting_def active_executions_def indexed_def no_run_of_def
      get_model_run_for_job_def run_for_job_def)

lemma freed_settled:
  "\<not> is_job_deleting k (sv_jobs t) \<Longrightarrow> dir \<in> set (sv_dirs t) \<Longrightarrow> x \<noteq> Inr NoContent \<Longrightarrow> settled models k dir x t"
  by (simp add: settled_def)

lemma buried_settled:
  assumes "buried (sx_models env) k token dir dirs (release, a) u"
    and "next_do (if release then release_lease k token else return ()) (return a) u = (x, t)"
  shows "settled (sx_models env) k dir x t"
proof (cases "a = NoContent")
  case True
  with assms obtain left where "\<not> release" "dir \<notin> set left" "gone (sx_models env) k token left u"
    by (auto simp: buried_def)
  moreover from this assms(2) True have "x = Inr NoContent" "t = u" by (auto simp: next_do_def bind_def return_def)
  ultimately show ?thesis by (auto intro: gone_settled)
next
  case False
  with assms(1) obtain left where left: "status_of a = 409" "under_lease k token left u"
    "if release then dir \<in> set left else dir \<notin> set left"
    by (auto simp: buried_def)
  show ?thesis
  proof (cases release)
    case True
    obtain y v where v: "release_lease k token u = (y, v)" by fastforce
    from release_under_lease [OF left(2) v] assms(2) True v left False show ?thesis
      by (auto simp: next_do_def bind_def return_def intro: freed_settled)
  next
    case False
    with assms(2) have "x = Inr a" "t = u" by (auto simp: next_do_def bind_def return_def)
    with left False \<open>a \<noteq> NoContent\<close> show ?thesis by (auto simp: settled_def under_lease_def is_job_deleting_def)
  qed
qed

lemma delete_leased_settles:
  assumes "\<And>n. CHR ''/'' \<notin> set (sx_uuid env n)" and "under_lease k token dirs s" and "with_dir k dir s"
    and "dir \<in> set dirs" and "delete_leased env k token s = (x, t)"
  shows "settled (sx_models env) k dir x t"
proof -
  obtain y u where y: "stop_and_entomb env k s = (y, u)" by fastforce
  note contract = ensures_result [OF stop_and_entomb_contract [OF assms(1)] conjI [OF assms(2,3)] y]
  obtain z v where z: "release_lease k token u = (z, v)" by fastforce
  show ?thesis
  proof (cases y)
    case (Inl e)
    with contract have "under_lease k token dirs u" by simp
    from release_under_lease [OF this z] assms(4,5) Inl y z show ?thesis
      by (auto simp: delete_leased_def bind_def catch_def next_do_def throw_def intro: freed_settled)
  next
    case (Inr outcome)
    show ?thesis
    proof (cases outcome)
      case (Inl refusal)
      with contract Inr have "under_lease k token dirs u" "refusal \<noteq> NoContent" by simp_all
      from release_under_lease [OF this(1) z] this assms(4,5) Inr Inl y z show ?thesis
        by (auto simp: delete_leased_def bind_def catch_def next_do_def return_def intro: freed_settled)
    next
      case (Inr moved)
      obtain d tombstone where moved: "moved = (d, tombstone)" by fastforce
      with contract \<open>y = Inr outcome\<close> Inr have "d = dir" "tombstone \<noteq> dir" and u: "under_lease k token (entombed dir tombstone dirs) u"
        by simp_all
      then have away: "dir \<notin> set (entombed dir tombstone dirs)" by (auto simp: entombed_def)
      obtain b w where b: "bury env k dir tombstone u = (b, w)" by fastforce
      note buried = ensures_result [OF bury_contract [OF away] u b]
      then obtain release a where a: "b = Inr (release, a)" by (cases b) auto
      have "next_do (if release then release_lease k token else return ()) (return a) w = (x, t)"
        using assms(5) y \<open>y = Inr outcome\<close> Inr moved \<open>d = dir\<close> b a by (simp add: delete_leased_def bind_def catch_def)
      with buried a show ?thesis by (auto intro: buried_settled)
    qed
  qed
qed

text \<open>C17. However the deletion of a job ends, and whatever other code does while the handler waits, as long
  as it neither uses the handler's lease nor registers the job again: after a 204 the job, its lease,
  its executions and its model run are gone and its directory is moved away; after any other response
  or an error the directory is in place and the lease is released, or the directory could not be moved
  back and the job stays under the lease, so that nothing can run in it.\<close>

theorem deletion_settles:
  assumes "get_job_id param = Some k" and "oget (st_jobs (sv_jobs s)) k = Some r" and "\<not> is_job_deleting k (sv_jobs s)"
    and "jr_job_dir r \<noteq> []" and "jr_job_dir r \<in> set (sv_dirs s)" and "store_ok (sv_jobs s)"
    and "respectful k (st_next (sv_jobs s)) (sv_schedule s)" and "\<And>n. CHR ''/'' \<notin> set (sx_uuid env n)"
    and "delete_job_request env param s = (x, t)"
  shows "settled (sx_models env) k (jr_job_dir r) x t"
proof -
  let ?token = "st_next (sv_jobs s)"
  let ?u = "(sv_jobs s)\<lparr>st_next := Suc ?token, st_leases := oput k ?token (st_leases (sv_jobs s))\<rparr>"
  have lease: "acquire_deletion_lease k (sv_jobs s) = (Inr (LeaseAcquired k ?token), ?u)"
    using assms(2,3) by (simp add: acquire_deletion_lease_def bind_gets is_job_deleting_def run_rules)
  have "store_ok ?u" using acquire_lease_ok [OF assms(6) lease] .
  then have "under_lease k ?token (sv_dirs s) (s\<lparr>sv_jobs := ?u\<rparr>)" using assms(7) by (simp add: under_lease_def)
  moreover have "with_dir k (jr_job_dir r) (s\<lparr>sv_jobs := ?u\<rparr>)"
    using assms(2,4) by (simp add: with_dir_def get_job_dir_def)
  moreover have "delete_leased env k ?token (s\<lparr>sv_jobs := ?u\<rparr>) = (x, t)"
    using assms(1,9) lease by (simp add: delete_job_request_def bind_def on_jobs_def)
  ultimately show ?thesis using delete_leased_settles [OF assms(8)] assms(5) by blast
qed

definition sample_server_env :: "unit server_env" where
  "sample_server_env = \<lparr> sx_jobs = sample_job_env, sx_runs = plain_model_env, sx_now = \<lambda>n. sample_moment,
     sx_uuid = \<lambda>n. replicate (Suc n) CHR ''u'', sx_jobs_root = ''/j'', sx_use_openai = None, sx_models = True,
     sx_source_commit = ''c'' \<rparr>"

definition complete_record :: job_record where
  "complete_record = sample_record\<lparr>job_is_complete := True\<rparr>"

definition sample_server :: "awaiting list \<Rightarrow> unit server" where
  "sample_server schedule = \<lparr> sv_jobs = (empty_job_store ())\<lparr>st_jobs := [(''a'', complete_record)], st_next := 3\<rparr>,
     sv_runs = empty_model_store (), sv_dirs = [''/j/a''], sv_launched = [], sv_schedule = schedule, sv_fresh = 0 \<rparr>"

lemma sample_server_ok: "store_ok (sv_jobs (sample_server as))"
  by (simp add: sample_server_def empty_job_store_def store_ok_def jobs_ok_def leases_ok_def executions_ok_def
      pending_ok_def record_ok_def complete_record_def sample_record_def new_job_record_def sample_create_def)

text \<open>The deletion of a complete job while another request tries to run it.\<close>

definition sample_intrusion :: awaiting where
  "sample_intrusion = \<lparr> aw_ok = True, aw_failure = [], aw_calls = [OnJobs (CallClaim ''a'' ''component''), OnJobs (CallCancel ''a'')] \<rparr>"

theorem deletion_settles_witness:
  "\<exists>x t. delete_job_request sample_server_env (Some ''a'') (sample_server [sample_intrusion]) = (x, t) \<and> settled True ''a'' ''/j/a'' x t"
proof -
  let ?s = "sample_server [sample_intrusion]"
  obtain x t where run: "delete_job_request sample_server_env (Some ''a'') ?s = (x, t)" by fastforce
  have "settled (sx_models sample_server_env) ''a'' (jr_job_dir complete_record) x t"
    by (rule deletion_settles [OF _ _ _ _ _ sample_server_ok _ _ run])
      (simp_all add: get_job_id_def text_if_any_def js_trim_def is_space_def sample_server_def is_job_deleting_def
        empty_job_store_def complete_record_def sample_record_def new_job_record_def sample_create_def
        sample_intrusion_def respectful_def sample_server_env_def)
  with run show ?thesis
    by (auto simp: sample_server_env_def complete_record_def sample_record_def new_job_record_def sample_create_def)
qed

end
