(* ===== verification/Job_Retry.thy ===== *)
theory Job_Retry
  imports Job_Deletion
begin

text \<open>
  The retry of a job, \<open>src/server/job-api/retry-job.ts\<close>, as a protocol: a request either answers at once
  or waits for an attempt, which it starts unless the source has one pending; an attempt goes on
  through its awaits, and the requests that wait for it resume when it has settled. Each event of the
  protocol is the code that runs between two awaits, so that every interleaving of requests,
  attempts and other code is a sequence of events.
\<close>

section \<open>The state\<close>

datatype attempt_phase =
    ReadingSource
  | PreparingWorkspace string
  | Discarding string api_failure
  | AttemptDone job
  | AttemptFailed api_failure

record attempt =
  at_source :: string
  at_found :: retry_source
  at_use_openai :: bool
  at_phase :: attempt_phase

record 'd retry_server =
  rt_server :: "'d server"
  rt_pending :: "(string, nat) omap"
  rt_attempts :: "attempt list"
  rt_waiting :: "nat list"  \<comment> \<open>the attempts that requests wait for\<close>
  rt_responses :: "response list"

datatype retry_event =
    RequestRetry "string option" "string option"
  | SourceRead nat "string option"
  | WorkspaceReady nat "string option"
  | WorkspaceDiscarded nat
  | ResumeRequest nat
  | OtherCode server_call

section \<open>The source\<close>

definition require_retry_source :: "string \<Rightarrow> 'd job_store \<Rightarrow> unavailable_reason + retry_source" where
  "require_retry_source k s =
     (if is_job_deleting k s then Inl SourceDeleting
      else (case get_job_retry_source k s of None \<Rightarrow> Inl SourceNotFound | Some source \<Rightarrow> Inr source))"

definition retry_unavailable_response :: "string \<Rightarrow> unavailable_reason \<Rightarrow> response" where
  "retry_unavailable_response k reason =
     (case reason of
        SourceDeleting \<Rightarrow> ErrorResponse ''job_deleting'' ''This task is being deleted and cannot be retried.'' 409
      | SourceNotFound \<Rightarrow> job_missing k)"

definition retryable_status :: "job_display_status \<Rightarrow> bool" where
  "retryable_status s \<longleftrightarrow> s = JobCancelled \<or> s = JobUnsupported \<or> s = JobFailed"

section \<open>Requests\<close>

definition respond :: "response \<Rightarrow> 'd retry_server \<Rightarrow> 'd retry_server" where
  "respond a s = s\<lparr>rt_responses := rt_responses s @ [a]\<rparr>"

definition await_attempt :: "nat \<Rightarrow> 'd retry_server \<Rightarrow> 'd retry_server" where
  "await_attempt a s = s\<lparr>rt_waiting := rt_waiting s @ [a]\<rparr>"

text \<open>A new attempt runs up to its first await: it reads the source unless a retry has become active.\<close>

definition start_attempt :: "string \<Rightarrow> retry_source \<Rightarrow> bool \<Rightarrow> 'd retry_server \<Rightarrow> 'd retry_server" where
  "start_attempt k source use_openai s =
     (let a = \<lparr> at_source = k, at_found = source, at_use_openai = use_openai,
                at_phase = (case get_active_retry_for_source k (sv_jobs (rt_server s)) of
                              Some j \<Rightarrow> AttemptDone j | None \<Rightarrow> ReadingSource) \<rparr> in
      s\<lparr>rt_attempts := rt_attempts s @ [a], rt_pending := oput k (length (rt_attempts s)) (rt_pending s)\<rparr>)"

definition join_attempt :: "string \<Rightarrow> retry_source \<Rightarrow> bool \<Rightarrow> 'd retry_server \<Rightarrow> 'd retry_server" where
  "join_attempt k source use_openai s =
     (case get_active_retry_for_source k (sv_jobs (rt_server s)) of
        Some j \<Rightarrow> respond (JobResponse j 202) s
      | None \<Rightarrow>
          (case oget (rt_pending s) k of
             Some a \<Rightarrow> await_attempt a s
           | None \<Rightarrow> await_attempt (length (rt_attempts s)) (start_attempt k source use_openai s)))"

text \<open>The provider of the retry, which the source keeps when it has none.\<close>

definition retain_provider :: "'d server_env \<Rightarrow> string \<Rightarrow> retry_source \<Rightarrow> bool \<Rightarrow> ('d, unit) api" where
  "retain_provider env k source use_openai =
     (if rs_use_openai source = None
      then next_do (on_jobs (update_job (sx_jobs env) k [SetUseOpenai (Some use_openai)])) (return ())
      else return ())"

definition request_retry ::
  "'d server_env \<Rightarrow> string option \<Rightarrow> string option \<Rightarrow> 'd retry_server \<Rightarrow> 'd retry_server" where
  "request_retry env param provider s =
     (case get_job_id param of
        None \<Rightarrow> respond job_id_required s
      | Some k \<Rightarrow>
          (case require_retry_source k (sv_jobs (rt_server s)) of
             Inl reason \<Rightarrow> respond (retry_unavailable_response k reason) s
           | Inr source \<Rightarrow>
               if \<not> retryable_status (rs_display_status source)
               then respond (ErrorResponse ''job_not_retryable'' ''Only stopped or unsuccessful tasks can be retried.'' 409) s
               else
                 (let use_openai = or_default (rs_use_openai source) (fallback_provider provider (sx_use_openai env)) in
                  case retain_provider env k source use_openai (rt_server s) of
                    (Inl e, t) \<Rightarrow> respond (ErrorResponse ''job_retry_failed''
                        (''The retry provider could not be saved for '' @ k @ '': '' @ failure_text e) 500) (s\<lparr>rt_server := t\<rparr>)
                  | (Inr _, t) \<Rightarrow> join_attempt k source use_openai (s\<lparr>rt_server := t\<rparr>))))"

section \<open>Attempts\<close>

definition set_phase :: "nat \<Rightarrow> attempt_phase \<Rightarrow> 'd retry_server \<Rightarrow> 'd retry_server" where
  "set_phase a p s = s\<lparr>rt_attempts := (rt_attempts s)[a := (rt_attempts s ! a)\<lparr>at_phase := p\<rparr>]\<rparr>"

fun display_status_text :: "job_display_status \<Rightarrow> string" where
  "display_status_text Queued = ''queued''"
| "display_status_text AgentRunning = ''agent_running''"
| "display_status_text Building = ''building''"
| "display_status_text Cancelling = ''cancelling''"
| "display_status_text JobCancelled = ''cancelled''"
| "display_status_text JobComplete = ''complete''"
| "display_status_text JobUnsupported = ''unsupported''"
| "display_status_text JobFailed = ''failed''"

text \<open>The job of the retry and its runner, created without an await in between.\<close>

definition create_retry :: "'d server_env \<Rightarrow> attempt \<Rightarrow> string \<Rightarrow> ('d, job) api" where
  "create_retry env a k =
     (let source = at_found a in
      bind (now_of env) (\<lambda>now.
      bind (on_jobs (create_job (sx_jobs env) (now_text now)
         \<lparr> ci_job_id = k, ci_job_dir = job_dir_of env k, ci_file_name = rs_file_name source,
           ci_use_openai = Some (at_use_openai a), ci_additional_instructions = rs_additional_instructions source,
           ci_retry_source = Some (at_source a) \<rparr>)) (\<lambda>j. return j)))"

definition announce_retry :: "'d server_env \<Rightarrow> attempt \<Rightarrow> string \<Rightarrow> ('d, unit) api" where
  "announce_retry env a k =
     bind (random_uuid env) (\<lambda>uuid.
     bind (now_of env) (\<lambda>now.
     next_do (catch (next_do (on_jobs (begin_append_log k uuid (now_text now) SystemStream
         (''Retrying '' @ display_status_text (rs_display_status (at_found a)) @ '' task '' @ at_source a @ ''.'' @ [CHR 0x0A]))) (return ())) (\<lambda>_. return ()))
       (launch_job_runner k (rs_additional_instructions (at_found a)) (at_use_openai a))))"

definition workspace_ready :: "'d server_env \<Rightarrow> nat \<Rightarrow> string option \<Rightarrow> string \<Rightarrow> 'd retry_server \<Rightarrow> 'd retry_server" where
  "workspace_ready env n failure k s =
     (let a = rt_attempts s ! n in
      case failure of
        Some e \<Rightarrow> set_phase n (AttemptFailed (Failure e)) s
      | None \<Rightarrow>
          (case require_retry_source (at_source a) (sv_jobs (rt_server s)) of
             Inl reason \<Rightarrow> set_phase n (Discarding k (RetryUnavailable reason)) s
           | Inr _ \<Rightarrow>
               (case create_retry env a k (rt_server s) of
                  (Inl e, t) \<Rightarrow> set_phase n (Discarding k e) (s\<lparr>rt_server := t\<rparr>)
                | (Inr j, t) \<Rightarrow>
                    set_phase n (AttemptDone j) (s\<lparr>rt_server := snd (announce_retry env a k t)\<rparr>))))"

definition settled_response :: "string \<Rightarrow> attempt_phase \<Rightarrow> response option" where
  "settled_response k p =
     (case p of
        AttemptDone j \<Rightarrow> Some (JobResponse j 202)
      | AttemptFailed (RetryUnavailable reason) \<Rightarrow> Some (retry_unavailable_response k reason)
      | AttemptFailed e \<Rightarrow> Some (ErrorResponse ''job_retry_failed''
          (''Retry '' @ k @ '' could not be created: '' @ failure_text e) 500)
      | _ \<Rightarrow> None)"

text \<open>A request resumes when its attempt has settled; the first one to resume clears the pending entry.\<close>

definition resume_request :: "nat \<Rightarrow> 'd retry_server \<Rightarrow> 'd retry_server" where
  "resume_request i s =
     (if i < length (rt_waiting s) \<and> rt_waiting s ! i < length (rt_attempts s)
      then
        (let n = rt_waiting s ! i; a = rt_attempts s ! n; k = at_source a in
         case settled_response k (at_phase a) of
           None \<Rightarrow> s
         | Some answer \<Rightarrow>
             respond answer (s\<lparr>rt_waiting := take i (rt_waiting s) @ drop (Suc i) (rt_waiting s),
               rt_pending := (if oget (rt_pending s) k = Some n then odel k (rt_pending s) else rt_pending s)\<rparr>))
      else s)"

fun retry_step :: "'d server_env \<Rightarrow> retry_event \<Rightarrow> 'd retry_server \<Rightarrow> 'd retry_server" where
  "retry_step env (RequestRetry param provider) s = request_retry env param provider s"
| "retry_step env (SourceRead n failure) s =
     (if n < length (rt_attempts s) \<and> at_phase (rt_attempts s ! n) = ReadingSource
      then (case failure of
              Some e \<Rightarrow> set_phase n (AttemptFailed (Failure e)) s
            | None \<Rightarrow>
                (let t = rt_server s in
                 set_phase n (PreparingWorkspace (sx_uuid env (sv_fresh t))) (s\<lparr>rt_server := t\<lparr>sv_fresh := Suc (sv_fresh t)\<rparr>\<rparr>)))
      else s)"
| "retry_step env (WorkspaceReady n failure) s =
     (if n < length (rt_attempts s)
      then (case at_phase (rt_attempts s ! n) of PreparingWorkspace k \<Rightarrow> workspace_ready env n failure k s | _ \<Rightarrow> s)
      else s)"
| "retry_step env (WorkspaceDiscarded n) s =
     (if n < length (rt_attempts s)
      then (case at_phase (rt_attempts s ! n) of Discarding k e \<Rightarrow> set_phase n (AttemptFailed e) s | _ \<Rightarrow> s)
      else s)"
| "retry_step env (ResumeRequest i) s = resume_request i s"
| "retry_step env (OtherCode c) s = s\<lparr>rt_server := perform_server_call env c (rt_server s)\<rparr>"

definition retry_run :: "'d server_env \<Rightarrow> retry_event list \<Rightarrow> 'd retry_server \<Rightarrow> 'd retry_server" where
  "retry_run env events s = foldl (\<lambda>s e. retry_step env e s) s events"

section \<open>Active retries\<close>

definition active_retry :: "string \<Rightarrow> job_record \<Rightarrow> bool" where
  "active_retry k r \<longleftrightarrow> jr_retry_source r = Some k \<and> \<not> job_is_complete r"

definition active_retries :: "string \<Rightarrow> (string, job_record) omap \<Rightarrow> nat" where
  "active_retries k m = length (filter (active_retry k) (map snd m))"

lemma active_retries_simps [simp]:
  "active_retries k [] = 0"
  "active_retries k ((j, r) # m) = (if active_retry k r then Suc (active_retries k m) else active_retries k m)"
  by (simp_all add: active_retries_def)

lemma active_retries_put: "active_retries k (oput j r m) \<le> Suc (active_retries k m)"
  by (induction m) auto

lemma active_retries_put_inactive: "\<not> active_retry k r \<Longrightarrow> active_retries k (oput j r m) \<le> active_retries k m"
  by (induction m) auto

lemma active_retries_replace:
  "oget m j = Some r \<Longrightarrow> (active_retry k r' \<Longrightarrow> active_retry k r) \<Longrightarrow> active_retries k (oput j r' m) \<le> active_retries k m"
  by (induction m) (auto split: if_splits)

lemma active_retries_del: "active_retries k (odel j m) \<le> active_retries k m"
proof (induction m)
  case (Cons x m)
  obtain j' r where "x = (j', r)" by (cases x)
  with Cons show ?case by (simp add: odel_def le_SucI)
qed (simp add: odel_def)

lemma active_retries_map:
  "(\<And>r. active_retry k (f r) = active_retry k r) \<Longrightarrow> active_retries k (map (\<lambda>(j, r). (j, f r)) m) = active_retries k m"
  by (induction m) auto

lemma no_active_retry:
  "get_active_retry_for_source k s = None \<longleftrightarrow> active_retries k (st_jobs s) = 0"
  by (auto simp: get_active_retry_for_source_def active_retries_def active_retry_def find_None_iff filter_empty_conv)

section \<open>One active retry\<close>

text \<open>Other code registers no retries, and makes no complete job active again.\<close>

fun no_retry_call :: "job_call \<Rightarrow> bool" where
  "no_retry_call (CallCreate now i) = (ci_retry_source i = None)"
| "no_retry_call (CallRestore i) = (ci_retry_source (ri_create i) = None)"
| "no_retry_call (CallRefresh i) = (ci_retry_source (ri_create i) = None \<and> ri_is_complete i)"
| "no_retry_call (CallUpdate k u) = (SetIsComplete False \<notin> set u)"
| "no_retry_call (CallProject k u) = (SetIsComplete False \<notin> set u)"
| "no_retry_call c = True"

fun no_retry_event :: "retry_event \<Rightarrow> bool" where
  "no_retry_event (OtherCode (OnJobs c)) = no_retry_call c"
| "no_retry_event e = True"

definition in_progress :: "attempt \<Rightarrow> bool" where
  "in_progress a \<longleftrightarrow> at_phase a = ReadingSource \<or> (\<exists>k. at_phase a = PreparingWorkspace k)"

text \<open>An attempt in progress is the pending one of its source, which then has no active retry.\<close>

definition attempts_ok :: "(string, nat) omap \<Rightarrow> attempt list \<Rightarrow> (string, job_record) omap \<Rightarrow> bool" where
  "attempts_ok pending attempts jobs \<longleftrightarrow>
     (\<forall>k. active_retries k jobs \<le> 1)
     \<and> (\<forall>n < length attempts. in_progress (attempts ! n) \<longrightarrow>
          oget pending (at_source (attempts ! n)) = Some n \<and> active_retries (at_source (attempts ! n)) jobs = 0)
     \<and> (\<forall>k n. oget pending k = Some n \<longrightarrow> n < length attempts)"

definition retries_ok :: "'d retry_server \<Rightarrow> bool" where
  "retries_ok s \<longleftrightarrow> attempts_ok (rt_pending s) (rt_attempts s) (st_jobs (sv_jobs (rt_server s)))"

lemma attempts_ok_jobs:
  assumes "attempts_ok pending attempts jobs" and "\<And>k. active_retries k jobs' \<le> active_retries k jobs"
  shows "attempts_ok pending attempts jobs'"
proof -
  have "active_retries k jobs = 0 \<Longrightarrow> active_retries k jobs' = 0" for k using assms(2) [of k] by simp
  moreover have "active_retries k jobs \<le> 1 \<Longrightarrow> active_retries k jobs' \<le> 1" for k using assms(2) [of k] by simp
  ultimately show ?thesis using assms(1) by (simp add: attempts_ok_def)
qed

lemma assign_incomplete:
  "SetIsComplete False \<notin> set u \<Longrightarrow> \<not> job_is_complete (assign_job u r) \<Longrightarrow> \<not> job_is_complete r"
  unfolding assign_job_def
proof (induction u arbitrary: r)
  case (Cons f u)
  from Cons.IH [of "assign_job_field f r"] Cons.prems show ?case by (cases f) auto
qed simp

lemma altered_inactive:
  assumes "alters c k r r'" and "no_retry_call c" and "active_retry j r'"
  shows "active_retry j r"
  using assms
  by (cases c) (auto simp: active_retry_def refreshed_job_record_def Let_def dest: assign_incomplete)

lemma entered_inactive: "enters c r \<Longrightarrow> no_retry_call c \<Longrightarrow> \<not> active_retry j r"
  by (cases c) (auto simp: active_retry_def new_job_record_def restored_job_record_def)

lemma log_extended_active: "active_retry k (log_extended p r) = active_retry k r"
  by (simp add: log_extended_def active_retry_def)

lemma no_retry_call_active:
  "no_retry_call c \<Longrightarrow> active_retries k (st_jobs (perform_job_call env c s)) \<le> active_retries k (st_jobs s)"
  using jobs_step [of c s env] unfolding jobs_change_def
  by (elim disjE exE conjE)
    (simp_all add: active_retries_del active_retries_map log_extended_active active_retries_put_inactive entered_inactive
      active_retries_replace altered_inactive)

text \<open>What the events do to the attempts.\<close>

lemma set_phase_settled:
  assumes "retries_ok s" and "n < length (rt_attempts s)" and "\<not> in_progress ((rt_attempts s ! n)\<lparr>at_phase := p\<rparr>)"
  shows "retries_ok (set_phase n p s)"
  using assms by (auto simp: retries_ok_def attempts_ok_def set_phase_def nth_list_update)

lemma set_phase_onward:
  assumes "retries_ok s" and "n < length (rt_attempts s)" and "in_progress (rt_attempts s ! n)"
  shows "retries_ok (set_phase n p s)"
  using assms by (auto simp: retries_ok_def attempts_ok_def set_phase_def nth_list_update)

lemma retries_ok_server:
  assumes "retries_ok s" and "\<And>k. active_retries k (st_jobs (sv_jobs t)) \<le> active_retries k (st_jobs (sv_jobs (rt_server s)))"
  shows "retries_ok (s\<lparr>rt_server := t\<rparr>)"
  using assms unfolding retries_ok_def by (auto intro: attempts_ok_jobs)

lemma respond_ok [simp]: "retries_ok (respond a s) = retries_ok s" "retries_ok (await_attempt n s) = retries_ok s"
  by (simp_all add: respond_def await_attempt_def retries_ok_def)

lemma start_attempt_ok:
  assumes "retries_ok s" and "oget (rt_pending s) k = None" and "active_retries k (st_jobs (sv_jobs (rt_server s))) = 0"
  shows "retries_ok (start_attempt k source use_openai s)"
proof -
  have "at_source (rt_attempts s ! n) \<noteq> k" if "n < length (rt_attempts s)" "in_progress (rt_attempts s ! n)" for n
    using assms(1,2) that by (auto simp: retries_ok_def attempts_ok_def)
  with assms show ?thesis
    by (auto simp: retries_ok_def attempts_ok_def start_attempt_def Let_def nth_append less_Suc_eq)
qed

lemma join_attempt_ok: "retries_ok s \<Longrightarrow> retries_ok (join_attempt k source use_openai s)"
  by (auto simp: join_attempt_def no_active_retry [symmetric] split: option.splits intro!: start_attempt_ok)

lemma retain_provider_active:
  assumes "retain_provider env k source use_openai t = (x, t')"
  shows "active_retries j (st_jobs (sv_jobs t')) \<le> active_retries j (st_jobs (sv_jobs t))"
proof (cases "rs_use_openai source")
  case None
  let ?c = "CallUpdate k [SetUseOpenai (Some use_openai)]"
  have "sv_jobs t' = perform_job_call (sx_jobs env) ?c (sv_jobs t)"
    using assms None
    by (auto simp: retain_provider_def on_jobs_def next_do_def bind_def return_def split: prod.splits sum.splits)
  then show ?thesis using no_retry_call_active [of ?c] by simp
next
  case (Some p)
  with assms show ?thesis by (simp add: retain_provider_def return_def)
qed

lemma request_retry_ok: "retries_ok s \<Longrightarrow> retries_ok (request_retry env param provider s)"
proof -
  assume s: "retries_ok s"
  have "retries_ok (s\<lparr>rt_server := t\<rparr>)" if "retain_provider env k source u (rt_server s) = (x, t)" for k source u x t
    by (rule retries_ok_server [OF s retain_provider_active [OF that]])
  with s show ?thesis
    by (auto simp: request_retry_def Let_def split: option.split sum.split prod.split intro!: join_attempt_ok)
qed

lemma create_retry_active:
  assumes "create_retry env a k t = (x, t')"
  shows "active_retries j (st_jobs (sv_jobs t'))
    \<le> active_retries j (st_jobs (sv_jobs t)) + (case x of Inl e \<Rightarrow> 0 | Inr r \<Rightarrow> if j = at_source a then 1 else 0)"
proof -
  obtain now i y v where i: "ci_retry_source i = Some (at_source a)" and v: "create_job (sx_jobs env) now i (sv_jobs t) = (y, v)"
    and t': "x = failed_as y" "sv_jobs t' = v"
    using assms
    by (force simp: create_retry_def Let_def now_of_def on_jobs_def bind_def gets_def next_do_def modify_def return_def
        split: prod.splits sum.splits)
  show ?thesis
  proof (cases y)
    case (Inl e)
    with created_jobs [OF v] t' show ?thesis by simp
  next
    case (Inr r)
    with created_jobs [OF v] obtain b c d where put: "st_jobs v = oput (ci_job_id i) (new_job_record i now b c d) (st_jobs (sv_jobs t))"
      by auto
    have "active_retry j (new_job_record i now b c d) \<longleftrightarrow> j = at_source a"
      by (auto simp: active_retry_def new_job_record_def i)
    with put t' Inr show ?thesis
      by (auto simp: active_retries_put active_retries_put_inactive)
  qed
qed

lemma announce_retry_jobs: "st_jobs (sv_jobs (snd (announce_retry env a k t))) = st_jobs (sv_jobs t)"
proof -
  let ?P = "\<lambda>s. st_jobs (sv_jobs s) = st_jobs (sv_jobs t)"
  have "keeps ?P (on_jobs (begin_append_log k uuid now stream message))" for uuid now stream message
    by (auto simp: keeps_def on_jobs_def case_prod_beta quiet_jobs)
  then have "keeps ?P (announce_retry env a k)"
    unfolding announce_retry_def random_uuid_def now_of_def launch_job_runner_def launch_def
    by (intro keeps_bind keeps_next_do keeps_catch keeps_gets keeps_return keeps_modify) simp_all
  then show ?thesis by (simp add: keeps_def)
qed

lemma workspace_ready_ok:
  assumes s: "retries_ok s" and n: "n < length (rt_attempts s)" and phase: "at_phase (rt_attempts s ! n) = PreparingWorkspace k"
  shows "retries_ok (workspace_ready env n failure k s)"
proof (cases "failure = None \<and> isl (require_retry_source (at_source (rt_attempts s ! n)) (sv_jobs (rt_server s))) = False")
  case False
  with s n show ?thesis
    by (auto simp: workspace_ready_def Let_def in_progress_def split: option.splits sum.splits intro!: set_phase_settled)
next
  case True
  then obtain source where found: "require_retry_source (at_source (rt_attempts s ! n)) (sv_jobs (rt_server s)) = Inr source"
    by (cases "require_retry_source (at_source (rt_attempts s ! n)) (sv_jobs (rt_server s))") auto
  let ?a = "rt_attempts s ! n"
  obtain x t where x: "create_retry env ?a k (rt_server s) = (x, t)" by fastforce
  note count = create_retry_active [OF x]
  show ?thesis
  proof (cases x)
    case (Inl e)
    with count have "retries_ok (s\<lparr>rt_server := t\<rparr>)" using retries_ok_server [OF s] by simp
    with True found x Inl n show ?thesis
      by (auto simp: workspace_ready_def Let_def in_progress_def intro!: set_phase_settled)
  next
    case (Inr j)
    let ?t = "s\<lparr>rt_server := snd (announce_retry env ?a k t)\<rparr>"
    have own: "in_progress ?a" using phase by (simp add: in_progress_def)
    have jobs: "active_retries i (st_jobs (sv_jobs (rt_server ?t)))
        \<le> active_retries i (st_jobs (sv_jobs (rt_server s))) + (if i = at_source ?a then 1 else 0)" for i
      using count [of i] Inr by (simp add: announce_retry_jobs)
    have pending: "oget (rt_pending s) (at_source (rt_attempts s ! m)) = Some m"
      "active_retries (at_source (rt_attempts s ! m)) (st_jobs (sv_jobs (rt_server s))) = 0"
      if "m < length (rt_attempts s)" "in_progress (rt_attempts s ! m)" for m
      using s that by (auto simp: retries_ok_def attempts_ok_def)
    have most: "active_retries i (st_jobs (sv_jobs (rt_server ?t))) \<le> 1" for i
      using jobs [of i] pending(2) [OF n own] s by (cases "i = at_source ?a") (auto simp: retries_ok_def attempts_ok_def intro: le_trans)
    have others: "active_retries (at_source (rt_attempts s ! m)) (st_jobs (sv_jobs (rt_server ?t))) = 0"
      if "m < length (rt_attempts s)" "in_progress (rt_attempts s ! m)" "m \<noteq> n" for m
    proof -
      have "at_source (rt_attempts s ! m) \<noteq> at_source ?a"
        using pending(1) [OF that(1,2)] pending(1) [OF n own] that(3) by auto
      with jobs [of "at_source (rt_attempts s ! m)"] pending(2) [OF that(1,2)] show ?thesis by simp
    qed
    have "retries_ok (set_phase n (AttemptDone j) ?t)"
      unfolding retries_ok_def attempts_ok_def
    proof (intro conjI allI impI)
      fix m
      assume "m < length (rt_attempts (set_phase n (AttemptDone j) ?t))" "in_progress (rt_attempts (set_phase n (AttemptDone j) ?t) ! m)"
      then have m: "m \<noteq> n" "m < length (rt_attempts s)" "in_progress (rt_attempts s ! m)"
        by (cases "m = n"; simp add: set_phase_def in_progress_def)+
      then show "oget (rt_pending (set_phase n (AttemptDone j) ?t)) (at_source (rt_attempts (set_phase n (AttemptDone j) ?t) ! m)) = Some m"
        "active_retries (at_source (rt_attempts (set_phase n (AttemptDone j) ?t) ! m))
           (st_jobs (sv_jobs (rt_server (set_phase n (AttemptDone j) ?t)))) = 0"
        using pending(1) [OF m(2,3)] others [OF m(2,3,1)] by (simp_all add: set_phase_def)
    qed (use most s in \<open>auto simp: set_phase_def retries_ok_def attempts_ok_def\<close>)
    with True found x Inr show ?thesis by (simp add: workspace_ready_def Let_def)
  qed
qed

lemma attempts_ok_settled:
  assumes "attempts_ok pending attempts jobs" and "\<not> in_progress (attempts ! n)"
    and "oget pending k = Some n"
  shows "attempts_ok (odel k pending) attempts jobs"
  unfolding attempts_ok_def
proof (intro conjI allI impI)
  fix m
  assume "m < length attempts" "in_progress (attempts ! m)"
  with assms have "oget pending (at_source (attempts ! m)) = Some m" "m \<noteq> n"
    by (auto simp: attempts_ok_def)
  with assms(3) show "oget (odel k pending) (at_source (attempts ! m)) = Some m" by auto
qed (use assms in \<open>auto simp: attempts_ok_def split: if_splits\<close>)

lemma resume_request_ok: "retries_ok s \<Longrightarrow> retries_ok (resume_request i s)"
proof (cases "i < length (rt_waiting s) \<and> rt_waiting s ! i < length (rt_attempts s)")
  case False
  then have "resume_request i s = s" unfolding resume_request_def by (rule if_not_P)
  moreover assume "retries_ok s"
  ultimately show ?thesis by simp
next
  case True
  assume s: "retries_ok s"
  let ?n = "rt_waiting s ! i"
  show ?thesis
  proof (cases "settled_response (at_source (rt_attempts s ! ?n)) (at_phase (rt_attempts s ! ?n))")
    case None
    with True s show ?thesis by (simp add: resume_request_def Let_def)
  next
    case (Some answer)
    then have idle: "\<not> in_progress (rt_attempts s ! ?n)" by (auto simp: in_progress_def settled_response_def)
    let ?k = "at_source (rt_attempts s ! ?n)"
    from idle True Some s show ?thesis
      by (simp add: resume_request_def Let_def retries_ok_def respond_def attempts_ok_settled)
  qed
qed

lemma retry_step_ok: "retries_ok s \<Longrightarrow> no_retry_event e \<Longrightarrow> retries_ok (retry_step env e s)"
proof (cases e)
  case (SourceRead n failure)
  moreover assume "retries_ok s"
  ultimately show ?thesis
    by (auto simp: Let_def in_progress_def retries_ok_server split: option.split intro!: set_phase_settled set_phase_onward)
next
  case (WorkspaceReady n failure)
  moreover assume "retries_ok s"
  ultimately show ?thesis by (auto split: attempt_phase.split intro: workspace_ready_ok)
next
  case (WorkspaceDiscarded n)
  moreover assume "retries_ok s"
  ultimately show ?thesis by (auto simp: in_progress_def split: attempt_phase.split intro!: set_phase_settled)
next
  case (OtherCode c)
  moreover assume "retries_ok s" "no_retry_event e"
  ultimately show ?thesis by (cases c) (auto intro!: retries_ok_server no_retry_call_active)
qed (auto intro: request_retry_ok resume_request_ok)

lemma retry_events_ok: "retries_ok s \<Longrightarrow> list_all no_retry_event events \<Longrightarrow> retries_ok (retry_run env events s)"
  unfolding retry_run_def by (induction events arbitrary: s) (simp_all add: retry_step_ok)


text \<open>Two requests for a failed job, and a third after the retry was created.\<close>

definition failed_server :: "unit server" where
  "failed_server = (sample_server [])\<lparr>sv_jobs := (empty_job_store ())
     \<lparr>st_jobs := [(''a'', complete_record\<lparr>job_display_status := JobFailed\<rparr>)], st_next := 3\<rparr>\<rparr>"

definition sample_requests :: "retry_event list" where
  "sample_requests = [RequestRetry (Some ''a'') None, RequestRetry (Some ''a'') None, SourceRead 0 None, WorkspaceReady 0 None,
     ResumeRequest 0, RequestRetry (Some ''a'') None, OtherCode (OnJobs (CallCancel ''a''))]"


end
