(* ===== verification/Api_Runners.thy ===== *)
theory Api_Runners
  imports Job_Retry
begin

text \<open>
  Which runners the requests start. A request that is refused starts none; an accepted one starts
  what it was accepted for, once, whatever other code does while the handler waits.
\<close>

section \<open>Code that starts no runner\<close>

definition launched :: "launched_runner list \<Rightarrow> 'd server \<Rightarrow> bool" where
  "launched l s \<longleftrightarrow> sv_launched s = l"

lemma launched_calls [simp]: "sv_launched (perform_server_calls env cs s) = sv_launched s"
proof (induction cs arbitrary: s)
  case (Cons c cs)
  then show ?case by (cases c) simp_all
qed simp

lemma launched_basic [intro, simp]:
  "keeps (launched l) (on_jobs m)" "keeps (launched l) (on_runs n)" "keeps (launched l) (await env)"
  "keeps (launched l) (now_of env)" "keeps (launched l) (random_uuid env)"
  "keeps (launched l) (add_dir dir)" "keeps (launched l) (remove_dir dir)"
  by (auto simp: keeps_def on_jobs_def on_runs_def await_def now_of_def random_uuid_def add_dir_def remove_dir_def
      bind_def gets_def next_do_def modify_def return_def launched_def Let_def split: prod.split)

lemmas quiet_rules = keeps_bind keeps_next_do keeps_catch keeps_if keeps_option keeps_case_sum keeps_return keeps_throw
  keeps_gets launched_basic

lemma launched_steps [intro, simp]:
  "keeps (launched l) (append_run_log_best_effort env k message)"
  "keeps (launched l) (settle_job_provider env j job p)" "keeps (launched l) (settle_run_provider env m p)"
  "keeps (launched l) (append_log_awaited env k message)" "keeps (launched l) (discard_workspace env dir)"
  "keeps (launched l) (abandon env dir phase detail)"
  unfolding append_run_log_best_effort_def settle_job_provider_def settle_run_provider_def append_log_awaited_def
    discard_workspace_def abandon_def
  by (intro quiet_rules)+

lemma launched_workspace [intro, simp]: "keeps (launched l) (prepare_job_workspace env k)"
  unfolding prepare_job_workspace_def Let_def by (intro quiet_rules launched_steps)

section \<open>Contracts\<close>

text \<open>A computation that starts nothing has the contract of its result; a launch extends the list.\<close>

definition starts :: "launched_runner list \<Rightarrow> ('d, 'a) api \<Rightarrow> ('a \<Rightarrow> launched_runner list \<Rightarrow> bool) \<Rightarrow> bool" where
  "starts l m Q \<longleftrightarrow> ensures (launched l) m (\<lambda>a t. \<exists>new. Q a new \<and> launched (l @ new) t) (\<lambda>_ _. True)"

lemma starts_quiet:
  assumes "keeps (launched l) m" and "\<And>a. starts l (f a) Q"
  shows "starts l (bind m f) Q"
proof -
  have "ensures (launched l) m (\<lambda>_. launched l) (\<lambda>_ _. True)"
    by (rule ensures_weaken [OF ensures_keeps [OF assms(1)]]) simp_all
  then show ?thesis using assms(2) unfolding starts_def by (rule ensures_bind)
qed

lemma starts_next: "keeps (launched l) m \<Longrightarrow> starts l n Q \<Longrightarrow> starts l (next_do m n) Q"
  unfolding next_do_def by (rule starts_quiet)

lemma starts_return: "Q a [] \<Longrightarrow> starts l (return a) Q"
  unfolding starts_def by (rule ensures_return) (auto intro: exI [of _ "[]"])

lemma starts_throw: "starts l (throw e) Q"
  unfolding starts_def by (rule ensures_throw) simp

lemma starts_launch: "(\<And>l. starts l n (\<lambda>a new. Q a (r # new))) \<Longrightarrow> starts l (next_do (launch r) n) Q"
proof -
  assume n: "\<And>l. starts l n (\<lambda>a new. Q a (r # new))"
  have "ensures (launched l) (launch r) (\<lambda>_. launched (l @ [r])) (\<lambda>_ _. True)"
    unfolding launch_def by (rule ensures_modify) (simp add: launched_def)
  from ensures_next_do [OF this n [unfolded starts_def]] show ?thesis
    unfolding starts_def by (rule ensures_weaken) auto
qed

lemma starts_bind:
  "starts l m R \<Longrightarrow> (\<And>a new l'. R a new \<Longrightarrow> starts l' (f a) (\<lambda>b more. Q b (new @ more))) \<Longrightarrow> starts l (bind m f) Q"
proof (unfold starts_def, rule ensuresI, goal_cases)
  case (1 s b t)
  then obtain a u where u: "m s = (Inr a, u)" "f a u = (Inr b, t)" by (auto simp: bind_def split: prod.splits sum.splits)
  from ensures_returned [OF 1(1,3) u(1)] obtain new where new: "R a new" "launched (l @ new) u" by blast
  from ensures_returned [OF 1(2) [OF new(1)] new(2) u(2)] show ?case by (metis append.assoc)
qed simp

lemma starts_if: "(b \<Longrightarrow> starts l m Q) \<Longrightarrow> (\<not> b \<Longrightarrow> starts l n Q) \<Longrightarrow> starts l (if b then m else n) Q"
  by simp

lemma starts_option:
  "(v = None \<Longrightarrow> starts l m Q) \<Longrightarrow> (\<And>x. v = Some x \<Longrightarrow> starts l (f x) Q) \<Longrightarrow> starts l (case v of None \<Rightarrow> m | Some x \<Rightarrow> f x) Q"
  by (cases v) simp_all

lemma starts_sum:
  "(\<And>e. v = Inl e \<Longrightarrow> starts l (f e) Q) \<Longrightarrow> (\<And>x. v = Inr x \<Longrightarrow> starts l (g x) Q) \<Longrightarrow> starts l (case v of Inl e \<Rightarrow> f e | Inr x \<Rightarrow> g x) Q"
  by (cases v) simp_all

lemma starts_result: "starts l m Q \<Longrightarrow> launched l s \<Longrightarrow> m s = (Inr a, t) \<Longrightarrow> \<exists>new. Q a new \<and> sv_launched t = l @ new"
  unfolding starts_def by (drule (2) ensures_returned) (auto simp: launched_def)

section \<open>Model runs\<close>

fun launch_starts :: "launch_result \<Rightarrow> launched_runner list \<Rightarrow> bool" where
  "launch_starts (RunLaunched m) new = (\<exists>k p. new = [ModelRunner k p])"
| "launch_starts r new = (new = [])"

lemma starts_runner:
  "(\<And>l. starts l n (\<lambda>a new. Q a (ModelRunner k p # new))) \<Longrightarrow> starts l (next_do (launch_model_runner k p) n) Q"
  unfolding launch_model_runner_def by (rule starts_launch)

lemma starts_prod: "(\<And>a b. v = (a, b) \<Longrightarrow> starts l (f a b) Q) \<Longrightarrow> starts l (case v of (a, b) \<Rightarrow> f a b) Q"
  by (cases v) simp

lemma starts_outcomes:
  "(\<And>m. starts l (f m) Q) \<Longrightarrow> (\<And>m. starts l (g m) Q) \<Longrightarrow>
     starts l (case c of RunCreated m \<Rightarrow> f m | RunAlreadyExists m \<Rightarrow> g m) Q"
  "(\<And>m b. starts l (f' m b) Q) \<Longrightarrow> (\<And>m. starts l (g m) Q) \<Longrightarrow> (\<And>m. starts l (h m) Q) \<Longrightarrow> starts l n Q \<Longrightarrow>
     starts l (case x of RunExtended m b \<Rightarrow> f' m b | InvalidEffort m \<Rightarrow> g m | ExtendBusy m \<Rightarrow> h m | ExtendNotFound \<Rightarrow> n) Q"
  "(\<And>m. starts l (f m) Q) \<Longrightarrow> (\<And>m. starts l (g m) Q) \<Longrightarrow> (\<And>m. starts l (h m) Q) \<Longrightarrow> starts l n Q \<Longrightarrow>
     starts l (case r of RunRetried m \<Rightarrow> f m | RetryBusy m \<Rightarrow> g m | NotRetryable m \<Rightarrow> h m | RetryNotFound \<Rightarrow> n) Q"
  by (auto split: create_run_result.split extend_result.split retry_result.split)

lemmas start_rules = starts_if starts_option starts_sum starts_prod starts_outcomes starts_runner starts_quiet starts_next
  starts_return starts_throw keeps_gets launched_basic launched_steps

lemma launch_model_run_starts: "starts l (launch_model_run env p j dir effort) launch_starts"
  unfolding launch_model_run_def by (intro start_rules) simp_all

text \<open>What a request to the model run API may start, by its answer: one runner of a model run when it
  is accepted, and nothing otherwise; a cancellation starts nothing, and an extension only when no
  execution is active.\<close>

definition one_runner :: "launched_runner list \<Rightarrow> bool" where
  "one_runner new \<longleftrightarrow> (\<exists>k p. new = [ModelRunner k p])"

definition answers :: "bool \<Rightarrow> bool \<Rightarrow> response \<Rightarrow> launched_runner list \<Rightarrow> bool" where
  "answers may must a new \<longleftrightarrow> (if status_of a = 202 then may \<and> one_runner new \<or> \<not> must \<and> new = [] else new = [])"

lemma answers_refusal [simp]: "status_of a \<noteq> 202 \<Longrightarrow> answers may must a [] \<longleftrightarrow> True"
  by (simp add: answers_def)

lemma refusal_status [simp]:
  "status_of job_id_required = 400" "status_of (job_missing k) = 404" "status_of job_deleting_response = 409"
  "status_of run_missing = 404" "status_of run_exists = 409" "status_of phase_busy = 409"
  "status_of (invalid_effort message) = 400" "status_of run_not_retryable = 409"
  by (simp_all add: job_id_required_def job_missing_def job_deleting_response_def run_missing_def run_exists_def
      phase_busy_def invalid_effort_def run_not_retryable_def)

lemma refusal_starts: "launch_starts r new \<Longrightarrow> answers True True (launch_refusal j r) new"
  by (cases r) (auto simp: answers_def one_runner_def)

lemma create_starts: "starts l (create_model_run_request env param provider body) (answers True True)"
  unfolding create_model_run_request_def Let_def
  by (intro starts_bind [OF launch_model_run_starts] start_rules) (simp_all add: refusal_starts)

lemma restarted_starts:
  fixes f :: "'d server \<Rightarrow> model_run option"
  shows "starts l (next_do (if b then launch_model_runner k p else return ())
     (bind (gets f) (\<lambda>m. return (ModelRunResponse m 202)))) (answers True False)"
proof (cases b rule: bool.exhaust)
  case True
  show ?thesis unfolding True if_True by (intro start_rules) (simp add: answers_def one_runner_def)
next
  case False
  show ?thesis unfolding False if_False by (intro start_rules) (simp_all add: answers_def)
qed

lemma extend_starts: "starts l (extend_model_run_request env param provider body) (answers True False)"
  unfolding extend_model_run_request_def extend_checked_def Let_def
  by (intro restarted_starts start_rules) simp_all

lemma retry_starts: "starts l (retry_model_run_request env param provider) (answers True True)"
  unfolding retry_model_run_request_def Let_def
  by (intro start_rules) (simp_all add: answers_def one_runner_def)

lemma cancel_starts:
  "starts l (cancel_model_run_request env param) (answers False False)"
  "starts l (get_model_run_request param) (answers False False)"
  unfolding cancel_model_run_request_def get_model_run_request_def
  by (intro start_rules; simp add: answers_def split: option.split)+


section \<open>Jobs\<close>

fun creation_starts :: "response \<Rightarrow> launched_runner list \<Rightarrow> bool" where
  "creation_starts (CreatedResponse j m) new =
     (\<exists>models k instructions p. new = models @ [JobRunner k instructions p] \<and> (if m = None then models = [] else one_runner models))"
| "creation_starts r new = (new = [])"

definition no_creation :: "response \<Rightarrow> bool" where
  "no_creation a \<longleftrightarrow> (\<forall>new. creation_starts a new = (new = []))"

lemma no_creation_simps [simp]:
  "no_creation (ErrorResponse code message status)" "no_creation (job_missing j)" "no_creation run_exists"
  "no_creation job_deleting_response" "no_creation invalid_model_effort"
  by (simp_all add: no_creation_def job_missing_def run_exists_def job_deleting_response_def invalid_model_effort_def)

lemma no_creation_starts: "no_creation a \<Longrightarrow> creation_starts a []"
  by (simp add: no_creation_def)

definition modelled :: "response + model_run option \<Rightarrow> launched_runner list \<Rightarrow> bool" where
  "modelled r new \<longleftrightarrow> (case r of Inl a \<Rightarrow> no_creation a \<and> new = [] | Inr m \<Rightarrow> if m = None then new = [] else one_runner new)"

lemma modelled_launch:
  "launch_starts r new \<Longrightarrow> modelled (case r of RunLaunched m \<Rightarrow> Inr (Some m) | refused \<Rightarrow> Inl (launch_refusal k refused)) new"
  by (cases r) (auto simp: modelled_def one_runner_def)

lemma model_part_starts:
  "starts l (case model_effort of None \<Rightarrow> return (Inr None)
     | Some effort \<Rightarrow> bind (launch_model_run env p k dir effort)
         (\<lambda>r. return (case r of RunLaunched m \<Rightarrow> Inr (Some m) | refused \<Rightarrow> Inl (launch_refusal k refused)))) modelled"
  by (intro starts_option starts_bind [OF launch_model_run_starts] starts_return)
    (simp_all add: modelled_def [of "Inr None"] modelled_launch)

lemma runner_part_starts:
  assumes "modelled outcome models"
  shows "starts l (case outcome of Inl refusal \<Rightarrow> return refusal
     | Inr m \<Rightarrow> next_do (launch_job_runner k instructions p) (return (CreatedResponse j m)))
     (\<lambda>a new. creation_starts a (models @ new))"
proof (cases outcome)
  case (Inl refusal)
  with assms show ?thesis by (auto simp: modelled_def intro!: starts_return no_creation_starts)
next
  case (Inr m)
  with assms have "creation_starts (CreatedResponse j m) (models @ [JobRunner k instructions p])"
    by (auto simp: modelled_def)
  then show ?thesis unfolding Inr launch_job_runner_def sum.case by (intro starts_launch starts_return)
qed

text \<open>An attempted step: what it throws becomes a refusal.\<close>

definition attempted :: "response + 'a \<Rightarrow> launched_runner list \<Rightarrow> bool" where
  "attempted r new \<longleftrightarrow> new = [] \<and> (case r of Inl a \<Rightarrow> no_creation a | Inr _ \<Rightarrow> True)"

lemma starts_attempt:
  assumes "keeps (launched l) m" and "\<And>x. starts l (h x) attempted"
  shows "starts l (catch (bind m (\<lambda>a. return (Inr a))) h) attempted"
proof -
  have "ensures (launched l) (bind m (\<lambda>a. return (Inr a))) (\<lambda>r t. \<exists>new. attempted r new \<and> launched (l @ new) t) (\<lambda>_. launched l)"
    by (intro ensures_bind [OF ensures_keeps [OF assms(1)]] ensures_return) (simp add: attempted_def)
  from ensures_catch [OF this assms(2) [unfolded starts_def]] show ?thesis unfolding starts_def .
qed

lemma starts_settled:
  fixes m :: "('d, response + 'a) api"
  assumes "starts l m attempted" and "\<And>a l'. starts l' (f a) creation_starts"
  shows "starts l (bind m (\<lambda>r. case r of Inl refusal \<Rightarrow> return refusal | Inr a \<Rightarrow> f a)) creation_starts"
  using assms(1)
proof (rule starts_bind)
  fix r :: "response + 'a" and new l'
  assume r: "attempted r new"
  show "starts l' (case r of Inl refusal \<Rightarrow> return refusal | Inr a \<Rightarrow> f a) (\<lambda>b more. creation_starts b (new @ more))"
    using r assms(2) by (cases r) (auto simp: attempted_def intro!: starts_return no_creation_starts)
qed

lemma register_starts: "starts l (register_job env k u p instructions model_effort dir) creation_starts"
  unfolding register_job_def
  by (intro starts_quiet [OF launched_basic(4)] starts_settled starts_attempt starts_quiet [OF launched_steps(5)]
      starts_next keeps_catch starts_bind [OF model_part_starts] runner_part_starts launched_basic launched_steps
      keeps_return starts_return)
    (simp add: attempted_def)

lemma creation_request_starts: "starts l (create_job_from_request env form) creation_starts"
  unfolding create_job_from_request_def Let_def
  by (intro starts_settled starts_attempt register_starts start_rules quiet_rules launched_workspace)
    (simp_all add: attempted_def no_creation_starts)

text \<open>The creation of a job starts the runner of the job exactly when it is answered with the job, and
  before it the runner of a model run exactly when the answer has one; every refusal, and every
  failure of the workspace or the registration, starts nothing.\<close>

theorem creation_starts_its_runners:
  "case create_job_from_request env form s of
     (Inl e, t) \<Rightarrow> True
   | (Inr a, t) \<Rightarrow>
       (\<exists>new. sv_launched t = sv_launched s @ new \<and>
         (case a of
            CreatedResponse j m \<Rightarrow>
              (\<exists>models k instructions p. new = models @ [JobRunner k instructions p]
                \<and> (if m = None then models = [] else one_runner models))
          | _ \<Rightarrow> new = []))"
proof -
  have "launched (sv_launched s) s" by (simp add: launched_def)
  note started = starts_result [OF creation_request_starts this]
  show ?thesis
  proof (cases "create_job_from_request env form s")
    case (Pair x t)
    show ?thesis
    proof (cases x)
      case (Inr a)
      with started Pair obtain new where "creation_starts a new" "sv_launched t = sv_launched s @ new" by blast
      moreover have "creation_starts a new = (case a of
            CreatedResponse j m \<Rightarrow>
              (\<exists>models k instructions p. new = models @ [JobRunner k instructions p]
                \<and> (if m = None then models = [] else one_runner models))
          | _ \<Rightarrow> new = [])" by (cases a) simp_all
      ultimately show ?thesis unfolding Pair Inr prod.case sum.case by blast
    qed (simp add: Pair)
  qed
qed

end
