(* ===== verification/Js_Number.thy ===== *)
theory Js_Number
  imports Json "HOL-Library.Log_Nat"
begin

text \<open>
  The finite doubles of the source language as rational numbers: rounding to the nearest double,
  ties to even, the operations that round, and the text of a number, the shortest decimal that
  rounds to it. Negative zero is zero here; the code prints both alike.
\<close>

section \<open>Rounding\<close>

text \<open>The integer part of the logarithm of a positive number, from the lengths of its numerator and
  denominator.\<close>

definition log_floor :: "nat \<Rightarrow> rat \<Rightarrow> int" where
  "log_floor base x =
     (case quotient_of x of (n, d) \<Rightarrow>
        let k = int (floorlog base (nat n)) - int (floorlog base (nat d)) in
        if of_nat base powi k \<le> x then k else k - 1)"

definition round_even :: "rat \<Rightarrow> int" where
  "round_even x =
     (let f = \<lfloor>x\<rfloor>; r = x - of_int f in
      if r < 1 / 2 \<or> (r = 1 / 2 \<and> even f) then f else f + 1)"

definition ulp :: "rat \<Rightarrow> rat" where
  "ulp x = 2 powi (max (log_floor 2 \<bar>x\<bar> - 52) (- 1074))"

definition rounded :: "rat \<Rightarrow> rat" where
  "rounded x = (if x = 0 then 0 else of_int (round_even (x / ulp x)) * ulp x)"

definition to_double :: "rat \<Rightarrow> jsnum" where
  "to_double x =
     (if 2 ^ 1024 \<le> rounded x then PosInf
      else if rounded x \<le> - (2 ^ 1024) then NegInf
      else Fin (rounded x))"

definition is_double :: "rat \<Rightarrow> bool" where
  "is_double x \<longleftrightarrow> to_double x = Fin x"

text \<open>\<open>a < b\<close> of two numbers.\<close>

fun num_less :: "jsnum \<Rightarrow> jsnum \<Rightarrow> bool" where
  "num_less (Fin a) (Fin b) = (a < b)"
| "num_less NotANumber b = False"
| "num_less a NotANumber = False"
| "num_less NegInf b = (b \<noteq> NegInf)"
| "num_less a PosInf = (a \<noteq> PosInf)"
| "num_less a b = False"

section \<open>Properties of rounding\<close>

lemma log_floor_bounds:
  assumes "0 < x" and "1 < base"
  shows "of_nat base powi log_floor base x \<le> x" and "x < of_nat base powi (log_floor base x + 1)"
proof -
  obtain n d where q: "quotient_of x = (n, d)" by fastforce
  let ?b = "of_nat base :: rat"
  let ?l = "\<lambda>m. int (floorlog base (nat m))"
  have d: "0 < d" and x: "x = of_int n / of_int d" using q quotient_of_denom_pos quotient_of_div by auto
  with assms(1) have n: "0 < n" by (simp add: zero_less_divide_iff)
  have b: "1 < ?b" using assms(2) by simp
  have bounds: "?b powi (?l m - 1) \<le> of_int m" "of_int m < ?b powi ?l m" if m: "0 < m" for m
  proof -
    let ?f = "floorlog base (nat m)"
    have "0 < ?f" using m assms(2) by (simp add: floorlog_def)
    then have low: "?b powi (?l m - 1) = of_nat (base ^ (?f - 1))" by (simp add: power_int_def nat_diff_distrib)
    have high: "?b powi ?l m = of_nat (base ^ ?f)" by (simp add: power_int_def)
    have m': "of_int m = (of_nat (nat m) :: rat)" using m by simp
    from m assms(2) floorlog_bounds [of "nat m" base] have "base ^ (?f - 1) \<le> nat m" "nat m < base ^ ?f" by simp_all
    then show "?b powi (?l m - 1) \<le> of_int m" "of_int m < ?b powi ?l m"
      unfolding low high m' by (simp_all only: of_nat_le_iff of_nat_less_iff)
  qed
  let ?k = "?l n - ?l d"
  have split: "?b powi (i - j) = ?b powi i / ?b powi j" for i j using b by (simp add: power_int_diff)
  have pos: "0 < ?b powi i" for i using b by simp
  have "x < ?b powi ?l n / ?b powi (?l d - 1)"
    unfolding x using bounds [OF n] bounds [OF d] pos d n by (intro frac_less) (simp_all)
  also have "\<dots> = ?b powi (?l n - (?l d - 1))" by (simp only: split)
  also have "?l n - (?l d - 1) = ?k + 1" by simp
  finally have upper: "x < ?b powi (?k + 1)" .
  have "?k - 1 = (?l n - 1) - ?l d" by simp
  then have "?b powi (?k - 1) = ?b powi (?l n - 1) / ?b powi ?l d" by (simp only: split)
  also have "\<dots> \<le> x"
    unfolding x using bounds [OF n] bounds [OF d] pos d n by (intro frac_le) (simp_all add: less_imp_le)
  finally have lower: "?b powi (?k - 1) \<le> x" .
  show "?b powi log_floor base x \<le> x" "x < ?b powi (log_floor base x + 1)"
    using lower upper by (simp_all add: log_floor_def q Let_def)
qed

lemma round_even_le: "y \<le> of_int k \<Longrightarrow> round_even y \<le> k"
  unfolding round_even_def Let_def by (auto simp: floor_le_iff)

lemma round_even_ge: "of_int k \<le> y \<Longrightarrow> k \<le> round_even y"
proof -
  assume "of_int k \<le> y"
  then have "k \<le> \<lfloor>y\<rfloor>" by (simp add: le_floor_iff)
  then show ?thesis unfolding round_even_def Let_def by auto
qed

lemma round_even_minus: "round_even (- y) = - round_even y"
proof (cases "y = of_int \<lfloor>y\<rfloor>")
  case True
  then obtain k where "y = of_int k" by blast
  then show ?thesis by (simp add: round_even_def)
next
  case False
  then have f: "\<lfloor>- y\<rfloor> = - \<lfloor>y\<rfloor> - 1"
    by (intro floor_unique) (use floor_correct [of y] in \<open>auto simp: order_less_le\<close>)
  define r where "r = y - of_int \<lfloor>y\<rfloor>"
  have r': "- y - of_int (- \<lfloor>y\<rfloor> - 1) = 1 - r" by (simp add: r_def)
  consider "r < 1 / 2" | "r = 1 / 2" | "1 / 2 < r" by linarith
  then show ?thesis by cases (auto simp: round_even_def Let_def f r' r_def [symmetric])
qed

lemma rounded_minus: "rounded (- x) = - rounded x"
  by (simp add: rounded_def ulp_def round_even_minus)

lemma to_double_minus: "to_double v = Fin y \<Longrightarrow> to_double (- v) = Fin (- y)"
  by (auto simp: to_double_def rounded_minus split: if_splits)

text \<open>The doubles, without the bound of the largest: whole numbers of at most 53 bits, scaled.\<close>

definition grid :: "rat \<Rightarrow> bool" where
  "grid d \<longleftrightarrow> (\<exists>m e. d = of_int m * 2 powi e \<and> \<bar>m\<bar> \<le> 2 ^ 53 \<and> - 1074 \<le> e)"

lemma ulp_pos: "0 < ulp x"
  by (simp add: ulp_def)

lemma ulp_cases:
  assumes "x \<noteq> 0"
  obtains q where "ulp x = 2 powi q" "- 1074 \<le> q" "\<bar>x\<bar> < 2 ^ 53 * 2 powi q" "q = - 1074 \<or> 2 ^ 52 * 2 powi q \<le> \<bar>x\<bar>"
proof -
  let ?l = "log_floor 2 \<bar>x\<bar>" and ?q = "max (log_floor 2 \<bar>x\<bar> - 52) (- 1074)"
  have l: "2 powi ?l \<le> \<bar>x\<bar>" "\<bar>x\<bar> < 2 powi (?l + 1)" using log_floor_bounds [of "\<bar>x\<bar>" 2] assms by simp_all
  have scale: "2 ^ n * 2 powi i = (2 :: rat) powi (int n + i)" for n i by (simp add: power_int_add)
  have "(2 :: rat) powi (?l + 1) \<le> 2 powi (int 53 + ?q)" by (rule power_int_increasing) simp_all
  with l(2) have "\<bar>x\<bar> < 2 ^ 53 * 2 powi ?q" unfolding scale by (rule less_le_trans)
  moreover have "?q = - 1074 \<or> 2 ^ 52 * 2 powi ?q \<le> \<bar>x\<bar>" using l(1) unfolding scale by (auto simp: max_def)
  ultimately show ?thesis by (intro that [of ?q]) (simp_all add: ulp_def)
qed

lemma grid_next:
  assumes "grid d" and "x \<noteq> 0"
  shows "(\<exists>k. d = of_int k * ulp x) \<or> \<bar>d\<bar> \<le> 2 ^ 52 * ulp x \<and> 2 ^ 52 * ulp x \<le> \<bar>x\<bar>"
proof -
  obtain q where q: "ulp x = 2 powi q" "- 1074 \<le> q" "q = - 1074 \<or> 2 ^ 52 * 2 powi q \<le> \<bar>x\<bar>"
    using ulp_cases [OF assms(2)] by metis
  obtain m e where d: "d = of_int m * 2 powi e" "\<bar>m\<bar> \<le> 2 ^ 53" "- 1074 \<le> e" using assms(1) by (auto simp: grid_def)
  show ?thesis
  proof (cases "q \<le> e")
    case True
    then have "(2 :: rat) powi e = of_int (2 ^ nat (e - q)) * 2 powi q"
      using power_int_add [of "2 :: rat" "e - q" q] by (simp add: power_int_def [of 2 "e - q"])
    then have "d = of_int (m * 2 ^ nat (e - q)) * ulp x" by (simp add: d q)
    then show ?thesis by blast
  next
    case False
    have "\<bar>d\<bar> = of_int \<bar>m\<bar> * 2 powi e" by (simp add: d abs_mult)
    also have "\<dots> \<le> of_int (2 ^ 53) * 2 powi e" using d(2) by (intro mult_right_mono) (simp_all only: of_int_le_iff, simp)
    also have "\<dots> = 2 powi (53 + e)" by (simp add: power_int_add)
    also have "\<dots> \<le> 2 powi (52 + q)" using False by (intro power_int_increasing) simp_all
    also have "\<dots> = 2 ^ 52 * ulp x" by (simp add: q power_int_add)
    finally show ?thesis using q False d(3) by auto
  qed
qed

lemma rounded_below:
  assumes "grid d" and "x \<le> d"
  shows "rounded x \<le> d"
proof (cases "x = 0")
  case True
  with assms show ?thesis by (simp add: rounded_def)
next
  case False
  have on_grid: "rounded x \<le> of_int k * ulp x" if "x \<le> of_int k * ulp x" for k
  proof -
    have "x / ulp x \<le> of_int k" using that ulp_pos [of x] by (simp add: field_simps)
    then show ?thesis using round_even_le ulp_pos [of x] False by (simp add: rounded_def)
  qed
  from grid_next [OF assms(1) False] show ?thesis
  proof (elim disjE exE conjE)
    assume "\<bar>d\<bar> \<le> 2 ^ 52 * ulp x" "2 ^ 52 * ulp x \<le> \<bar>x\<bar>"
    with assms(2) consider "x = 2 ^ 52 * ulp x" "d = x" | "x \<le> - (2 ^ 52) * ulp x" "- (2 ^ 52) * ulp x \<le> d" by linarith
    then show ?thesis
    proof cases
      case 1
      with on_grid [of "2 ^ 52"] show ?thesis by simp
    next
      case 2
      with on_grid [of "- (2 ^ 52)"] show ?thesis by simp
    qed
  qed (use on_grid assms(2) in auto)
qed

lemma rounded_above:
  assumes "grid d" and "d \<le> x"
  shows "d \<le> rounded x"
proof (cases "x = 0")
  case True
  with assms show ?thesis by (simp add: rounded_def)
next
  case False
  have on_grid: "of_int k * ulp x \<le> rounded x" if "of_int k * ulp x \<le> x" for k
  proof -
    have "of_int k \<le> x / ulp x" using that ulp_pos [of x] by (simp add: field_simps)
    then show ?thesis using round_even_ge ulp_pos [of x] False by (simp add: rounded_def)
  qed
  from grid_next [OF assms(1) False] show ?thesis
  proof (elim disjE exE conjE)
    assume "\<bar>d\<bar> \<le> 2 ^ 52 * ulp x" "2 ^ 52 * ulp x \<le> \<bar>x\<bar>"
    with assms(2) consider "x = - (2 ^ 52) * ulp x" "d = x" | "2 ^ 52 * ulp x \<le> x" "d \<le> 2 ^ 52 * ulp x" by linarith
    then show ?thesis
    proof cases
      case 1
      with on_grid [of "- (2 ^ 52)"] show ?thesis by simp
    next
      case 2
      with on_grid [of "2 ^ 52"] show ?thesis by simp
    qed
  qed (use on_grid assms(2) in auto)
qed

lemma rounded_grid: "grid d \<Longrightarrow> rounded d = d"
  by (simp add: rounded_below rounded_above antisym)

lemma grid_rounded: "grid (rounded x)"
proof (cases "x = 0")
  case True
  then show ?thesis by (auto simp: rounded_def grid_def intro: exI [of _ 0] exI [of _ "0::int"])
next
  case False
  obtain q where q: "ulp x = 2 powi q" "- 1074 \<le> q" "\<bar>x\<bar> < 2 ^ 53 * 2 powi q" using ulp_cases [OF False] by metis
  have "\<bar>x\<bar> < 2 ^ 53 * ulp x" using q by simp
  then have "of_int (- (2 ^ 53)) \<le> x / ulp x" "x / ulp x \<le> of_int (2 ^ 53)" using ulp_pos [of x] by (simp_all add: field_simps)
  then have "- (2 ^ 53) \<le> round_even (x / ulp x)" "round_even (x / ulp x) \<le> 2 ^ 53"
    by (auto intro: round_even_ge round_even_le)
  with q False show ?thesis
    unfolding grid_def rounded_def by (intro exI [of _ "round_even (x / ulp x)"] exI [of _ q]) auto
qed

lemma is_double_iff: "is_double x \<longleftrightarrow> grid x \<and> \<bar>x\<bar> < 2 ^ 1024"
proof
  assume "is_double x"
  then have "rounded x = x" "\<bar>x\<bar> < 2 ^ 1024" by (auto simp: is_double_def to_double_def split: if_splits)
  then show "grid x \<and> \<bar>x\<bar> < 2 ^ 1024" using grid_rounded [of x] by simp
next
  assume "grid x \<and> \<bar>x\<bar> < 2 ^ 1024"
  then show "is_double x" by (auto simp: is_double_def to_double_def rounded_grid)
qed

section \<open>Text\<close>

text \<open>The decimals with a given number of digits next to a positive number: digits and exponent, for
  the value digits times ten to the exponent.\<close>

definition decimal_value :: "nat \<times> int \<Rightarrow> rat" where
  "decimal_value d = (case d of (s, e) \<Rightarrow> of_nat s * 10 powi e)"

definition neighbours :: "rat \<Rightarrow> nat \<Rightarrow> (nat \<times> int) list" where
  "neighbours x k =
     (let e = log_floor 10 x + 1 - int k; f = nat \<lfloor>x / 10 powi e\<rfloor> in [(f, e), (Suc f, e)])"

definition nearer :: "rat \<Rightarrow> nat \<times> int \<Rightarrow> nat \<times> int \<Rightarrow> nat \<times> int" where
  "nearer x c d = (if \<bar>decimal_value d - x\<bar> < \<bar>decimal_value c - x\<bar> then d else c)"

definition decimals_for :: "rat \<Rightarrow> nat \<Rightarrow> (nat \<times> int) option" where
  "decimals_for x k =
     (case filter (\<lambda>d. to_double (decimal_value d) = Fin x) (neighbours x k) of
        [] \<Rightarrow> None | d # ds \<Rightarrow> Some (foldl (nearer x) d ds))"

text \<open>The least number of digits that suffices. Seventeen do for every double; the bound of the search
  is the number of digits of an exact decimal.\<close>

fun shortest_from :: "rat \<Rightarrow> nat \<Rightarrow> nat \<Rightarrow> nat \<times> int" where
  "shortest_from x k 0 = (0, 0)"
| "shortest_from x k (Suc fuel) =
     (case decimals_for x k of Some d \<Rightarrow> d | None \<Rightarrow> shortest_from x (Suc k) fuel)"

definition shortest_decimal :: "rat \<Rightarrow> nat \<times> int" where
  "shortest_decimal x = shortest_from x 1 1800"

definition zeros :: "nat \<Rightarrow> string" where
  "zeros n = replicate n CHR ''0''"

definition exponent_text :: "int \<Rightarrow> string" where
  "exponent_text e = ''e'' @ (if e < 0 then ''-'' else ''+'') @ nat_str (nat \<bar>e\<bar>)"

text \<open>\<open>Number.prototype.toString\<close>: trailing zeros of the digits belong to the exponent.\<close>

definition decimal_text :: "string \<Rightarrow> int \<Rightarrow> string" where
  "decimal_text digits n =
     (let k = int (length digits) in
      if k \<le> n \<and> n \<le> 21 then digits @ zeros (nat (n - k))
      else if 0 < n \<and> n \<le> 21 then take (nat n) digits @ ''.'' @ drop (nat n) digits
      else if - 6 < n \<and> n \<le> 0 then ''0.'' @ zeros (nat (- n)) @ digits
      else if k = 1 then digits @ exponent_text (n - 1)
      else take 1 digits @ ''.'' @ drop 1 digits @ exponent_text (n - 1))"

definition strip_zeros :: "string \<Rightarrow> string" where
  "strip_zeros s = rev (dropWhile (\<lambda>c. c = CHR ''0'') (rev s))"

definition positive_text :: "rat \<Rightarrow> string" where
  "positive_text x =
     (case shortest_decimal x of (s, e) \<Rightarrow>
        decimal_text (strip_zeros (nat_str s)) (int (length (nat_str s)) + e))"

fun number_text :: "jsnum \<Rightarrow> string" where
  "number_text (Fin x) = (if x = 0 then ''0'' else if x < 0 then ''-'' @ positive_text (- x) else positive_text x)"
| "number_text PosInf = ''Infinity''"
| "number_text NegInf = ''-Infinity''"
| "number_text NotANumber = ''NaN''"

section \<open>Reading\<close>

definition digit_value :: "char \<Rightarrow> nat" where
  "digit_value c = of_char c - 48"

definition digits_value :: "string \<Rightarrow> nat" where
  "digits_value = foldl (\<lambda>v c. 10 * v + digit_value c) 0"

text \<open>The decimal literals of \<open>Number\<close>: digits with an optional fraction and an optional exponent.\<close>

definition split_sign :: "string \<Rightarrow> bool \<times> string" where
  "split_sign s = (case s of [] \<Rightarrow> (False, []) | c # t \<Rightarrow>
     if c = CHR ''-'' then (True, t) else if c = CHR ''+'' then (False, t) else (False, s))"

definition read_exponent :: "string \<Rightarrow> int option" where
  "read_exponent s = (case s of [] \<Rightarrow> Some 0 | c # t \<Rightarrow>
     if c \<noteq> CHR ''e'' \<and> c \<noteq> CHR ''E'' then None
     else (case split_sign t of (negative, u) \<Rightarrow>
       if u = [] \<or> \<not> list_all is_digit u then None
       else Some (if negative then - int (digits_value u) else int (digits_value u))))"

definition split_fraction :: "string \<Rightarrow> string \<times> string" where
  "split_fraction s = (case s of [] \<Rightarrow> ([], []) | c # t \<Rightarrow>
     if c = CHR ''.'' then (takeWhile is_digit t, dropWhile is_digit t) else ([], s))"

definition read_unsigned :: "string \<Rightarrow> rat option" where
  "read_unsigned s =
     (let whole = takeWhile is_digit s in
      case split_fraction (dropWhile is_digit s) of (fraction, rest) \<Rightarrow>
        if whole @ fraction = [] then None
        else map_option (\<lambda>e. of_nat (digits_value (whole @ fraction)) * 10 powi (e - int (length fraction))) (read_exponent rest))"

definition read_decimal :: "string \<Rightarrow> rat option" where
  "read_decimal s = (case split_sign s of (negative, t) \<Rightarrow> map_option (\<lambda>v. if negative then - v else v) (read_unsigned t))"

section \<open>A number is read back from its text\<close>

lemma digits_value_Nil [simp]: "digits_value [] = 0"
  by (simp add: digits_value_def)

lemma digits_value_snoc: "digits_value (s @ [c]) = 10 * digits_value s + digit_value c"
  by (simp add: digits_value_def)

lemma digits_value_append: "digits_value (s @ t) = digits_value s * 10 ^ length t + digits_value t"
proof (induction t rule: rev_induct)
  case (snoc c t)
  then show ?case using digits_value_snoc [of "s @ t" c] by (simp add: digits_value_snoc algebra_simps)
qed simp

lemma zeros_snoc: "zeros (Suc n) = zeros n @ ''0''"
  by (simp add: zeros_def replicate_append_same [symmetric])

lemma digits_value_zeros [simp]: "digits_value (zeros n) = 0"
  by (induction n) (simp_all add: zeros_snoc digits_value_snoc digit_value_def, simp add: zeros_def)

lemma digit_char: "n < 10 \<Longrightarrow> digit_value (char_of (48 + n)) = n" "n < 10 \<Longrightarrow> is_digit (char_of (48 + n))"
  by (auto simp: digit_value_def is_digit_def char_between_def less_eq_char_def of_char_of)

lemma nat_str_value: "digits_value (nat_str n) = n \<and> list_all is_digit (nat_str n)"
proof (induction n rule: nat_str.induct)
  case (1 n)
  then show ?case
    by (cases "n < 10")
      (simp_all add: nat_str.simps [of n] digits_value_snoc digits_value_snoc [of "[]", simplified] digit_char)
qed

lemma all_digits_zeros [simp]: "list_all is_digit (zeros n)"
  by (auto simp: zeros_def list_all_iff is_digit_def char_between_def less_eq_char_def)

lemma takeWhile_digits [simp]: "list_all is_digit s \<Longrightarrow> takeWhile is_digit (s @ t) = s @ takeWhile is_digit t"
  "list_all is_digit s \<Longrightarrow> dropWhile is_digit (s @ t) = dropWhile is_digit t"
  by (auto simp: list_all_iff)

lemma whole_digits [simp]: "list_all is_digit s \<Longrightarrow> takeWhile is_digit s = s" "list_all is_digit s \<Longrightarrow> dropWhile is_digit s = []"
  using takeWhile_digits [of s "[]"] by simp_all

lemma not_digits [simp]: "\<not> is_digit CHR ''.''" "\<not> is_digit CHR ''e''" "\<not> is_digit CHR ''-''" "\<not> is_digit CHR ''+''"
  by (simp_all add: is_digit_def char_between_def less_eq_char_def)

lemma digits_unsigned: "list_all is_digit s \<Longrightarrow> split_sign (s @ t) = (if s = [] then split_sign t else (False, s @ t))"
  by (cases s) (auto simp: split_sign_def)

lemma read_exponent_text [simp]: "read_exponent (exponent_text e) = Some e"
  using nat_str_value nat_str_nonempty by (cases "e < 0") (simp_all add: read_exponent_def exponent_text_def split_sign_def)

lemma split_exponent [simp]: "split_fraction (exponent_text e) = ([], exponent_text e)" "takeWhile is_digit (exponent_text e) = []"
  "dropWhile is_digit (exponent_text e) = exponent_text e"
  by (simp_all add: exponent_text_def split_fraction_def)

lemma read_exponent_Nil [simp]: "read_exponent [] = Some 0" "split_fraction [] = ([], [])"
  by (simp_all add: read_exponent_def split_fraction_def)

lemma split_point [simp]: "split_fraction (CHR ''.'' # t) = (takeWhile is_digit t, dropWhile is_digit t)"
  by (simp add: split_fraction_def)

lemma list_all_take_drop: "list_all p s \<Longrightarrow> list_all p (take n s) \<and> list_all p (drop n s)"
  by (auto simp: list_all_iff dest: in_set_takeD in_set_dropD)

lemma read_decimal_text:
  assumes digits: "list_all is_digit s" "s \<noteq> []"
  shows "read_unsigned (decimal_text s n) = Some (of_nat (digits_value s) * 10 powi (n - int (length s)))"
proof -
  note parts = list_all_take_drop [OF digits(1)]
  let ?k = "int (length s)"
  consider "?k \<le> n \<and> n \<le> 21" | "0 < n" "n \<le> 21" "n < ?k" | "- 6 < n" "n \<le> 0" | "\<not> (- 6 < n \<and> n \<le> 21)" "?k = 1"
    | "\<not> (- 6 < n \<and> n \<le> 21)" "?k \<noteq> 1" by linarith
  then show ?thesis
  proof cases
    case 1
    then have "10 powi (n - ?k) = (10 :: rat) ^ nat (n - ?k)" by (simp add: power_int_def)
    moreover have "length (zeros (nat (n - ?k))) = nat (n - ?k)" by (simp add: zeros_def)
    moreover have "list_all is_digit (s @ zeros (nat (n - ?k)))" using digits by simp
    ultimately show ?thesis using 1 digits(2) unfolding decimal_text_def Let_def read_unsigned_def
      by (simp add: digits_value_append del: takeWhile_digits list_all_append)
  next
    case 2
    then have "int (length s - nat n) = ?k - n" by (simp add: nat_le_iff)
    with 2 digits parts show ?thesis
      by (simp add: decimal_text_def Let_def read_unsigned_def)
  next
    case 3
    have "digits_value (CHR ''0'' # zeros (nat (- n)) @ s) = digits_value s"
      using digits_value_append [of "CHR ''0'' # zeros (nat (- n))" s] digits_value_zeros [of "Suc (nat (- n))"]
      by (simp add: zeros_def)
    moreover have "int (length (zeros (nat (- n)) @ s)) = ?k - n" using 3 by (simp add: zeros_def)
    moreover have "is_digit CHR ''0''" by (simp add: is_digit_def char_between_def less_eq_char_def)
    moreover have "\<not> ?k \<le> n" using 3 digits(2) by (cases s) simp_all
    ultimately show ?thesis using 3 digits
      by (simp add: decimal_text_def Let_def read_unsigned_def)
  next
    case 4
    with digits show ?thesis by (auto simp: decimal_text_def Let_def read_unsigned_def)
  next
    case 5
    moreover from digits(2) have "int (length s - 1) = ?k - 1" by (cases s) simp_all
    moreover have "take 1 s \<noteq> []" using digits(2) by simp
    ultimately show ?thesis using digits parts [of 1]
      by (auto simp: decimal_text_def Let_def read_unsigned_def)
  qed
qed

lemma nearest_member: "foldl (nearer x) d ds \<in> set (d # ds)"
proof (induction ds arbitrary: d)
  case (Cons c ds)
  show ?case using Cons [of "nearer x d c"] by (auto simp: nearer_def split: if_splits)
qed simp

lemma to_double_Fin: "to_double v = Fin x \<Longrightarrow> rounded v = x"
  by (auto simp: to_double_def split: if_splits)

lemma decimals_for_rounds:
  assumes "decimals_for x k = Some d"
  shows "to_double (decimal_value d) = Fin x"
proof -
  let ?cs = "filter (\<lambda>d. to_double (decimal_value d) = Fin x) (neighbours x k)"
  from assms obtain c cs where cs: "?cs = c # cs" and d: "d = foldl (nearer x) c cs"
    by (auto simp: decimals_for_def split: list.splits)
  from nearest_member [of x c cs] have "d \<in> set ?cs" unfolding cs d .
  then show ?thesis by simp
qed

text \<open>An exact decimal is among the candidates when the number of digits is large enough.\<close>

lemma exact_decimal:
  fixes x :: rat
  assumes x: "x = of_int m * 2 powi q" and q: "- int n \<le> q" and e: "e \<le> - int n"
  shows "\<exists>i. x / 10 powi e = of_int i"
proof -
  have "(2 :: rat) powi q = 2 ^ nat (q + int n) * 2 powi (- int n)"
    using q power_int_add [of "2 :: rat" "q + int n" "- int n"] by (simp add: power_int_def [of 2 "q + int n"])
  moreover have "(10 :: rat) powi e * 10 ^ nat (- int n - e) = 10 powi (- int n)"
    using e power_int_add [of "10 :: rat" e "- int n - e"] by (simp add: power_int_def [of 10 "- int n - e"])
  moreover have "(2 :: rat) powi (- int n) = 5 ^ n * 10 powi (- int n)"
  proof -
    have "(10 :: rat) ^ n = 2 ^ n * 5 ^ n" by (simp flip: power_mult_distrib)
    then show ?thesis by (simp add: power_int_minus field_simps)
  qed
  ultimately have "2 powi q = 2 ^ nat (q + int n) * (5 ^ n * ((10 :: rat) powi e * 10 ^ nat (- int n - e)))"
    by (simp only:)
  then have "x = of_int (m * 2 ^ nat (q + int n) * 5 ^ n * 10 ^ nat (- int n - e)) * 10 powi e"
    unfolding x by (simp add: mult_ac)
  then have "x / 10 powi e = of_int (m * 2 ^ nat (q + int n) * 5 ^ n * 10 ^ nat (- int n - e))" by simp
  then show ?thesis by blast
qed

lemma decimals_exact:
  assumes "is_double x" and "0 < x" and "1600 \<le> k"
  shows "decimals_for x k \<noteq> None"
proof -
  let ?l = "log_floor 10 x" and ?e = "log_floor 10 x + 1 - int k"
  have "10 powi ?l \<le> x" using log_floor_bounds(1) [OF assms(2), of 10] by simp
  also have "x < 2 ^ 1024" using assms(1) by (simp only: is_double_iff abs_less_iff)
  also have "(2 :: rat) ^ 1024 = 16 ^ 256" using power_mult [of "2 :: rat" 4 256] by simp
  also have "(16 :: rat) ^ 256 \<le> 100 ^ 256" by (rule power_mono) simp_all
  also have "(100 :: rat) ^ 256 = 10 powi 512" using power_mult [of "10 :: rat" 2 256] by (simp add: power_int_def)
  finally have "(10 :: rat) powi ?l < 10 powi 512" .
  then have "?l < 512" by (rule power_int_le_imp_less_exp [rotated]) simp_all
  with assms(3) have e: "?e \<le> - int 1074" by simp
  obtain m q where x: "x = of_int m * 2 powi q" "- 1074 \<le> q" using assms(1) by (auto simp: is_double_iff grid_def)
  then have "- int 1074 \<le> q" by simp
  from exact_decimal [OF x(1) this e] obtain i where i: "x / 10 powi ?e = of_int i" by blast
  have "0 \<le> x / 10 powi ?e" using assms(2) by simp
  then have "0 \<le> i" unfolding i by simp
  with i have "decimal_value (nat \<lfloor>x / 10 powi ?e\<rfloor>, ?e) = x" by (simp add: decimal_value_def) (simp add: field_simps)
  then have "filter (\<lambda>d. to_double (decimal_value d) = Fin x) (neighbours x k) \<noteq> []"
    using assms(1) by (simp add: neighbours_def is_double_def Let_def)
  then show ?thesis by (auto simp: decimals_for_def split: list.split)
qed

lemma shortest_from_rounds:
  "k \<le> j \<Longrightarrow> j < k + fuel \<Longrightarrow> decimals_for x j \<noteq> None \<Longrightarrow> to_double (decimal_value (shortest_from x k fuel)) = Fin x"
proof (induction x k fuel rule: shortest_from.induct)
  case (2 x k fuel)
  show ?case
  proof (cases "decimals_for x k")
    case None
    with "2.prems" have "Suc k \<le> j" by (metis Suc_leI le_neq_implies_less)
    with "2.IH" [OF None this] "2.prems" None show ?thesis by simp
  qed (simp add: decimals_for_rounds)
qed simp

lemma shortest_decimal_rounds:
  assumes "is_double x" and "0 < x"
  shows "to_double (decimal_value (shortest_decimal x)) = Fin x"
proof -
  have exact: "decimals_for x 1600 \<noteq> None" using assms by (rule decimals_exact) (rule order_refl)
  have fuel: "(1 :: nat) \<le> 1600" "(1600 :: nat) < 1 + 1800" by simp_all
  show ?thesis unfolding shortest_decimal_def by (rule shortest_from_rounds [OF fuel exact])
qed

lemma strip_zeros_parts: "\<exists>j. s = strip_zeros s @ zeros j"
proof -
  let ?z = "takeWhile (\<lambda>c. c = CHR ''0'') (rev s)"
  have "strip_zeros s @ rev ?z = s" unfolding strip_zeros_def by (simp flip: rev_append)
  moreover have "?z = zeros (length ?z)" unfolding zeros_def by (rule replicate_eqI) (auto dest: set_takeWhileD)
  ultimately show ?thesis by (metis rev_replicate zeros_def)
qed

lemma split_sign_digit: "list_all is_digit s \<Longrightarrow> s \<noteq> [] \<Longrightarrow> split_sign (s @ t) = (False, s @ t)"
  by (cases s) (auto simp: split_sign_def)

lemma decimal_text_unsigned:
  assumes "list_all is_digit s" and "s \<noteq> []"
  shows "split_sign (decimal_text s n) = (False, decimal_text s n)"
proof -
  have "list_all is_digit (take (nat n) s)" "list_all is_digit (take 1 s)" using list_all_take_drop [OF assms(1)] by simp_all
  then show ?thesis
    using assms split_sign_digit [OF assms] split_sign_digit [of "''0''"]
      split_sign_digit [of "take (nat n) s"] split_sign_digit [of "take 1 s"]
    by (auto simp: decimal_text_def Let_def is_digit_def char_between_def less_eq_char_def)
qed

lemma digits_strip: "list_all is_digit s \<Longrightarrow> list_all is_digit (strip_zeros s)"
  by (metis strip_zeros_parts list_all_append)

lemma positive_text_read:
  assumes "is_double x" and "0 < x"
  shows "\<exists>v. read_unsigned (positive_text x) = Some v \<and> to_double v = Fin x"
    and "split_sign (positive_text x) = (False, positive_text x)"
proof -
  obtain s e where d: "shortest_decimal x = (s, e)" by fastforce
  have v: "to_double (of_nat s * 10 powi e) = Fin x" using shortest_decimal_rounds [OF assms] by (simp add: d decimal_value_def)
  then have "rounded (of_nat s * 10 powi e) = x" by (rule to_double_Fin)
  with assms(2) have s: "s \<noteq> 0" by (cases "s = 0") (simp_all add: rounded_def)
  obtain j where j: "nat_str s = strip_zeros (nat_str s) @ zeros j" using strip_zeros_parts by blast
  let ?d = "strip_zeros (nat_str s)"
  have whole: "s = digits_value ?d * 10 ^ j" using nat_str_value [of s] j by (metis add.right_neutral digits_value_append digits_value_zeros length_replicate zeros_def)
  with s have "?d \<noteq> []" by auto
  moreover have "list_all is_digit ?d" using nat_str_value [of s] j by (metis list_all_append)
  moreover have "int (length (nat_str s)) + e - int (length ?d) = int j + e"
    using arg_cong [OF j, of length] by (simp add: zeros_def)
  moreover have "of_nat (digits_value ?d) * 10 powi (int j + e) = (of_nat s * 10 powi e :: rat)"
    by (subst whole) (simp add: power_int_add)
  ultimately have "read_unsigned (positive_text x) = Some (of_nat s * 10 powi e)"
    unfolding positive_text_def d prod.case by (subst read_decimal_text) (simp_all only: not_False_eq_True)
  with v show "\<exists>v. read_unsigned (positive_text x) = Some v \<and> to_double v = Fin x" by blast
  show "split_sign (positive_text x) = (False, positive_text x)"
    using decimal_text_unsigned \<open>?d \<noteq> []\<close> \<open>list_all is_digit ?d\<close> by (simp add: positive_text_def d)
qed

text \<open>The text of a double is read back as that double.\<close>

lemma number_text_read:
  assumes "is_double x"
  shows "map_option to_double (read_decimal (number_text (Fin x))) = Some (Fin x)"
proof -
  consider "x = 0" | "0 < x" | "x < 0" by linarith
  then show ?thesis
  proof cases
    case 1
    then show ?thesis
      by (simp add: read_decimal_def split_sign_def read_unsigned_def is_digit_def char_between_def less_eq_char_def
          digits_value_def digit_value_def to_double_def rounded_def)
  next
    case 2
    with positive_text_read [OF assms 2] show ?thesis by (auto simp: read_decimal_def)
  next
    case 3
    then have "is_double (- x)" "0 < - x" using assms to_double_minus by (simp_all add: is_double_def)
    from positive_text_read(1) [OF this] obtain v where "read_unsigned (positive_text (- x)) = Some v" "to_double v = Fin (- x)" by blast
    with 3 to_double_minus [of v "- x"] show ?thesis by (auto simp: read_decimal_def split_sign_def)
  qed
qed

end
