(* ===== verification/Graph_Search.thy ===== *)
theory Graph_Search
  imports Prelude
begin

text \<open>
  Adjacency maps and the stack search that the validator of plans uses twice
  (\<open>src/server/spice-validation/validate-plan-connectivity.ts\<close>): a map from a node to the set of its
  neighbours, in the order of insertion, and a search that pops the last pending node. The search
  finds a goal exactly when one is reachable; empty names are never visited.
\<close>

type_synonym adjacency = "(string, string list) omap"

definition neighbours_of :: "adjacency \<Rightarrow> string \<Rightarrow> string list" where
  "neighbours_of g a = (case oget g a of None \<Rightarrow> [] | Some ns \<Rightarrow> ns)"

definition add_neighbour :: "string \<Rightarrow> string \<Rightarrow> adjacency \<Rightarrow> adjacency" where
  "add_neighbour a b g = oput a (let ns = neighbours_of g a in if b \<in> set ns then ns else ns @ [b]) g"

definition link :: "string \<Rightarrow> string \<Rightarrow> adjacency \<Rightarrow> adjacency" where
  "link a b g = add_neighbour b a (add_neighbour a b g)"

text \<open>The head of the list is the top of the stack.\<close>

function search :: "adjacency \<Rightarrow> (string \<Rightarrow> bool) \<Rightarrow> string list \<Rightarrow> string list \<Rightarrow> bool" where
  "search g goal visited [] = False"
| "search g goal visited (a # pending) =
     (if a = [] \<or> a \<in> set visited then search g goal visited pending
      else if goal a then True
      else search g goal (a # visited) (rev (neighbours_of g a) @ pending))"
  by pat_completeness auto

text \<open>A visit leaves one key less to visit, or the node has no neighbours.\<close>

termination
proof (relation "measures [\<lambda>(g, goal, visited, pending). card (set (okeys g) - set visited),
    \<lambda>(g, goal, visited, pending). length pending]", goal_cases)
  case (3 g goal visited a pending)
  show ?case
  proof (cases "a \<in> set (okeys g)")
    case True
    with 3 have "card (set (okeys g) - set (a # visited)) < card (set (okeys g) - set visited)"
      by (intro psubset_card_mono) auto
    then show ?thesis by simp
  next
    case False
    then have "neighbours_of g a = []" by (simp add: neighbours_of_def oget_None_iff [THEN iffD2])
    moreover have "set (okeys g) - set (a # visited) = set (okeys g) - set visited" using False by auto
    ultimately show ?thesis by simp
  qed
qed simp_all

section \<open>Neighbours\<close>

lemma set_add_neighbour [simp]:
  "set (neighbours_of (add_neighbour a b g) c) = set (neighbours_of g c) \<union> (if c = a then {b} else {})"
  by (auto simp: add_neighbour_def neighbours_of_def Let_def)

lemma set_link [simp]:
  "b \<in> set (neighbours_of (link x y g) a) \<longleftrightarrow> b \<in> set (neighbours_of g a) \<or> (a = x \<and> b = y) \<or> (a = y \<and> b = x)"
  by (auto simp: link_def)

lemma neighbours_of_Nil [simp]: "neighbours_of [] a = []"
  by (simp add: neighbours_of_def)

section \<open>The search is exact\<close>

text \<open>Paths over named nodes that were not visited.\<close>

definition hops :: "adjacency \<Rightarrow> string set \<Rightarrow> (string \<times> string) set" where
  "hops g visited = {(a, b). b \<in> set (neighbours_of g a) \<and> b \<noteq> [] \<and> b \<notin> visited}"

definition fresh_hop :: "adjacency \<Rightarrow> string set \<Rightarrow> string \<Rightarrow> string \<Rightarrow> bool" where
  "fresh_hop g V a b \<longleftrightarrow> a \<noteq> [] \<and> a \<notin> V \<and> (a, b) \<in> (hops g V)\<^sup>*"

text \<open>A path either avoids a node or goes on from one of its neighbours.\<close>

lemma path_without:
  assumes "(a, b) \<in> (hops g V)\<^sup>*" and "b \<noteq> c"
  shows "(a \<noteq> c \<and> (a, b) \<in> (hops g (insert c V))\<^sup>*) \<or> (\<exists>s \<in> set (neighbours_of g c). fresh_hop g (insert c V) s b)"
  using assms(1)
proof (induction rule: converse_rtrancl_induct)
  case base
  from assms(2) show ?case by simp
next
  case (step y z)
  show ?case
  proof (cases "z \<noteq> c \<and> (z, b) \<in> (hops g (insert c V))\<^sup>*")
    case True
    with step.hyps(1) show ?thesis
    proof (cases "y = c")
      case False
      with True step.hyps(1) have "(y, z) \<in> hops g (insert c V)" by (simp add: hops_def)
      with True False show ?thesis by (metis converse_rtrancl_into_rtrancl)
    qed (auto simp: hops_def fresh_hop_def)
  qed (use step.IH in blast)
qed

lemma hops_mono: "V \<subseteq> W \<Longrightarrow> (hops g W)\<^sup>* \<subseteq> (hops g V)\<^sup>*"
  by (rule rtrancl_mono) (auto simp: hops_def)

lemma search_exact:
  "search g goal visited pending \<longleftrightarrow> (\<exists>a \<in> set pending. \<exists>b. goal b \<and> fresh_hop g (set visited) a b)"
proof (induction g goal visited pending rule: search.induct)
  case (2 g goal visited a pending)
  let ?V = "set visited"
  consider "a = [] \<or> a \<in> ?V" | "a \<noteq> []" "a \<notin> ?V" "goal a" | "a \<noteq> []" "a \<notin> ?V" "\<not> goal a" by blast
  then show ?case
  proof cases
    case 1
    with "2.IH"(1) show ?thesis by (auto simp: fresh_hop_def)
  next
    case 2
    then show ?thesis by (auto simp: fresh_hop_def)
  next
    case 3
    have "search g goal visited (a # pending) \<longleftrightarrow>
        (\<exists>s \<in> set (neighbours_of g a) \<union> set pending. \<exists>b. goal b \<and> fresh_hop g (insert a ?V) s b)"
      using "2.IH"(2) 3 by auto
    also have "\<dots> \<longleftrightarrow> (\<exists>s \<in> set (a # pending). \<exists>b. goal b \<and> fresh_hop g ?V s b)"
    proof
      assume "\<exists>s \<in> set (neighbours_of g a) \<union> set pending. \<exists>b. goal b \<and> fresh_hop g (insert a ?V) s b"
      then obtain s b where s: "s \<in> set (neighbours_of g a) \<union> set pending" "goal b" "fresh_hop g (insert a ?V) s b" by blast
      then have path: "s \<noteq> []" "s \<notin> ?V" "(s, b) \<in> (hops g ?V)\<^sup>*"
        using hops_mono [of ?V "insert a ?V" g] by (auto simp: fresh_hop_def)
      show "\<exists>s \<in> set (a # pending). \<exists>b. goal b \<and> fresh_hop g ?V s b"
      proof (cases "s \<in> set pending")
        case False
        with s path have "(a, s) \<in> hops g ?V" by (auto simp: hops_def)
        with path 3 have "fresh_hop g ?V a b" by (auto simp: fresh_hop_def intro: converse_rtrancl_into_rtrancl)
        with s(2) show ?thesis by auto
      qed (use s path in \<open>auto simp: fresh_hop_def\<close>)
    next
      assume "\<exists>s \<in> set (a # pending). \<exists>b. goal b \<and> fresh_hop g ?V s b"
      then obtain s b where s: "s \<in> set (a # pending)" "goal b" "fresh_hop g ?V s b" by blast
      with 3 have "b \<noteq> a" by blast
      from path_without [OF _ this, of s g ?V] s
      show "\<exists>s \<in> set (neighbours_of g a) \<union> set pending. \<exists>b. goal b \<and> fresh_hop g (insert a ?V) s b"
        by (auto simp: fresh_hop_def)
    qed
    finally show ?thesis .
  qed
qed simp

section \<open>Graphs of links\<close>

definition graph_of :: "(string \<times> string) list \<Rightarrow> adjacency" where
  "graph_of ls = foldl (\<lambda>g (a, b). link a b g) [] ls"

definition linked :: "(string \<times> string) list \<Rightarrow> (string \<times> string) set" where
  "linked ls = {(a, b). b \<noteq> [] \<and> ((a, b) \<in> set ls \<or> (b, a) \<in> set ls)}"

lemma neighbours_graph: "b \<in> set (neighbours_of (graph_of ls) a) \<longleftrightarrow> (a, b) \<in> set ls \<or> (b, a) \<in> set ls"
  unfolding graph_of_def by (induction ls rule: rev_induct) auto

text \<open>A search from a node of a graph of links finds the goals that its links lead to.\<close>

lemma search_links:
  assumes "\<And>a b. b \<in> set (neighbours_of g a) \<longleftrightarrow> (a, b) \<in> set ls \<or> (b, a) \<in> set ls"
  shows "search g goal [] [a] \<longleftrightarrow> a \<noteq> [] \<and> (\<exists>b. goal b \<and> (a, b) \<in> (linked ls)\<^sup>*)"
proof -
  have "hops g {} = linked ls" by (auto simp: hops_def linked_def assms)
  then show ?thesis by (auto simp: search_exact fresh_hop_def)
qed

lemmas search_graph = search_links [OF neighbours_graph]

end
