(* ===== verification/Spice_Plan.thy ===== *)
theory Spice_Plan
  imports Js_Number Graph_Search Paths
begin

text \<open>
  The data of a SPICE validation plan, \<open>src/server/spice-validation/types.ts\<close>, as far as the
  connectivity checks and the compiler read it, the endpoints and identifiers of \<open>identifiers.ts\<close>, and
  the collector of errors of \<open>parse-helpers.ts\<close>. The numbers of a plan are finite doubles.
\<close>

section \<open>Plans\<close>

record pulse =
  pl_low :: rat
  pl_high :: rat
  pl_delay :: rat
  pl_rise :: rat
  pl_fall :: rat
  pl_width :: rat
  pl_period :: rat

text \<open>An element: its identifier, its two terminals, its value.\<close>

datatype fixture =
    Resistor string string string rat
  | Capacitor string string string rat
  | Inductor string string string rat
  | VoltageSource string string string rat "pulse option"
  | CurrentSource string string string rat "pulse option"
  | Diode string string string

fun fixture_id :: "fixture \<Rightarrow> string" where
  "fixture_id (Resistor k p n v) = k"
| "fixture_id (Capacitor k p n v) = k"
| "fixture_id (Inductor k p n v) = k"
| "fixture_id (VoltageSource k p n v pulse) = k"
| "fixture_id (CurrentSource k p n v pulse) = k"
| "fixture_id (Diode k a c) = k"

datatype plan_analysis =
    OperatingPointAnalysis
  | DcSweepAnalysis string rat rat rat  \<comment> \<open>source, start, stop, step\<close>
  | TransientAnalysis rat rat "rat option"  \<comment> \<open>step, stop, start\<close>

datatype reference =
    TargetContract rat rat  \<comment> \<open>target, tolerance\<close>
  | BoundsContract "rat option" "rat option"
  | CurveContract rat "(rat \<times> rat) list"  \<comment> \<open>tolerance, points\<close>

datatype channel_role = ResponseRole | StimulusRole

datatype current_direction = PositiveToNegative | NegativeToPositive

datatype quantity =
    VoltageBetween string string
  | CurrentThrough string "current_direction option"

record observation =
  ob_id :: string
  ob_role :: "channel_role option"
  ob_requirement_id :: string
  ob_log :: bool  \<comment> \<open>the scale is logarithmic\<close>
  ob_reference :: reference
  ob_quantity :: quantity

text \<open>The topology of a documented application, bound to a case by the server.\<close>

record node_group =
  ng_id :: string
  ng_is_ground :: bool
  ng_dut_endpoints :: "string list"

datatype overlay =
    LogicState string string bool string  \<comment> \<open>endpoint, reference, high, group it is detached from\<close>
  | PulsedSource string string

fun overlay_endpoint :: "overlay \<Rightarrow> string" where
  "overlay_endpoint (LogicState e r h g) = e"
| "overlay_endpoint (PulsedSource e g) = e"

record application_fixture =
  af_node_groups :: "node_group list"
  af_overlays :: "overlay list"

record validation_case =
  vc_id :: string
  vc_requirement_ids :: "string list"
  vc_nets :: "string list"
  vc_fixtures :: "fixture list"
  vc_analysis :: plan_analysis
  vc_observations :: "observation list"
  vc_application :: "application_fixture option"

definition case_groups :: "validation_case \<Rightarrow> node_group list" where
  "case_groups c = (case vc_application c of None \<Rightarrow> [] | Some a \<Rightarrow> af_node_groups a)"

definition case_overlays :: "validation_case \<Rightarrow> overlay list" where
  "case_overlays c = (case vc_application c of None \<Rightarrow> [] | Some a \<Rightarrow> af_overlays a)"

record model_pin =
  mp_component_pin :: string
  mp_spice_node :: string

record model_definition =
  md_entry_name :: string
  md_pins :: "model_pin list"

section \<open>Identifiers and endpoints\<close>

definition is_word_char :: "char \<Rightarrow> bool" where
  "is_word_char c \<longleftrightarrow> is_letter c \<or> is_digit c \<or> c = CHR ''_''"

definition case_id_pattern :: "string \<Rightarrow> bool" where
  "case_id_pattern s \<longleftrightarrow>
     s \<noteq> [] \<and> is_lower (hd s) \<and> list_all (\<lambda>c. is_lower c \<or> is_digit c \<or> c = CHR ''_'' \<or> c = CHR ''-'') s \<and> length s \<le> 64"

definition identifier_pattern :: "string \<Rightarrow> bool" where
  "identifier_pattern s \<longleftrightarrow> s \<noteq> [] \<and> is_letter (hd s) \<and> list_all is_word_char s \<and> length s \<le> 64"

definition spice_node_pattern :: "string \<Rightarrow> bool" where
  "spice_node_pattern s \<longleftrightarrow> s \<noteq> [] \<and> list_all is_word_char s \<and> length s \<le> 64"

datatype endpoint = Gnd | Dut string | Net string

definition parse_endpoint_syntax :: "string \<Rightarrow> endpoint option" where
  "parse_endpoint_syntax s =
     (if s = ''gnd'' then Some Gnd
      else
        (case split_char CHR ''.'' s of
           [scope, identifier] \<Rightarrow>
             if scope = [] \<or> identifier = [] then None
             else if scope = ''dut'' \<and> spice_node_pattern identifier then Some (Dut identifier)
             else if scope = ''net'' \<and> identifier_pattern identifier then Some (Net identifier)
             else None
         | _ \<Rightarrow> None))"

fun endpoint_text :: "endpoint \<Rightarrow> string" where
  "endpoint_text Gnd = ''gnd''"
| "endpoint_text (Dut k) = ''dut.'' @ k"
| "endpoint_text (Net k) = ''net.'' @ k"

fun element_prefix :: "fixture \<Rightarrow> string" where
  "element_prefix (Resistor k p n v) = ''R''"
| "element_prefix (Capacitor k p n v) = ''C''"
| "element_prefix (Inductor k p n v) = ''L''"
| "element_prefix (VoltageSource k p n v pulse) = ''V''"
| "element_prefix (CurrentSource k p n v pulse) = ''I''"
| "element_prefix (Diode k a c) = ''D''"

definition fixture_element_name :: "fixture \<Rightarrow> string" where
  "fixture_element_name f = element_prefix f @ ''_'' @ fixture_id f"

fun fixture_endpoints :: "fixture \<Rightarrow> string \<times> string" where
  "fixture_endpoints (Diode k a c) = (a, c)"
| "fixture_endpoints (Resistor k p n v) = (p, n)"
| "fixture_endpoints (Capacitor k p n v) = (p, n)"
| "fixture_endpoints (Inductor k p n v) = (p, n)"
| "fixture_endpoints (VoltageSource k p n v pulse) = (p, n)"
| "fixture_endpoints (CurrentSource k p n v pulse) = (p, n)"

definition dut_node_name :: "nat \<Rightarrow> string" where
  "dut_node_name i = ''n_dut_'' @ nat_str (i + 1)"

definition net_node_name :: "string \<Rightarrow> string" where
  "net_node_name k = ''n_net_'' @ k"

section \<open>Errors\<close>

record path_error =
  pe_path :: string
  pe_code :: string
  pe_message :: string

definition indexed_path :: "string \<Rightarrow> nat \<Rightarrow> string" where
  "indexed_path base i = base @ ''['' @ nat_str i @ '']''"

text \<open>A loop over an array, with the index.\<close>

fun for_each :: "(nat \<Rightarrow> 'a \<Rightarrow> 's \<Rightarrow> 's) \<Rightarrow> nat \<Rightarrow> 'a list \<Rightarrow> 's \<Rightarrow> 's" where
  "for_each f i [] s = s"
| "for_each f i (x # xs) s = for_each f (Suc i) xs (f i x s)"

text \<open>What a loop does to a property, a total or a union is what its bodies do.\<close>

lemma for_each_all:
  "(\<And>i x s. x \<in> set xs \<Longrightarrow> P (f i x s) \<longleftrightarrow> P s \<and> Q x) \<Longrightarrow> P (for_each f i xs s) \<longleftrightarrow> P s \<and> (\<forall>x \<in> set xs. Q x)"
  by (induction xs arbitrary: i s) auto

lemma for_each_some:
  "(\<And>i x s. x \<in> set xs \<Longrightarrow> P (f i x s) \<longleftrightarrow> P s \<or> Q x) \<Longrightarrow> P (for_each f i xs s) \<longleftrightarrow> P s \<or> (\<exists>x \<in> set xs. Q x)"
  by (induction xs arbitrary: i s) auto

lemma for_each_sum:
  "(\<And>i x s. x \<in> set xs \<Longrightarrow> g (f i x s) = g s + h x) \<Longrightarrow> g (for_each f i xs s) = g s + sum_list (map h xs)" for g :: "'s \<Rightarrow> nat"
  by (induction xs arbitrary: i s) (simp_all add: add.assoc)

lemma for_each_same: "(\<And>i x s. x \<in> set xs \<Longrightarrow> g (f i x s) = g s) \<Longrightarrow> g (for_each f i xs s) = g s"
  by (induction xs arbitrary: i s) simp_all

section \<open>Endpoints are read back\<close>

lemma word_char_plain: "is_word_char c \<Longrightarrow> c \<noteq> CHR ''.''"
  by (auto simp: is_word_char_def is_letter_def is_lower_def is_upper_def is_digit_def char_between_def less_eq_char_def)

definition well_formed_endpoint :: "endpoint \<Rightarrow> bool" where
  "well_formed_endpoint e \<longleftrightarrow>
     (case e of Gnd \<Rightarrow> True | Dut k \<Rightarrow> spice_node_pattern k | Net k \<Rightarrow> identifier_pattern k)"

lemma identifier_plain: "identifier_pattern k \<Longrightarrow> k \<noteq> [] \<and> CHR ''.'' \<notin> set k"
  "spice_node_pattern k \<Longrightarrow> k \<noteq> [] \<and> CHR ''.'' \<notin> set k"
  by (auto simp: identifier_pattern_def spice_node_pattern_def list_all_iff dest: word_char_plain)

lemma split_scope: "CHR ''.'' \<notin> set k \<Longrightarrow> CHR ''.'' \<notin> set scope \<Longrightarrow> split_char CHR ''.'' (scope @ CHR ''.'' # k) = [scope, k]"
  by (simp add: split_char_append_sep split_char_none)

lemma endpoint_parsed:
  "parse_endpoint_syntax s = Some e \<longleftrightarrow> s = endpoint_text e \<and> well_formed_endpoint e"
proof
  assume parsed: "parse_endpoint_syntax s = Some e"
  show "s = endpoint_text e \<and> well_formed_endpoint e"
  proof (cases "s = ''gnd''")
    case True
    with parsed show ?thesis by (auto simp: parse_endpoint_syntax_def well_formed_endpoint_def)
  next
    case False
    with parsed obtain scope k where parts: "split_char CHR ''.'' s = [scope, k]"
      by (auto simp: parse_endpoint_syntax_def split: list.splits)
    then have "s = scope @ ''.'' @ k" using join_split_char [of "CHR ''.''" s] by simp
    with parsed parts False show ?thesis
      by (auto simp: parse_endpoint_syntax_def well_formed_endpoint_def split: if_splits)
  qed
next
  assume written: "s = endpoint_text e \<and> well_formed_endpoint e"
  then show "parse_endpoint_syntax s = Some e"
  proof (cases e)
    case (Dut k)
    with written identifier_plain [of k] show ?thesis
      by (simp add: parse_endpoint_syntax_def well_formed_endpoint_def split_char_none)
  next
    case (Net k)
    with written identifier_plain [of k] show ?thesis
      by (simp add: parse_endpoint_syntax_def well_formed_endpoint_def split_char_none)
  qed (simp add: parse_endpoint_syntax_def)
qed

lemma endpoint_text_read: "parse_endpoint_syntax s = Some e \<Longrightarrow> s = endpoint_text e"
  by (simp add: endpoint_parsed)

text \<open>An endpoint of a plan is accepted exactly when it is \<open>gnd\<close>, \<open>dut.\<close> with a node name or \<open>net.\<close> with
  an identifier, and it then has one reading, whose text it is.\<close>

theorem endpoint_roundtrip:
  "parse_endpoint_syntax s = Some e \<longleftrightarrow> s = endpoint_text e \<and> well_formed_endpoint e"
  by (rule endpoint_parsed)

end
