(* ===== verification/Spice_Connectivity.thy ===== *)
theory Spice_Connectivity
  imports Spice_Plan
begin

text \<open>
  The connectivity checks of a validation plan, \<open>src/server/spice-validation/validate-plan-connectivity.ts\<close>:
  the checks as the code runs them, collecting errors, and what a case without errors satisfies.
\<close>

section \<open>The state of the checks\<close>

record check =
  ck_errors :: "path_error list"
  ck_covered :: "string list"  \<comment> \<open>pins of the device that some case connects\<close>
  ck_counts :: "(string, nat) omap"  \<comment> \<open>terminals of each net\<close>
  ck_ground :: bool
  ck_graph :: adjacency

definition add_error :: "string \<Rightarrow> string \<Rightarrow> string \<Rightarrow> check \<Rightarrow> check" where
  "add_error path code message s =
     s\<lparr>ck_errors := ck_errors s @ [\<lparr> pe_path = path, pe_code = code, pe_message = message \<rparr>]\<rparr>"

definition add_error_if :: "bool \<Rightarrow> string \<Rightarrow> string \<Rightarrow> string \<Rightarrow> check \<Rightarrow> check" where
  "add_error_if b path code message s = (if b then add_error path code message s else s)"

definition net_count :: "check \<Rightarrow> string \<Rightarrow> nat" where
  "net_count s k = (case oget (ck_counts s) k of None \<Rightarrow> 0 | Some n \<Rightarrow> n)"

definition count_terminal :: "string \<Rightarrow> check \<Rightarrow> check" where
  "count_terminal k s = s\<lparr>ck_counts := oput k (net_count s k + 1) (ck_counts s)\<rparr>"

definition connect :: "string \<Rightarrow> string \<Rightarrow> check \<Rightarrow> check" where
  "connect a b s = (if a = ''gnd'' \<or> b = ''gnd'' then s else s\<lparr>ck_graph := link a b (ck_graph s)\<rparr>)"

definition cover_pin :: "string \<Rightarrow> check \<Rightarrow> check" where
  "cover_pin k s = s\<lparr>ck_covered := (if k \<in> set (ck_covered s) then ck_covered s else ck_covered s @ [k])\<rparr>"

section \<open>References\<close>

fun analysis_text :: "plan_analysis \<Rightarrow> string" where
  "analysis_text OperatingPointAnalysis = ''operating_point''"
| "analysis_text (DcSweepAnalysis k a b c) = ''dc_sweep''"
| "analysis_text (TransientAnalysis a b c) = ''transient''"

fun analysis_range :: "plan_analysis \<Rightarrow> (rat \<times> rat) option" where
  "analysis_range OperatingPointAnalysis = None"
| "analysis_range (DcSweepAnalysis k start stop step) = Some (min start stop, max start stop)"
| "analysis_range (TransientAnalysis step stop start) = Some (case start of None \<Rightarrow> 0 | Some t \<Rightarrow> t, stop)"

definition range_of :: "rat list \<Rightarrow> rat \<times> rat" where
  "range_of xs = (foldl min (hd xs) xs, foldl max (hd xs) xs)"

text \<open>The tolerance is 32 units of relative precision; neither product rounds out of range.\<close>

definition range_epsilon :: "rat list \<Rightarrow> rat" where
  "range_epsilon bounds = rounded (rounded (foldl max 1 (map abs bounds) * (1 / 2 ^ 52)) * 32)"

definition curve_range_message :: "plan_analysis \<Rightarrow> rat \<times> rat \<Rightarrow> rat \<times> rat \<Rightarrow> string" where
  "curve_range_message a curve limits =
     ''curve x range ['' @ number_text (Fin (fst curve)) @ '', '' @ number_text (Fin (snd curve))
     @ ''] must fit inside the '' @ analysis_text a @ '' range ['' @ number_text (Fin (fst limits)) @ '', ''
     @ number_text (Fin (snd limits)) @ '']''"

definition outside_range :: "(rat \<times> rat) list \<Rightarrow> plan_analysis \<Rightarrow> bool" where
  "outside_range points a =
     (case analysis_range a of
        None \<Rightarrow> False
      | Some (lo, hi) \<Rightarrow>
          points \<noteq> [] \<and>
          (let (reference_lo, reference_hi) = range_of (map fst points);
               epsilon = range_epsilon [lo, hi, reference_lo, reference_hi] in
           num_less (Fin reference_lo) (to_double (lo - epsilon)) \<or> num_less (to_double (hi + epsilon)) (Fin reference_hi)))"

definition validate_curve_analysis_range :: "plan_analysis \<Rightarrow> reference \<Rightarrow> string \<Rightarrow> check \<Rightarrow> check" where
  "validate_curve_analysis_range a r path s =
     (case r of
        CurveContract tolerance points \<Rightarrow>
          add_error_if (outside_range points a) path ''reference_curve_outside_analysis_range''
            (case analysis_range a of None \<Rightarrow> [] | Some limits \<Rightarrow> curve_range_message a (range_of (map fst points)) limits) s
      | _ \<Rightarrow> s)"

definition log_error_if :: "bool \<Rightarrow> string \<Rightarrow> check \<Rightarrow> check" where
  "log_error_if b path = add_error_if b path ''invalid_log_reference'' ''must be positive for log scale''"

fun validate_log_reference :: "reference \<Rightarrow> string \<Rightarrow> check \<Rightarrow> check" where
  "validate_log_reference (TargetContract target tolerance) path s = log_error_if (target \<le> 0) (path @ ''.target'') s"
| "validate_log_reference (BoundsContract lo hi) path s =
     log_error_if (case hi of None \<Rightarrow> False | Some v \<Rightarrow> v \<le> 0) (path @ ''.max'')
       (log_error_if (case lo of None \<Rightarrow> False | Some v \<Rightarrow> v \<le> 0) (path @ ''.min'') s)"
| "validate_log_reference (CurveContract tolerance points) path s =
     for_each (\<lambda>i point. log_error_if (snd point \<le> 0) (indexed_path (path @ ''.points'') i @ ''.y'')) 0 points s"

section \<open>Duplicates\<close>

definition note_value :: "string \<Rightarrow> nat \<Rightarrow> string \<Rightarrow> (string, nat) omap \<times> check \<Rightarrow> (string, nat) omap \<times> check" where
  "note_value base i v st =
     (case st of (first, s) \<Rightarrow>
        (case oget first v of
           None \<Rightarrow> (oput v i first, s)
         | Some e \<Rightarrow>
             (first, add_error (indexed_path base i) ''duplicate_id''
                (''duplicates '' @ indexed_path base e @ '' ('' @ json_quote v @ '')'') s)))"

definition add_duplicate_errors :: "string list \<Rightarrow> string \<Rightarrow> check \<Rightarrow> check" where
  "add_duplicate_errors values base s = snd (for_each (note_value base) 0 values ([], s))"

section \<open>Voltages fixed by ideal sources\<close>

definition overlay_links :: "overlay \<Rightarrow> (string \<times> string) list" where
  "overlay_links v = (case v of LogicState e r h k \<Rightarrow> [(e, r)] | PulsedSource e k \<Rightarrow> [])"

definition voltage_links :: "validation_case \<Rightarrow> (string \<times> string) list" where
  "voltage_links c =
     concat (map (\<lambda>f. case f of VoltageSource k p n v pulse \<Rightarrow> [(p, n)] | _ \<Rightarrow> []) (vc_fixtures c))
     @ concat (map (\<lambda>g. map (\<lambda>e. (e, if ng_is_ground g then ''gnd'' else ''net.'' @ ng_id g)) (ng_dut_endpoints g)) (case_groups c))
     @ concat (map overlay_links (case_overlays c))"

definition is_voltage_clamped :: "validation_case \<Rightarrow> string \<Rightarrow> string \<Rightarrow> bool" where
  "is_voltage_clamped c positive negative = search (graph_of (voltage_links c)) (\<lambda>a. a = negative) [] [positive]"

section \<open>Endpoints\<close>

definition manifest_nodes :: "model_definition \<Rightarrow> string list" where
  "manifest_nodes md = map mp_spice_node (md_pins md)"

definition validate_endpoint :: "model_definition \<Rightarrow> string list \<Rightarrow> string \<Rightarrow> string \<Rightarrow> bool \<Rightarrow> check \<Rightarrow> check" where
  "validate_endpoint md nets e path counts s =
     (case parse_endpoint_syntax e of
        None \<Rightarrow> s
      | Some Gnd \<Rightarrow> if counts then s\<lparr>ck_ground := True\<rparr> else s
      | Some (Dut k) \<Rightarrow>
          if k \<notin> set (manifest_nodes md)
          then add_error path ''unknown_dut_pin'' (''does not match a manifest spice_node ('' @ k @ '')'') s
          else if counts then cover_pin k s else s
      | Some (Net k) \<Rightarrow>
          if k \<notin> set nets
          then add_error path ''unknown_net'' (''references undeclared net '' @ json_quote k) s
          else if counts then count_terminal k s else s)"

definition is_dut :: "string \<Rightarrow> bool" where
  "is_dut e \<longleftrightarrow> (case parse_endpoint_syntax e of Some (Dut k) \<Rightarrow> True | _ \<Rightarrow> False)"

definition reaches_dut :: "adjacency \<Rightarrow> string \<Rightarrow> bool" where
  "reaches_dut g e \<longleftrightarrow> e \<noteq> ''gnd'' \<and> search g is_dut [] [e]"

section \<open>A case\<close>

definition group_node :: "node_group \<Rightarrow> string" where
  "group_node g = (if ng_is_ground g then ''gnd'' else ''net.'' @ ng_id g)"

definition validate_group :: "model_definition \<Rightarrow> string list \<Rightarrow> string \<Rightarrow> nat \<Rightarrow> node_group \<Rightarrow> check \<Rightarrow> check" where
  "validate_group md nets case_path i g s =
     (let path = indexed_path (case_path @ ''.application_fixture.node_groups'') i;
          s = (if ng_is_ground g then s\<lparr>ck_ground := True\<rparr>
               else add_error_if (ng_id g \<notin> set nets) (path @ ''.id'') ''unknown_application_net''
                 (''application node group '' @ json_quote (ng_id g) @ '' must be declared in case.nets'') s) in
      for_each (\<lambda>j e s.
         let s = validate_endpoint md nets e (indexed_path (path @ ''.dut_endpoints'') j) True s in
         if ng_is_ground g then s else count_terminal (ng_id g) (connect e (group_node g) s)) 0 (ng_dut_endpoints g) s)"

definition validate_overlay :: "model_definition \<Rightarrow> string list \<Rightarrow> string \<Rightarrow> nat \<Rightarrow> overlay \<Rightarrow> check \<Rightarrow> check" where
  "validate_overlay md nets case_path i v s =
     (let path = indexed_path (case_path @ ''.application_fixture.condition_overlays'') i;
          s = validate_endpoint md nets (overlay_endpoint v) (path @ ''.endpoint'') True s in
      case v of
        PulsedSource e k \<Rightarrow> s
      | LogicState e r h k \<Rightarrow> connect e r (validate_endpoint md nets r (path @ ''.reference'') False s))"

fun is_diode :: "fixture \<Rightarrow> bool" where
  "is_diode (Diode k a c) = True"
| "is_diode _ = False"

definition validate_fixture :: "model_definition \<Rightarrow> string list \<Rightarrow> string \<Rightarrow> nat \<Rightarrow> fixture \<Rightarrow> check \<Rightarrow> check" where
  "validate_fixture md nets case_path i f s =
     (let path = indexed_path (case_path @ ''.fixtures'') i; (first, second) = fixture_endpoints f;
          s = connect first second s;
          s = validate_endpoint md nets first (path @ (if is_diode f then ''.anode'' else ''.positive'')) True s;
          s = validate_endpoint md nets second (path @ (if is_diode f then ''.cathode'' else ''.negative'')) True s in
      add_error_if (first = second) path ''shorted_fixture'' ''both terminals resolve to the same endpoint'' s)"

definition validate_net :: "string \<Rightarrow> nat \<Rightarrow> string \<Rightarrow> check \<Rightarrow> check" where
  "validate_net case_path i k s =
     add_error_if (net_count s k < 2) (indexed_path (case_path @ ''.nets'') i) ''insufficient_net_connections''
       (''must be used by at least two fixture terminals; found '' @ nat_str (net_count s k)) s"

definition fixture_by_id :: "fixture list \<Rightarrow> (string, fixture) omap" where
  "fixture_by_id fs = foldl (\<lambda>m f. oput (fixture_id f) f m) [] fs"

fun sweepable :: "fixture \<Rightarrow> bool" where
  "sweepable (VoltageSource k p n v pulse) = True"
| "sweepable (CurrentSource k p n v pulse) = True"
| "sweepable _ = False"

definition validate_sweep :: "validation_case \<Rightarrow> string \<Rightarrow> check \<Rightarrow> check" where
  "validate_sweep c case_path s =
     (case vc_analysis c of
        DcSweepAnalysis source start stop step \<Rightarrow>
          (case oget (fixture_by_id (vc_fixtures c)) source of
             None \<Rightarrow> add_error (case_path @ ''.analysis.source_id'') ''unknown_sweep_source''
               ''must reference a fixture source in the same case'' s
           | Some f \<Rightarrow> add_error_if (\<not> sweepable f) (case_path @ ''.analysis.source_id'') ''invalid_sweep_source''
               ''must reference a voltage_source or current_source'' s)
      | _ \<Rightarrow> s)"

definition disconnected_message :: "string \<Rightarrow> string" where
  "disconnected_message what =
     ''must observe '' @ what @ '' in the DUT-connected fixture graph; ground alone does not connect independent branches''"

definition is_current_source :: "fixture \<Rightarrow> bool" where
  "is_current_source f \<longleftrightarrow> (case f of CurrentSource k p n v pulse \<Rightarrow> True | _ \<Rightarrow> False)"

definition validate_observation ::
  "model_definition \<Rightarrow> validation_case \<Rightarrow> string \<Rightarrow> nat \<Rightarrow> observation \<Rightarrow> check \<Rightarrow> check" where
  "validate_observation md c case_path i ob s =
     (let path = indexed_path (case_path @ ''.observations'') i; nets = vc_nets c;
          stimulus = (ob_role ob = Some StimulusRole);
          s = validate_curve_analysis_range (vc_analysis c) (ob_reference ob) (path @ ''.reference.points'') s;
          s = (case ob_quantity ob of
                 VoltageBetween p n \<Rightarrow>
                   (let s = validate_endpoint md nets p (path @ ''.positive'') False s;
                        s = validate_endpoint md nets n (path @ ''.negative'') False s;
                        s = add_error_if (p = n) path ''zero_differential'' ''positive and negative endpoints must differ'' s;
                        s = add_error_if (\<not> reaches_dut (ck_graph s) p \<and> \<not> reaches_dut (ck_graph s) n) path
                              ''disconnected_observation'' (disconnected_message ''a node'') s in
                    add_error_if (\<not> stimulus \<and> is_voltage_clamped c p n) path ''insensitive_voltage_observation''
                      ''an ideal voltage-source path fixes the measured voltage independently of the DUT'' s)
               | CurrentThrough k direction \<Rightarrow>
                   (case oget (fixture_by_id (vc_fixtures c)) k of
                      None \<Rightarrow> add_error (path @ ''.element_id'') ''unknown_observation_element''
                        ''must reference a fixture element in the same case'' s
                    | Some f \<Rightarrow>
                        (let s = add_error_if (\<not> stimulus \<and> is_current_source f) path ''insensitive_current_observation''
                                   ''current through an ideal current-source fixture is fixed independently of the DUT'' s;
                             (first, second) = fixture_endpoints f in
                         add_error_if (\<not> reaches_dut (ck_graph s) first \<and> \<not> reaches_dut (ck_graph s) second) path
                           ''disconnected_observation'' (disconnected_message ''an element'') s))) in
      if ob_log ob then validate_log_reference (ob_reference ob) (path @ ''.reference'') s else s)"

text \<open>The topology of a case: its groups, overlays and elements.\<close>

definition validate_topology :: "model_definition \<Rightarrow> validation_case \<Rightarrow> string \<Rightarrow> check \<Rightarrow> check" where
  "validate_topology md c case_path s =
     (let nets = vc_nets c;
          s = for_each (validate_group md nets case_path) 0 (case_groups c) s;
          s = for_each (validate_overlay md nets case_path) 0 (case_overlays c) s in
      for_each (validate_fixture md nets case_path) 0 (vc_fixtures c) s)"

definition start_check :: "path_error list \<Rightarrow> string list \<Rightarrow> check" where
  "start_check errors covered =
     \<lparr> ck_errors = errors, ck_covered = covered, ck_counts = [], ck_ground = False, ck_graph = [] \<rparr>"

definition validate_case_connectivity ::
  "model_definition \<Rightarrow> nat \<Rightarrow> validation_case \<Rightarrow> path_error list \<times> string list \<Rightarrow> path_error list \<times> string list" where
  "validate_case_connectivity md index c st =
     (let path = indexed_path ''cases'' index;
          s = start_check (fst st) (snd st);
          s = add_duplicate_errors (vc_nets c) (path @ ''.nets'') s;
          s = add_duplicate_errors (map fixture_id (vc_fixtures c)) (path @ ''.fixtures'') s;
          s = add_duplicate_errors (map ob_id (vc_observations c)) (path @ ''.observations'') s;
          s = validate_topology md c path s;
          s = for_each (validate_net path) 0 (vc_nets c) s;
          s = add_error_if (\<not> ck_ground s) (path @ ''.fixtures'') ''missing_ground''
                ''must connect at least one fixture terminal to gnd'' s;
          s = validate_sweep c path s;
          s = for_each (validate_observation md c path) 0 (vc_observations c) s in
      (ck_errors s, ck_covered s))"

section \<open>A plan\<close>

definition validate_plan_coverage ::
  "model_definition \<Rightarrow> string list \<Rightarrow> string list \<Rightarrow> string list \<Rightarrow> check \<Rightarrow> check" where
  "validate_plan_coverage md covered_pins modeled covered_requirements s =
     for_each (\<lambda>i k. add_error_if (k \<notin> set covered_requirements) (indexed_path ''modeled_requirement_ids'' i)
        ''uncovered_requirement'' (''modeled requirement '' @ json_quote k @ '' is not covered by any validation case'')) 0 modeled
      (for_each (\<lambda>i pin. add_error_if (mp_spice_node pin \<notin> set covered_pins) (indexed_path ''model.pins'' i)
        ''uncovered_dut_pin'' (''manifest pin '' @ json_quote (mp_spice_node pin) @ '' is not connected by any validation case'')) 0
        (md_pins md) s)"

end
