(* ===== verification/Spice_Connected.thy ===== *)
theory Spice_Connected
  imports Spice_Connectivity
begin

text \<open>
  What the connectivity checks of a plan accept, stated without the code: the nets, elements and
  observations of a well connected case, and the proof that the checks report no error exactly for
  those.
\<close>

section \<open>Well connected cases\<close>

definition known_endpoint :: "model_definition \<Rightarrow> string list \<Rightarrow> string \<Rightarrow> bool" where
  "known_endpoint md nets e \<longleftrightarrow>
     (case parse_endpoint_syntax e of
        Some (Dut k) \<Rightarrow> k \<in> set (manifest_nodes md) | Some (Net k) \<Rightarrow> k \<in> set nets | _ \<Rightarrow> True)"

text \<open>The terminals of a case, in order, and how often they use a net.\<close>

definition terminals :: "validation_case \<Rightarrow> string list" where
  "terminals c = concat (map ng_dut_endpoints (case_groups c)) @ map overlay_endpoint (case_overlays c)
     @ concat (map (\<lambda>f. [fst (fixture_endpoints f), snd (fixture_endpoints f)]) (vc_fixtures c))"

definition uses_net :: "string \<Rightarrow> string \<Rightarrow> nat" where
  "uses_net k e = (if parse_endpoint_syntax e = Some (Net k) then 1 else 0)"

definition net_uses :: "validation_case \<Rightarrow> string \<Rightarrow> nat" where
  "net_uses c k =
     sum_list (map (\<lambda>g. sum_list (map (uses_net k) (ng_dut_endpoints g))
        + (if \<not> ng_is_ground g \<and> ng_id g = k then length (ng_dut_endpoints g) else 0)) (case_groups c))
     + sum_list (map (\<lambda>v. uses_net k (overlay_endpoint v)) (case_overlays c))
     + sum_list (map (\<lambda>f. uses_net k (fst (fixture_endpoints f)) + uses_net k (snd (fixture_endpoints f))) (vc_fixtures c))"

definition grounded :: "validation_case \<Rightarrow> bool" where
  "grounded c \<longleftrightarrow> (\<exists>g \<in> set (case_groups c). ng_is_ground g) \<or> (\<exists>e \<in> set (terminals c). parse_endpoint_syntax e = Some Gnd)"

text \<open>The links that carry a signal of the device: those to ground do not.\<close>

definition signal_links :: "validation_case \<Rightarrow> (string \<times> string) list" where
  "signal_links c = filter (\<lambda>(a, b). a \<noteq> ''gnd'' \<and> b \<noteq> ''gnd'')
     (concat (map (\<lambda>g. if ng_is_ground g then [] else map (\<lambda>e. (e, ''net.'' @ ng_id g)) (ng_dut_endpoints g)) (case_groups c))
      @ concat (map overlay_links (case_overlays c))
      @ map fixture_endpoints (vc_fixtures c))"

definition sees_dut :: "validation_case \<Rightarrow> string \<Rightarrow> bool" where
  "sees_dut c e \<longleftrightarrow> e \<noteq> [] \<and> e \<noteq> ''gnd'' \<and> (\<exists>d k. (e, d) \<in> (linked (signal_links c))\<^sup>* \<and> parse_endpoint_syntax d = Some (Dut k))"

definition fixed_voltage :: "validation_case \<Rightarrow> string \<Rightarrow> string \<Rightarrow> bool" where
  "fixed_voltage c p n \<longleftrightarrow> p \<noteq> [] \<and> (p, n) \<in> (linked (voltage_links c))\<^sup>*"

fun positive_reference :: "reference \<Rightarrow> bool" where
  "positive_reference (TargetContract target tolerance) = (0 < target)"
| "positive_reference (BoundsContract lo hi) = ((case lo of None \<Rightarrow> True | Some v \<Rightarrow> 0 < v) \<and> (case hi of None \<Rightarrow> True | Some v \<Rightarrow> 0 < v))"
| "positive_reference (CurveContract tolerance points) = (\<forall>(x, y) \<in> set points. 0 < y)"

definition in_range :: "plan_analysis \<Rightarrow> reference \<Rightarrow> bool" where
  "in_range a r \<longleftrightarrow> (case r of CurveContract tolerance points \<Rightarrow> \<not> outside_range points a | _ \<Rightarrow> True)"

definition sound_observation :: "model_definition \<Rightarrow> validation_case \<Rightarrow> observation \<Rightarrow> bool" where
  "sound_observation md c ob \<longleftrightarrow>
     in_range (vc_analysis c) (ob_reference ob)
     \<and> (ob_log ob \<longrightarrow> positive_reference (ob_reference ob))
     \<and> (case ob_quantity ob of
          VoltageBetween p n \<Rightarrow>
            known_endpoint md (vc_nets c) p \<and> known_endpoint md (vc_nets c) n \<and> p \<noteq> n
            \<and> (sees_dut c p \<or> sees_dut c n)
            \<and> (ob_role ob = Some StimulusRole \<or> \<not> fixed_voltage c p n)
        | CurrentThrough k direction \<Rightarrow>
            (\<exists>f. oget (fixture_by_id (vc_fixtures c)) k = Some f
               \<and> (sees_dut c (fst (fixture_endpoints f)) \<or> sees_dut c (snd (fixture_endpoints f)))
               \<and> (ob_role ob = Some StimulusRole \<or> \<not> is_current_source f)))"

definition sound_sweep :: "validation_case \<Rightarrow> bool" where
  "sound_sweep c \<longleftrightarrow>
     (case vc_analysis c of
        DcSweepAnalysis k start stop step \<Rightarrow> (\<exists>f. oget (fixture_by_id (vc_fixtures c)) k = Some f \<and> sweepable f)
      | _ \<Rightarrow> True)"

definition sound_topology :: "model_definition \<Rightarrow> validation_case \<Rightarrow> bool" where
  "sound_topology md c \<longleftrightarrow>
     (\<forall>e \<in> set (terminals c). known_endpoint md (vc_nets c) e)
     \<and> (\<forall>g \<in> set (case_groups c). ng_is_ground g \<or> ng_id g \<in> set (vc_nets c))
     \<and> (\<forall>v \<in> set (case_overlays c). case v of LogicState e r h k \<Rightarrow> known_endpoint md (vc_nets c) r | PulsedSource e k \<Rightarrow> True)
     \<and> (\<forall>f \<in> set (vc_fixtures c). fst (fixture_endpoints f) \<noteq> snd (fixture_endpoints f))"

definition well_connected :: "model_definition \<Rightarrow> validation_case \<Rightarrow> bool" where
  "well_connected md c \<longleftrightarrow>
     distinct (vc_nets c) \<and> distinct (map fixture_id (vc_fixtures c)) \<and> distinct (map ob_id (vc_observations c))
     \<and> sound_topology md c
     \<and> (\<forall>k \<in> set (vc_nets c). 2 \<le> net_uses c k) \<and> grounded c
     \<and> sound_sweep c \<and> (\<forall>ob \<in> set (vc_observations c). sound_observation md c ob)"

section \<open>The steps of the checks\<close>

definition clean :: "check \<Rightarrow> bool" where
  "clean s \<longleftrightarrow> ck_errors s = []"

lemma add_error_simps [simp]:
  "\<not> clean (add_error path code message s)" "net_count (add_error path code message s) k = net_count s k"
  "ck_ground (add_error path code message s) = ck_ground s" "ck_graph (add_error path code message s) = ck_graph s"
  "ck_covered (add_error path code message s) = ck_covered s"
  by (simp_all add: add_error_def clean_def net_count_def)

lemma add_error_if_simps [simp]:
  "clean (add_error_if b path code message s) \<longleftrightarrow> clean s \<and> \<not> b"
  "net_count (add_error_if b path code message s) k = net_count s k"
  "ck_ground (add_error_if b path code message s) = ck_ground s" "ck_graph (add_error_if b path code message s) = ck_graph s"
  "ck_covered (add_error_if b path code message s) = ck_covered s"
  by (simp_all add: add_error_if_def)

lemma count_terminal_simps [simp]:
  "clean (count_terminal k s) = clean s" "net_count (count_terminal k s) k' = net_count s k' + (if k' = k then 1 else 0)"
  "ck_ground (count_terminal k s) = ck_ground s" "ck_graph (count_terminal k s) = ck_graph s"
  "ck_covered (count_terminal k s) = ck_covered s"
  by (simp_all add: count_terminal_def clean_def net_count_def)

lemma cover_pin_simps [simp]:
  "clean (cover_pin k s) = clean s" "net_count (cover_pin k s) k' = net_count s k'"
  "ck_ground (cover_pin k s) = ck_ground s" "ck_graph (cover_pin k s) = ck_graph s"
  "set (ck_covered (cover_pin k s)) = insert k (set (ck_covered s))"
  by (auto simp: cover_pin_def clean_def net_count_def)

lemma connect_simps [simp]:
  "clean (connect a b s) = clean s" "net_count (connect a b s) k = net_count s k"
  "ck_ground (connect a b s) = ck_ground s" "ck_covered (connect a b s) = ck_covered s"
  by (simp_all add: connect_def clean_def net_count_def)

lemma ground_simps [simp]:
  "clean (s\<lparr>ck_ground := b\<rparr>) = clean s" "net_count (s\<lparr>ck_ground := b\<rparr>) k = net_count s k"
  by (simp_all add: clean_def net_count_def)

lemma validate_endpoint_simps [simp]:
  "clean (validate_endpoint md nets e path b s) \<longleftrightarrow> clean s \<and> known_endpoint md nets e"
  "net_count (validate_endpoint md nets e path b s) k
     = net_count s k + (if b \<and> k \<in> set nets then uses_net k e else 0)"
  "ck_ground (validate_endpoint md nets e path b s) \<longleftrightarrow> ck_ground s \<or> (b \<and> parse_endpoint_syntax e = Some Gnd)"
  "ck_graph (validate_endpoint md nets e path b s) = ck_graph s"
  by (auto simp: validate_endpoint_def known_endpoint_def uses_net_def split: option.split endpoint.split)

text \<open>The edges of the graph.\<close>

definition edge :: "string \<Rightarrow> string \<Rightarrow> check \<Rightarrow> bool" where
  "edge a b s \<longleftrightarrow> b \<in> set (neighbours_of (ck_graph s) a)"

definition joins :: "string \<Rightarrow> string \<Rightarrow> string \<times> string \<Rightarrow> bool" where
  "joins a b l \<longleftrightarrow> (l = (a, b) \<or> l = (b, a)) \<and> a \<noteq> ''gnd'' \<and> b \<noteq> ''gnd''"

lemma edge_simps [simp]:
  "edge a b (connect x y s) \<longleftrightarrow> edge a b s \<or> joins a b (x, y)"
  "edge a b (validate_endpoint md nets e path c s) = edge a b s" "edge a b (add_error_if d path code message s) = edge a b s"
  "edge a b (count_terminal k s) = edge a b s" "edge a b (s\<lparr>ck_ground := d\<rparr>) = edge a b s"
  by (auto simp: edge_def connect_def joins_def)

lemma note_value_new: "oget first v = None \<Longrightarrow> note_value base i v (first, s) = (oput v i first, s)"
  by (simp add: note_value_def)

lemma note_value_seen: "oget first v = Some e \<Longrightarrow> \<exists>s'. note_value base i v (first, s) = (first, s') \<and> \<not> clean s'"
  by (simp add: note_value_def)

lemma duplicate_loop:
  "clean (snd (for_each (note_value base) i vs (first, s))) \<longleftrightarrow> clean s \<and> distinct vs \<and> set vs \<inter> set (okeys first) = {}"
proof (induction vs arbitrary: i first s)
  case (Cons v vs)
  show ?case
  proof (cases "oget first v")
    case None
    then have "v \<notin> set (okeys first)" by (simp only: oget_None_iff not_False_eq_True)
    then show ?thesis unfolding for_each.simps note_value_new [OF None] Cons.IH by auto
  next
    case (Some e)
    then have "v \<in> set (okeys first)" by (rule oget_Some_key)
    moreover obtain s' where "note_value base i v (first, s) = (first, s')" "\<not> clean s'" using note_value_seen [OF Some] by blast
    ultimately show ?thesis using Cons.IH [of "Suc i" first s'] by auto
  qed
qed simp

lemma duplicate_frame:
  "net_count (snd (for_each (note_value base) i vs st)) k = net_count (snd st) k
   \<and> ck_ground (snd (for_each (note_value base) i vs st)) = ck_ground (snd st)
   \<and> ck_graph (snd (for_each (note_value base) i vs st)) = ck_graph (snd st)
   \<and> ck_covered (snd (for_each (note_value base) i vs st)) = ck_covered (snd st)"
  by (induction vs arbitrary: i st) (auto simp: note_value_def split: prod.splits option.splits)

lemma add_duplicate_errors_simps [simp]:
  "clean (add_duplicate_errors vs base s) \<longleftrightarrow> clean s \<and> distinct vs"
  "net_count (add_duplicate_errors vs base s) k = net_count s k"
  "ck_ground (add_duplicate_errors vs base s) = ck_ground s"
  "edge a b (add_duplicate_errors vs base s) = edge a b s" "ck_covered (add_duplicate_errors vs base s) = ck_covered s"
  using duplicate_loop [of base 0 vs "[]" s] duplicate_frame [of base 0 vs "([], s)"]
  by (auto simp: add_duplicate_errors_def edge_def)

section \<open>The topology of a case\<close>

lemma validate_group_effect:
  "clean (validate_group md nets path i g s) \<longleftrightarrow>
     clean s \<and> (ng_is_ground g \<or> ng_id g \<in> set nets) \<and> (\<forall>e \<in> set (ng_dut_endpoints g). known_endpoint md nets e)"
  "k \<in> set nets \<Longrightarrow> net_count (validate_group md nets path i g s) k = net_count s k + (sum_list (map (uses_net k) (ng_dut_endpoints g))
     + (if \<not> ng_is_ground g \<and> ng_id g = k then length (ng_dut_endpoints g) else 0))"
  "ck_ground (validate_group md nets path i g s) \<longleftrightarrow>
     ck_ground s \<or> ng_is_ground g \<or> (\<exists>e \<in> set (ng_dut_endpoints g). parse_endpoint_syntax e = Some Gnd)"
  "edge a b (validate_group md nets path i g s) \<longleftrightarrow>
     edge a b s \<or> (\<not> ng_is_ground g \<and> (\<exists>e \<in> set (ng_dut_endpoints g). joins a b (e, ''net.'' @ ng_id g)))"
proof -
  define f where "f j e s = (let s = validate_endpoint md nets e (indexed_path (indexed_path (path @ ''.application_fixture.node_groups'') i @ ''.dut_endpoints'') j) True s in
         if ng_is_ground g then s else count_terminal (ng_id g) (connect e (group_node g) s))" for j e s
  define t where "t = (if ng_is_ground g then s\<lparr>ck_ground := True\<rparr>
               else add_error_if (ng_id g \<notin> set nets) (indexed_path (path @ ''.application_fixture.node_groups'') i @ ''.id'') ''unknown_application_net''
                 (''application node group '' @ json_quote (ng_id g) @ '' must be declared in case.nets'') s)"
  have group: "validate_group md nets path i g s = for_each f 0 (ng_dut_endpoints g) t"
    unfolding validate_group_def f_def [abs_def] t_def Let_def ..
  show "clean (validate_group md nets path i g s) \<longleftrightarrow>
     clean s \<and> (ng_is_ground g \<or> ng_id g \<in> set nets) \<and> (\<forall>e \<in> set (ng_dut_endpoints g). known_endpoint md nets e)"
    unfolding group by (subst for_each_all [where P = clean and Q = "known_endpoint md nets"]) (auto simp: f_def t_def Let_def)
  show "net_count (validate_group md nets path i g s) k = net_count s k + (sum_list (map (uses_net k) (ng_dut_endpoints g))
     + (if \<not> ng_is_ground g \<and> ng_id g = k then length (ng_dut_endpoints g) else 0))" if "k \<in> set nets"
    unfolding group using that
    by (subst for_each_sum [where g = "\<lambda>s. net_count s k"
            and h = "\<lambda>e. uses_net k e + (if \<not> ng_is_ground g \<and> ng_id g = k then 1 else 0)"])
      (auto simp: f_def t_def Let_def sum_list_addf sum_list_triv)
  show "ck_ground (validate_group md nets path i g s) \<longleftrightarrow>
     ck_ground s \<or> ng_is_ground g \<or> (\<exists>e \<in> set (ng_dut_endpoints g). parse_endpoint_syntax e = Some Gnd)"
    unfolding group by (subst for_each_some [where P = ck_ground and Q = "\<lambda>e. parse_endpoint_syntax e = Some Gnd"]) (auto simp: f_def t_def Let_def)
  show "edge a b (validate_group md nets path i g s) \<longleftrightarrow>
     edge a b s \<or> (\<not> ng_is_ground g \<and> (\<exists>e \<in> set (ng_dut_endpoints g). joins a b (e, ''net.'' @ ng_id g)))"
    unfolding group
    by (subst for_each_some [where P = "edge a b" and Q = "\<lambda>e. \<not> ng_is_ground g \<and> joins a b (e, ''net.'' @ ng_id g)"])
      (auto simp: f_def t_def Let_def group_node_def)
qed

lemma validate_overlay_effect:
  "clean (validate_overlay md nets path i v s) \<longleftrightarrow>
     clean s \<and> known_endpoint md nets (overlay_endpoint v)
     \<and> (case v of LogicState e r h k \<Rightarrow> known_endpoint md nets r | PulsedSource e k \<Rightarrow> True)"
  "k \<in> set nets \<Longrightarrow> net_count (validate_overlay md nets path i v s) k = net_count s k + uses_net k (overlay_endpoint v)"
  "ck_ground (validate_overlay md nets path i v s) \<longleftrightarrow> ck_ground s \<or> parse_endpoint_syntax (overlay_endpoint v) = Some Gnd"
  "edge a b (validate_overlay md nets path i v s) \<longleftrightarrow> edge a b s \<or> (\<exists>l \<in> set (overlay_links v). joins a b l)"
  unfolding validate_overlay_def Let_def by (cases v; simp add: overlay_links_def)+

lemma validate_fixture_effect:
  "clean (validate_fixture md nets path i f s) \<longleftrightarrow>
     clean s \<and> known_endpoint md nets (fst (fixture_endpoints f)) \<and> known_endpoint md nets (snd (fixture_endpoints f))
     \<and> fst (fixture_endpoints f) \<noteq> snd (fixture_endpoints f)"
  "k \<in> set nets \<Longrightarrow> net_count (validate_fixture md nets path i f s) k
     = net_count s k + (uses_net k (fst (fixture_endpoints f)) + uses_net k (snd (fixture_endpoints f)))"
  "ck_ground (validate_fixture md nets path i f s) \<longleftrightarrow>
     ck_ground s \<or> parse_endpoint_syntax (fst (fixture_endpoints f)) = Some Gnd \<or> parse_endpoint_syntax (snd (fixture_endpoints f)) = Some Gnd"
  "edge a b (validate_fixture md nets path i f s) \<longleftrightarrow> edge a b s \<or> joins a b (fixture_endpoints f)"
  unfolding validate_fixture_def Let_def case_prod_beta by auto

lemma topology_clean: "clean (validate_topology md c path s) \<longleftrightarrow> clean s \<and> sound_topology md c"
  unfolding validate_topology_def Let_def sound_topology_def terminals_def
  by (subst for_each_all [where P = clean, OF validate_fixture_effect(1)],
      subst for_each_all [where P = clean, OF validate_overlay_effect(1)],
      subst for_each_all [where P = clean, OF validate_group_effect(1)]) auto

lemma topology_counts:
  "k \<in> set (vc_nets c) \<Longrightarrow> net_count (validate_topology md c path s) k = net_count s k + net_uses c k"
  unfolding validate_topology_def Let_def net_uses_def
  by (simp add: for_each_sum [where g = "\<lambda>s. net_count s k", OF validate_fixture_effect(2)]
      for_each_sum [where g = "\<lambda>s. net_count s k", OF validate_overlay_effect(2)]
      for_each_sum [where g = "\<lambda>s. net_count s k", OF validate_group_effect(2)])

lemma topology_ground: "ck_ground (validate_topology md c path s) \<longleftrightarrow> ck_ground s \<or> grounded c"
  unfolding validate_topology_def Let_def grounded_def terminals_def
  by (subst for_each_some [where P = ck_ground, OF validate_fixture_effect(3)],
      subst for_each_some [where P = ck_ground, OF validate_overlay_effect(3)],
      subst for_each_some [where P = ck_ground, OF validate_group_effect(3)]) auto

lemma joins_signals:
  "(\<exists>l \<in> set (filter (\<lambda>(a, b). a \<noteq> ''gnd'' \<and> b \<noteq> ''gnd'') ls). joins a b l) \<longleftrightarrow> (\<exists>l \<in> set ls. joins a b l)"
  by (auto simp: joins_def)

lemma signals_joined:
  "(\<exists>l \<in> set (signal_links c). joins a b l) \<longleftrightarrow>
     (\<exists>g \<in> set (case_groups c). \<not> ng_is_ground g \<and> (\<exists>e \<in> set (ng_dut_endpoints g). joins a b (e, ''net.'' @ ng_id g)))
     \<or> (\<exists>v \<in> set (case_overlays c). \<exists>l \<in> set (overlay_links v). joins a b l)
     \<or> (\<exists>f \<in> set (vc_fixtures c). joins a b (fixture_endpoints f))"
  unfolding signal_links_def joins_signals by (simp add: bex_Un) blast

lemma topology_edges:
  "edge a b (validate_topology md c path s) \<longleftrightarrow> edge a b s \<or> (\<exists>l \<in> set (signal_links c). joins a b l)"
  unfolding validate_topology_def Let_def signals_joined
  by (subst for_each_some [where P = "edge a b", OF validate_fixture_effect(4)],
      subst for_each_some [where P = "edge a b", OF validate_overlay_effect(4)],
      subst for_each_some [where P = "edge a b", OF validate_group_effect(4)]) (simp add: disj_assoc)

section \<open>Observations\<close>

lemma log_reference_clean:
  "clean (validate_log_reference r path s) \<longleftrightarrow> clean s \<and> positive_reference r"
proof (cases r)
  case (CurveContract tolerance points)
  then show ?thesis
    by (simp add: for_each_all [where P = clean and Q = "\<lambda>point. 0 < snd point"] log_error_if_def not_le) force
qed (auto simp: log_error_if_def not_le split: option.splits)

lemma curve_range_effect [simp]:
  "clean (validate_curve_analysis_range a r path s) \<longleftrightarrow> clean s \<and> in_range a r"
  "ck_graph (validate_curve_analysis_range a r path s) = ck_graph s"
  "ck_covered (validate_curve_analysis_range a r path s) = ck_covered s"
  by (simp_all add: validate_curve_analysis_range_def in_range_def split: reference.split)

lemma uncounted_endpoint [simp]: "ck_covered (validate_endpoint md nets e path False s) = ck_covered s"
  by (simp add: validate_endpoint_def split: option.split endpoint.split)

definition signals :: "validation_case \<Rightarrow> adjacency \<Rightarrow> bool" where
  "signals c g \<longleftrightarrow> (\<forall>a b. b \<in> set (neighbours_of g a) \<longleftrightarrow> (\<exists>l \<in> set (signal_links c). joins a b l))"

lemma is_dut_iff: "is_dut d \<longleftrightarrow> (\<exists>k. parse_endpoint_syntax d = Some (Dut k))"
  by (simp add: is_dut_def split: option.split endpoint.split)

lemma reaches_dut_iff:
  assumes "signals c g"
  shows "reaches_dut g e \<longleftrightarrow> sees_dut c e"
proof -
  have "l \<in> set (signal_links c) \<Longrightarrow> fst l \<noteq> ''gnd'' \<and> snd l \<noteq> ''gnd''" for l
    unfolding signal_links_def by (cases l) (simp only: set_filter mem_Collect_eq prod.case fst_conv snd_conv, blast)
  then have "b \<in> set (neighbours_of g a) \<longleftrightarrow> (a, b) \<in> set (signal_links c) \<or> (b, a) \<in> set (signal_links c)" for a b
    using assms by (fastforce simp: signals_def joins_def)
  note found = search_links [OF this]
  show ?thesis unfolding reaches_dut_def sees_dut_def found is_dut_iff by blast
qed

lemma clamped_iff: "is_voltage_clamped c p n \<longleftrightarrow> fixed_voltage c p n"
  unfolding is_voltage_clamped_def fixed_voltage_def search_graph by simp

lemma log_reference_frame [simp]:
  "ck_graph (validate_log_reference r path s) = ck_graph s" "ck_covered (validate_log_reference r path s) = ck_covered s"
  by (cases r; simp add: log_error_if_def for_each_same [where g = ck_graph] for_each_same [where g = ck_covered])+

lemma validate_observation_frame [simp]:
  "ck_graph (validate_observation md c path i ob s) = ck_graph s"
  "ck_covered (validate_observation md c path i ob s) = ck_covered s"
  by (simp_all add: validate_observation_def Let_def case_prod_beta split: quantity.split option.split)

lemma validate_observation_clean:
  assumes "signals c (ck_graph s)"
  shows "clean (validate_observation md c path i ob s) \<longleftrightarrow> clean s \<and> sound_observation md c ob"
proof -
  note reach = reaches_dut_iff [OF assms] and defs = validate_observation_def Let_def sound_observation_def
  show ?thesis
  proof (cases "ob_quantity ob")
    case (VoltageBetween p n)
    then show ?thesis
      unfolding defs by (simp add: log_reference_clean reach clamped_iff) blast
  next
    case (CurrentThrough k direction)
    show ?thesis
    proof (cases "oget (fixture_by_id (vc_fixtures c)) k")
      case None
      with CurrentThrough show ?thesis unfolding defs by (simp add: log_reference_clean)
    next
      case (Some f)
      with CurrentThrough show ?thesis
        unfolding defs case_prod_beta by (simp add: log_reference_clean reach) blast
    qed
  qed
qed

lemma observations_clean:
  "signals c (ck_graph s) \<Longrightarrow> clean (for_each (validate_observation md c path) i obs s)
     \<longleftrightarrow> clean s \<and> (\<forall>ob \<in> set obs. sound_observation md c ob)"
  by (induction obs arbitrary: i s) (simp_all add: validate_observation_clean conj_assoc)

lemma sweep_effect [simp]:
  "clean (validate_sweep c path s) \<longleftrightarrow> clean s \<and> sound_sweep c" "ck_graph (validate_sweep c path s) = ck_graph s"
  "ck_covered (validate_sweep c path s) = ck_covered s"
  by (simp_all add: validate_sweep_def sound_sweep_def split: plan_analysis.split option.split)

lemma nets_effect:
  "clean (for_each (validate_net path) i ks s) \<longleftrightarrow> clean s \<and> (\<forall>k \<in> set ks. 2 \<le> net_count s k)"
  "ck_graph (for_each (validate_net path) i ks s) = ck_graph s" "ck_ground (for_each (validate_net path) i ks s) = ck_ground s"
  "ck_covered (for_each (validate_net path) i ks s) = ck_covered s"
proof -
  show "clean (for_each (validate_net path) i ks s) \<longleftrightarrow> clean s \<and> (\<forall>k \<in> set ks. 2 \<le> net_count s k)"
    by (induction ks arbitrary: i s) (auto simp: validate_net_def)
qed (simp_all add: for_each_same [where g = ck_graph] for_each_same [where g = ck_ground] for_each_same [where g = ck_covered]
    validate_net_def)

section \<open>The checks are exact\<close>

lemma connectivity_clean:
  "fst (validate_case_connectivity md index c (errors, covered)) = [] \<longleftrightarrow> errors = [] \<and> well_connected md c"
proof -
  define path where "path = indexed_path ''cases'' index"
  define s0 where "s0 = start_check errors covered"
  define s1 where "s1 = add_duplicate_errors (map ob_id (vc_observations c)) (path @ ''.observations'')
      (add_duplicate_errors (map fixture_id (vc_fixtures c)) (path @ ''.fixtures'')
        (add_duplicate_errors (vc_nets c) (path @ ''.nets'') s0))"
  define s2 where "s2 = validate_topology md c path s1"
  define s3 where "s3 = for_each (validate_net path) 0 (vc_nets c) s2"
  define s4 where "s4 = validate_sweep c path (add_error_if (\<not> ck_ground s3) (path @ ''.fixtures'') ''missing_ground''
      ''must connect at least one fixture terminal to gnd'' s3)"
  have start: "clean s0 \<longleftrightarrow> errors = []" "net_count s0 k = 0" "\<not> ck_ground s0" "\<not> edge a b s0" for k a b
    by (simp_all add: s0_def start_check_def clean_def net_count_def edge_def)
  have s1: "clean s1 \<longleftrightarrow> errors = [] \<and> distinct (vc_nets c) \<and> distinct (map fixture_id (vc_fixtures c)) \<and> distinct (map ob_id (vc_observations c))"
    "net_count s1 k = 0" "\<not> ck_ground s1" "\<not> edge a b s1" for k a b
    using start by (simp_all add: s1_def conj_assoc)
  have s3: "clean s3 \<longleftrightarrow> clean s1 \<and> sound_topology md c \<and> (\<forall>k \<in> set (vc_nets c). 2 \<le> net_uses c k)" "ck_ground s3 \<longleftrightarrow> grounded c"
    using s1 by (auto simp: s3_def s2_def nets_effect topology_clean topology_counts topology_ground)
  have "signals c (ck_graph s4)"
    using s1(4) topology_edges [of _ _ md c path s1] unfolding signals_def edge_def by (simp add: s4_def s3_def s2_def nets_effect)
  from observations_clean [OF this]
  have "clean (for_each (validate_observation md c path) 0 (vc_observations c) s4) \<longleftrightarrow> errors = [] \<and> well_connected md c"
    using s1 s3 by (auto simp: s4_def well_connected_def)
  then show ?thesis
    by (simp add: validate_case_connectivity_def Let_def clean_def s4_def s3_def s2_def s1_def s0_def path_def)
qed

text \<open>The checks of a case report no error exactly when the case is well connected: its nets,
  elements and observations have different names; every terminal names a pin of the model or a
  declared net; no element is shorted; every net has two terminals and one terminal is grounded; a
  sweep has a source; and every observation sees the device through links other than ground, is not
  fixed by ideal sources unless it is a stimulus, and has a reference inside the analysis.\<close>

theorem connectivity_exact:
  "fst (validate_case_connectivity md index c (errors, covered)) = [] \<longleftrightarrow> errors = [] \<and> well_connected md c"
  by (rule connectivity_clean)

end
