(* ===== verification/Results.thy ===== *)
theory Results
  imports Prelude "HOL-Library.Multiset"
begin

text \<open>
  Code that throws, as a sum of the message and the value, with the loops that stop at the first
  throw; and the stable sort of an array by a comparison.
\<close>

section \<open>Throwing\<close>

fun ok_then :: "string + 'a \<Rightarrow> ('a \<Rightarrow> string + 'b) \<Rightarrow> string + 'b" where
  "ok_then (Inl e) f = Inl e"
| "ok_then (Inr x) f = f x"

fun map_results :: "('a \<Rightarrow> string + 'b) \<Rightarrow> 'a list \<Rightarrow> string + 'b list" where
  "map_results f [] = Inr []"
| "map_results f (x # xs) = ok_then (f x) (\<lambda>y. ok_then (map_results f xs) (\<lambda>ys. Inr (y # ys)))"

fun fold_results :: "('a \<Rightarrow> 's \<Rightarrow> string + 's) \<Rightarrow> 'a list \<Rightarrow> 's \<Rightarrow> string + 's" where
  "fold_results f [] s = Inr s"
| "fold_results f (x # xs) s = ok_then (f x s) (fold_results f xs)"

lemma ok_then_Inr: "ok_then r f = Inr y \<longleftrightarrow> (\<exists>x. r = Inr x \<and> f x = Inr y)"
  by (cases r) auto

lemma map_results_Inr: "map_results f xs = Inr ys \<longleftrightarrow> list_all2 (\<lambda>x y. f x = Inr y) xs ys"
  by (induction xs arbitrary: ys) (auto simp: ok_then_Inr list_all2_Cons1)

lemma map_results_total: "(\<And>x. x \<in> set xs \<Longrightarrow> f x = Inr (g x)) \<Longrightarrow> map_results f xs = Inr (map g xs)"
  by (induction xs) simp_all

section \<open>Sorting\<close>

text \<open>A stable sort by a comparison that is negative where the first argument comes first.\<close>

fun insert_by :: "('a \<Rightarrow> 'a \<Rightarrow> int) \<Rightarrow> 'a \<Rightarrow> 'a list \<Rightarrow> 'a list" where
  "insert_by cmp x [] = [x]"
| "insert_by cmp x (y # ys) = (if cmp x y \<le> 0 then x # y # ys else y # insert_by cmp x ys)"

definition sort_by :: "('a \<Rightarrow> 'a \<Rightarrow> int) \<Rightarrow> 'a list \<Rightarrow> 'a list" where
  "sort_by cmp xs = foldr (insert_by cmp) xs []"

lemma mset_insert_by [simp]: "set (insert_by cmp x ys) = insert x (set ys)" "length (insert_by cmp x ys) = Suc (length ys)"
  by (induction ys) auto

lemma set_sort_by [simp]: "set (sort_by cmp xs) = set xs"
  unfolding sort_by_def by (induction xs) simp_all

lemma distinct_insert_by: "distinct (map g (insert_by cmp x ys)) \<longleftrightarrow> distinct (map g (x # ys))"
  by (induction ys) auto

lemma set_map_sort_by: "distinct (map g (sort_by cmp xs)) \<longleftrightarrow> distinct (map g xs)"
proof (induction xs)
  case (Cons x xs)
  have "g ` set (foldr (insert_by cmp) xs []) = g ` set xs" using set_sort_by [of cmp xs] by (simp add: sort_by_def)
  with Cons show ?case by (simp add: sort_by_def distinct_insert_by)
qed (simp add: sort_by_def)

lemma insert_by_mset [simp]: "mset (insert_by cmp x ys) = add_mset x (mset ys)"
  by (induction ys) simp_all

lemma sort_by_mset [simp]: "mset (sort_by cmp xs) = mset xs"
  unfolding sort_by_def by (induction xs) simp_all

end
