(* ===== verification/Spice_Compiler.thy ===== *)
theory Spice_Compiler
  imports Spice_Connected Results
begin

text \<open>
  The compiler of a validation case to a netlist, \<open>src/server/spice-validation/compiler.ts\<close>: the nodes of
  the endpoints, the elements, the saved vectors, the analysis. A thrown error is the left side of a
  sum; the loops stop at the first. The order of \<open>localeCompare\<close> depends on the host and is a
  parameter.
\<close>

section \<open>Numbers\<close>

definition format_spice_number :: "jsnum \<Rightarrow> string + string" where
  "format_spice_number v =
     (case v of Fin x \<Rightarrow> Inr (number_text (Fin x)) | _ \<Rightarrow> Inl ''Cannot compile a non-finite number'')"

text \<open>The numbers of a plan are finite.\<close>

definition spice_number :: "rat \<Rightarrow> string" where
  "spice_number x = (case format_spice_number (Fin x) of Inl e \<Rightarrow> [] | Inr t \<Rightarrow> t)"

definition compile_pulse :: "pulse \<Rightarrow> string" where
  "compile_pulse p =
     ''PULSE('' @ join_with '' '' (map spice_number
        [pl_low p, pl_high p, pl_delay p, pl_rise p, pl_fall p, pl_width p, pl_period p]) @ '')''"

section \<open>Nodes\<close>

definition dut_nodes :: "model_definition \<Rightarrow> (string, string) omap" where
  "dut_nodes md = for_each (\<lambda>i pin. oput (mp_spice_node pin) (dut_node_name i)) 0 (md_pins md) []"

definition group_spice_node :: "node_group \<Rightarrow> string" where
  "group_spice_node g = (if ng_is_ground g then ''0'' else net_node_name (ng_id g))"

definition dut_scoped :: "string \<Rightarrow> bool" where
  "dut_scoped e \<longleftrightarrow> take 4 e = ''dut.''"

definition bind_group_endpoint ::
  "(string, string) omap \<Rightarrow> node_group \<Rightarrow> string \<Rightarrow> (string, string) omap \<Rightarrow> string + (string, string) omap" where
  "bind_group_endpoint dut g e grouped =
     (if \<not> dut_scoped e
      then Inl (''Application node group '' @ json_quote (ng_id g) @ '' contains non-DUT endpoint '' @ json_quote e)
      else
        (let k = drop 4 e in
         if oget dut k = None
         then Inl (''Application node group '' @ json_quote (ng_id g) @ '' references unknown DUT pin '' @ json_quote k)
         else if oget grouped k \<noteq> None
         then Inl (''DUT pin '' @ json_quote k @ '' belongs to more than one application node group'')
         else Inr (oput k (group_spice_node g) grouped)))"

definition bind_overlay ::
  "(string, string) omap \<Rightarrow> overlay \<Rightarrow> (string, string) omap \<Rightarrow> string + (string, string) omap" where
  "bind_overlay dut v grouped =
     (if \<not> dut_scoped (overlay_endpoint v)
      then Inl (''Application logic overlay contains non-DUT endpoint '' @ json_quote (overlay_endpoint v))
      else
        (let k = drop 4 (overlay_endpoint v) in
         if oget dut k = None \<or> oget grouped k \<noteq> None
         then Inl (''Application logic overlay endpoint '' @ json_quote k @ '' is not one detached DUT pin'')
         else
           (case v of
              PulsedSource e g \<Rightarrow> Inr grouped
            | LogicState e r h g \<Rightarrow>
                (case (if r = ''gnd'' then Some ''0'' else if dut_scoped r then oget grouped (drop 4 r) else None) of
                   None \<Rightarrow> Inl (''Application logic overlay reference '' @ json_quote r
                     @ '' is not anchored by the resolved topology'')
                 | Some n \<Rightarrow> Inr (oput k n grouped)))))"

definition node_bindings :: "model_definition \<Rightarrow> validation_case \<Rightarrow> string + (string, string) omap" where
  "node_bindings md c =
     ok_then
       (fold_results (\<lambda>g. fold_results (bind_group_endpoint (dut_nodes md) g) (ng_dut_endpoints g)) (case_groups c) [])
       (fold_results (bind_overlay (dut_nodes md)) (case_overlays c))"

definition resolve_node :: "model_definition \<Rightarrow> (string, string) omap \<Rightarrow> string \<Rightarrow> string + string" where
  "resolve_node md grouped e =
     (case parse_endpoint_syntax e of
        None \<Rightarrow> Inl (''Invalid endpoint '' @ json_quote e)
      | Some Gnd \<Rightarrow> Inr ''0''
      | Some (Net k) \<Rightarrow> Inr (net_node_name k)
      | Some (Dut k) \<Rightarrow>
          (case (case oget grouped k of None \<Rightarrow> oget (dut_nodes md) k | Some n \<Rightarrow> Some n) of
             None \<Rightarrow> Inl (''Unknown DUT pin '' @ json_quote k)
           | Some n \<Rightarrow> Inr n))"

section \<open>Elements\<close>

fun fixture_value_text :: "fixture \<Rightarrow> string" where
  "fixture_value_text (Resistor k p n v) = spice_number v"
| "fixture_value_text (Capacitor k p n v) = spice_number v"
| "fixture_value_text (Inductor k p n v) = spice_number v"
| "fixture_value_text (VoltageSource k p n v pulse) =
     ''DC '' @ spice_number v @ (case pulse of None \<Rightarrow> [] | Some x \<Rightarrow> '' '' @ compile_pulse x)"
| "fixture_value_text (CurrentSource k p n v pulse) =
     ''DC '' @ spice_number v @ (case pulse of None \<Rightarrow> [] | Some x \<Rightarrow> '' '' @ compile_pulse x)"
| "fixture_value_text (Diode k a c) = ''D_VALIDATION''"

definition compile_fixture :: "(string \<Rightarrow> string + string) \<Rightarrow> fixture \<Rightarrow> string + string" where
  "compile_fixture resolve f =
     (case fixture_endpoints f of (a, b) \<Rightarrow>
        ok_then (resolve a) (\<lambda>x. ok_then (resolve b) (\<lambda>y.
          Inr (fixture_element_name f @ '' '' @ x @ '' '' @ y @ '' '' @ fixture_value_text f))))"

fun current_vector :: "fixture \<Rightarrow> string \<Rightarrow> string" where
  "current_vector (VoltageSource k p n v pulse) name = ''i('' @ name @ '')''"
| "current_vector (Inductor k p n v) name = ''i('' @ name @ '')''"
| "current_vector (Resistor k p n v) name = ''@'' @ name @ ''[i]''"
| "current_vector (Capacitor k p n v) name = ''@'' @ name @ ''[i]''"
| "current_vector (CurrentSource k p n v pulse) name = ''@'' @ name @ ''[current]''"
| "current_vector (Diode k a c) name = ''@'' @ name @ ''[id]''"

datatype measured = NodePair string string | ElementCurrent string

record compiled_observation =
  co_observation :: observation
  co_measured :: measured
  co_saved_vectors :: "string list"

definition node_vectors :: "string \<Rightarrow> string \<Rightarrow> string list" where
  "node_vectors p n = js_set (map (\<lambda>x. ''v('' @ x @ '')'') (filter (\<lambda>x. x \<noteq> ''0'') [p, n]))"

definition compile_observation ::
  "(string \<Rightarrow> string + string) \<Rightarrow> (string, fixture) omap \<Rightarrow> observation \<Rightarrow> string + compiled_observation" where
  "compile_observation resolve fixtures ob =
     (case ob_quantity ob of
        VoltageBetween p n \<Rightarrow>
          ok_then (resolve p) (\<lambda>x. ok_then (resolve n) (\<lambda>y.
            Inr \<lparr> co_observation = ob, co_measured = NodePair x y, co_saved_vectors = node_vectors x y \<rparr>))
      | CurrentThrough k direction \<Rightarrow>
          (case oget fixtures k of
             None \<Rightarrow> Inl (''Observation '' @ json_quote (ob_id ob) @ '' references unknown element '' @ json_quote k)
           | Some f \<Rightarrow>
               Inr \<lparr> co_observation = ob, co_measured = ElementCurrent (fixture_element_name f),
                 co_saved_vectors = [current_vector f (fixture_element_name f)] \<rparr>))"

definition compile_analysis :: "plan_analysis \<Rightarrow> (string, fixture) omap \<Rightarrow> string + string" where
  "compile_analysis a fixtures =
     (case a of
        OperatingPointAnalysis \<Rightarrow> Inr ''.op''
      | TransientAnalysis step stop start \<Rightarrow>
          Inr (''.tran '' @ spice_number step @ '' '' @ spice_number stop
            @ (case start of None \<Rightarrow> [] | Some t \<Rightarrow> '' '' @ spice_number t))
      | DcSweepAnalysis source start stop step \<Rightarrow>
          (case oget fixtures source of
             None \<Rightarrow> Inl (''DC sweep source '' @ json_quote source @ '' is invalid'')
           | Some f \<Rightarrow>
               if \<not> sweepable f then Inl (''DC sweep source '' @ json_quote source @ '' is invalid'')
               else Inr (''.dc '' @ fixture_element_name f @ '' '' @ spice_number start @ '' '' @ spice_number stop
                 @ '' '' @ spice_number step)))"

section \<open>A case\<close>

text \<open>The pattern \<open>/^\s*\.measure\b/im\<close>.\<close>

definition line_end :: "char \<Rightarrow> bool" where
  "line_end c \<longleftrightarrow> c = CHR 0x0A \<or> c = CHR 0x0D"

definition fold_char :: "char \<Rightarrow> char" where
  "fold_char c = (if is_upper c then char_of (of_char c + (32 :: nat)) else c)"

definition measure_here :: "string \<Rightarrow> bool" where
  "measure_here s =
     (let t = dropWhile is_space s in
      map fold_char (take 8 t) = ''.measure'' \<and> (drop 8 t = [] \<or> \<not> is_word_char (hd (drop 8 t))))"

fun at_line_start :: "(string \<Rightarrow> bool) \<Rightarrow> string \<Rightarrow> bool" where
  "at_line_start P [] = False"
| "at_line_start P (c # s) = ((line_end c \<and> P s) \<or> at_line_start P s)"

definition contains_measure :: "string \<Rightarrow> bool" where
  "contains_measure s \<longleftrightarrow> measure_here s \<or> at_line_start measure_here s"

record compiled_case =
  cc_case_id :: string
  cc_source :: string
  cc_observations :: "compiled_observation list"
  cc_element_names :: "(string, string) omap"

definition element_names :: "fixture list \<Rightarrow> (string, string) omap" where
  "element_names fs = foldl (\<lambda>m f. oput (fixture_id f) (fixture_element_name f) m) [] fs"

definition netlist :: "string \<Rightarrow> string \<Rightarrow> string list \<Rightarrow> bool \<Rightarrow> string list \<Rightarrow> string list \<Rightarrow> string \<Rightarrow> string list" where
  "netlist case_id entry nodes diodes elements vectors analysis =
     [''* spice-validation version 1 case '' @ case_id, ''.include ../model.lib'',
      ''X_DUT '' @ join_with '' '' nodes @ '' '' @ entry]
     @ (if diodes then [''.model D_VALIDATION D''] else [])
     @ elements
     @ [''.save '' @ join_with '' '' vectors, analysis, ''.end'', []]"

definition compile_validation_case ::
  "(string \<Rightarrow> string \<Rightarrow> int) \<Rightarrow> model_definition \<Rightarrow> validation_case \<Rightarrow> string + compiled_case" where
  "compile_validation_case collate md c =
     ok_then (node_bindings md c) (\<lambda>grouped.
       let resolve = resolve_node md grouped;
           fixtures = sort_by (\<lambda>a b. collate (fixture_id a) (fixture_id b)) (vc_fixtures c);
           by_id = fixture_by_id fixtures in
       ok_then (map_results (compile_observation resolve by_id) (vc_observations c)) (\<lambda>obs.
         let vectors = sort (js_set (concat (map co_saved_vectors obs))) in
         if vectors = [] then Inl (''Case '' @ json_quote (vc_id c) @ '' has no save vectors'')
         else
           ok_then (map_results (\<lambda>k. resolve (''dut.'' @ k)) (manifest_nodes md)) (\<lambda>nodes.
             ok_then (map_results (compile_fixture resolve) fixtures) (\<lambda>elements.
               ok_then (compile_analysis (vc_analysis c) by_id) (\<lambda>analysis.
                 let source = join_with [CHR 0x0A]
                       (netlist (vc_id c) (md_entry_name md) nodes (list_ex is_diode fixtures) elements vectors analysis) in
                 if contains_measure source then Inl ''Compiler invariant failed: .measure is forbidden''
                 else Inr \<lparr> cc_case_id = vc_id c, cc_source = source, cc_observations = obs,
                            cc_element_names = element_names fixtures \<rparr>)))))"

section \<open>A case for the examples\<close>

definition divider_model :: model_definition where
  "divider_model = \<lparr> md_entry_name = ''DIVIDER'',
     md_pins = [\<lparr> mp_component_pin = ''1'', mp_spice_node = ''IN'' \<rparr>, \<lparr> mp_component_pin = ''2'', mp_spice_node = ''OUT'' \<rparr>] \<rparr>"
definition divider_case :: "application_fixture option \<Rightarrow> validation_case" where
  "divider_case application = \<lparr> vc_id = ''ratio'', vc_requirement_ids = [''r1''], vc_nets = [],
     vc_fixtures = [VoltageSource ''supply'' ''dut.IN'' ''gnd'' 10 None, Resistor ''load'' ''dut.OUT'' ''gnd'' 1000],
     vc_analysis = OperatingPointAnalysis,
     vc_observations = [\<lparr> ob_id = ''out'', ob_role = None, ob_requirement_id = ''r1'', ob_log = False,
        ob_reference = TargetContract 5 1, ob_quantity = VoltageBetween ''dut.OUT'' ''gnd'' \<rparr>],
     vc_application = application \<rparr>"

definition grounded_output :: application_fixture where
  "grounded_output = \<lparr> af_node_groups = [\<lparr> ng_id = ''rail'', ng_is_ground = True, ng_dut_endpoints = [''dut.OUT''] \<rparr>],
     af_overlays = [LogicState ''dut.IN'' ''dut.OUT'' False ''x''] \<rparr>"

end
