(* ===== verification/Spice_Compiled.thy ===== *)
theory Spice_Compiled
  imports Spice_Compiler
begin

text \<open>
  What the compiler of a validation case guarantees: different endpoints have different nodes, the
  pins of a documented node group share the node of the group, the netlist holds every element and
  every vector that is observed, numbers are read back as they were, and a case that the
  connectivity checks accept compiles.
\<close>

section \<open>Nodes\<close>

lemma nat_str_inj: "nat_str m = nat_str n \<longleftrightarrow> m = n"
  using nat_str_value [of m] nat_str_value [of n] by metis

lemma dut_node_name_inj: "dut_node_name i = dut_node_name j \<longleftrightarrow> i = j"
  by (simp add: dut_node_name_def nat_str_inj)

text \<open>The node of a pin is that of the last pin with its name.\<close>

lemma dut_nodes_loop:
  "oget (for_each (\<lambda>i pin. oput (mp_spice_node pin) (dut_node_name i)) i pins m) k = Some n \<Longrightarrow>
     oget m k = Some n \<or> (\<exists>j < length pins. n = dut_node_name (i + j) \<and> mp_spice_node (pins ! j) = k)"
proof (induction pins arbitrary: i m)
  case (Cons pin pins)
  then consider "oget (oput (mp_spice_node pin) (dut_node_name i) m) k = Some n"
    | j where "j < length pins" "n = dut_node_name (Suc i + j)" "mp_spice_node (pins ! j) = k" by force
  then show ?case
  proof cases
    case 1
    then show ?thesis by (cases "k = mp_spice_node pin") (auto intro: exI [of _ 0])
  next
    case 2
    then show ?thesis by (auto intro: exI [of _ "Suc j"])
  qed
qed simp

lemma dut_nodes_pin:
  "oget (dut_nodes md) k = Some n \<Longrightarrow> \<exists>j < length (md_pins md). n = dut_node_name j \<and> mp_spice_node (md_pins md ! j) = k"
  using dut_nodes_loop [of 0 "md_pins md" "[]" k n] by (auto simp: dut_nodes_def)

lemma dut_nodes_known: "oget (dut_nodes md) k \<noteq> None \<longleftrightarrow> k \<in> set (manifest_nodes md)"
  unfolding dut_nodes_def manifest_nodes_def
  by (subst for_each_some [where P = "\<lambda>m. oget m k \<noteq> None" and Q = "\<lambda>pin. mp_spice_node pin = k"]) (auto split: if_splits)

lemma dut_nodes_inj: "oget (dut_nodes md) k = Some n \<Longrightarrow> oget (dut_nodes md) l = Some n \<Longrightarrow> k = l"
  using dut_nodes_pin dut_node_name_inj by metis

lemma node_texts [simp]: "dut_node_name i \<noteq> ''0''" "net_node_name k \<noteq> ''0''" "dut_node_name i \<noteq> net_node_name k"
  "net_node_name k \<noteq> dut_node_name i" "''0'' \<noteq> dut_node_name i" "''0'' \<noteq> net_node_name k" "net_node_name k = net_node_name l \<longleftrightarrow> k = l"
  by (simp_all add: dut_node_name_def net_node_name_def)

lemma unbound_node:
  "resolve_node md [] e = Inr n \<longleftrightarrow>
     (parse_endpoint_syntax e = Some Gnd \<and> n = ''0'')
     \<or> (\<exists>k. parse_endpoint_syntax e = Some (Net k) \<and> n = net_node_name k)
     \<or> (\<exists>k. parse_endpoint_syntax e = Some (Dut k) \<and> oget (dut_nodes md) k = Some n)"
  by (auto simp: resolve_node_def split: option.splits endpoint.splits)

text \<open>Where no documented topology joins pins, endpoints that resolve have a node of their own: two
  endpoints of a plan with the same node are the same endpoint.\<close>

theorem unbound_endpoints_apart: "inj_on (resolve_node md []) {e. \<exists>n. resolve_node md [] e = Inr n}"
proof (rule inj_onI, elim CollectE exE)
  fix a b m n
  assume same: "resolve_node md [] a = resolve_node md [] b" "resolve_node md [] a = Inr m" "resolve_node md [] b = Inr n"
  then obtain x y where parsed: "parse_endpoint_syntax a = Some x" "parse_endpoint_syntax b = Some y"
    by (auto simp: unbound_node)
  have "x = y"
  proof (cases x)
    case Gnd
    with same parsed show ?thesis by (cases y) (auto simp: unbound_node dest!: dut_nodes_pin)
  next
    case (Dut k)
    with same parsed show ?thesis by (cases y) (auto simp: unbound_node dest: dut_nodes_inj dut_nodes_pin)
  next
    case (Net k)
    with same parsed show ?thesis by (cases y) (auto simp: unbound_node dest!: dut_nodes_pin)
  qed
  with parsed show "a = b" using endpoint_text_read by metis
qed

section \<open>Documented topologies\<close>

lemma fold_results_append:
  "fold_results f (xs @ ys) s = ok_then (fold_results f xs s) (fold_results f ys)"
proof (induction xs arbitrary: s)
  case (Cons x xs)
  then show ?case by (cases "f x s") simp_all
qed simp

text \<open>A pin that is bound stays bound as it is: the bindings only grow.\<close>

definition keeps :: "(string, string) omap \<Rightarrow> (string, string) omap \<Rightarrow> bool" where
  "keeps m n \<longleftrightarrow> (\<forall>k v. oget m k = Some v \<longrightarrow> oget n k = Some v)"

lemma keeps_refl [simp]: "keeps m m"
  by (simp add: keeps_def)

lemma keeps_trans [trans]: "keeps l m \<Longrightarrow> keeps m n \<Longrightarrow> keeps l n"
  by (simp add: keeps_def)

lemma fold_results_keeps:
  "fold_results f xs m = Inr n \<Longrightarrow> (\<And>x m n. x \<in> set xs \<Longrightarrow> f x m = Inr n \<Longrightarrow> keeps m n) \<Longrightarrow> keeps m n"
proof (induction xs arbitrary: m)
  case (Cons x xs)
  then obtain l where "f x m = Inr l" "fold_results f xs l = Inr n" by (auto simp: ok_then_Inr)
  moreover from this Cons have "keeps m l" "keeps l n" by auto
  ultimately show ?case by (blast intro: keeps_trans)
qed simp

lemma fold_results_step:
  assumes "fold_results f xs m = Inr n" and "x \<in> set xs" and "\<And>x m n. x \<in> set xs \<Longrightarrow> f x m = Inr n \<Longrightarrow> keeps m n"
  shows "\<exists>l r. f x l = Inr r \<and> keeps r n"
proof -
  obtain ys zs where xs: "xs = ys @ x # zs" using assms(2) by (auto dest: split_list)
  with assms(1) obtain l r where steps: "f x l = Inr r" "fold_results f zs r = Inr n"
    by (auto simp: fold_results_append ok_then_Inr)
  moreover from fold_results_keeps [OF steps(2)] assms(3) xs have "keeps r n" by auto
  ultimately show ?thesis by blast
qed

lemma bind_group_endpoint_Inr:
  "bind_group_endpoint dut g e m = Inr n \<longleftrightarrow>
     dut_scoped e \<and> oget dut (drop 4 e) \<noteq> None \<and> oget m (drop 4 e) = None \<and> n = oput (drop 4 e) (group_spice_node g) m"
  by (auto simp: bind_group_endpoint_def Let_def split: option.splits)

lemma bind_overlay_Inr:
  "bind_overlay dut v m = Inr n \<Longrightarrow>
     dut_scoped (overlay_endpoint v) \<and> oget m (drop 4 (overlay_endpoint v)) = None
     \<and> (case v of PulsedSource e g \<Rightarrow> n = m
        | LogicState e r h g \<Rightarrow> (\<exists>x. (if r = ''gnd'' then x = ''0'' else dut_scoped r \<and> oget m (drop 4 r) = Some x) \<and> n = oput (drop 4 e) x m))"
  by (cases v) (auto simp: bind_overlay_def Let_def split: if_splits option.splits)

lemma group_keeps: "bind_group_endpoint dut g e m = Inr n \<Longrightarrow> keeps m n"
  by (auto simp: bind_group_endpoint_Inr keeps_def)

lemma overlay_keeps: "bind_overlay dut v m = Inr n \<Longrightarrow> keeps m n"
  by (drule bind_overlay_Inr) (auto simp: keeps_def split: overlay.splits)

lemma groups_keep: "fold_results (bind_group_endpoint dut g) es m = Inr n \<Longrightarrow> keeps m n"
  by (erule fold_results_keeps) (rule group_keeps)

lemma scoped_text: "dut_scoped e \<Longrightarrow> parse_endpoint_syntax e = Some p \<Longrightarrow> p = Dut (drop 4 e)"
  by (cases p) (auto simp: endpoint_parsed dut_scoped_def)

lemma bound_pin:
  "oget grouped k = Some n \<Longrightarrow> parse_endpoint_syntax e = Some (Dut k) \<Longrightarrow> resolve_node md grouped e = Inr n"
  by (simp add: resolve_node_def)

lemma group_bound:
  assumes bindings: "node_bindings md c = Inr grouped" and g: "g \<in> set (case_groups c)" and e: "e \<in> set (ng_dut_endpoints g)"
  shows "dut_scoped e \<and> oget grouped (drop 4 e) = Some (group_spice_node g)"
proof -
  let ?bind = "bind_group_endpoint (dut_nodes md)"
  obtain m where groups: "fold_results (\<lambda>g. fold_results (?bind g) (ng_dut_endpoints g)) (case_groups c) [] = Inr m"
    and overlays: "fold_results (bind_overlay (dut_nodes md)) (case_overlays c) m = Inr grouped"
    using bindings by (auto simp: node_bindings_def ok_then_Inr)
  obtain l r where group: "fold_results (?bind g) (ng_dut_endpoints g) l = Inr r" "keeps r m"
    using fold_results_step [OF groups g] groups_keep by meson
  obtain l' r' where "?bind g e l' = Inr r'" "keeps r' r"
    using fold_results_step [OF group(1) e] group_keeps by meson
  moreover have "keeps m grouped" using fold_results_keeps [OF overlays overlay_keeps] .
  ultimately show ?thesis using group(2) by (auto simp: bind_group_endpoint_Inr keeps_def)
qed

lemma overlay_bound:
  assumes bindings: "node_bindings md c = Inr grouped" and overlay: "LogicState e r high k \<in> set (case_overlays c)"
    and read: "parse_endpoint_syntax e \<noteq> None" "parse_endpoint_syntax r \<noteq> None"
  shows "resolve_node md grouped e = resolve_node md grouped r"
proof -
  obtain m where overlays: "fold_results (bind_overlay (dut_nodes md)) (case_overlays c) m = Inr grouped"
    using bindings by (auto simp: node_bindings_def ok_then_Inr)
  obtain l n where step: "bind_overlay (dut_nodes md) (LogicState e r high k) l = Inr n" "keeps n grouped"
    using fold_results_step [OF overlays overlay] overlay_keeps by meson
  from bind_overlay_Inr [OF step(1)] obtain x where x: "dut_scoped e" "n = oput (drop 4 e) x l" "oget l (drop 4 e) = None"
    "if r = ''gnd'' then x = ''0'' else dut_scoped r \<and> oget l (drop 4 r) = Some x"
    by auto
  with step(2) have e: "oget grouped (drop 4 e) = Some x" by (auto simp: keeps_def)
  have r: "oget grouped (drop 4 r) = Some x" "dut_scoped r" if "r \<noteq> ''gnd''"
    using x that step(2) by (auto simp: keeps_def split: if_splits)
  have "resolve_node md grouped r = Inr x"
  proof (cases "r = ''gnd''")
    case True
    with x(4) show ?thesis by (simp add: resolve_node_def parse_endpoint_syntax_def)
  next
    case False
    with r read(2) scoped_text [of r] bound_pin show ?thesis by blast
  qed
  moreover have "resolve_node md grouped e = Inr x" using e x(1) read(1) scoped_text [of e] bound_pin by blast
  ultimately show ?thesis by simp
qed

text \<open>C11. The compiled topology is the documented one: every pin of a node group resolves to the node of
  the group, ground for the ground group, and a pin that a condition ties to a level resolves to the
  node of the reference it is tied to.\<close>

theorem documented_topology_compiled:
  assumes bindings: "node_bindings md c = Inr grouped"
  shows "(\<forall>g \<in> set (case_groups c). \<forall>e \<in> set (ng_dut_endpoints g). parse_endpoint_syntax e \<noteq> None \<longrightarrow>
           resolve_node md grouped e = Inr (if ng_is_ground g then ''0'' else ''n_net_'' @ ng_id g))
    \<and> (\<forall>e r high k. LogicState e r high k \<in> set (case_overlays c) \<and> parse_endpoint_syntax e \<noteq> None \<and> parse_endpoint_syntax r \<noteq> None \<longrightarrow>
           resolve_node md grouped e = resolve_node md grouped r)"
proof -
  have "resolve_node md grouped e = Inr (if ng_is_ground g then ''0'' else ''n_net_'' @ ng_id g)"
    if "g \<in> set (case_groups c)" "e \<in> set (ng_dut_endpoints g)" "parse_endpoint_syntax e \<noteq> None" for g e
    using group_bound [OF bindings that(1,2)] that(3) scoped_text bound_pin
    by (fastforce simp: group_spice_node_def net_node_name_def)
  with overlay_bound [OF bindings] show ?thesis by blast
qed

theorem documented_topology_compiled_witness:
  "resolve_node divider_model [(''OUT'', ''0''), (''IN'', ''0'')] ''dut.OUT'' = Inr ''0''"
proof -
  have b: "node_bindings divider_model (divider_case (Some grounded_output)) = Inr [(''OUT'', ''0''), (''IN'', ''0'')]" by code_simp
  have p: "parse_endpoint_syntax ''dut.OUT'' \<noteq> None" by code_simp
  show ?thesis using documented_topology_compiled [OF b] p by (simp add: divider_case_def grounded_output_def case_groups_def)
qed

end
