(* ===== verification/Spice_Netlist.thy ===== *)
theory Spice_Netlist
  imports Spice_Compiled "HOL-Library.Multiset"
begin

text \<open>
  The netlist a case compiles to: every element has its line, every observed vector is saved, no line
  is a \<open>.measure\<close> directive, and the cases the connectivity checks accept compile. The compiler and the
  checks meet here: what the checks establish is what the compiler needs.
\<close>

section \<open>Lines\<close>

definition one_line :: "string \<Rightarrow> bool" where
  "one_line s \<longleftrightarrow> list_all (\<lambda>c. \<not> line_end c) s"

lemma one_line_simps [simp]:
  "one_line []" "one_line (c # s) \<longleftrightarrow> \<not> line_end c \<and> one_line s" "one_line (s @ t) \<longleftrightarrow> one_line s \<and> one_line t"
  "one_line (rev s) = one_line s"
  by (simp_all add: one_line_def)

lemma one_line_subset: "set s \<subseteq> set t \<Longrightarrow> one_line t \<Longrightarrow> one_line s"
  by (auto simp: one_line_def list_all_iff)

lemma one_line_parts [simp]: "one_line s \<Longrightarrow> one_line (take n s)" "one_line s \<Longrightarrow> one_line (drop n s)"
  by (rule one_line_subset [OF set_take_subset], assumption) (rule one_line_subset [OF set_drop_subset], assumption)

lemma plain_chars: "is_word_char c \<Longrightarrow> \<not> line_end c" "is_digit c \<Longrightarrow> \<not> line_end c"
  by (auto simp: line_end_def is_word_char_def is_letter_def is_lower_def is_upper_def is_digit_def char_between_def less_eq_char_def)

lemma one_line_digits: "list_all is_digit s \<Longrightarrow> one_line s"
  using plain_chars(2) by (auto simp: one_line_def list_all_iff)

lemma one_line_nat [simp]: "one_line (nat_str n)"
  using nat_str_value one_line_digits by blast

lemma one_line_zeros [simp]: "one_line (zeros n)"
  using all_digits_zeros one_line_digits by blast

lemma one_line_strip [simp]: "one_line s \<Longrightarrow> one_line (strip_zeros s)"
  unfolding strip_zeros_def using set_dropWhileD by (fastforce simp: one_line_def list_all_iff)

lemma one_line_identifier: "identifier_pattern k \<Longrightarrow> one_line k" "spice_node_pattern k \<Longrightarrow> one_line k"
  using plain_chars(1) by (auto simp: one_line_def identifier_pattern_def spice_node_pattern_def list_all_iff)

lemma not_line_end [simp]: "\<not> line_end CHR ''-''" "\<not> line_end CHR ''+''" "\<not> line_end CHR ''.''" "\<not> line_end CHR ''e''" "\<not> line_end CHR '' ''" "\<not> line_end CHR ''0''"
  by (simp_all add: line_end_def)

lemma one_line_join: "one_line sep \<Longrightarrow> list_all one_line xs \<Longrightarrow> one_line (join_with sep xs)"
  by (induction sep xs rule: join_with.induct) simp_all

lemma one_line_decimal: "one_line digits \<Longrightarrow> one_line (decimal_text digits n)"
  by (simp add: decimal_text_def exponent_text_def Let_def)

lemma one_line_number [simp]: "one_line (spice_number x)"
  by (simp add: spice_number_def format_spice_number_def positive_text_def one_line_decimal split: prod.split)

lemma one_line_value [simp]: "one_line (fixture_value_text f)"
  by (cases f) (simp_all add: compile_pulse_def one_line_join line_end_def split: option.split)

section \<open>No measurement\<close>

text \<open>A line that is no directive to measure, wherever it stands.\<close>

definition unmeasured :: "string \<Rightarrow> bool" where
  "unmeasured l \<longleftrightarrow> one_line l \<and> 3 \<le> length l \<and> \<not> is_space (hd l) \<and> map fold_char (take 3 l) \<noteq> ''.me''"

lemma at_line_start_line: "one_line l \<Longrightarrow> at_line_start P (l @ CHR 0x0A # s) \<longleftrightarrow> P s \<or> at_line_start P s"
  by (induction l) (simp_all add: line_end_def)

lemma measure_here_line: "unmeasured l \<Longrightarrow> \<not> measure_here (l @ s)"
proof
  assume l: "unmeasured l" and here: "measure_here (l @ s)"
  then have "dropWhile is_space (l @ s) = l @ s" by (cases l) (auto simp: unmeasured_def)
  with here have "map fold_char (take 8 (l @ s)) = ''.measure''" by (simp add: measure_here_def Let_def)
  then have "take 3 (map fold_char (take 8 (l @ s))) = ''.me''" by simp
  moreover have "take 3 (take 8 (l @ s)) = take 3 l" using l by (simp add: unmeasured_def)
  ultimately have "map fold_char (take 3 l) = ''.me''" by (simp only: take_map)
  with l show False by (simp add: unmeasured_def)
qed

lemma join_lines: "join_with [CHR 0x0A] (ls @ [[]]) = concat (map (\<lambda>l. l @ [CHR 0x0A]) ls)"
proof (induction ls)
  case (Cons l ls)
  then show ?case by (cases ls) simp_all
qed simp

lemma contains_no_measure: "list_all unmeasured ls \<Longrightarrow> \<not> contains_measure (join_with [CHR 0x0A] (ls @ [[]]))"
proof -
  let ?text = "\<lambda>ls. concat (map (\<lambda>l. l @ [CHR 0x0A]) ls)"
  have "list_all unmeasured ls \<Longrightarrow> \<not> measure_here (?text ls) \<and> \<not> at_line_start measure_here (?text ls)" for ls
  proof (induction ls)
    case (Cons l ls)
    then show ?case
      using measure_here_line [of l "CHR 0x0A # ?text ls"] at_line_start_line [of l measure_here "?text ls"] by (simp add: unmeasured_def)
  qed (simp add: measure_here_def)
  then show "list_all unmeasured ls \<Longrightarrow> \<not> contains_measure (join_with [CHR 0x0A] (ls @ [[]]))"
    unfolding join_lines contains_measure_def by blast
qed

section \<open>The elements by identifier\<close>

lemma fixture_by_id_some: "oget (fixture_by_id fs) k = Some f \<Longrightarrow> f \<in> set fs \<and> fixture_id f = k"
  unfolding fixture_by_id_def by (induction fs rule: rev_induct) (auto split: if_splits)

lemma fixture_by_id_keys: "oget (fixture_by_id fs) k \<noteq> None \<longleftrightarrow> k \<in> fixture_id ` set fs"
  unfolding fixture_by_id_def by (induction fs rule: rev_induct) (auto split: if_splits)

lemma fixture_by_id_distinct: "distinct (map fixture_id fs) \<Longrightarrow> f \<in> set fs \<Longrightarrow> oget (fixture_by_id fs) (fixture_id f) = Some f"
  unfolding fixture_by_id_def by (induction fs rule: rev_induct) (auto, metis imageI)

text \<open>Identifiers are different, so the elements found are the same in either order.\<close>

lemma fixture_by_id_sorted:
  assumes "distinct (map fixture_id fs)"
  shows "oget (fixture_by_id (sort_by cmp fs)) k = oget (fixture_by_id fs) k"
proof (cases "k \<in> fixture_id ` set fs")
  case True
  then obtain f where "f \<in> set fs" "fixture_id f = k" by blast
  with assms show ?thesis
    using fixture_by_id_distinct [of fs f] fixture_by_id_distinct [of "sort_by cmp fs" f] by (simp add: set_map_sort_by)
next
  case False
  then show ?thesis using fixture_by_id_keys [of fs k] fixture_by_id_keys [of "sort_by cmp fs" k] by simp
qed

section \<open>What a netlist holds\<close>

definition element_line :: "(string \<Rightarrow> string + string) \<Rightarrow> fixture \<Rightarrow> string \<Rightarrow> bool" where
  "element_line resolve f l \<longleftrightarrow>
     (\<exists>x y. resolve (fst (fixture_endpoints f)) = Inr x \<and> resolve (snd (fixture_endpoints f)) = Inr y
        \<and> l = fixture_element_name f @ '' '' @ x @ '' '' @ y @ '' '' @ fixture_value_text f)"

lemma compile_fixture_Inr: "compile_fixture resolve f = Inr l \<longleftrightarrow> element_line resolve f l"
  by (auto simp: compile_fixture_def element_line_def case_prod_beta ok_then_Inr)


definition diode_case :: validation_case where
  "diode_case = (divider_case None) \<lparr> vc_fixtures := [Diode ''clamp'' ''dut.OUT'' ''gnd''] \<rparr>"


section \<open>Accepted cases compile\<close>

definition observed_endpoints :: "observation \<Rightarrow> string list" where
  "observed_endpoints ob = (case ob_quantity ob of VoltageBetween p n \<Rightarrow> [p, n] | CurrentThrough k d \<Rightarrow> [])"

lemma observed_in: "e \<in> set (observed_endpoints ob) \<longleftrightarrow> (\<exists>p n. ob_quantity ob = VoltageBetween p n \<and> (e = p \<or> e = n))"
  by (cases "ob_quantity ob") (auto simp: observed_endpoints_def)

definition readable_case :: "validation_case \<Rightarrow> bool" where
  "readable_case c \<longleftrightarrow>
     list_all (\<lambda>e. parse_endpoint_syntax e \<noteq> None) (terminals c @ concat (map observed_endpoints (vc_observations c)))"

text \<open>The patterns that the parser of a plan and the checks of a model hold the names to.\<close>

definition valid_names :: "model_definition \<Rightarrow> validation_case \<Rightarrow> bool" where
  "valid_names md c \<longleftrightarrow>
     one_line (vc_id c) \<and> identifier_pattern (md_entry_name md) \<and> list_all spice_node_pattern (manifest_nodes md)
     \<and> list_all (\<lambda>f. identifier_pattern (fixture_id f)) (vc_fixtures c)"

lemma unbound_resolves:
  assumes "known_endpoint md nets e" and "parse_endpoint_syntax e \<noteq> None"
  shows "\<exists>n. resolve_node md [] e = Inr n \<and> one_line n \<and> (n = ''0'' \<longrightarrow> e = ''gnd'')"
proof -
  obtain p where p: "parse_endpoint_syntax e = Some p" using assms(2) by blast
  show ?thesis
  proof (cases p)
    case Gnd
    with p endpoint_text_read [OF p] show ?thesis by (auto simp: resolve_node_def)
  next
    case (Net k)
    with p have "identifier_pattern k" by (auto simp: endpoint_parsed well_formed_endpoint_def)
    then have "one_line (net_node_name k)" by (simp add: net_node_name_def line_end_def one_line_identifier)
    with p Net show ?thesis by (auto simp: resolve_node_def)
  next
    case (Dut k)
    with p assms(1) have "k \<in> set (manifest_nodes md)" by (simp add: known_endpoint_def)
    then obtain n where n: "oget (dut_nodes md) k = Some n" using dut_nodes_known [of md k] by auto
    then obtain j where "n = dut_node_name j" using dut_nodes_pin by blast
    moreover have "one_line (dut_node_name j)" by (simp add: dut_node_name_def line_end_def)
    ultimately show ?thesis using p Dut n by (auto simp: resolve_node_def)
  qed
qed

lemma prefix_cases: "\<exists>a. element_prefix f = [a] \<and> a \<in> set ''RCLVID''"
  by (cases f) simp_all

lemma element_line_unmeasured:
  assumes "element_line resolve f l" and "identifier_pattern (fixture_id f)"
    and "\<And>x. resolve (fst (fixture_endpoints f)) = Inr x \<Longrightarrow> one_line x" "\<And>x. resolve (snd (fixture_endpoints f)) = Inr x \<Longrightarrow> one_line x"
  shows "unmeasured l"
proof -
  obtain a where a: "element_prefix f = [a]" "a \<in> set ''RCLVID''" using prefix_cases by blast
  from assms obtain x y where l: "l = fixture_element_name f @ '' '' @ x @ '' '' @ y @ '' '' @ fixture_value_text f" "one_line x" "one_line y"
    by (auto simp: element_line_def)
  from a have "\<not> line_end a" "\<not> is_space a" "fold_char a \<noteq> CHR ''.''"
    by (auto simp: line_end_def is_space_def fold_char_def is_upper_def char_between_def less_eq_char_def char_of_eq_iff take_bit_eq_mod)
  moreover obtain d ds where "fixture_id f = d # ds" using assms(2) by (cases "fixture_id f") (simp_all add: identifier_pattern_def)
  moreover have "one_line (fixture_id f)" using assms(2) by (rule one_line_identifier)
  ultimately show ?thesis using a(1) l by (simp add: unmeasured_def fixture_element_name_def line_end_def)
qed

text \<open>What the checks establish of a case without a documented topology.\<close>

lemma accepted_endpoints:
  assumes "well_connected md c" and "vc_application c = None" and "readable_case c"
    and "e \<in> set (terminals c @ concat (map observed_endpoints (vc_observations c)))"
  shows "known_endpoint md (vc_nets c) e \<and> parse_endpoint_syntax e \<noteq> None"
proof
  show "parse_endpoint_syntax e \<noteq> None" using assms(3,4) unfolding readable_case_def list_all_iff by blast
  show "known_endpoint md (vc_nets c) e"
  proof (cases "e \<in> set (terminals c)")
    case True
    with assms(1) show ?thesis by (simp add: well_connected_def sound_topology_def)
  next
    case False
    with assms(4) obtain ob where ob: "ob \<in> set (vc_observations c)" "e \<in> set (observed_endpoints ob)" by auto
    with assms(1) have "sound_observation md c ob" by (simp add: well_connected_def)
    with ob(2) show ?thesis by (auto simp: sound_observation_def observed_in)
  qed
qed

lemma fixture_terminals: "f \<in> set (vc_fixtures c) \<Longrightarrow>
    fst (fixture_endpoints f) \<in> set (terminals c) \<and> snd (fixture_endpoints f) \<in> set (terminals c)"
  by (auto simp: terminals_def)

lemma accepted_observation:
  assumes accepted: "well_connected md c" "vc_application c = None" "readable_case c" "valid_names md c"
    and ob: "ob \<in> set (vc_observations c)"
  shows "\<exists>co. compile_observation (resolve_node md []) (fixture_by_id (sort_by cmp (vc_fixtures c))) ob = Inr co
      \<and> co_saved_vectors co \<noteq> [] \<and> list_all one_line (co_saved_vectors co)"
proof -
  have sound: "sound_observation md c ob" and ids: "distinct (map fixture_id (vc_fixtures c))"
    using accepted(1) ob by (auto simp: well_connected_def)
  show ?thesis
  proof (cases "ob_quantity ob")
    case (VoltageBetween p n)
    then have "p \<in> set (concat (map observed_endpoints (vc_observations c)))" "n \<in> set (concat (map observed_endpoints (vc_observations c)))"
      using ob by (auto simp: observed_in)
    then obtain x y where "resolve_node md [] p = Inr x" "one_line x" "x = ''0'' \<longrightarrow> p = ''gnd''"
      "resolve_node md [] n = Inr y" "one_line y" "y = ''0'' \<longrightarrow> n = ''gnd''"
      using accepted_endpoints [OF accepted(1-3)] unbound_resolves by (metis Un_iff set_append)
    moreover have "p \<noteq> n" using sound VoltageBetween by (simp add: sound_observation_def)
    ultimately show ?thesis
      using VoltageBetween by (auto simp: compile_observation_def node_vectors_def list_all_iff line_end_def js_set_def)
  next
    case (CurrentThrough k direction)
    with sound obtain f where f: "oget (fixture_by_id (vc_fixtures c)) k = Some f" by (auto simp: sound_observation_def)
    then have "identifier_pattern (fixture_id f)" using accepted(4) fixture_by_id_some by (fastforce simp: valid_names_def list_all_iff)
    then have "one_line (current_vector f (fixture_element_name f))"
      by (cases f) (simp_all add: fixture_element_name_def line_end_def one_line_identifier)
    with f CurrentThrough show ?thesis by (simp add: compile_observation_def fixture_by_id_sorted [OF ids])
  qed
qed

lemma accepted_analysis:
  assumes accepted: "well_connected md c" "valid_names md c"
  shows "\<exists>l. compile_analysis (vc_analysis c) (fixture_by_id (sort_by cmp (vc_fixtures c))) = Inr l \<and> unmeasured l"
proof -
  have ids: "distinct (map fixture_id (vc_fixtures c))" and sweep: "sound_sweep c" using accepted(1) by (simp_all add: well_connected_def)
  show ?thesis
  proof (cases "vc_analysis c")
    case (DcSweepAnalysis source start stop step)
    with sweep obtain f where f: "oget (fixture_by_id (vc_fixtures c)) source = Some f" "sweepable f" by (auto simp: sound_sweep_def)
    then have "identifier_pattern (fixture_id f)" using accepted(2) fixture_by_id_some by (fastforce simp: valid_names_def list_all_iff)
    then have "one_line (fixture_element_name f)" by (cases f) (simp_all add: fixture_element_name_def line_end_def one_line_identifier)
    with f DcSweepAnalysis show ?thesis
      by (simp add: compile_analysis_def fixture_by_id_sorted [OF ids] unmeasured_def line_end_def is_space_def fold_char_def is_upper_def
          char_between_def less_eq_char_def)
  qed (simp_all add: compile_analysis_def unmeasured_def line_end_def is_space_def fold_char_def is_upper_def
      char_between_def less_eq_char_def split: option.split)
qed

lemma map_results_exists:
  "(\<And>x. x \<in> set xs \<Longrightarrow> \<exists>y. f x = Inr y \<and> P y) \<Longrightarrow> \<exists>ys. map_results f xs = Inr ys \<and> list_all P ys \<and> length ys = length xs"
proof (induction xs)
  case (Cons x xs)
  then obtain y ys where "f x = Inr y" "P y" "map_results f xs = Inr ys" "list_all P ys" "length ys = length xs" by fastforce
  then show ?case by simp
qed simp

lemma accepted_element:
  assumes accepted: "well_connected md c" "vc_application c = None" "readable_case c" "valid_names md c"
    and f: "f \<in> set (vc_fixtures c)"
  shows "\<exists>l. compile_fixture (resolve_node md []) f = Inr l \<and> unmeasured l"
proof -
  have "\<exists>x. resolve_node md [] e = Inr x \<and> one_line x" if "e \<in> set (terminals c)" for e
    using accepted_endpoints [OF accepted(1-3)] unbound_resolves that by (metis Un_iff set_append)
  with fixture_terminals [OF f] obtain x y where ends: "resolve_node md [] (fst (fixture_endpoints f)) = Inr x" "one_line x"
    "resolve_node md [] (snd (fixture_endpoints f)) = Inr y" "one_line y"
    by blast
  then obtain l where l: "element_line (resolve_node md []) f l" by (simp add: element_line_def)
  have "identifier_pattern (fixture_id f)" using accepted(4) f by (simp add: valid_names_def list_all_iff)
  from element_line_unmeasured [OF l this] ends l show ?thesis by (auto simp: compile_fixture_Inr)
qed

lemma manifest_resolves:
  assumes "valid_names md c" and "k \<in> set (manifest_nodes md)"
  shows "\<exists>n. resolve_node md [] (''dut.'' @ k) = Inr n \<and> one_line n"
proof -
  have "parse_endpoint_syntax (''dut.'' @ k) = Some (Dut k)"
    using assms by (simp add: endpoint_parsed well_formed_endpoint_def valid_names_def list_all_iff)
  moreover from this assms(2) have "known_endpoint md [] (''dut.'' @ k)" by (simp add: known_endpoint_def)
  ultimately show ?thesis using unbound_resolves [of md "[]" "''dut.'' @ k"] by auto
qed

lemma unmeasured_cons: "unmeasured (a # b # d # s) \<longleftrightarrow>
    one_line (a # b # d # s) \<and> \<not> is_space a \<and> [fold_char a, fold_char b, fold_char d] \<noteq> ''.me''"
  by (auto simp: unmeasured_def)

lemma netlist_unmeasured:
  assumes "one_line case_id" "one_line entry" "list_all one_line nodes" "list_all unmeasured elements" "list_all one_line vectors" "unmeasured analysis"
  shows "\<not> contains_measure (join_with [CHR 0x0A] (netlist case_id entry nodes diodes elements vectors analysis))"
proof -
  let ?ls = "butlast (netlist case_id entry nodes diodes elements vectors analysis)"
  have split: "netlist case_id entry nodes diodes elements vectors analysis = ?ls @ [[]]" by (simp add: netlist_def butlast_append)
  have "one_line (join_with '' '' nodes)" "one_line (join_with '' '' vectors)" using assms by (simp_all add: one_line_join)
  with assms have "list_all unmeasured ?ls"
    by (simp add: netlist_def butlast_append unmeasured_cons line_end_def is_space_def fold_char_def is_upper_def char_between_def less_eq_char_def)
  then show ?thesis by (subst split) (rule contains_no_measure)
qed

text \<open>A case that the connectivity checks accept compiles: where the names match their patterns, the
  endpoints are readable, there is an observation and no documented topology joins pins, none of the
  errors of the compiler is reached, its check that the netlist has no measurement included.\<close>

lemma accepted_case_compiles:
  assumes accepted: "fst (validate_case_connectivity md index c ([], covered)) = []"
    and plain: "vc_application c = None" and readable: "readable_case c" and names: "valid_names md c"
    and observed: "vc_observations c \<noteq> []"
  shows "\<exists>cc. compile_validation_case collate md c = Inr cc"
proof -
  define fs where "fs = sort_by (\<lambda>a b. collate (fixture_id a) (fixture_id b)) (vc_fixtures c)"
  have well: "well_connected md c" using accepted by (simp add: connectivity_clean)
  have unbound: "node_bindings md c = Inr []" using plain by (simp add: node_bindings_def case_groups_def case_overlays_def)
  let ?saved = "\<lambda>co. co_saved_vectors co \<noteq> [] \<and> list_all one_line (co_saved_vectors co)"
  have "\<exists>co. compile_observation (resolve_node md []) (fixture_by_id fs) ob = Inr co \<and> ?saved co" if "ob \<in> set (vc_observations c)" for ob
    unfolding fs_def using well plain readable names that by (rule accepted_observation)
  from map_results_exists [of "vc_observations c" "compile_observation (resolve_node md []) (fixture_by_id fs)", OF this]
  obtain obs where obs: "map_results (compile_observation (resolve_node md []) (fixture_by_id fs)) (vc_observations c) = Inr obs"
    "list_all ?saved obs" "length obs = length (vc_observations c)"
    by blast
  let ?vectors = "sort (js_set (concat (map co_saved_vectors obs)))"
  obtain co cos where "obs = co # cos" using obs(3) observed by (cases obs) auto
  with obs(2) have "set ?vectors \<noteq> {}" "list_all one_line ?vectors" by (auto simp: list_all_iff)
  then have vectors: "?vectors \<noteq> []" "list_all one_line ?vectors" by (simp_all only: set_empty simp_thms)
  obtain nodes where nodes: "map_results (\<lambda>k. resolve_node md [] (''dut.'' @ k)) (manifest_nodes md) = Inr nodes" "list_all one_line nodes"
    using map_results_exists [where P = one_line and xs = "manifest_nodes md"] manifest_resolves [OF names] by metis
  have "f \<in> set fs \<Longrightarrow> \<exists>l. compile_fixture (resolve_node md []) f = Inr l \<and> unmeasured l" for f
    using accepted_element [OF well plain readable names] by (simp add: fs_def)
  then obtain elements where elements: "map_results (compile_fixture (resolve_node md [])) fs = Inr elements" "list_all unmeasured elements"
    using map_results_exists [of fs "compile_fixture (resolve_node md [])" unmeasured] by blast
  obtain analysis where analysis: "compile_analysis (vc_analysis c) (fixture_by_id fs) = Inr analysis" "unmeasured analysis"
    using accepted_analysis [OF well names] unfolding fs_def by blast
  have "one_line (vc_id c)" "one_line (md_entry_name md)" using names by (simp_all add: valid_names_def one_line_identifier)
  from netlist_unmeasured [OF this nodes(2) elements(2) vectors(2) analysis(2)] show ?thesis
    using vectors(1) unfolding compile_validation_case_def Let_def unbound fs_def [symmetric]
    by (simp add: obs nodes(1) [simplified] elements analysis)
qed

end
