(* ===== verification/Js_Arithmetic.thy ===== *)
theory Js_Arithmetic
  imports Js_Number
begin

text \<open>
  The operators of the source language on its numbers: each operation is exact and then rounds;
  infinities and the undefined number propagate.
\<close>

fun num_abs :: "jsnum \<Rightarrow> jsnum" where
  "num_abs (Fin x) = Fin \<bar>x\<bar>"
| "num_abs NegInf = PosInf"
| "num_abs v = v"

fun num_sign :: "jsnum \<Rightarrow> int" where
  "num_sign (Fin x) = (if 0 < x then 1 else if x < 0 then - 1 else 0)"
| "num_sign PosInf = 1"
| "num_sign NegInf = - 1"
| "num_sign NotANumber = 0"

fun num_neg :: "jsnum \<Rightarrow> jsnum" where
  "num_neg (Fin x) = Fin (- x)"
| "num_neg PosInf = NegInf"
| "num_neg NegInf = PosInf"
| "num_neg NotANumber = NotANumber"

fun num_add :: "jsnum \<Rightarrow> jsnum \<Rightarrow> jsnum" where
  "num_add (Fin a) (Fin b) = to_double (a + b)"
| "num_add NotANumber b = NotANumber"
| "num_add a NotANumber = NotANumber"
| "num_add PosInf NegInf = NotANumber"
| "num_add NegInf PosInf = NotANumber"
| "num_add (Fin a) b = b"
| "num_add a b = a"

definition num_sub :: "jsnum \<Rightarrow> jsnum \<Rightarrow> jsnum" where
  "num_sub a b = num_add a (num_neg b)"

definition num_inf :: "int \<Rightarrow> jsnum" where
  "num_inf i = (if 0 < i then PosInf else if i < 0 then NegInf else NotANumber)"

fun num_mul :: "jsnum \<Rightarrow> jsnum \<Rightarrow> jsnum" where
  "num_mul (Fin a) (Fin b) = to_double (a * b)"
| "num_mul NotANumber b = NotANumber"
| "num_mul a NotANumber = NotANumber"
| "num_mul a b = num_inf (num_sign a * num_sign b)"

fun num_div :: "jsnum \<Rightarrow> jsnum \<Rightarrow> jsnum" where
  "num_div (Fin a) (Fin b) = (if b = 0 then num_inf (num_sign (Fin a)) else to_double (a / b))"
| "num_div NotANumber b = NotANumber"
| "num_div a NotANumber = NotANumber"
| "num_div (Fin a) b = Fin 0"
| "num_div a (Fin b) = (if b < 0 then num_neg a else a)"
| "num_div a b = NotANumber"

definition num_le :: "jsnum \<Rightarrow> jsnum \<Rightarrow> bool" where
  "num_le a b \<longleftrightarrow> a \<noteq> NotANumber \<and> b \<noteq> NotANumber \<and> \<not> num_less b a"

definition num_max :: "jsnum \<Rightarrow> jsnum \<Rightarrow> jsnum" where
  "num_max a b = (if a = NotANumber \<or> b = NotANumber then NotANumber else if num_less a b then b else a)"

definition num_min :: "jsnum \<Rightarrow> jsnum \<Rightarrow> jsnum" where
  "num_min a b = (if a = NotANumber \<or> b = NotANumber then NotANumber else if num_less b a then b else a)"

end
