(* ===== verification/Spice_Parser.thy ===== *)
theory Spice_Parser
  imports Spice_Plan Js_Arithmetic "HOL-Library.State_Monad"
begin

text \<open>
  The parsers of the parts of a validation plan that an agent writes: the collector of
  \<open>parse-helpers.ts\<close>, the analysis of \<open>parse-analysis.ts\<close> and the elements of \<open>parse-fixtures.ts\<close>, all under
  \<open>src/server/spice-validation/\<close>. A parser always returns a value and appends its errors to the
  collector, the state of the monad.
\<close>

type_synonym 'a parser = "(path_error list, 'a) state"

section \<open>The collector\<close>

definition log_error :: "string \<Rightarrow> string \<Rightarrow> string \<Rightarrow> unit parser" where
  "log_error path code message = State (\<lambda>es. ((), es @ [\<lparr> pe_path = path, pe_code = code, pe_message = message \<rparr>]))"

definition log_error_when :: "bool \<Rightarrow> string \<Rightarrow> string \<Rightarrow> string \<Rightarrow> unit parser" where
  "log_error_when b path code message = (if b then log_error path code message else State_Monad.return ())"

definition parse_record :: "json option \<Rightarrow> string \<Rightarrow> (string \<times> json) list parser" where
  "parse_record v path = do {
     log_error_when (\<not> is_record v) path ''invalid_type'' ''must be an object'';
     State_Monad.return (record_entries v) }"

definition parse_string :: "json option \<Rightarrow> string \<Rightarrow> string parser" where
  "parse_string v path =
     (case string_value v of
        Some s \<Rightarrow>
          if js_trim s \<noteq> [] then State_Monad.return s
          else do { log_error path ''invalid_string'' ''must be a non-empty string''; State_Monad.return [] }
      | None \<Rightarrow> do { log_error path ''invalid_string'' ''must be a non-empty string''; State_Monad.return [] })"

definition parse_finite :: "json option \<Rightarrow> string \<Rightarrow> rat parser" where
  "parse_finite v path =
     (case num_value v of
        Some (Fin x) \<Rightarrow> State_Monad.return x
      | _ \<Rightarrow> do { log_error path ''invalid_number'' ''must be a finite number''; State_Monad.return 0 })"

definition finite_number :: "json option \<Rightarrow> bool" where
  "finite_number v \<longleftrightarrow> (case num_value v of Some x \<Rightarrow> is_finite_num x | None \<Rightarrow> False)"

definition parse_positive :: "json option \<Rightarrow> string \<Rightarrow> rat parser" where
  "parse_positive v path = do {
     x \<leftarrow> parse_finite v path;
     log_error_when (finite_number v \<and> x \<le> 0) path ''out_of_range'' ''must be greater than zero'';
     State_Monad.return x }"

definition parse_non_negative :: "json option \<Rightarrow> string \<Rightarrow> rat parser" where
  "parse_non_negative v path = do {
     x \<leftarrow> parse_finite v path;
     log_error_when (finite_number v \<and> x < 0) path ''out_of_range'' ''must be zero or greater'';
     State_Monad.return x }"

fun log_each :: "('a \<Rightarrow> unit parser) \<Rightarrow> 'a list \<Rightarrow> unit parser" where
  "log_each f [] = State_Monad.return ()"
| "log_each f (x # xs) = do { f x; log_each f xs }"

definition reject_unknown_keys :: "(string \<times> json) list \<Rightarrow> string list \<Rightarrow> string \<Rightarrow> unit parser" where
  "reject_unknown_keys r allowed path =
     log_each (\<lambda>k. log_error_when (k \<notin> set allowed) (path @ ''.'' @ k) ''unknown_field'' ''is not part of ValidationPlan version 1'')
       (sort (okeys r))"

definition parse_identifier :: "json option \<Rightarrow> string \<Rightarrow> string \<Rightarrow> string parser" where
  "parse_identifier v path message = do {
     s \<leftarrow> parse_string v path;
     log_error_when (s \<noteq> [] \<and> \<not> identifier_pattern s) path ''invalid_identifier'' message;
     State_Monad.return s }"

section \<open>Analyses\<close>

definition max_validation_points :: rat where
  "max_validation_points = 20000"

text \<open>The number of points that an analysis is expected to take: the span may overflow, and so may the
  quotient.\<close>

definition estimated_points :: "rat \<Rightarrow> rat \<Rightarrow> rat \<Rightarrow> jsnum" where
  "estimated_points start stop step =
     (case num_abs (to_double (stop - start)) of
        Fin w \<Rightarrow> (case to_double (w / \<bar>step\<bar>) of Fin q \<Rightarrow> to_double (of_int \<lceil>q\<rceil> + 1) | v \<Rightarrow> v)
      | v \<Rightarrow> v)"

definition too_many_points :: "jsnum \<Rightarrow> bool" where
  "too_many_points v \<longleftrightarrow> \<not> is_finite_num v \<or> num_less (Fin max_validation_points) v"

definition validate_point_budget :: "rat \<Rightarrow> rat \<Rightarrow> rat \<Rightarrow> string \<Rightarrow> unit parser" where
  "validate_point_budget start stop step path =
     (if to_double (stop - start) = Fin 0 \<or> step = 0 then State_Monad.return ()
      else
        (let n = estimated_points start stop step in
         log_error_when (too_many_points n) path ''analysis_point_limit_exceeded''
           (''would request about '' @ (if is_finite_num n then number_text n else ''an unbounded number of'')
            @ '' points; the limit is '' @ number_text (Fin max_validation_points))))"

definition is_number :: "json option \<Rightarrow> bool" where
  "is_number v \<longleftrightarrow> num_value v \<noteq> None"

definition parse_sweep :: "(string \<times> json) list \<Rightarrow> string \<Rightarrow> plan_analysis parser" where
  "parse_sweep r path = do {
     reject_unknown_keys r [''type'', ''source_id'', ''start'', ''stop'', ''step''] path;
     source \<leftarrow> parse_identifier (oget r ''source_id'') (path @ ''.source_id'') ''must be a stable fixture identifier'';
     start \<leftarrow> parse_finite (oget r ''start'') (path @ ''.start'');
     stop \<leftarrow> parse_finite (oget r ''stop'') (path @ ''.stop'');
     step \<leftarrow> parse_finite (oget r ''step'') (path @ ''.step'');
     log_error_when (is_number (oget r ''start'') \<and> is_number (oget r ''stop'') \<and> start = stop) path
       ''empty_sweep'' ''start and stop must differ'';
     log_error_when (is_number (oget r ''step'') \<and> step = 0) (path @ ''.step'') ''out_of_range'' ''must not be zero'';
     log_error_when (start \<noteq> stop \<and> step \<noteq> 0 \<and> num_sign (to_double (stop - start)) \<noteq> num_sign (Fin step)) (path @ ''.step'')
       ''invalid_sweep_direction'' ''must move from start toward stop'';
     log_error_when (num_less (num_abs (to_double (stop - start))) (Fin \<bar>step\<bar>) \<and> start \<noteq> stop) (path @ ''.step'')
       ''out_of_range'' ''must not exceed the sweep range'';
     validate_point_budget start stop step path;
     State_Monad.return (DcSweepAnalysis source start stop step) }"

definition exceeds_duration :: "rat \<Rightarrow> jsnum \<Rightarrow> bool" where
  "exceeds_duration step duration \<longleftrightarrow> (case duration of Fin d \<Rightarrow> 0 < d \<and> d < step | _ \<Rightarrow> False)"

definition start_time :: "rat option \<Rightarrow> rat" where
  "start_time start = (case start of None \<Rightarrow> 0 | Some t \<Rightarrow> t)"

definition parse_transient :: "(string \<times> json) list \<Rightarrow> string \<Rightarrow> plan_analysis parser" where
  "parse_transient r path = do {
     reject_unknown_keys r [''type'', ''step'', ''stop'', ''start''] path;
     step \<leftarrow> parse_positive (oget r ''step'') (path @ ''.step'');
     stop \<leftarrow> parse_positive (oget r ''stop'') (path @ ''.stop'');
     start \<leftarrow> (case oget r ''start'' of
        None \<Rightarrow> State_Monad.return None
      | Some v \<Rightarrow> do { x \<leftarrow> parse_non_negative (Some v) (path @ ''.start''); State_Monad.return (Some x) });
     log_error_when (case start of None \<Rightarrow> False | Some t \<Rightarrow> stop \<le> t) (path @ ''.start'') ''out_of_range'' ''must be less than stop'';
     log_error_when (exceeds_duration step (to_double (stop - start_time start))) (path @ ''.step'')
       ''out_of_range'' ''must not exceed the simulated duration'';
     validate_point_budget (start_time start) stop step path;
     State_Monad.return (TransientAnalysis step stop start) }"

definition parse_analysis_kind :: "string \<Rightarrow> (string \<times> json) list \<Rightarrow> string \<Rightarrow> plan_analysis parser" where
  "parse_analysis_kind type r path =
     (if type = ''operating_point'' then do { reject_unknown_keys r [''type''] path; State_Monad.return OperatingPointAnalysis }
      else if type = ''dc_sweep'' then parse_sweep r path
      else if type = ''transient'' then parse_transient r path
      else do {
        log_error (path @ ''.type'') ''unsupported_analysis'' ''must be operating_point, dc_sweep, or transient'';
        State_Monad.return OperatingPointAnalysis })"

definition parse_analysis :: "json option \<Rightarrow> string \<Rightarrow> plan_analysis parser" where
  "parse_analysis v path = do {
     r \<leftarrow> parse_record v path;
     type \<leftarrow> parse_string (oget r ''type'') (path @ ''.type'');
     parse_analysis_kind type r path }"

section \<open>Elements\<close>

definition parse_endpoint :: "json option \<Rightarrow> string \<Rightarrow> string parser" where
  "parse_endpoint v path = do {
     e \<leftarrow> parse_string v path;
     log_error_when (e \<noteq> [] \<and> parse_endpoint_syntax e = None) path
       ''invalid_endpoint'' ''must be \"gnd\", \"dut.<spice_node>\", or \"net.<identifier>\"'';
     State_Monad.return (if e = [] then ''gnd'' else e) }"

text \<open>The sum of the times of a pulse rounds twice.\<close>

definition pulse_overruns :: "pulse \<Rightarrow> bool" where
  "pulse_overruns p =
     (case to_double (pl_width p + pl_rise p) of
        Fin t \<Rightarrow> num_less (Fin (pl_period p)) (to_double (t + pl_fall p))
      | v \<Rightarrow> num_less (Fin (pl_period p)) v)"

definition parse_pulse :: "json option \<Rightarrow> string \<Rightarrow> pulse option parser" where
  "parse_pulse v path =
     (if v = None then State_Monad.return None
      else do {
        r \<leftarrow> parse_record v path;
        reject_unknown_keys r [''low'', ''high'', ''delay'', ''rise'', ''fall'', ''width'', ''period''] path;
        low \<leftarrow> parse_finite (oget r ''low'') (path @ ''.low'');
        high \<leftarrow> parse_finite (oget r ''high'') (path @ ''.high'');
        delay \<leftarrow> parse_non_negative (oget r ''delay'') (path @ ''.delay'');
        rise \<leftarrow> parse_non_negative (oget r ''rise'') (path @ ''.rise'');
        fall \<leftarrow> parse_non_negative (oget r ''fall'') (path @ ''.fall'');
        width \<leftarrow> parse_positive (oget r ''width'') (path @ ''.width'');
        period \<leftarrow> parse_positive (oget r ''period'') (path @ ''.period'');
        (let p = \<lparr> pl_low = low, pl_high = high, pl_delay = delay, pl_rise = rise, pl_fall = fall, pl_width = width, pl_period = period \<rparr> in do {
          log_error_when (pulse_overruns p) path ''invalid_pulse_timing'' ''width + rise + fall must not exceed period'';
          State_Monad.return (Some p) }) })"

definition parse_passive ::
  "(string \<Rightarrow> string \<Rightarrow> string \<Rightarrow> rat \<Rightarrow> fixture) \<Rightarrow> string \<Rightarrow> (string \<times> json) list \<Rightarrow> string \<Rightarrow> string \<Rightarrow> string \<Rightarrow> string \<Rightarrow> fixture parser" where
  "parse_passive build quantity r path k p n = do {
     reject_unknown_keys r [''type'', ''id'', ''positive'', ''negative'', quantity] path;
     x \<leftarrow> parse_positive (oget r quantity) (path @ ''.'' @ quantity);
     State_Monad.return (build k p n x) }"

definition parse_source ::
  "(string \<Rightarrow> string \<Rightarrow> string \<Rightarrow> rat \<Rightarrow> pulse option \<Rightarrow> fixture) \<Rightarrow> string \<Rightarrow> (string \<times> json) list \<Rightarrow> string \<Rightarrow> string \<Rightarrow> string \<Rightarrow> string \<Rightarrow> fixture parser" where
  "parse_source build quantity r path k p n = do {
     reject_unknown_keys r [''type'', ''id'', ''positive'', ''negative'', quantity, ''pulse''] path;
     x \<leftarrow> parse_finite (oget r quantity) (path @ ''.'' @ quantity);
     pulse \<leftarrow> parse_pulse (oget r ''pulse'') (path @ ''.pulse'');
     State_Monad.return (build k p n x pulse) }"

definition parse_diode :: "(string \<times> json) list \<Rightarrow> string \<Rightarrow> string \<Rightarrow> fixture parser" where
  "parse_diode r path k = do {
     reject_unknown_keys r [''type'', ''id'', ''anode'', ''cathode''] path;
     a \<leftarrow> parse_endpoint (oget r ''anode'') (path @ ''.anode'');
     c \<leftarrow> parse_endpoint (oget r ''cathode'') (path @ ''.cathode'');
     State_Monad.return (Diode k a c) }"

definition parse_two_terminal :: "string \<Rightarrow> (string \<times> json) list \<Rightarrow> string \<Rightarrow> string \<Rightarrow> string \<Rightarrow> string \<Rightarrow> fixture parser" where
  "parse_two_terminal type r path k p n =
     (if type = ''resistor'' then parse_passive Resistor ''resistance_ohms'' r path k p n
      else if type = ''capacitor'' then parse_passive Capacitor ''capacitance_farads'' r path k p n
      else if type = ''inductor'' then parse_passive Inductor ''inductance_henries'' r path k p n
      else if type = ''voltage_source'' then parse_source VoltageSource ''dc_volts'' r path k p n
      else if type = ''current_source'' then parse_source CurrentSource ''dc_amps'' r path k p n
      else do {
        log_error (path @ ''.type'') ''unsupported_fixture''
          ''must be resistor, capacitor, inductor, voltage_source, current_source, or diode'';
        State_Monad.return (Resistor k p n 1) })"

definition parse_fixture_element :: "json option \<Rightarrow> string \<Rightarrow> fixture parser" where
  "parse_fixture_element v path = do {
     r \<leftarrow> parse_record v path;
     type \<leftarrow> parse_string (oget r ''type'') (path @ ''.type'');
     k \<leftarrow> parse_identifier (oget r ''id'') (path @ ''.id'')
            ''must start with a letter and contain only letters, digits, and underscores'';
     if type = ''diode'' then parse_diode r path k
     else do {
       p \<leftarrow> parse_endpoint (oget r ''positive'') (path @ ''.positive'');
       n \<leftarrow> parse_endpoint (oget r ''negative'') (path @ ''.negative'');
       parse_two_terminal type r path k p n } }"

section \<open>The model definition\<close>

text \<open>\<open>model-definition.ts\<close>: the server's own description of the model, from its manifest or from the
  interface agreed before. The check of the model source belongs to the modeling component; its
  message, if it throws, is a parameter.\<close>

record model_context =
  mc_from_manifest :: bool
  mc_version :: int
  mc_model :: model_definition
  mc_model_file :: "string option"
  mc_simulator :: "string option"
  mc_source_error :: "string option"

fun validate_pins :: "string \<Rightarrow> nat \<Rightarrow> model_pin list \<Rightarrow> string list \<Rightarrow> string list \<Rightarrow> unit parser" where
  "validate_pins path i [] nodes components = State_Monad.return ()"
| "validate_pins path i (pin # pins) nodes components = do {
     log_error_when (\<not> spice_node_pattern (mp_spice_node pin)) (indexed_path path i @ ''.spice_node'')
       ''unsafe_identifier'' ''must contain only letters, digits, and underscores'';
     log_error_when (mp_spice_node pin \<in> set nodes) (indexed_path path i @ ''.spice_node'') ''duplicate_id'' ''must be unique'';
     (if mp_component_pin pin = []
      then log_error (indexed_path path i @ ''.component_pin'') ''invalid_string'' ''must be a non-empty string''
      else log_error_when (mp_component_pin pin \<in> set components) (indexed_path path i @ ''.component_pin'')
             ''duplicate_id'' ''must be unique'');
     validate_pins path (Suc i) pins (mp_spice_node pin # nodes) (mp_component_pin pin # components) }"

definition validate_model_definition :: "model_context \<Rightarrow> unit parser" where
  "validate_model_definition mc =
     (let path = (if mc_from_manifest mc then ''manifest'' else ''model_interface''); md = mc_model mc in do {
        log_error_when (mc_version mc \<noteq> 1) (path @ ''.version'') ''unsupported_version'' ''must be 1'';
        log_error_when (\<not> identifier_pattern (md_entry_name md)) (path @ ''.entry_name'') ''unsafe_identifier''
          ''must be an executable-safe SPICE identifier'';
        log_error_when (mc_from_manifest mc \<and> mc_model_file mc \<noteq> None \<and> mc_model_file mc \<noteq> Some ''model.lib'') (path @ ''.model_file'')
          ''invalid_model_file'' ''must be \"model.lib\"'';
        log_error_when (mc_from_manifest mc \<and> mc_simulator mc \<noteq> None \<and> mc_simulator mc \<noteq> Some ''ngspice'') (path @ ''.simulator'')
          ''invalid_simulator'' ''must be \"ngspice\"'';
        log_error_when (md_pins md = []) (path @ ''.pins'') ''missing_pins'' ''must contain at least one pin mapping'';
        validate_pins (path @ ''.pins'') 0 (md_pins md) [] [];
        (case mc_source_error mc of
           None \<Rightarrow> State_Monad.return ()
         | Some message \<Rightarrow> log_error ''model_source'' ''invalid_model_source'' message) })"

end
