(* ===== verification/Spice_Parsed.thy ===== *)
theory Spice_Parsed
  imports Spice_Parser
begin

text \<open>
  What the parsers of analyses and elements accept: a parser that reports nothing has returned a
  well-formed value, every well-formed value is read back from its JSON, and an accepted analysis
  takes a bounded number of points.
\<close>

named_theorems quiet_simps \<open>when a parser reports nothing\<close>
named_theorems grows_intros \<open>parsers only append to the errors\<close>

section \<open>Parsers that report nothing\<close>

definition grows :: "'a parser \<Rightarrow> bool" where
  "grows m \<longleftrightarrow> (\<forall>es. prefix es (snd (run_state m es)))"

text \<open>The parser returns a value and leaves the collector as it was.\<close>

definition quiet :: "'a parser \<Rightarrow> 'a \<Rightarrow> path_error list \<Rightarrow> bool" where
  "quiet m x es \<longleftrightarrow> run_state m es = (x, es)"

lemma grows_return [grows_intros]: "grows (State_Monad.return x)"
  by (simp add: grows_def State_Monad.return_def)

lemma grows_bind [grows_intros]: "grows m \<Longrightarrow> (\<And>x. grows (f x)) \<Longrightarrow> grows (State_Monad.bind m f)"
  unfolding grows_def State_Monad.bind_def by (auto split: prod.split) (metis prefix_order.order_trans snd_conv)

lemma grows_log_error [grows_intros]: "grows (log_error path code message)" "grows (log_error_when b path code message)"
  by (simp_all add: grows_def log_error_when_def log_error_def State_Monad.return_def)

lemma grows_if [grows_intros]: "(b \<Longrightarrow> grows m) \<Longrightarrow> (\<not> b \<Longrightarrow> grows n) \<Longrightarrow> grows (if b then m else n)"
  by simp

lemma grows_option [grows_intros]: "grows m \<Longrightarrow> (\<And>x. grows (f x)) \<Longrightarrow> grows (case v of None \<Rightarrow> m | Some x \<Rightarrow> f x)"
  by (cases v) simp_all

lemma quiet_return [quiet_simps]: "quiet (State_Monad.return x) y es \<longleftrightarrow> y = x"
  by (auto simp: quiet_def State_Monad.return_def)

lemma quiet_bind [quiet_simps]:
  assumes "grows m" and "\<And>x. grows (f x)"
  shows "quiet (State_Monad.bind m f) y es \<longleftrightarrow> (\<exists>x. quiet m x es \<and> quiet (f x) y es)"
proof
  assume run: "quiet (State_Monad.bind m f) y es"
  obtain x es' where m: "run_state m es = (x, es')" by fastforce
  with run have f: "run_state (f x) es' = (y, es)" by (simp add: quiet_def State_Monad.bind_def)
  from assms m f have "prefix es es'" "prefix es' es" unfolding grows_def by (metis snd_conv)+
  then have "es' = es" by (rule prefix_order.antisym [rotated])
  with m f show "\<exists>x. quiet m x es \<and> quiet (f x) y es" by (auto simp: quiet_def)
qed (auto simp: quiet_def State_Monad.bind_def)

lemma quiet_log [quiet_simps]:
  "\<not> quiet (log_error path code message) u es" "quiet (log_error_when b path code message) u es \<longleftrightarrow> \<not> b"
  by (simp_all add: quiet_def log_error_when_def log_error_def State_Monad.return_def)

lemma quiet_if [quiet_simps]: "quiet (if b then m else n) x es \<longleftrightarrow> (if b then quiet m x es else quiet n x es)"
  by simp

section \<open>The collector\<close>

lemma grows_record [grows_intros]: "grows (parse_record v path)" "grows (parse_string v path)" "grows (parse_finite v path)"
  unfolding parse_record_def parse_string_def parse_finite_def
  by (auto intro!: grows_intros split: option.split jsnum.split)

lemma grows_number [grows_intros]: "grows (parse_positive v path)" "grows (parse_non_negative v path)" "grows (parse_identifier v path msg)"
  unfolding parse_positive_def parse_non_negative_def parse_identifier_def by (intro grows_intros)+

lemma grows_log_each: "(\<And>x. grows (f x)) \<Longrightarrow> grows (log_each f xs)"
  by (induction xs) (auto intro!: grows_intros)

lemma grows_reject [grows_intros]: "grows (reject_unknown_keys r allowed path)"
  unfolding reject_unknown_keys_def by (intro grows_log_each grows_intros)

lemma quiet_record [quiet_simps]: "quiet (parse_record v path) r es \<longleftrightarrow> v = Some (JObj r)"
  unfolding parse_record_def by (subst quiet_bind) (auto simp: grows_intros quiet_simps is_record_iff)

lemma quiet_string [quiet_simps]: "quiet (parse_string v path) s es \<longleftrightarrow> v = Some (JStr s) \<and> js_trim s \<noteq> []"
  unfolding parse_string_def
  by (cases v rule: string_value.cases) (auto simp: grows_intros quiet_simps)

lemma quiet_finite [quiet_simps]: "quiet (parse_finite v path) x es \<longleftrightarrow> v = Some (JNum (Fin x))"
  unfolding parse_finite_def
  by (cases v rule: num_value.cases) (auto simp: grows_intros quiet_simps split: jsnum.split)

lemma quiet_number [quiet_simps]:
  "quiet (parse_positive v path) x es \<longleftrightarrow> v = Some (JNum (Fin x)) \<and> 0 < x"
  "quiet (parse_non_negative v path) x es \<longleftrightarrow> v = Some (JNum (Fin x)) \<and> 0 \<le> x"
  unfolding parse_positive_def parse_non_negative_def
  by (auto simp: quiet_simps grows_intros finite_number_def)

lemma quiet_log_each: "(\<And>x. grows (f x)) \<Longrightarrow> quiet (log_each f xs) u es \<longleftrightarrow> (\<forall>x \<in> set xs. quiet (f x) () es)"
  by (induction xs) (auto simp: quiet_simps grows_intros grows_log_each)

lemma quiet_reject [quiet_simps]: "quiet (reject_unknown_keys r allowed path) u es \<longleftrightarrow> set (okeys r) \<subseteq> set allowed"
  unfolding reject_unknown_keys_def by (subst quiet_log_each) (auto simp: quiet_simps intro!: grows_intros)

lemma identifier_not_blank: "identifier_pattern s \<Longrightarrow> s \<noteq> [] \<and> js_trim s \<noteq> []"
  by (cases s) (auto simp: identifier_pattern_def js_trim_empty blank_def is_space_def is_letter_def is_lower_def is_upper_def
      char_between_def less_eq_char_def)

lemma quiet_identifier [quiet_simps]: "quiet (parse_identifier v path msg) s es \<longleftrightarrow> v = Some (JStr s) \<and> identifier_pattern s"
  unfolding parse_identifier_def
  by (auto simp: quiet_simps grows_intros identifier_not_blank dest: identifier_not_blank) (auto simp: js_trim_def)

section \<open>Elements\<close>

definition readable_endpoint :: "string \<Rightarrow> bool" where
  "readable_endpoint e \<longleftrightarrow> parse_endpoint_syntax e \<noteq> None"

definition proper_pulse :: "pulse \<Rightarrow> bool" where
  "proper_pulse p \<longleftrightarrow>
     0 \<le> pl_delay p \<and> 0 \<le> pl_rise p \<and> 0 \<le> pl_fall p \<and> 0 < pl_width p \<and> 0 < pl_period p \<and> \<not> pulse_overruns p"

fun proper_value :: "fixture \<Rightarrow> bool" where
  "proper_value (Resistor k p n v) = (0 < v)"
| "proper_value (Capacitor k p n v) = (0 < v)"
| "proper_value (Inductor k p n v) = (0 < v)"
| "proper_value (VoltageSource k p n v pulse) = (case pulse of None \<Rightarrow> True | Some x \<Rightarrow> proper_pulse x)"
| "proper_value (CurrentSource k p n v pulse) = (case pulse of None \<Rightarrow> True | Some x \<Rightarrow> proper_pulse x)"
| "proper_value (Diode k a c) = True"

definition proper_fixture :: "fixture \<Rightarrow> bool" where
  "proper_fixture f \<longleftrightarrow>
     identifier_pattern (fixture_id f) \<and> readable_endpoint (fst (fixture_endpoints f)) \<and> readable_endpoint (snd (fixture_endpoints f))
     \<and> proper_value f"

lemma grows_endpoint [grows_intros]: "grows (parse_endpoint v path)"
  unfolding parse_endpoint_def by (intro grows_intros)

lemma endpoint_not_blank: "parse_endpoint_syntax e = Some x \<Longrightarrow> e \<noteq> [] \<and> js_trim e \<noteq> []"
  by (cases x) (auto simp: endpoint_parsed js_trim_empty blank_def is_space_def)

lemma quiet_endpoint [quiet_simps]: "quiet (parse_endpoint v path) e es \<longleftrightarrow> v = Some (JStr e) \<and> readable_endpoint e"
  unfolding parse_endpoint_def readable_endpoint_def
  by (auto simp: quiet_simps grows_intros dest: endpoint_not_blank) (auto simp: js_trim_def)

lemma grows_pulse [grows_intros]: "grows (parse_pulse v path)"
  unfolding parse_pulse_def Let_def by (intro grows_intros)

lemma quiet_pulse [quiet_simps]:
  "quiet (parse_pulse v path) pulse es \<longleftrightarrow>
     (case pulse of
        None \<Rightarrow> v = None
      | Some p \<Rightarrow> \<exists>r. v = Some (JObj r) \<and> proper_pulse p
          \<and> set (okeys r) \<subseteq> set [''low'', ''high'', ''delay'', ''rise'', ''fall'', ''width'', ''period'']
          \<and> oget r ''low'' = Some (JNum (Fin (pl_low p))) \<and> oget r ''high'' = Some (JNum (Fin (pl_high p)))
          \<and> oget r ''delay'' = Some (JNum (Fin (pl_delay p))) \<and> oget r ''rise'' = Some (JNum (Fin (pl_rise p)))
          \<and> oget r ''fall'' = Some (JNum (Fin (pl_fall p))) \<and> oget r ''width'' = Some (JNum (Fin (pl_width p)))
          \<and> oget r ''period'' = Some (JNum (Fin (pl_period p))))"
  unfolding parse_pulse_def Let_def proper_pulse_def
  by (cases pulse; cases "the pulse") (auto simp: quiet_simps grows_intros)

lemma grows_parts [grows_intros]: "grows (parse_passive build q r path k p n)" "grows (parse_source build' q r path k p n)"
  unfolding parse_passive_def parse_source_def by (intro grows_intros)+

lemma quiet_parts [quiet_simps]:
  "quiet (parse_passive build q r path k p n) f es \<longleftrightarrow>
     set (okeys r) \<subseteq> set [''type'', ''id'', ''positive'', ''negative'', q]
     \<and> (\<exists>x. oget r q = Some (JNum (Fin x)) \<and> 0 < x \<and> f = build k p n x)"
  "quiet (parse_source build' q r path k p n) f es \<longleftrightarrow>
     set (okeys r) \<subseteq> set [''type'', ''id'', ''positive'', ''negative'', q, ''pulse'']
     \<and> (\<exists>x pulse. oget r q = Some (JNum (Fin x)) \<and> quiet (parse_pulse (oget r ''pulse'') (path @ ''.pulse'')) pulse es
          \<and> f = build' k p n x pulse)"
  unfolding parse_passive_def parse_source_def
  by (simp_all only: quiet_simps grows_intros simp_thms) blast+

lemma quiet_pulse_proper: "quiet (parse_pulse v path) (Some p) es \<Longrightarrow> proper_pulse p"
  unfolding quiet_pulse by auto

lemma grows_kinds [grows_intros]: "grows (parse_diode r path k)" "grows (parse_two_terminal type r path k p n)"
  unfolding parse_diode_def parse_two_terminal_def by (intro grows_intros)+

lemma grows_fixture [grows_intros]: "grows (parse_fixture_element v path)"
  unfolding parse_fixture_element_def by (intro grows_intros)

lemma quiet_diode:
  "quiet (parse_diode r path k) f es \<longleftrightarrow>
     set (okeys r) \<subseteq> set [''type'', ''id'', ''anode'', ''cathode'']
     \<and> (\<exists>a c. oget r ''anode'' = Some (JStr a) \<and> readable_endpoint a \<and> oget r ''cathode'' = Some (JStr c)
          \<and> readable_endpoint c \<and> f = Diode k a c)"
  unfolding parse_diode_def by (simp only: quiet_simps grows_intros simp_thms) blast

lemma quiet_two_terminal:
  "quiet (parse_two_terminal type r path k p n) f es \<Longrightarrow> proper_value f \<and> fixture_id f = k \<and> fixture_endpoints f = (p, n)"
  unfolding parse_two_terminal_def
  by (auto simp: quiet_parts quiet_if quiet_bind quiet_log grows_intros split: if_splits option.split dest: quiet_pulse_proper)

lemma quiet_fixture:
  "quiet (parse_fixture_element v path) f es \<longleftrightarrow>
     (\<exists>r type k. v = Some (JObj r) \<and> oget r ''type'' = Some (JStr type) \<and> js_trim type \<noteq> []
        \<and> oget r ''id'' = Some (JStr k) \<and> identifier_pattern k
        \<and> (if type = ''diode'' then quiet (parse_diode r path k) f es
           else
             (\<exists>p n. oget r ''positive'' = Some (JStr p) \<and> readable_endpoint p \<and> oget r ''negative'' = Some (JStr n) \<and> readable_endpoint n
               \<and> quiet (parse_two_terminal type r path k p n) f es)))"
  unfolding parse_fixture_element_def
  by (simp only: quiet_bind quiet_record quiet_string quiet_identifier quiet_endpoint quiet_if grows_intros) auto

lemma quiet_fixture_proper: "quiet (parse_fixture_element v path) f es \<Longrightarrow> proper_fixture f"
  unfolding quiet_fixture proper_fixture_def
  by (auto simp: quiet_diode split: if_splits dest!: quiet_two_terminal)

lemma quiet_or_reported:
  assumes "grows m" and "\<And>x. quiet m x es \<Longrightarrow> P x"
  shows "case run_state m es of (x, es') \<Rightarrow> if es' = es then P x else strict_prefix es es'"
proof (cases "run_state m es")
  case (Pair x es')
  then show ?thesis using assms unfolding grows_def quiet_def strict_prefix_def by (auto dest: spec [of _ es])
qed

text \<open>An element of a plan that is parsed without an error is well formed: its name is an identifier,
  its terminals are readable, the value of a passive part is positive and a pulse fits its period. Any
  other input adds errors to those reported before, and takes none away.\<close>

theorem parsed_fixture_proper:
  "case run_state (parse_fixture_element v path) es of
     (f, es') \<Rightarrow> if es' = es then proper_fixture f else strict_prefix es es'"
  using grows_fixture quiet_fixture_proper by (rule quiet_or_reported)

text \<open>The JSON of an element.\<close>

definition num :: "rat \<Rightarrow> json" where
  "num x = JNum (Fin x)"

definition pulse_json :: "pulse \<Rightarrow> json" where
  "pulse_json p = JObj
     [(''low'', num (pl_low p)), (''high'', num (pl_high p)), (''delay'', num (pl_delay p)), (''rise'', num (pl_rise p)),
      (''fall'', num (pl_fall p)), (''width'', num (pl_width p)), (''period'', num (pl_period p))]"

definition element_json :: "string \<Rightarrow> string \<Rightarrow> string \<Rightarrow> string \<Rightarrow> (string \<times> json) list \<Rightarrow> json" where
  "element_json type k p n quantities =
     JObj ([(''type'', JStr type), (''id'', JStr k), (''positive'', JStr p), (''negative'', JStr n)] @ quantities)"

definition pulse_entry :: "pulse option \<Rightarrow> (string \<times> json) list" where
  "pulse_entry pulse = (case pulse of None \<Rightarrow> [] | Some p \<Rightarrow> [(''pulse'', pulse_json p)])"

fun fixture_json :: "fixture \<Rightarrow> json" where
  "fixture_json (Resistor k p n v) = element_json ''resistor'' k p n [(''resistance_ohms'', num v)]"
| "fixture_json (Capacitor k p n v) = element_json ''capacitor'' k p n [(''capacitance_farads'', num v)]"
| "fixture_json (Inductor k p n v) = element_json ''inductor'' k p n [(''inductance_henries'', num v)]"
| "fixture_json (VoltageSource k p n v pulse) = element_json ''voltage_source'' k p n ((''dc_volts'', num v) # pulse_entry pulse)"
| "fixture_json (CurrentSource k p n v pulse) = element_json ''current_source'' k p n ((''dc_amps'', num v) # pulse_entry pulse)"
| "fixture_json (Diode k a c) =
     JObj [(''type'', JStr ''diode''), (''id'', JStr k), (''anode'', JStr a), (''cathode'', JStr c)]"

lemma pulse_json_quiet: "quiet (parse_pulse (Some (pulse_json p)) path) (Some p) es \<longleftrightarrow> proper_pulse p"
  by (auto simp: quiet_pulse pulse_json_def num_def)

lemma pulse_entry_quiet:
  "quiet (parse_pulse (oget (pulse_entry pulse) ''pulse'') path) pulse es \<longleftrightarrow> (case pulse of None \<Rightarrow> True | Some p \<Rightarrow> proper_pulse p)"
  by (cases pulse) (simp_all add: pulse_entry_def pulse_json_quiet, simp add: quiet_pulse)

lemma type_names: "\<And>t. t \<in> set [''resistor'', ''capacitor'', ''inductor'', ''voltage_source'', ''current_source'', ''diode''] \<Longrightarrow> js_trim t \<noteq> []"
  by (auto simp: js_trim_empty blank_def is_space_def)

lemma pulse_entry_keys: "fst ` set (pulse_entry pulse) \<subseteq> {''pulse''}"
  by (cases pulse) (simp_all add: pulse_entry_def)

lemma fixture_json_quiet: "proper_fixture f \<Longrightarrow> quiet (parse_fixture_element (Some (fixture_json f)) path) f es"
proof (cases f)
  case (VoltageSource k p n v pulse)
  then show "proper_fixture f \<Longrightarrow> ?thesis"
    using pulse_entry_keys [of pulse] unfolding quiet_fixture
    by (auto simp: element_json_def parse_two_terminal_def quiet_parts proper_fixture_def pulse_entry_quiet num_def type_names)
next
  case (CurrentSource k p n v pulse)
  then show "proper_fixture f \<Longrightarrow> ?thesis"
    using pulse_entry_keys [of pulse] unfolding quiet_fixture
    by (auto simp: element_json_def parse_two_terminal_def quiet_parts proper_fixture_def pulse_entry_quiet num_def type_names)
qed (auto simp: quiet_fixture element_json_def parse_two_terminal_def quiet_parts quiet_diode proper_fixture_def num_def type_names)

text \<open>C33. The parser of elements accepts exactly the well-formed ones: the JSON of an element is parsed to
  that element, with no error added, if and only if the element is well formed.\<close>

theorem fixture_roundtrip:
  "run_state (parse_fixture_element (Some (fixture_json f)) path) es = (f, es) \<longleftrightarrow> proper_fixture f"
  using fixture_json_quiet quiet_fixture_proper unfolding quiet_def by blast

section \<open>Analyses\<close>

definition sweeps :: "rat \<Rightarrow> rat \<Rightarrow> rat \<Rightarrow> bool" where
  "sweeps start stop step \<longleftrightarrow>
     start \<noteq> stop \<and> step \<noteq> 0 \<and> num_sign (to_double (stop - start)) = num_sign (Fin step)
     \<and> \<not> num_less (num_abs (to_double (stop - start))) (Fin \<bar>step\<bar>)"

definition within_budget :: "rat \<Rightarrow> rat \<Rightarrow> rat \<Rightarrow> bool" where
  "within_budget start stop step \<longleftrightarrow>
     to_double (stop - start) = Fin 0 \<or> step = 0 \<or> \<not> too_many_points (estimated_points start stop step)"

fun proper_analysis :: "plan_analysis \<Rightarrow> bool" where
  "proper_analysis OperatingPointAnalysis = True"
| "proper_analysis (DcSweepAnalysis source start stop step) =
     (identifier_pattern source \<and> sweeps start stop step \<and> within_budget start stop step)"
| "proper_analysis (TransientAnalysis step stop start) =
     (0 < step \<and> 0 \<le> start_time start \<and> start_time start < stop
      \<and> \<not> exceeds_duration step (to_double (stop - start_time start)) \<and> within_budget (start_time start) stop step)"

declare num_sign.simps [simp del] num_abs.simps [simp del] num_less.simps [simp del]

lemma grows_budget [grows_intros]: "grows (validate_point_budget start stop step path)"
  unfolding validate_point_budget_def Let_def by (intro grows_intros)

lemma quiet_budget [quiet_simps]: "quiet (validate_point_budget start stop step path) u es \<longleftrightarrow> within_budget start stop step"
  unfolding validate_point_budget_def Let_def within_budget_def by (auto simp: quiet_simps)

lemma grows_analyses [grows_intros]: "grows (parse_sweep r path)" "grows (parse_transient r path)" "grows (parse_analysis_kind type r path)"
  "grows (parse_analysis v path)"
proof -
  show sweep: "grows (parse_sweep r path)" for r unfolding parse_sweep_def by (intro grows_intros)
  show transient: "grows (parse_transient r path)" for r unfolding parse_transient_def by (intro grows_intros)
  show kind: "grows (parse_analysis_kind type r path)" for type r
    unfolding parse_analysis_kind_def by (intro grows_intros sweep transient)
  show "grows (parse_analysis v path)" unfolding parse_analysis_def by (intro grows_intros kind)
qed

lemma num_inject [simp]: "num x = num y \<longleftrightarrow> x = y" "is_number (Some (num x))"
  by (simp_all add: num_def is_number_def)

lemma quiet_num: "quiet (parse_finite v path) x es \<longleftrightarrow> v = Some (num x)" "quiet (parse_positive v path) x es \<longleftrightarrow> v = Some (num x) \<and> 0 < x"
  by (simp_all add: quiet_simps num_def)

lemma quiet_sweep:
  "quiet (parse_sweep r path) a es \<longleftrightarrow>
     set (okeys r) \<subseteq> set [''type'', ''source_id'', ''start'', ''stop'', ''step'']
     \<and> (\<exists>source start stop step. oget r ''source_id'' = Some (JStr source) \<and> oget r ''start'' = Some (num start)
          \<and> oget r ''stop'' = Some (num stop) \<and> oget r ''step'' = Some (num step)
          \<and> a = DcSweepAnalysis source start stop step \<and> proper_analysis a)"
  unfolding parse_sweep_def
  by (simp only: quiet_bind quiet_reject quiet_identifier quiet_num quiet_log quiet_budget quiet_return grows_intros)
    (auto simp: sweeps_def)

lemma quiet_start [quiet_simps]:
  "quiet (case v of None \<Rightarrow> State_Monad.return None
      | Some v \<Rightarrow> do { x \<leftarrow> parse_non_negative (Some v) path; State_Monad.return (Some x) }) start es
   \<longleftrightarrow> v = map_option num start \<and> 0 \<le> start_time start"
  by (cases v; cases start) (auto simp: quiet_simps grows_intros num_def start_time_def)

lemma starts_before: "0 < stop \<Longrightarrow> \<not> (case start of None \<Rightarrow> False | Some t \<Rightarrow> stop \<le> t) \<longleftrightarrow> start_time start < stop"
  by (auto simp: start_time_def split: option.split)

lemma grows_start [grows_intros]:
  "grows (case v of None \<Rightarrow> State_Monad.return None
      | Some v \<Rightarrow> do { x \<leftarrow> parse_non_negative (Some v) path; State_Monad.return (Some x) })"
  by (intro grows_intros)

lemma quiet_transient:
  "quiet (parse_transient r path) a es \<longleftrightarrow>
     set (okeys r) \<subseteq> set [''type'', ''step'', ''stop'', ''start'']
     \<and> (\<exists>step stop start. oget r ''step'' = Some (num step) \<and> oget r ''stop'' = Some (num stop)
          \<and> oget r ''start'' = map_option num start \<and> a = TransientAnalysis step stop start \<and> proper_analysis a)"
  unfolding parse_transient_def
  by (simp only: quiet_bind quiet_reject quiet_num quiet_start quiet_log quiet_budget quiet_return grows_intros)
    (auto simp: starts_before simp del: option.case_eq_if)

lemma quiet_kind:
  "quiet (parse_analysis_kind type r path) a es \<longleftrightarrow>
     (if type = ''operating_point'' then set (okeys r) \<subseteq> set [''type''] \<and> a = OperatingPointAnalysis
      else if type = ''dc_sweep'' then quiet (parse_sweep r path) a es
      else type = ''transient'' \<and> quiet (parse_transient r path) a es)"
  unfolding parse_analysis_kind_def by (simp add: quiet_simps grows_intros)

lemma quiet_analysis:
  "quiet (parse_analysis v path) a es \<longleftrightarrow>
     (\<exists>r type. v = Some (JObj r) \<and> oget r ''type'' = Some (JStr type) \<and> js_trim type \<noteq> []
        \<and> quiet (parse_analysis_kind type r path) a es)"
  unfolding parse_analysis_def by (simp only: quiet_bind quiet_record quiet_string grows_intros) blast

lemma analysis_names: "\<And>t. t \<in> set [''operating_point'', ''dc_sweep'', ''transient''] \<Longrightarrow> js_trim t \<noteq> []"
  by (auto simp: js_trim_empty blank_def is_space_def)

lemma quiet_analysis_proper: "quiet (parse_analysis v path) a es \<Longrightarrow> proper_analysis a"
  unfolding quiet_analysis by (auto simp: quiet_kind quiet_sweep quiet_transient split: if_splits)

fun analysis_json :: "plan_analysis \<Rightarrow> json" where
  "analysis_json OperatingPointAnalysis = JObj [(''type'', JStr ''operating_point'')]"
| "analysis_json (DcSweepAnalysis source start stop step) = JObj
     [(''type'', JStr ''dc_sweep''), (''source_id'', JStr source), (''start'', num start), (''stop'', num stop), (''step'', num step)]"
| "analysis_json (TransientAnalysis step stop start) = JObj
     ([(''type'', JStr ''transient''), (''step'', num step), (''stop'', num stop)]
      @ (case start of None \<Rightarrow> [] | Some t \<Rightarrow> [(''start'', num t)]))"

lemma analysis_json_quiet: "proper_analysis a \<Longrightarrow> quiet (parse_analysis (Some (analysis_json a)) path) a es"
  by (cases a) (auto simp: quiet_analysis quiet_kind quiet_sweep quiet_transient analysis_names split: option.split)

text \<open>The parser of analyses accepts exactly the well-formed ones: the JSON of an analysis is parsed to
  that analysis, with no error added, if and only if its numbers fit together.\<close>

theorem analysis_roundtrip:
  "run_state (parse_analysis (Some (analysis_json a)) path) es = (a, es) \<longleftrightarrow> proper_analysis a"
  using analysis_json_quiet quiet_analysis_proper unfolding quiet_def by blast

section \<open>The model definition\<close>

definition proper_model :: "model_definition \<Rightarrow> bool" where
  "proper_model md \<longleftrightarrow>
     identifier_pattern (md_entry_name md) \<and> md_pins md \<noteq> []
     \<and> (\<forall>pin \<in> set (md_pins md). spice_node_pattern (mp_spice_node pin) \<and> mp_component_pin pin \<noteq> [])
     \<and> distinct (map mp_spice_node (md_pins md)) \<and> distinct (map mp_component_pin (md_pins md))"

lemma grows_pins [grows_intros]: "grows (validate_pins path i pins nodes components)"
  by (induction pins arbitrary: i nodes components) (auto intro!: grows_intros)

lemma quiet_pins [quiet_simps]:
  "quiet (validate_pins path i pins nodes components) u es \<longleftrightarrow>
     (\<forall>pin \<in> set pins. spice_node_pattern (mp_spice_node pin) \<and> mp_component_pin pin \<noteq> [])
     \<and> distinct (map mp_spice_node pins) \<and> distinct (map mp_component_pin pins)
     \<and> set nodes \<inter> mp_spice_node ` set pins = {} \<and> set components \<inter> mp_component_pin ` set pins = {}"
  by (induction pins arbitrary: i nodes components) (auto simp: quiet_simps grows_intros)

text \<open>The checks of a model definition are exact: they report nothing if and only if its version is
  known, its entry and its nodes are identifiers that are safe in a netlist, nodes and component pins
  are named and all different, its file and simulator are the expected ones and its source is valid.\<close>

lemma model_definition_exact:
  "run_state (validate_model_definition mc) es = ((), es) \<longleftrightarrow>
     mc_version mc = 1 \<and> proper_model (mc_model mc) \<and> mc_source_error mc = None
     \<and> (if mc_from_manifest mc then mc_model_file mc \<in> {None, Some ''model.lib''} \<and> mc_simulator mc \<in> {None, Some ''ngspice''} else True)"
proof -
  have "quiet (validate_model_definition mc) () es \<longleftrightarrow>
     mc_version mc = 1 \<and> proper_model (mc_model mc) \<and> mc_source_error mc = None
     \<and> (if mc_from_manifest mc then mc_model_file mc \<in> {None, Some ''model.lib''} \<and> mc_simulator mc \<in> {None, Some ''ngspice''} else True)"
    unfolding validate_model_definition_def Let_def proper_model_def
    by (cases "mc_source_error mc") (auto simp: quiet_simps grows_intros)
  then show ?thesis by (simp add: quiet_def)
qed

end
