(* ===== verification/Spice_Guarantees.thy ===== *)
theory Spice_Guarantees
  imports Spice_Netlist Spice_Parsed
begin

text \<open>
  Guarantees of the validation plans that span the checks: how many points an accepted analysis
  takes, which reference curves fit an analysis, which pins a plan connects, how a number is read
  back from the netlist, and that the cases parsed without an error are those the compiler needs.
\<close>

section \<open>Rounding of differences and quotients\<close>

lemma grid_zero [simp]: "grid 0"
  unfolding grid_def by (intro exI [of _ 0] exI [of _ "0::int"]) simp

lemma grid_minus: "grid x \<Longrightarrow> grid (- x)"
proof -
  assume "grid x"
  then obtain m e where "x = of_int m * 2 powi e" "\<bar>m\<bar> \<le> 2 ^ 53" "- 1074 \<le> e" by (auto simp: grid_def)
  then show "grid (- x)" unfolding grid_def by (intro exI [of _ "- m"] exI [of _ e]) simp
qed

lemma grid_abs: "grid x \<Longrightarrow> grid \<bar>x\<bar>"
  by (cases "0 \<le> x") (simp_all add: grid_minus)

lemma grid_int: "\<bar>m\<bar> \<le> 2 ^ 53 \<Longrightarrow> grid (of_int m)"
  unfolding grid_def by (intro exI [of _ m] exI [of _ "0::int"]) simp

text \<open>A whole number is not rounded past another one.\<close>

lemma rounded_mono_int: "of_int m \<le> x \<Longrightarrow> \<bar>m\<bar> \<le> 2 ^ 53 \<Longrightarrow> of_int m \<le> rounded x"
  by (rule rounded_above [OF grid_int])

lemma rounded_nonneg: "0 \<le> x \<Longrightarrow> 0 \<le> rounded x"
  by (rule rounded_above) simp_all

text \<open>The multiples of the least double that are small are doubles; beyond, rounding is off by half a
  unit in the last of 53 places.\<close>

lemma grid_multiple: "grid x \<Longrightarrow> \<exists>k. x = of_int k * 2 powi (- 1074)"
proof -
  assume "grid x"
  then obtain m e where x: "x = of_int m * 2 powi e" "- 1074 \<le> e" by (auto simp: grid_def)
  have "e = int (nat (e + 1074)) + (- 1074)" using x(2) by simp
  then have "(2 :: rat) powi e = 2 powi (int (nat (e + 1074)) + (- 1074))" by (rule arg_cong)
  also have "\<dots> = 2 powi int (nat (e + 1074)) * 2 powi (- 1074)" by (rule power_int_add) simp
  also have "\<dots> = 2 ^ nat (e + 1074) * 2 powi (- 1074)" by (simp only: power_int_of_nat)
  finally have "x = of_int (m * 2 ^ nat (e + 1074)) * 2 powi (- 1074)" unfolding x(1) by simp
  then show ?thesis ..
qed

lemma round_even_error: "\<bar>of_int (round_even y) - y\<bar> \<le> 1 / 2"
proof -
  have "y - of_int \<lfloor>y\<rfloor> < 1" "0 \<le> y - of_int \<lfloor>y\<rfloor>" by linarith+
  then show ?thesis unfolding round_even_def Let_def by (auto simp: abs_le_iff split: if_splits)
qed

lemma rounded_error: "\<bar>rounded x - x\<bar> \<le> ulp x / 2"
proof (cases "x = 0")
  case False
  have "rounded x - x = (of_int (round_even (x / ulp x)) - x / ulp x) * ulp x"
    using False ulp_pos [of x] by (simp add: rounded_def left_diff_distrib)
  then have "\<bar>rounded x - x\<bar> = \<bar>of_int (round_even (x / ulp x)) - x / ulp x\<bar> * ulp x" using ulp_pos [of x] by (simp add: abs_mult)
  also have "\<dots> \<le> 1 / 2 * ulp x" using round_even_error ulp_pos [of x] by (intro mult_right_mono) (simp_all add: less_imp_le)
  finally show ?thesis by simp
qed (simp add: rounded_def less_imp_le [OF ulp_pos])

lemma rounded_difference:
  assumes "grid a" and "grid b"
  shows "\<bar>rounded (a - b) - (a - b)\<bar> \<le> \<bar>a - b\<bar> / 2 ^ 53"
proof (cases "a - b = 0")
  case True
  then show ?thesis by (simp add: rounded_def)
next
  case False
  obtain q where q: "ulp (a - b) = 2 powi q" "\<bar>a - b\<bar> < 2 ^ 53 * 2 powi q" "q = - 1074 \<or> 2 ^ 52 * 2 powi q \<le> \<bar>a - b\<bar>"
    using ulp_cases [OF False] by metis
  from q(3) show ?thesis
  proof
    assume least: "q = - 1074"
    obtain k l where "a = of_int k * 2 powi (- 1074)" "b = of_int l * 2 powi (- 1074)" using assms grid_multiple by metis
    then have diff: "a - b = of_int (k - l) * 2 powi q" by (simp add: least left_diff_distrib)
    then have "\<bar>a - b\<bar> = of_int \<bar>k - l\<bar> * 2 powi q" by (simp add: abs_mult)
    with q(2) have "(of_int \<bar>k - l\<bar> :: rat) < of_int (2 ^ 53)" by simp
    then have "\<bar>k - l\<bar> < 2 ^ 53" by (simp only: of_int_less_iff)
    with diff least have "grid (a - b)" unfolding grid_def by (intro exI [of _ "k - l"] exI [of _ q]) simp
    then show ?thesis by (simp add: rounded_grid)
  next
    assume "2 ^ 52 * 2 powi q \<le> \<bar>a - b\<bar>"
    then have "ulp (a - b) \<le> \<bar>a - b\<bar> / 2 ^ 52" by (simp add: q(1) field_simps)
    with rounded_error [of "a - b"] show ?thesis by simp
  qed
qed

lemma rounded_quotient:
  assumes "1 \<le> x"
  shows "x * (1 - 1 / 2 ^ 53) \<le> rounded x"
proof -
  have "x \<noteq> 0" using assms by simp
  then obtain q where q: "ulp x = 2 powi q" "\<bar>x\<bar> < 2 ^ 53 * 2 powi q" "q = - 1074 \<or> 2 ^ 52 * 2 powi q \<le> \<bar>x\<bar>"
    using ulp_cases by metis
  have "q \<noteq> - 1074"
  proof
    assume "q = - 1074"
    with q(2) assms have "1 < (2 :: rat) ^ 53 * 2 powi (- 1074)" by simp
    also have "\<dots> = 2 powi (int 53 + (- 1074))" by (subst power_int_add) simp_all
    also have "\<dots> \<le> 2 powi 0" by (rule power_int_increasing) simp_all
    finally show False by simp
  qed
  with q have "ulp x \<le> x / 2 ^ 52" using assms by (simp add: field_simps)
  moreover have "x - rounded x \<le> ulp x / 2" using rounded_error [of x] by linarith
  ultimately have "x - x / 2 ^ 53 \<le> rounded x" by simp
  then show ?thesis by (simp add: right_diff_distrib)
qed

lemma is_double_small: "\<bar>m\<bar> \<le> 2 ^ 53 \<Longrightarrow> is_double (of_int m)"
proof -
  assume m: "\<bar>m\<bar> \<le> 2 ^ 53"
  then have "(of_int \<bar>m\<bar> :: rat) \<le> of_int (2 ^ 53)" by (simp only: of_int_le_iff)
  with grid_int [OF m] show ?thesis by (simp add: is_double_iff)
qed
lemma to_double_small: "\<bar>m\<bar> \<le> 2 ^ 53 \<Longrightarrow> to_double (of_int m) = Fin (of_int m)"
  using is_double_small by (simp add: is_double_def)

section \<open>The points of an analysis\<close>

text \<open>The points that a simulator visits, in exact arithmetic.\<close>

definition step_points :: "rat \<Rightarrow> rat \<Rightarrow> rat \<Rightarrow> int" where
  "step_points start stop step = \<lfloor>\<bar>stop - start\<bar> / \<bar>step\<bar>\<rfloor> + 1"

fun analysis_points :: "plan_analysis \<Rightarrow> int" where
  "analysis_points OperatingPointAnalysis = 1"
| "analysis_points (DcSweepAnalysis source start stop step) = step_points start stop step"
| "analysis_points (TransientAnalysis step stop start) = step_points (start_time start) stop step"

fun double_analysis :: "plan_analysis \<Rightarrow> bool" where
  "double_analysis OperatingPointAnalysis = True"
| "double_analysis (DcSweepAnalysis source start stop step) = (is_double start \<and> is_double stop \<and> is_double step)"
| "double_analysis (TransientAnalysis step stop start) = (is_double step \<and> is_double stop \<and> is_double (start_time start))"

lemma to_double_cases: "to_double x = Fin (rounded x) \<or> \<not> is_finite_num (to_double x)" "to_double x \<noteq> NotANumber"
  by (simp_all add: to_double_def)

lemma budget_bounds:
  assumes doubles: "is_double start" "is_double stop" and apart: "start \<noteq> stop" "step \<noteq> 0" and budget: "within_budget start stop step"
  shows "step_points start stop step \<le> 20000"
proof (rule ccontr)
  let ?x = "\<bar>stop - start\<bar>" and ?s = "\<bar>step\<bar>"
  let ?d = "\<bar>rounded (stop - start)\<bar>"
  assume "\<not> step_points start stop step \<le> 20000"
  then have "20000 \<le> ?x / ?s" by (simp add: step_points_def le_floor_iff)
  with apart(2) have many: "20000 * ?s \<le> ?x" by (simp add: pos_le_divide_eq)
  have "\<bar>rounded (stop - start) - (stop - start)\<bar> \<le> ?x / 2 ^ 53"
    using doubles by (intro rounded_difference) (simp_all add: is_double_iff)
  then have "?x - ?x / 2 ^ 53 \<le> ?d" by linarith
  then have d: "?x * (1 - 1 / 2 ^ 53) \<le> ?d" by (simp only: right_diff_distrib times_divide_eq_right mult_1_right)
  have pos: "0 < ?x" "0 < ?s" using apart by simp_all
  then have "0 < ?x * (1 - 1 / 2 ^ 53)" by simp
  with d have "?d \<noteq> 0" by linarith
  then have "to_double (stop - start) \<noteq> Fin 0" by (auto simp: to_double_def)
  with budget apart(2) have few: "\<not> too_many_points (estimated_points start stop step)" by (simp add: within_budget_def)
  have "20000 * ?s * (1 - 1 / 2 ^ 53) \<le> ?x * (1 - 1 / 2 ^ 53)" using many by (rule mult_right_mono) simp
  with d have "20000 * (1 - 1 / 2 ^ 53) * ?s \<le> ?d" by (simp add: mult.commute mult.left_commute)
  then have quotient: "20000 * (1 - 1 / 2 ^ 53) \<le> ?d / ?s" using pos by (simp add: pos_le_divide_eq)
  moreover have "(1 :: rat) \<le> 20000 * (1 - 1 / 2 ^ 53)" by simp
  ultimately have "1 \<le> ?d / ?s" by (rule order_trans [rotated])
  from rounded_quotient [OF this] have "?d / ?s * (1 - 1 / 2 ^ 53) \<le> rounded (?d / ?s)" .
  moreover have "20000 * (1 - 1 / 2 ^ 53) * (1 - 1 / 2 ^ 53) \<le> ?d / ?s * (1 - 1 / 2 ^ 53)" using quotient by (rule mult_right_mono) simp
  ultimately have "20000 * (1 - 1 / 2 ^ 53) * (1 - 1 / 2 ^ 53) \<le> rounded (?d / ?s)" by (rule order_trans [rotated])
  then have "19999 < rounded (?d / ?s)" by (rule less_le_trans [rotated]) simp
  then have "20000 \<le> \<lceil>rounded (?d / ?s)\<rceil>" by (simp add: le_ceiling_iff)
  then have "(of_int 20001 :: rat) \<le> of_int \<lceil>rounded (?d / ?s)\<rceil> + 1" by simp
  then have "20001 \<le> rounded (of_int \<lceil>rounded (?d / ?s)\<rceil> + 1)" using rounded_mono_int [of 20001] by simp
  then have "too_many_points (estimated_points start stop step)"
    using to_double_cases [of "stop - start"] to_double_cases [of "?d / ?s"] to_double_cases [of "of_int \<lceil>rounded (?d / ?s)\<rceil> + 1"]
    by (cases "to_double (stop - start)"; cases "to_double (?d / ?s)"; cases "to_double (of_int \<lceil>rounded (?d / ?s)\<rceil> + 1)")
      (auto simp: estimated_points_def too_many_points_def max_validation_points_def num_abs.simps num_less.simps)
  with few show False by simp
qed

text \<open>C34. An analysis that is parsed without an error takes at most 20000 points, in exact arithmetic,
  though the parser estimates their number with rounded differences and quotients.\<close>

theorem accepted_analysis_bounded:
  assumes "run_state (parse_analysis v path) es = (a, es)" and "double_analysis a"
  shows "analysis_points a \<le> 20000"
proof -
  have "proper_analysis a" using assms(1) quiet_analysis_proper by (auto simp: quiet_def)
  with assms(2) show ?thesis by (cases a) (auto simp: sweeps_def intro!: budget_bounds)
qed

lemma ten_points: "proper_analysis (TransientAnalysis 1 10 None)"
  using to_double_small [of 10] to_double_small [of 11]
  by (simp add: start_time_def exceeds_duration_def within_budget_def too_many_points_def estimated_points_def max_validation_points_def num_abs.simps num_less.simps)
theorem accepted_analysis_bounded_witness: "analysis_points (TransientAnalysis 1 10 None) \<le> 20000"
  using is_double_small [of 0] is_double_small [of 1] is_double_small [of 10] analysis_json_quiet [OF ten_points, of "''a''" "[]"]
  by (intro accepted_analysis_bounded [of "Some (analysis_json (TransientAnalysis 1 10 None))" "''a''" "[]"]) (simp_all add: quiet_def start_time_def)

section \<open>Reference curves\<close>

lemma foldl_min_ge: "(\<forall>x \<in> set xs. lo \<le> x) \<Longrightarrow> lo \<le> a \<Longrightarrow> lo \<le> foldl min a xs" for lo :: rat
  by (induction xs arbitrary: a) auto

lemma foldl_max_le: "(\<forall>x \<in> set xs. x \<le> hi) \<Longrightarrow> a \<le> hi \<Longrightarrow> foldl max a xs \<le> hi" for hi :: rat
  by (induction xs arbitrary: a) auto

lemma foldl_max_ge: "a \<le> foldl max a xs" for a :: rat
  by (induction xs arbitrary: a) (auto intro: order_trans [OF max.cobounded1])

lemma range_epsilon_nonneg: "0 \<le> range_epsilon xs"
  unfolding range_epsilon_def using foldl_max_ge [of 1 "map abs xs"] by (intro rounded_nonneg mult_nonneg_nonneg) simp_all

lemma to_double_below: "is_double d \<Longrightarrow> x \<le> d \<Longrightarrow> \<not> num_less (Fin d) (to_double x)"
  using rounded_below [of d x] by (auto simp: to_double_def num_less.simps is_double_iff)

lemma to_double_above: "is_double d \<Longrightarrow> d \<le> x \<Longrightarrow> \<not> num_less (to_double x) (Fin d)"
  using rounded_above [of d x] by (auto simp: to_double_def num_less.simps is_double_iff)

text \<open>A reference curve inside the range of its analysis is never rejected: the bounds are widened by
  the tolerance with rounding, but never so that they exclude a point of the range.\<close>

theorem inside_curve_accepted:
  assumes "analysis_range a = Some (lo, hi)" and "is_double lo" and "is_double hi"
    and "\<forall>p \<in> set points. lo \<le> fst p \<and> fst p \<le> hi"
  shows "\<not> outside_range points a"
proof (cases points)
  case (Cons p ps)
  let ?xs = "map fst points" and ?f = "foldl min (hd (map fst points)) (map fst points)" and ?g = "foldl max (hd (map fst points)) (map fst points)"
  let ?e = "range_epsilon [lo, hi, ?f, ?g]"
  have f: "lo \<le> ?f" using assms(4) Cons by (intro foldl_min_ge) auto
  have g: "?g \<le> hi" using assms(4) Cons by (intro foldl_max_le) auto
  have "lo - ?e \<le> lo" "hi \<le> hi + ?e" using range_epsilon_nonneg by simp_all
  then have "\<not> num_less (Fin lo) (to_double (lo - ?e))" "\<not> num_less (to_double (hi + ?e)) (Fin hi)"
    using assms(2,3) to_double_below to_double_above by blast+
  with f g have "\<not> num_less (Fin ?f) (to_double (lo - ?e))" "\<not> num_less (to_double (hi + ?e)) (Fin ?g)"
    by (cases "to_double (lo - ?e)"; cases "to_double (hi + ?e)"; simp add: num_less.simps)+
  then show ?thesis by (simp add: outside_range_def assms(1) range_of_def Let_def)
qed (simp add: outside_range_def split: option.split)

theorem inside_curve_accepted_witness: "\<not> outside_range [(1, 5), (10, 0)] (TransientAnalysis 1 10 None)"
  using is_double_small [of 0] is_double_small [of 10]
  by (intro inside_curve_accepted [of _ 0 10]) simp_all

section \<open>Numbers of a netlist\<close>

text \<open>C35. Every number the compiler writes is read back as the number of the plan: the text of a finite
  value, read as a decimal and rounded, gives the value, exactly when the value is a double.\<close>

theorem written_number_read_back:
  "(case format_spice_number (Fin x) of Inl e \<Rightarrow> False | Inr t \<Rightarrow> map_option to_double (read_decimal t) = Some (Fin x)) \<longleftrightarrow> is_double x"
proof
  assume "is_double x"
  then show "case format_spice_number (Fin x) of Inl e \<Rightarrow> False | Inr t \<Rightarrow> map_option to_double (read_decimal t) = Some (Fin x)"
    by (simp add: format_spice_number_def number_text_read del: number_text.simps)
next
  assume "case format_spice_number (Fin x) of Inl e \<Rightarrow> False | Inr t \<Rightarrow> map_option to_double (read_decimal t) = Some (Fin x)"
  then obtain y where "to_double y = Fin x" by (auto simp: format_spice_number_def simp del: number_text.simps)
  then have "x = rounded y" "\<bar>rounded y\<bar> < 2 ^ 1024" by (auto simp: to_double_def split: if_splits)
  then show "is_double x" using grid_rounded [of y] by (simp add: is_double_iff)
qed

section \<open>From parsing to the netlist\<close>

lemma one_line_case_id: "case_id_pattern s \<Longrightarrow> one_line s"
  by (auto simp: case_id_pattern_def one_line_def list_all_iff line_end_def is_lower_def is_digit_def char_between_def less_eq_char_def)

lemma parsed_names:
  assumes "run_state (validate_model_definition mc) es = ((), es)" and "case_id_pattern (vc_id c)"
    and "\<forall>f \<in> set (vc_fixtures c). \<exists>v path. run_state (parse_fixture_element v path) [] = (f, [])"
  shows "valid_names (mc_model mc) c"
proof -
  have "proper_model (mc_model mc)" using assms(1) by (simp add: model_definition_exact)
  moreover have "\<forall>f \<in> set (vc_fixtures c). proper_fixture f" using assms(3) quiet_fixture_proper unfolding quiet_def by blast
  ultimately show ?thesis
    using assms(2) by (auto simp: valid_names_def proper_model_def proper_fixture_def list_all_iff manifest_nodes_def one_line_case_id)
qed

lemma parsed_endpoints:
  assumes "vc_application c = None"
    and "\<forall>f \<in> set (vc_fixtures c). \<exists>v path. run_state (parse_fixture_element v path) [] = (f, [])"
    and "\<forall>ob \<in> set (vc_observations c). \<forall>e \<in> set (observed_endpoints ob). \<exists>v path. run_state (parse_endpoint v path) [] = (e, [])"
  shows "readable_case c"
proof -
  have "\<forall>f \<in> set (vc_fixtures c). proper_fixture f" using assms(2) quiet_fixture_proper unfolding quiet_def by blast
  then have "\<forall>e \<in> set (terminals c). readable_endpoint e"
    using assms(1) by (auto simp: terminals_def case_groups_def case_overlays_def proper_fixture_def)
  moreover have "\<forall>ob \<in> set (vc_observations c). \<forall>e \<in> set (observed_endpoints ob). readable_endpoint e"
    using assms(3) quiet_endpoint unfolding quiet_def by blast
  ultimately show ?thesis by (auto simp: readable_case_def readable_endpoint_def list_all_iff)
qed

text \<open>C6. What the parsers and the checks accept, the compiler compiles: if the model definition passes its
  checks, the elements and the endpoints of the observations are parsed without an error, and the
  connectivity checks report nothing of a case with an observation, then none of the errors of the
  compiler is reached. (A documented topology that joins pins is excepted.)\<close>

theorem parsed_case_compiles:
  assumes model: "run_state (validate_model_definition mc) [] = ((), [])" and id: "case_id_pattern (vc_id c)"
    and elements: "\<forall>f \<in> set (vc_fixtures c). \<exists>v path. run_state (parse_fixture_element v path) [] = (f, [])"
    and endpoints: "\<forall>ob \<in> set (vc_observations c). \<forall>e \<in> set (observed_endpoints ob). \<exists>v path. run_state (parse_endpoint v path) [] = (e, [])"
    and accepted: "fst (validate_case_connectivity (mc_model mc) index c ([], covered)) = []"
    and plain: "vc_application c = None" and observed: "vc_observations c \<noteq> []"
  shows "\<exists>cc. compile_validation_case collate (mc_model mc) c = Inr cc"
  using accepted plain parsed_endpoints [OF plain elements endpoints] parsed_names [OF model id elements] observed
  by (rule accepted_case_compiles)

definition divider_context :: model_context where
  "divider_context = \<lparr> mc_from_manifest = False, mc_version = 1, mc_model = divider_model, mc_model_file = None,
     mc_simulator = None, mc_source_error = None \<rparr>"

lemma divider_parsed:
  "run_state (validate_model_definition divider_context) [] = ((), [])" "case_id_pattern (vc_id (divider_case None))"
  "list_all proper_fixture (vc_fixtures (divider_case None))"
  "list_all (\<lambda>ob. list_all readable_endpoint (observed_endpoints ob)) (vc_observations (divider_case None))"
  by code_simp+

theorem parsed_case_compiles_witness: "\<exists>cc. compile_validation_case (\<lambda>a b. 0) divider_model (divider_case None) = Inr cc"
proof -
  have "\<exists>cc. compile_validation_case (\<lambda>a b. 0) (mc_model divider_context) (divider_case None) = Inr cc"
  proof (rule parsed_case_compiles [of _ _ 0 "[]"])
    show "\<forall>f \<in> set (vc_fixtures (divider_case None)). \<exists>v path. run_state (parse_fixture_element v path) [] = (f, [])"
      using divider_parsed(3) fixture_json_quiet unfolding quiet_def list_all_iff by blast
    have "readable_endpoint e \<Longrightarrow> run_state (parse_endpoint (Some (JStr e)) path) [] = (e, [])" for e path
      using quiet_endpoint [of "Some (JStr e)" path e "[]"] by (simp add: quiet_def)
    then show "\<forall>ob \<in> set (vc_observations (divider_case None)). \<forall>e \<in> set (observed_endpoints ob). \<exists>v path. run_state (parse_endpoint v path) [] = (e, [])"
      using divider_parsed(4) unfolding list_all_iff by blast
    show "fst (validate_case_connectivity (mc_model divider_context) 0 (divider_case None) ([], [])) = []" by code_simp
  qed (use divider_parsed in \<open>simp_all add: divider_case_def\<close>)
  then show ?thesis by (simp add: divider_context_def)
qed

section \<open>The pins a plan connects\<close>

lemma note_value_covered: "ck_covered (snd (note_value base i v st)) = ck_covered (snd st)"
  by (auto simp: note_value_def split: prod.splits option.splits)

definition named_pins :: "model_definition \<Rightarrow> string list \<Rightarrow> string set" where
  "named_pins md es = {k. k \<in> set (manifest_nodes md) \<and> (\<exists>e \<in> set es. parse_endpoint_syntax e = Some (Dut k))}"

lemma named_pins_simps [simp]:
  "named_pins md [] = {}" "named_pins md (es @ fs) = named_pins md es \<union> named_pins md fs"
  by (auto simp: named_pins_def)

lemma counted_endpoint [simp]:
  "set (ck_covered (validate_endpoint md nets e path True s)) = set (ck_covered s) \<union> named_pins md [e]"
  unfolding validate_endpoint_def named_pins_def
  by (cases "parse_endpoint_syntax e") (auto simp: add_error_simps cover_pin_simps count_terminal_simps split: endpoint.split)

lemma for_each_union:
  "(\<And>i x s. g (f i x s) = g s \<union> h x) \<Longrightarrow> g (for_each f i xs s) = g s \<union> (\<Union>x \<in> set xs. h x)"
  by (induction xs arbitrary: i s) auto

lemma named_pins_concat: "named_pins md (concat ess) = (\<Union>es \<in> set ess. named_pins md es)"
  by (auto simp: named_pins_def)

lemma named_pins_singletons: "(\<Union>e \<in> set es. named_pins md [e]) = named_pins md es"
  by (auto simp: named_pins_def)

lemma covered_same [simp]: "ck_covered (s\<lparr>ck_ground := b\<rparr>) = ck_covered s"
  by simp

lemma group_covered:
  "set (ck_covered (validate_group md nets path i g s)) = set (ck_covered s) \<union> named_pins md (ng_dut_endpoints g)"
  unfolding validate_group_def Let_def
  by (subst for_each_union [where g = "\<lambda>s. set (ck_covered s)" and h = "\<lambda>e. named_pins md [e]"]) (simp_all add: named_pins_singletons)

lemma overlay_covered:
  "set (ck_covered (validate_overlay md nets path i v s)) = set (ck_covered s) \<union> named_pins md [overlay_endpoint v]"
  unfolding validate_overlay_def Let_def by (cases v) simp_all

lemma fixture_covered:
  "set (ck_covered (validate_fixture md nets path i f s))
     = set (ck_covered s) \<union> named_pins md [fst (fixture_endpoints f), snd (fixture_endpoints f)]"
  unfolding validate_fixture_def Let_def case_prod_beta
  using named_pins_simps(2) [of md "[fst (fixture_endpoints f)]" "[snd (fixture_endpoints f)]"] by (simp add: Un_assoc)

lemma topology_covered: "set (ck_covered (validate_topology md c path s)) = set (ck_covered s) \<union> named_pins md (terminals c)"
proof -
  have pins: "named_pins md (terminals c) =
      ((\<Union>g \<in> set (case_groups c). named_pins md (ng_dut_endpoints g)) \<union> (\<Union>v \<in> set (case_overlays c). named_pins md [overlay_endpoint v]))
      \<union> (\<Union>f \<in> set (vc_fixtures c). named_pins md [fst (fixture_endpoints f), snd (fixture_endpoints f)])"
    unfolding terminals_def named_pins_def by auto
  show ?thesis
    unfolding validate_topology_def Let_def pins
    by (simp only: for_each_union [where g = "\<lambda>s. set (ck_covered s)", OF fixture_covered]
        for_each_union [where g = "\<lambda>s. set (ck_covered s)", OF overlay_covered]
        for_each_union [where g = "\<lambda>s. set (ck_covered s)", OF group_covered] Un_assoc)
qed

lemma observations_covered: "ck_covered (for_each (validate_observation md c path) i obs s) = ck_covered s"
  by (rule for_each_same) simp

lemma case_covered:
  "set (snd (validate_case_connectivity md i c (errors, covered))) = set covered \<union> named_pins md (terminals c)"
  by (simp add: validate_case_connectivity_def Let_def observations_covered nets_effect topology_covered start_check_def)

text \<open>The cases of a plan are checked in order, then what they cover.\<close>

definition validate_cases ::
  "model_definition \<Rightarrow> validation_case list \<Rightarrow> path_error list \<times> string list \<Rightarrow> path_error list \<times> string list" where
  "validate_cases md = for_each (validate_case_connectivity md) 0"

definition validate_plan ::
  "model_definition \<Rightarrow> validation_case list \<Rightarrow> string list \<Rightarrow> string list \<Rightarrow> path_error list" where
  "validate_plan md cs modeled covered_requirements =
     (case validate_cases md cs ([], []) of (errors, covered) \<Rightarrow>
        ck_errors (validate_plan_coverage md covered modeled covered_requirements (start_check errors covered)))"

lemma cases_effect:
  "fst (for_each (validate_case_connectivity md) i cs st) = [] \<longleftrightarrow> fst st = [] \<and> (\<forall>c \<in> set cs. well_connected md c)"
  "set (snd (for_each (validate_case_connectivity md) i cs st)) = set (snd st) \<union> (\<Union>c \<in> set cs. named_pins md (terminals c))"
proof (induction cs arbitrary: i st)
  case (Cons c cs)
  { case 1 show ?case using Cons.IH(1) connectivity_clean [of md i c "fst st" "snd st"] by (auto simp del: split_paired_All) }
  { case 2 show ?case using Cons.IH(2) case_covered [of md i c "fst st" "snd st"] by auto }
qed simp_all

lemma coverage_clean:
  "clean (validate_plan_coverage md covered modeled requirements s) \<longleftrightarrow>
     clean s \<and> set (manifest_nodes md) \<subseteq> set covered \<and> set modeled \<subseteq> set requirements"
  unfolding validate_plan_coverage_def manifest_nodes_def
  by (subst for_each_all [where P = clean and Q = "\<lambda>k. k \<in> set requirements"], simp,
      subst for_each_all [where P = clean and Q = "\<lambda>pin. mp_spice_node pin \<in> set covered"]) auto

text \<open>C5. The checks of a whole plan are exact: they report nothing if and only if every case is well
  connected, every pin of the model is a terminal of some case, and every modeled requirement is among
  those the cases cover.\<close>

theorem plan_checks_exact:
  "validate_plan md cs modeled requirements = [] \<longleftrightarrow>
     list_all (well_connected md) cs
     \<and> set (manifest_nodes md) \<subseteq> {k. \<exists>c \<in> set cs. \<exists>e \<in> set (terminals c). parse_endpoint_syntax e = Some (Dut k)}
     \<and> set modeled \<subseteq> set requirements"
  unfolding validate_plan_def validate_cases_def case_prod_beta
  using coverage_clean [of md _ modeled requirements] cases_effect [of md 0 cs "([], [])"]
  by (auto simp: clean_def start_check_def named_pins_def subset_iff list_all_iff)

end
