(* ===== verification/Spice_Scoring.thy ===== *)
theory Spice_Scoring
  imports Spice_Guarantees
begin

text \<open>
  The comparison of a simulated series with the reference of an observation,
  \<open>src/server/spice-validation/scoring.ts\<close>. The samples are doubles, the arithmetic rounds. The common
  logarithm and the square root of the host are approximations that the language leaves open; they are parameters.
\<close>

section \<open>Constants\<close>

text \<open>\<open>Number.MAX_VALUE\<close>, and the floor of a normalization.\<close>

definition max_value :: rat where
  "max_value = (2 - 1 / 2 ^ 52) * 2 ^ 1023"

definition normalization_floor :: rat where
  "normalization_floor = rounded (1 / 10 ^ 15)"

section \<open>Results\<close>

type_synonym sample = "jsnum \<times> jsnum"

record comparison_metrics =
  me_sample_count :: nat
  me_normalized_rmse :: "jsnum option"
  me_normalized_max_error :: "jsnum option"
  me_max_absolute_error :: "jsnum option"

record series_result =
  sr_observation_id :: string
  sr_log :: bool
  sr_points :: "sample list"
  sr_passed :: bool
  sr_metrics :: comparison_metrics
  sr_errors :: "(string \<times> string) list"  \<comment> \<open>code and message\<close>

definition count_metrics :: "nat \<Rightarrow> comparison_metrics" where
  "count_metrics n = \<lparr> me_sample_count = n, me_normalized_rmse = None, me_normalized_max_error = None, me_max_absolute_error = None \<rparr>"

definition failure_result :: "observation \<Rightarrow> sample list \<Rightarrow> string \<Rightarrow> string \<Rightarrow> series_result" where
  "failure_result ob points code message =
     \<lparr> sr_observation_id = ob_id ob, sr_log = ob_log ob, sr_points = points, sr_passed = False,
       sr_metrics = count_metrics (length points), sr_errors = [(code, message)] \<rparr>"

definition scored_result :: "observation \<Rightarrow> sample list \<Rightarrow> comparison_metrics \<Rightarrow> bool \<Rightarrow> string \<Rightarrow> string \<Rightarrow> series_result" where
  "scored_result ob points m passed code message =
     \<lparr> sr_observation_id = ob_id ob, sr_log = ob_log ob, sr_points = points, sr_passed = passed,
       sr_metrics = m, sr_errors = (if passed then [] else [(code, message)]) \<rparr>"

section \<open>Metrics\<close>

text \<open>The sum of squares is kept scaled by the largest error, so that it does not overflow.\<close>

definition accumulate_error :: "jsnum \<Rightarrow> jsnum \<times> jsnum \<times> jsnum \<Rightarrow> jsnum \<times> jsnum \<times> jsnum" where
  "accumulate_error e st =
     (case st of (rms, total_squares, largest) \<Rightarrow>
        (let a = (if is_finite_num e then num_abs e else Fin max_value); largest = num_max largest a in
         if a = Fin 0 then (rms, total_squares, largest)
         else if num_less rms a
         then (let ratio = num_div rms a in (a, num_add (num_mul (num_mul total_squares ratio) ratio) (Fin 1), largest))
         else (let ratio = num_div a rms in (rms, num_add total_squares (num_mul ratio ratio), largest))))"

definition finite_ratio :: "jsnum \<Rightarrow> jsnum \<Rightarrow> jsnum" where
  "finite_ratio v denominator = (let r = num_div v denominator in if is_finite_num r then r else Fin max_value)"

definition metrics_from_errors :: "(jsnum \<Rightarrow> jsnum) \<Rightarrow> jsnum list \<Rightarrow> jsnum \<Rightarrow> comparison_metrics" where
  "metrics_from_errors root_of errors normalization =
     (case fold accumulate_error errors (Fin 0, Fin 0, Fin 0) of (rms, total_squares, largest) \<Rightarrow>
        (let mean = (if rms = Fin 0 then Fin 0
                     else num_mul rms (root_of (num_div total_squares (Fin (of_nat (length errors))))));
             denominator = num_max (num_abs normalization) (Fin normalization_floor) in
         \<lparr> me_sample_count = length errors, me_normalized_rmse = Some (finite_ratio mean denominator),
           me_normalized_max_error = Some (finite_ratio largest denominator), me_max_absolute_error = Some largest \<rparr>))"

section \<open>Targets and bounds\<close>

definition score_target ::
  "(jsnum \<Rightarrow> jsnum) \<Rightarrow> (jsnum \<Rightarrow> jsnum) \<Rightarrow> observation \<Rightarrow> sample list \<Rightarrow> rat \<Rightarrow> rat \<Rightarrow> series_result" where
  "score_target lg root_of ob points target tolerance =
     (let errors = map (\<lambda>p. if ob_log ob then num_sub (lg (snd p)) (lg (Fin target)) else num_sub (snd p) (Fin target)) points;
          normalization =
            (if ob_log ob
             then num_max (lg (num_div (num_add (Fin target) (Fin tolerance)) (Fin target)))
                    (if tolerance < target then lg (num_div (Fin target) (num_sub (Fin target) (Fin tolerance))) else Fin 0)
             else Fin tolerance) in
      scored_result ob points (metrics_from_errors root_of errors normalization)
        (list_all (\<lambda>p. num_le (num_abs (num_sub (snd p) (Fin target))) (Fin tolerance)) points)
        ''target_tolerance_exceeded''
        (''At least one sample differs from target '' @ number_text (Fin target) @ '' by more than '' @ number_text (Fin tolerance)))"

definition violation :: "(jsnum \<Rightarrow> jsnum) \<Rightarrow> bool \<Rightarrow> rat option \<Rightarrow> rat option \<Rightarrow> jsnum \<Rightarrow> jsnum" where
  "violation lg log_scale lo hi y =
     (if (case lo of None \<Rightarrow> False | Some m \<Rightarrow> num_less y (Fin m))
      then (if log_scale then num_sub (lg (Fin (the lo))) (lg y) else num_sub (Fin (the lo)) y)
      else if (case hi of None \<Rightarrow> False | Some m \<Rightarrow> num_less (Fin m) y)
      then (if log_scale then num_sub (lg y) (lg (Fin (the hi))) else num_sub y (Fin (the hi)))
      else Fin 0)"

definition bounds_normalization :: "(jsnum \<Rightarrow> jsnum) \<Rightarrow> bool \<Rightarrow> rat option \<Rightarrow> rat option \<Rightarrow> jsnum" where
  "bounds_normalization lg log_scale lo hi =
     (if log_scale
      then (case (lo, hi) of (Some a, Some b) \<Rightarrow> num_sub (lg (Fin b)) (lg (Fin a)) | _ \<Rightarrow> Fin 1)
      else
        (let reach = (case (lo, hi) of (Some a, Some b) \<Rightarrow> num_sub (Fin b) (Fin a) | _ \<Rightarrow> Fin 0);
             sizes = map (\<lambda>v. Fin \<bar>v\<bar>) ((case lo of None \<Rightarrow> [] | Some a \<Rightarrow> [a]) @ (case hi of None \<Rightarrow> [] | Some b \<Rightarrow> [b])) in
         foldl num_max reach (sizes @ [Fin normalization_floor])))"

definition score_bounds ::
  "(jsnum \<Rightarrow> jsnum) \<Rightarrow> (jsnum \<Rightarrow> jsnum) \<Rightarrow> observation \<Rightarrow> sample list \<Rightarrow> rat option \<Rightarrow> rat option \<Rightarrow> series_result" where
  "score_bounds lg root_of ob points lo hi =
     (let violations = map (\<lambda>p. violation lg (ob_log ob) lo hi (snd p)) points in
      scored_result ob points (metrics_from_errors root_of violations (bounds_normalization lg (ob_log ob) lo hi))
        (list_all (\<lambda>v. v = Fin 0) violations)
        ''bounds_exceeded'' ''At least one sample lies outside the required bounds'')"

section \<open>Curves\<close>

fun real_part :: "jsnum \<Rightarrow> rat" where
  "real_part (Fin x) = x"
| "real_part _ = 0"

text \<open>The search of the segment that holds a point. The samples are in order.\<close>

fun interpolate_from :: "(rat \<times> jsnum) list \<Rightarrow> rat \<Rightarrow> jsnum option" where
  "interpolate_from [] x = None"
| "interpolate_from [c] x = (if fst c = x then Some (snd c) else None)"
| "interpolate_from (c # n # ps) x =
     (if fst c = x then Some (snd c)
      else if fst n < x then interpolate_from (n # ps) x
      else
        Some (num_add (snd c)
          (num_mul (num_div (to_double (x - fst c)) (to_double (fst n - fst c))) (num_sub (snd n) (snd c)))))"

definition interpolate :: "(rat \<times> jsnum) list \<Rightarrow> rat \<Rightarrow> jsnum option" where
  "interpolate points x =
     (if points = [] then None
      else if length points = 1 then (if fst (hd points) = x then Some (snd (hd points)) else None)
      else if x < fst (hd points) \<or> fst (last points) < x then None
      else interpolate_from points x)"

fun duplicate_x :: "(rat \<times> jsnum) list \<Rightarrow> rat option" where
  "duplicate_x (p # c # ps) = (if fst c = fst p then Some (fst c) else duplicate_x (c # ps))"
| "duplicate_x _ = None"

definition curve_normalization :: "jsnum list \<Rightarrow> jsnum" where
  "curve_normalization ys =
     (let reach = num_sub (foldl num_max NegInf ys) (foldl num_min PosInf ys) in
      if num_less (Fin normalization_floor) reach then reach
      else num_max (foldl num_max NegInf (map num_abs ys)) (Fin normalization_floor))"

definition score_curve ::
  "(jsnum \<Rightarrow> jsnum) \<Rightarrow> (jsnum \<Rightarrow> jsnum) \<Rightarrow> observation \<Rightarrow> sample list \<Rightarrow> rat \<Rightarrow> (rat \<times> rat) list \<Rightarrow> series_result" where
  "score_curve lg root_of ob points tolerance reference =
     (let ordered = sort_key fst (map (\<lambda>p. (real_part (fst p), snd p)) points) in
      case duplicate_x ordered of
        Some x \<Rightarrow> failure_result ob points ''duplicate_series_x'' (''Simulation produced duplicate x value '' @ number_text (Fin x))
      | None \<Rightarrow>
          (let scale = (\<lambda>y. if ob_log ob then lg y else y);
               scored = map (\<lambda>p. (fst p, scale (snd p))) ordered;
               wanted = map (\<lambda>p. (fst p, scale (Fin (snd p)))) reference;
               sampled = map (\<lambda>p. (p, interpolate scored (fst p))) wanted in
           case find (\<lambda>s. snd s = None) sampled of
             Some s \<Rightarrow> failure_result ob points ''curve_outside_simulation_range''
               (''Reference x='' @ number_text (Fin (fst (fst s))) @ '' is outside the simulated range'')
           | None \<Rightarrow>
               (let m = metrics_from_errors root_of (map (\<lambda>s. num_sub (case snd s of None \<Rightarrow> PosInf | Some v \<Rightarrow> v) (snd (fst s))) sampled)
                          (curve_normalization (map snd wanted)) in
                scored_result ob points m
                  (case me_normalized_max_error m of None \<Rightarrow> False | Some e \<Rightarrow> num_le e (Fin tolerance))
                  ''curve_tolerance_exceeded''
                  (''Normalized maximum error ''
                   @ (case me_normalized_max_error m of None \<Rightarrow> ''undefined'' | Some e \<Rightarrow> number_text e)
                   @ '' exceeds tolerance '' @ number_text (Fin tolerance)))))"

section \<open>Observations\<close>

definition unusable_reference :: "reference \<Rightarrow> bool" where
  "unusable_reference r =
     (case r of
        TargetContract target tolerance \<Rightarrow> target \<le> 0
      | BoundsContract lo hi \<Rightarrow> (case lo of None \<Rightarrow> False | Some v \<Rightarrow> v \<le> 0) \<or> (case hi of None \<Rightarrow> False | Some v \<Rightarrow> v \<le> 0)
      | CurveContract tolerance points \<Rightarrow> list_ex (\<lambda>p. snd p \<le> 0) points)"

definition score_observation ::
  "(jsnum \<Rightarrow> jsnum) \<Rightarrow> (jsnum \<Rightarrow> jsnum) \<Rightarrow> observation \<Rightarrow> sample list \<Rightarrow> series_result" where
  "score_observation lg root_of ob points =
     (if points = [] then failure_result ob points ''empty_series'' ''Simulation produced no samples''
      else if list_ex (\<lambda>p. \<not> is_finite_num (fst p) \<or> \<not> is_finite_num (snd p)) points
      then failure_result ob points ''non_finite_series'' ''Simulation produced a non-finite sample''
      else if ob_log ob \<and> list_ex (\<lambda>p. num_le (snd p) (Fin 0)) points
      then failure_result ob points ''invalid_log_sample'' ''Log-scale observations require positive simulation samples''
      else if ob_log ob \<and> unusable_reference (ob_reference ob)
      then failure_result ob points ''invalid_log_reference'' ''Log-scale observations require positive reference values''
      else
        (case ob_reference ob of
           TargetContract target tolerance \<Rightarrow> score_target lg root_of ob points target tolerance
         | BoundsContract lo hi \<Rightarrow> score_bounds lg root_of ob points lo hi
         | CurveContract tolerance reference \<Rightarrow> score_curve lg root_of ob points tolerance reference))"

end
