(* ===== verification/Spice_Scored.thy ===== *)
theory Spice_Scored
  imports Spice_Scoring
begin

text \<open>
  What a score means: a verdict has an error exactly when it is negative, a target is met within the
  rounding of one difference, linear bounds are met exactly, and two ways in which rounding decides.
\<close>

section \<open>Verdicts\<close>

lemma scored_verdict:
  "sr_errors (scored_result ob points m passed code message) = (if passed then [] else [(code, message)])"
  "sr_passed (scored_result ob points m passed code message) = passed" "\<not> sr_passed (failure_result ob points code message)"
  "sr_errors (failure_result ob points code message) = [(code, message)]"
  by (simp_all add: scored_result_def failure_result_def)

definition consistent :: "series_result \<Rightarrow> bool" where
  "consistent r \<longleftrightarrow> (sr_passed r \<longleftrightarrow> sr_errors r = []) \<and> length (sr_errors r) \<le> 1"

lemma consistent_intros [intro]:
  "consistent (scored_result ob points m passed code message)" "consistent (failure_result ob points code message)"
  by (simp_all add: consistent_def scored_verdict)

lemma scores_consistent:
  "consistent (score_target lg root_of ob points t tol)" "consistent (score_bounds lg root_of ob points lo hi)"
  "consistent (score_curve lg root_of ob points tol reference)"
proof -
  show "consistent (score_target lg root_of ob points t tol)" unfolding score_target_def Let_def by (rule consistent_intros)
  show "consistent (score_bounds lg root_of ob points lo hi)" unfolding score_bounds_def Let_def by (rule consistent_intros)
  show "consistent (score_curve lg root_of ob points tol reference)"
    unfolding score_curve_def Let_def by (simp only: split: option.split) (intro conjI allI impI consistent_intros)
qed

definition usable_series :: "observation \<Rightarrow> sample list \<Rightarrow> bool" where
  "usable_series ob points \<longleftrightarrow>
     points \<noteq> [] \<and> list_all (\<lambda>p. is_finite_num (fst p) \<and> is_finite_num (snd p)) points
     \<and> (if ob_log ob then list_all (\<lambda>p. \<not> num_le (snd p) (Fin 0)) points \<and> \<not> unusable_reference (ob_reference ob) else True)"

text \<open>A verdict is never silent: an observation passes if and only if its result has no error, a failed
  one has exactly one; and nothing passes on a series that is empty or not finite, or, on a
  logarithmic scale, on samples or references that are not positive.\<close>

theorem verdict_has_its_error:
  "(sr_passed (score_observation lg root_of ob points) \<longleftrightarrow> sr_errors (score_observation lg root_of ob points) = [])
   \<and> length (sr_errors (score_observation lg root_of ob points)) = (if sr_passed (score_observation lg root_of ob points) then 0 else 1)
   \<and> (sr_passed (score_observation lg root_of ob points) \<le> usable_series ob points)"
proof -
  let ?r = "score_observation lg root_of ob points"
  have "consistent ?r"
    unfolding score_observation_def using scores_consistent by (auto split: reference.split)
  moreover have "usable_series ob points" if "sr_passed ?r"
    using that unfolding score_observation_def usable_series_def
    by (auto simp: scored_verdict list_all_iff list_ex_iff split: if_splits)
  ultimately show ?thesis unfolding consistent_def by (cases "sr_errors ?r") auto
qed

section \<open>Targets\<close>

definition samples_of :: "(rat \<times> rat) list \<Rightarrow> sample list" where
  "samples_of ps = map (\<lambda>p. (Fin (fst p), Fin (snd p))) ps"

lemma linear_score:
  assumes "\<not> ob_log ob" and "ps \<noteq> []"
  shows "score_observation lg root_of ob (samples_of ps) =
    (case ob_reference ob of
       TargetContract target tolerance \<Rightarrow> score_target lg root_of ob (samples_of ps) target tolerance
     | BoundsContract lo hi \<Rightarrow> score_bounds lg root_of ob (samples_of ps) lo hi
     | CurveContract tolerance reference \<Rightarrow> score_curve lg root_of ob (samples_of ps) tolerance reference)"
proof -
  have "samples_of ps \<noteq> []" "\<not> list_ex (\<lambda>p. \<not> is_finite_num (fst p) \<or> \<not> is_finite_num (snd p)) (samples_of ps)"
    using assms(2) by (auto simp: samples_of_def list_ex_iff)
  with assms(1) show ?thesis by (simp add: score_observation_def)
qed

lemma target_within:
  assumes "is_double y" "is_double t" "is_double tol"
  shows "\<bar>y - t\<bar> \<le> tol \<Longrightarrow> num_le (num_abs (num_sub (Fin y) (Fin t))) (Fin tol)"
    and "num_le (num_abs (num_sub (Fin y) (Fin t))) (Fin tol) \<Longrightarrow> \<bar>y - t\<bar> * (1 - 1 / 2 ^ 53) \<le> tol"
proof -
  have d: "num_sub (Fin y) (Fin t) = to_double (y - t)" by (simp add: num_sub_def)
  have grids: "grid tol" "grid (- tol)" "grid y" "grid t" "tol < 2 ^ 1024" using assms by (auto simp: is_double_iff grid_minus)
  show "num_le (num_abs (num_sub (Fin y) (Fin t))) (Fin tol)" if "\<bar>y - t\<bar> \<le> tol"
  proof -
    have "rounded (y - t) \<le> tol" "- tol \<le> rounded (y - t)"
      using that grids by (auto intro!: rounded_below rounded_above)
    then show ?thesis using grids by (auto simp: d to_double_def num_le_def num_abs.simps num_less.simps)
  qed
  show "\<bar>y - t\<bar> * (1 - 1 / 2 ^ 53) \<le> tol" if "num_le (num_abs (num_sub (Fin y) (Fin t))) (Fin tol)"
  proof -
    have "\<bar>rounded (y - t)\<bar> \<le> tol"
      using that by (auto simp: d to_double_def num_le_def num_abs.simps num_less.simps split: if_splits)
    moreover have "\<bar>rounded (y - t) - (y - t)\<bar> \<le> \<bar>y - t\<bar> / 2 ^ 53" using grids by (intro rounded_difference)
    ultimately have "\<bar>y - t\<bar> - \<bar>y - t\<bar> / 2 ^ 53 \<le> tol" by linarith
    then show ?thesis by (simp only: right_diff_distrib times_divide_eq_right mult_1_right)
  qed
qed

text \<open>A linear target is judged up to the rounding of one difference: where all samples are within the
  tolerance the observation passes, and where it passes no sample is off by more than the tolerance and
  its last binary place.\<close>

theorem target_judged_within_rounding:
  assumes "ob_reference ob = TargetContract t tol" and "\<not> ob_log ob" and "ps \<noteq> []"
    and "list_all (\<lambda>p. is_double (snd p)) ps" and "is_double t" and "is_double tol"
  shows "(list_all (\<lambda>p. \<bar>snd p - t\<bar> \<le> tol) ps \<longrightarrow> sr_passed (score_observation lg root_of ob (samples_of ps)))
    \<and> (sr_passed (score_observation lg root_of ob (samples_of ps)) \<longrightarrow> list_all (\<lambda>p. \<bar>snd p - t\<bar> * (1 - 1 / 2 ^ 53) \<le> tol) ps)"
proof -
  have "sr_passed (score_observation lg root_of ob (samples_of ps))
      \<longleftrightarrow> list_all (\<lambda>p. num_le (num_abs (num_sub (Fin (snd p)) (Fin t))) (Fin tol)) ps"
    unfolding linear_score [OF assms(2,3)] assms(1)
    by (simp add: score_target_def Let_def scored_verdict samples_of_def list_all_iff)
  then show ?thesis using target_within assms(4-6) unfolding list_all_iff by blast
qed

section \<open>Bounds\<close>

lemma difference_zero:
  assumes "grid a" "grid b"
  shows "to_double (a - b) = Fin 0 \<longleftrightarrow> a = b"
proof
  assume "to_double (a - b) = Fin 0"
  then have "rounded (a - b) = 0" by (auto simp: to_double_def split: if_splits)
  with rounded_difference [OF assms] have "\<bar>0 - (a - b)\<bar> \<le> \<bar>a - b\<bar> / 2 ^ 53" by (simp only:)
  then have "\<bar>a - b\<bar> * 9007199254740992 \<le> \<bar>a - b\<bar>" by (simp add: abs_minus_commute)
  moreover have "\<bar>a - b\<bar> * 1 < \<bar>a - b\<bar> * 9007199254740992" if "0 < \<bar>a - b\<bar>" using that by (rule mult_strict_left_mono [rotated]) simp
  ultimately show "a = b" by fastforce
qed (simp add: to_double_def rounded_def)

lemma linear_violation:
  assumes "is_double y" and "case lo of None \<Rightarrow> True | Some m \<Rightarrow> is_double m" and "case hi of None \<Rightarrow> True | Some m \<Rightarrow> is_double m"
  shows "violation lg False lo hi (Fin y) = Fin 0 \<longleftrightarrow>
    (case lo of None \<Rightarrow> True | Some m \<Rightarrow> m \<le> y) \<and> (case hi of None \<Rightarrow> True | Some m \<Rightarrow> y \<le> m)"
  using assms difference_zero
  by (cases lo; cases hi) (auto simp: violation_def num_sub_def num_less.simps is_double_iff)

text \<open>Linear bounds are judged exactly: the observation passes if and only if every sample lies between
  them, for no difference of two doubles is rounded to zero.\<close>

theorem linear_bounds_exact:
  assumes "ob_reference ob = BoundsContract lo hi" and "\<not> ob_log ob" and "ps \<noteq> []"
    and "list_all (\<lambda>p. is_double (snd p)) ps"
    and "case lo of None \<Rightarrow> True | Some m \<Rightarrow> is_double m" and "case hi of None \<Rightarrow> True | Some m \<Rightarrow> is_double m"
  shows "sr_passed (score_observation lg root_of ob (samples_of ps)) \<longleftrightarrow>
    list_all (\<lambda>p. (case lo of None \<Rightarrow> True | Some m \<Rightarrow> m \<le> snd p) \<and> (case hi of None \<Rightarrow> True | Some m \<Rightarrow> snd p \<le> m)) ps"
proof -
  have "sr_passed (score_observation lg root_of ob (samples_of ps))
      \<longleftrightarrow> list_all (\<lambda>p. violation lg False lo hi (Fin (snd p)) = Fin 0) ps"
    unfolding linear_score [OF assms(2,3)] assms(1)
    using assms(2) by (simp add: score_bounds_def Let_def scored_verdict samples_of_def list_all_iff)
  then show ?thesis using linear_violation assms(4-6) unfolding list_all_iff by blast
qed

definition output_observation :: "reference \<Rightarrow> observation" where
  "output_observation r = \<lparr> ob_id = ''out'', ob_role = None, ob_requirement_id = ''r1'', ob_log = False,
     ob_reference = r, ob_quantity = VoltageBetween ''dut.OUT'' ''gnd'' \<rparr>"

theorem target_judged_within_rounding_witness:
  "sr_passed (score_observation lg root_of (output_observation (TargetContract 5 1)) (samples_of [(0, 5), (1, 6)]))"
  using target_judged_within_rounding [of "output_observation (TargetContract 5 1)" 5 1 "[(0, 5), (1, 6)]" lg root_of]
    is_double_small [of 5] is_double_small [of 6] is_double_small [of 1]
  by (simp add: output_observation_def)

theorem linear_bounds_exact_witness:
  "\<not> sr_passed (score_observation (\<lambda>x. x) (\<lambda>x. x) (output_observation (BoundsContract (Some 5) None)) (samples_of [(0, 5), (1, 4)]))"
  using linear_bounds_exact [of "output_observation (BoundsContract (Some 5) None)" "Some 5" None "[(0, 5), (1, 4)]" "\<lambda>x. x" "\<lambda>x. x"]
    is_double_small [of 5] is_double_small [of 4]
  by (simp add: output_observation_def)

section \<open>Where rounding decides\<close>

text \<open>On a logarithmic scale the logarithms are compared, not the values: a sample below its bound has no
  violation when the logarithms of the two round alike, as they do for neighbouring doubles.\<close>

lemma log_violation_lost:
  assumes "lg (Fin y) = Fin v" and "lg (Fin m) = Fin v" and "is_double v"
  shows "violation lg True (Some m) None (Fin y) = Fin 0"
  using assms difference_zero [of v v] by (simp add: violation_def num_sub_def is_double_iff)

text \<open>A sample that coincides with a point of the reference is not taken as it is but interpolated from
  the one before, unless it is the first; where the two differ much the sample is lost.\<close>

lemma absorbed_one: "rounded (1 - 2 ^ 60) = - (2 ^ 60)"
proof -
  have f: "\<lfloor>(1 - 2 ^ 60 :: rat) / 128\<rfloor> = - (2 ^ 53)" by (rule floor_unique) simp_all
  have "log_floor 2 (2 ^ 60 - 1) = 59"
  proof -
    have "2 powi log_floor 2 (2 ^ 60 - 1) \<le> (2 :: rat) ^ 60 - 1" "(2 :: rat) ^ 60 - 1 < 2 powi (log_floor 2 (2 ^ 60 - 1) + 1)"
      using log_floor_bounds [of "2 ^ 60 - 1" 2] by simp_all
    have low: "log_floor 2 (2 ^ 60 - 1) < 60"
    proof (rule ccontr)
      assume "\<not> log_floor 2 (2 ^ 60 - 1) < 60"
      then have "(2 :: rat) powi 60 \<le> 2 powi log_floor 2 (2 ^ 60 - 1)" by (intro power_int_increasing) simp_all
      with log_floor_bounds(1) [of "2 ^ 60 - 1" 2] show False by simp
    qed
    have "59 \<le> log_floor 2 (2 ^ 60 - 1)"
    proof (rule ccontr)
      assume "\<not> 59 \<le> log_floor 2 (2 ^ 60 - 1)"
      then have "(2 :: rat) powi (log_floor 2 (2 ^ 60 - 1) + 1) \<le> 2 powi 59" by (intro power_int_increasing) simp_all
      with log_floor_bounds(2) [of "2 ^ 60 - 1" 2] show False by simp
    qed
    with low show ?thesis by simp
  qed
  then have "ulp (1 - 2 ^ 60) = 128" by (simp add: ulp_def)
  then show ?thesis using f by (simp add: rounded_def round_even_def Let_def)
qed

lemma sample_hit_interpolated: "interpolate [(0, Fin (2 ^ 60)), (1, Fin 1)] 1 = Some (Fin 0)"
proof -
  have "to_double (1 - 2 ^ 60) = Fin (- (2 ^ 60))" using absorbed_one by (simp add: to_double_def)
  moreover have "to_double (- (2 ^ 60)) = Fin (- (2 ^ 60))" 
  proof -
    have "grid (- (2 ^ 60))" unfolding grid_def by (intro exI [of _ "- 1"] exI [of _ 60]) simp
    then show ?thesis by (simp add: to_double_def rounded_grid)
  qed
  moreover have "to_double 1 = Fin 1" using to_double_small [of 1] by simp
  moreover have "to_double 0 = Fin 0" using to_double_small [of 0] by simp
  ultimately show ?thesis by (simp add: interpolate_def num_sub_def)
qed

end
