(* ===== verification/Process_Run.thy ===== *)
theory Process_Run
  imports Json
begin

text \<open>
  A supervised child process, \<open>src/server/infrastructure/process/process-runner.ts\<close>. The state holds the
  local variables of \<open>BunProcessRunner.run\<close>, what the child shows of itself and the phase of the
  function; the handlers are functions; the relation \<open>process_step\<close> interleaves them with what the child, the timers
  and the caller do. The child and its streams are the environment: they are only constrained by the
  order in which they can report.
\<close>

section \<open>Requests, errors, state\<close>

datatype process_code =
    SpawnFailed | ExitFailed | OutputHandlerFailed | TransportFailed | IdleTimedOut | WallTimedOut | ProcessCancelled

record process_error =
  px_code :: process_code
  px_label :: string
  px_message :: string
  px_exit_code :: "int option"
  px_output_tail :: "string option"

record process_result =
  ps_exit_code :: int
  ps_output_tail :: string

type_synonym process_outcome = "process_error + process_result"

record process_request =
  rq_command :: "string list"
  rq_label :: string
  rq_idle_timeout :: "nat option"
  rq_wall_timeout :: "nat option"
  rq_has_heartbeats :: bool  \<comment> \<open>some heartbeat path is given\<close>
  rq_max_output :: "jsnum option"
  rq_handles_output :: bool  \<comment> \<open>\<open>on_output\<close> is given\<close>

datatype termination_reason = Cancelled | IdleTimeout | WallTimeout

datatype stream_failure = HandlerFailure | ReadFailure

text \<open>A stream is being read, waits for the output handler, has ended or has failed.\<close>

datatype stream_state = Reading | Handling | Ended | Broken stream_failure

datatype signal = SigTerm | SigKill

datatype phase =
    Racing  \<comment> \<open>waiting for the tasks or a termination\<close>
  | DrainTerminated  \<comment> \<open>terminated, waiting for the tasks at most two seconds\<close>
  | DrainFailed "termination_reason option" stream_failure
  | Settled process_outcome

record process =
  pc_phase :: phase
  pc_termination :: "termination_reason option"
  pc_is_settled :: bool
  pc_aborted :: bool  \<comment> \<open>the signal of the request\<close>
  pc_released :: bool  \<comment> \<open>\<open>termination_started\<close> is resolved\<close>
  pc_force_timer :: bool
  pc_output_tail :: string
  pc_last_activity :: nat
  pc_last_heartbeat :: "string option"
  pc_idle_check_running :: bool
  pc_stdout :: stream_state
  pc_stderr :: stream_state
  pc_exited :: "int option"  \<comment> \<open>the value of \<open>child.exited\<close>\<close>
  pc_exit_code :: "int option"  \<comment> \<open>\<open>child.exitCode\<close>, null while it runs and after a signal\<close>
  pc_signals :: "signal list"  \<comment> \<open>the signals sent, in order\<close>

section \<open>Output\<close>

definition default_output_chars :: nat where "default_output_chars = 200000"
definition max_output_chars :: nat where "max_output_chars = 1000000"

definition normalize_output_limit :: "jsnum option \<Rightarrow> nat" where
  "normalize_output_limit v =
     (case v of
        Some (Fin x) \<Rightarrow> nat (max 1000 (min (int max_output_chars) \<lfloor>x\<rfloor>))
      | _ \<Rightarrow> default_output_chars)"

definition append_tail :: "nat \<Rightarrow> string \<Rightarrow> string \<Rightarrow> string" where
  "append_tail limit tail chunk =
     (let t = tail @ chunk in if length t \<le> limit then t else drop (length t - limit) t)"

section \<open>Termination\<close>

definition signal_process :: "signal \<Rightarrow> process \<Rightarrow> process" where
  "signal_process g p = (if pc_exit_code p \<noteq> None then p else p\<lparr>pc_signals := pc_signals p @ [g]\<rparr>)"

definition terminate :: "termination_reason \<Rightarrow> process \<Rightarrow> process" where
  "terminate reason p =
     (if pc_termination p \<noteq> None \<or> pc_is_settled p then p
      else (signal_process SigTerm (p\<lparr>pc_termination := Some reason, pc_released := True\<rparr>))\<lparr>pc_force_timer := True\<rparr>)"

definition on_abort :: "process \<Rightarrow> process" where
  "on_abort p = terminate Cancelled (p\<lparr>pc_aborted := True\<rparr>)"

definition on_force_timer :: "process \<Rightarrow> process" where
  "on_force_timer p = signal_process SigKill (p\<lparr>pc_force_timer := False\<rparr>)"

definition wall_timeout :: "process_request \<Rightarrow> nat" where
  "wall_timeout rq = (case rq_wall_timeout rq of None \<Rightarrow> 30 * 60000 | Some t \<Rightarrow> t)"

definition idle_limit :: "process_request \<Rightarrow> nat option" where
  "idle_limit rq = (case rq_idle_timeout rq of Some t \<Rightarrow> if 0 < t then Some t else None | None \<Rightarrow> None)"

text \<open>A tick of the idle timer starts a check; the check goes on when the files have been looked at.\<close>

definition on_idle_tick :: "process \<Rightarrow> process" where
  "on_idle_tick p = (if pc_idle_check_running p \<or> pc_is_settled p then p else p\<lparr>pc_idle_check_running := True\<rparr>)"

definition note_heartbeat :: "process_request \<Rightarrow> string \<Rightarrow> nat \<Rightarrow> process \<Rightarrow> process" where
  "note_heartbeat rq signature now p =
     (case pc_last_heartbeat p of
        None \<Rightarrow> p\<lparr>pc_last_heartbeat := Some signature, pc_last_activity := (if rq_has_heartbeats rq then now else pc_last_activity p)\<rparr>
      | Some h \<Rightarrow> if signature \<noteq> h then p\<lparr>pc_last_heartbeat := Some signature, pc_last_activity := now\<rparr> else p)"

definition on_heartbeat_signature :: "process_request \<Rightarrow> nat \<Rightarrow> string \<Rightarrow> nat \<Rightarrow> process \<Rightarrow> process" where
  "on_heartbeat_signature rq limit signature now p =
     (if pc_is_settled p then p\<lparr>pc_idle_check_running := False\<rparr>
      else
        (let q = note_heartbeat rq signature now p;
             q = (if limit \<le> now - pc_last_activity q \<and> pc_exit_code q = None then terminate IdleTimeout q else q) in
         q\<lparr>pc_idle_check_running := False\<rparr>))"

section \<open>Streams\<close>

datatype channel = Stdout | Stderr

fun stream_of :: "channel \<Rightarrow> process \<Rightarrow> stream_state" where
  "stream_of Stdout p = pc_stdout p"
| "stream_of Stderr p = pc_stderr p"

fun set_stream :: "channel \<Rightarrow> stream_state \<Rightarrow> process \<Rightarrow> process" where
  "set_stream Stdout x p = p\<lparr>pc_stdout := x\<rparr>"
| "set_stream Stderr x p = p\<lparr>pc_stderr := x\<rparr>"

text \<open>The reader waits for the handler unless there is none or the run is over.\<close>

definition on_chunk :: "process_request \<Rightarrow> channel \<Rightarrow> string \<Rightarrow> nat \<Rightarrow> process \<Rightarrow> process" where
  "on_chunk rq ch message now p =
     (let q = p\<lparr>pc_last_activity := now,
                pc_output_tail := append_tail (normalize_output_limit (rq_max_output rq)) (pc_output_tail p) message\<rparr> in
      if \<not> rq_handles_output rq \<or> pc_termination q \<noteq> None \<or> pc_is_settled q then q
      else set_stream ch Handling q)"

section \<open>Outcomes\<close>

definition fail_with :: "process_code \<Rightarrow> process_request \<Rightarrow> string \<Rightarrow> int option \<Rightarrow> string \<Rightarrow> process_outcome" where
  "fail_with code rq message exit_code tail =
     Inl \<lparr> px_code = code, px_label = rq_label rq, px_message = rq_label rq @ message,
           px_exit_code = exit_code, px_output_tail = Some tail \<rparr>"

fun termination_error :: "termination_reason \<Rightarrow> process_request \<Rightarrow> int option \<Rightarrow> string \<Rightarrow> process_outcome" where
  "termination_error Cancelled rq exit_code tail = fail_with ProcessCancelled rq '' was cancelled'' exit_code tail"
| "termination_error IdleTimeout rq exit_code tail =
     fail_with IdleTimedOut rq '' produced no output or heartbeat before its idle timeout'' exit_code tail"
| "termination_error WallTimeout rq exit_code tail =
     fail_with WallTimedOut rq '' exceeded its absolute time limit'' exit_code tail"

definition terminated_outcome :: "process_request \<Rightarrow> process \<Rightarrow> process_outcome" where
  "terminated_outcome rq p =
     (if pc_termination p = Some Cancelled \<or> pc_aborted p then termination_error Cancelled rq (pc_exit_code p) (pc_output_tail p)
      else if pc_termination p = Some IdleTimeout then termination_error IdleTimeout rq (pc_exit_code p) (pc_output_tail p)
      else termination_error WallTimeout rq (pc_exit_code p) (pc_output_tail p))"

definition int_text :: "int \<Rightarrow> string" where
  "int_text i = (if i < 0 then ''-'' @ nat_str (nat (- i)) else nat_str (nat i))"

definition completed_outcome :: "process_request \<Rightarrow> int \<Rightarrow> process \<Rightarrow> process_outcome" where
  "completed_outcome rq code p =
     (if pc_termination p = Some Cancelled \<or> pc_aborted p then termination_error Cancelled rq (Some code) (pc_output_tail p)
      else if pc_termination p = Some IdleTimeout then termination_error IdleTimeout rq (Some code) (pc_output_tail p)
      else if pc_termination p = Some WallTimeout then termination_error WallTimeout rq (Some code) (pc_output_tail p)
      else if code \<noteq> 0 then fail_with ExitFailed rq ('' exited with code '' @ int_text code) (Some code) (pc_output_tail p)
      else Inr \<lparr> ps_exit_code = code, ps_output_tail = pc_output_tail p \<rparr>)"

definition failed_outcome ::
  "process_request \<Rightarrow> termination_reason option \<Rightarrow> stream_failure \<Rightarrow> process \<Rightarrow> process_outcome" where
  "failed_outcome rq reason failure p =
     (case reason of
        Some r \<Rightarrow> termination_error r rq (pc_exit_code p) (pc_output_tail p)
      | None \<Rightarrow>
          (case failure of
             HandlerFailure \<Rightarrow>
               fail_with OutputHandlerFailed rq '' could not persist or deliver process output'' None (pc_output_tail p)
           | ReadFailure \<Rightarrow>
               fail_with ExitFailed rq '' failed while streaming process output'' None (pc_output_tail p)))"

section \<open>The run\<close>

definition start_process :: "nat \<Rightarrow> bool \<Rightarrow> process" where
  "start_process now aborted =
     (let p = \<lparr> pc_phase = Racing, pc_termination = None, pc_is_settled = False, pc_aborted = aborted, pc_released = False,
                pc_force_timer = False, pc_output_tail = [], pc_last_activity = now, pc_last_heartbeat = None,
                pc_idle_check_running = False, pc_stdout = Reading, pc_stderr = Reading, pc_exited = None,
                pc_exit_code = None, pc_signals = [] \<rparr> in
      if aborted then terminate Cancelled p else p)"

text \<open>Before the child is there: no command, a signal that is aborted, a spawn that throws. The last
  argument is the state of the signal after the spawn.\<close>

definition run_process :: "process_request \<Rightarrow> bool \<Rightarrow> bool \<Rightarrow> nat \<Rightarrow> bool \<Rightarrow> process_error + process" where
  "run_process rq aborted_before spawns now aborted_after =
     (if rq_command rq = []
      then Inl \<lparr> px_code = SpawnFailed, px_label = rq_label rq, px_message = rq_label rq @ '' has no executable'',
                 px_exit_code = None, px_output_tail = None \<rparr>
      else if aborted_before
      then Inl \<lparr> px_code = ProcessCancelled, px_label = rq_label rq, px_message = rq_label rq @ '' was cancelled before it started'',
                 px_exit_code = None, px_output_tail = None \<rparr>
      else if \<not> spawns
      then Inl \<lparr> px_code = SpawnFailed, px_label = rq_label rq, px_message = rq_label rq @ '' could not start'',
                 px_exit_code = None, px_output_tail = None \<rparr>
      else Inr (start_process now aborted_after))"

definition settle_run :: "process_outcome \<Rightarrow> process \<Rightarrow> process" where
  "settle_run x p = p\<lparr>pc_phase := Settled x, pc_is_settled := True, pc_force_timer := False\<rparr>"

text \<open>The tasks reject: the run fails, whatever the termination was becomes its reason.\<close>

definition on_failure :: "stream_failure \<Rightarrow> process \<Rightarrow> process" where
  "on_failure failure p =
     signal_process SigKill
       (p\<lparr>pc_phase := DrainFailed (case pc_termination p of Some r \<Rightarrow> Some r | None \<Rightarrow> if pc_aborted p then Some Cancelled else None) failure,
          pc_is_settled := True, pc_released := True\<rparr>)"

definition running :: "process \<Rightarrow> bool" where
  "running p \<longleftrightarrow> (case pc_phase p of Settled x \<Rightarrow> False | _ \<Rightarrow> True)"

definition tasks_settled :: "process \<Rightarrow> bool" where
  "tasks_settled p \<longleftrightarrow>
     pc_exited p \<noteq> None \<and> (\<forall>ch \<in> {Stdout, Stderr}. stream_of ch p \<noteq> Reading \<and> stream_of ch p \<noteq> Handling)"

text \<open>The timers of the run are cleared when it settles; the child goes on on its own. The wait for the
  tasks of a terminated child ends with a timer of the same two seconds as the forced kill, armed after
  it and so due after it.\<close>

inductive process_step :: "process_request \<Rightarrow> process \<Rightarrow> process \<Rightarrow> bool" for rq where
  abort: "running p \<Longrightarrow> \<not> pc_aborted p \<Longrightarrow> process_step rq p (on_abort p)"
| wall_timer: "running p \<Longrightarrow> 0 < wall_timeout rq \<Longrightarrow> process_step rq p (terminate WallTimeout p)"
| idle_tick: "running p \<Longrightarrow> idle_limit rq = Some limit \<Longrightarrow> process_step rq p (on_idle_tick p)"
| idle_check: "idle_limit rq = Some limit \<Longrightarrow> pc_idle_check_running p \<Longrightarrow>
    process_step rq p (on_heartbeat_signature rq limit signature now p)"
| force_timer: "pc_force_timer p \<Longrightarrow> process_step rq p (on_force_timer p)"
| chunk: "stream_of ch p = Reading \<Longrightarrow> process_step rq p (on_chunk rq ch message now p)"
| handled: "stream_of ch p = Handling \<Longrightarrow> process_step rq p (set_stream ch Reading p)"
| handler_fails: "stream_of ch p = Handling \<Longrightarrow> \<not> pc_released p \<Longrightarrow> process_step rq p (set_stream ch (Broken HandlerFailure) p)"
| stream_ends: "stream_of ch p = Reading \<Longrightarrow> process_step rq p (set_stream ch Ended p)"
| stream_fails: "stream_of ch p = Reading \<Longrightarrow> process_step rq p (set_stream ch (Broken ReadFailure) p)"
| exits: "pc_exited p = None \<Longrightarrow> shown = None \<or> shown = Some code \<Longrightarrow>
    process_step rq p (p\<lparr>pc_exited := Some code, pc_exit_code := shown\<rparr>)"
| completes: "pc_phase p = Racing \<Longrightarrow> pc_exited p = Some code \<Longrightarrow> pc_stdout p = Ended \<Longrightarrow> pc_stderr p = Ended \<Longrightarrow>
    process_step rq p (settle_run (completed_outcome rq code p) p)"
| terminates: "pc_phase p = Racing \<Longrightarrow> pc_released p \<Longrightarrow> process_step rq p (p\<lparr>pc_phase := DrainTerminated\<rparr>)"
| fails: "pc_phase p = Racing \<Longrightarrow> stream_of ch p = Broken failure \<Longrightarrow> process_step rq p (on_failure failure p)"
| drained: "pc_phase p = DrainTerminated \<Longrightarrow> tasks_settled p \<or> \<not> pc_force_timer p \<Longrightarrow>
    process_step rq p (settle_run (terminated_outcome rq p) p)"
| drained_failed: "pc_phase p = DrainFailed reason failure \<Longrightarrow>
    process_step rq p (settle_run (failed_outcome rq reason failure p) p)"

inductive_cases process_stepE: "process_step rq p q"

inductive reachable_process :: "process_request \<Rightarrow> process \<Rightarrow> bool" for rq where
  started: "reachable_process rq (start_process now aborted)"
| stepped: "reachable_process rq p \<Longrightarrow> process_step rq p q \<Longrightarrow> reachable_process rq q"

end
