(* ===== verification/Process_Guarantees.thy ===== *)
theory Process_Guarantees
  imports Process_Run
begin

text \<open>
  Guarantees of a supervised process: its outcome agrees with what ended it, it is killed before it is
  given up, it is signalled in order and never after its exit, its output tail is the end of its
  output, and every run settles without the help of the child.
\<close>

section \<open>Handlers\<close>

lemma signal_process_simps [simp]:
  "pc_phase (signal_process g p) = pc_phase p" "pc_termination (signal_process g p) = pc_termination p"
  "pc_is_settled (signal_process g p) = pc_is_settled p" "pc_aborted (signal_process g p) = pc_aborted p"
  "pc_released (signal_process g p) = pc_released p" "pc_force_timer (signal_process g p) = pc_force_timer p"
  "pc_stdout (signal_process g p) = pc_stdout p" "pc_stderr (signal_process g p) = pc_stderr p"
  "pc_exited (signal_process g p) = pc_exited p" "pc_exit_code (signal_process g p) = pc_exit_code p"
  by (simp_all add: signal_process_def)

lemma terminate_frame [simp]:
  "pc_phase (terminate r p) = pc_phase p" "pc_is_settled (terminate r p) = pc_is_settled p" "pc_aborted (terminate r p) = pc_aborted p"
  "pc_stdout (terminate r p) = pc_stdout p" "pc_stderr (terminate r p) = pc_stderr p"
  "pc_exited (terminate r p) = pc_exited p" "pc_exit_code (terminate r p) = pc_exit_code p"
  by (simp_all add: terminate_def)

lemma terminate_effect:
  "pc_termination (terminate r p) = (if pc_termination p = None \<and> \<not> pc_is_settled p then Some r else pc_termination p)"
  "pc_released (terminate r p) = (if pc_termination p = None \<and> \<not> pc_is_settled p then True else pc_released p)"
  "pc_force_timer (terminate r p) = (if pc_termination p = None \<and> \<not> pc_is_settled p then True else pc_force_timer p)"
  "pc_signals (terminate r p)
     = (if pc_termination p = None \<and> \<not> pc_is_settled p \<and> pc_exit_code p = None then pc_signals p @ [SigTerm] else pc_signals p)"
  by (auto simp: terminate_def signal_process_def)

lemma note_heartbeat_simps [simp]:
  "pc_phase (note_heartbeat rq g now p) = pc_phase p" "pc_termination (note_heartbeat rq g now p) = pc_termination p"
  "pc_is_settled (note_heartbeat rq g now p) = pc_is_settled p" "pc_aborted (note_heartbeat rq g now p) = pc_aborted p"
  "pc_released (note_heartbeat rq g now p) = pc_released p" "pc_force_timer (note_heartbeat rq g now p) = pc_force_timer p"
  "pc_stdout (note_heartbeat rq g now p) = pc_stdout p" "pc_stderr (note_heartbeat rq g now p) = pc_stderr p"
  "pc_exited (note_heartbeat rq g now p) = pc_exited p" "pc_exit_code (note_heartbeat rq g now p) = pc_exit_code p"
  "pc_signals (note_heartbeat rq g now p) = pc_signals p"
  by (simp_all add: note_heartbeat_def split: option.split)

lemma set_stream_simps [simp]:
  "pc_phase (set_stream ch x p) = pc_phase p" "pc_termination (set_stream ch x p) = pc_termination p"
  "pc_is_settled (set_stream ch x p) = pc_is_settled p" "pc_aborted (set_stream ch x p) = pc_aborted p"
  "pc_released (set_stream ch x p) = pc_released p" "pc_force_timer (set_stream ch x p) = pc_force_timer p"
  "pc_exited (set_stream ch x p) = pc_exited p" "pc_exit_code (set_stream ch x p) = pc_exit_code p"
  "pc_signals (set_stream ch x p) = pc_signals p"
  "stream_of c (set_stream ch x p) = (if c = ch then x else stream_of c p)"
  by (cases ch; cases c; simp)+

lemma on_chunk_simps [simp]:
  "pc_phase (on_chunk rq ch m now p) = pc_phase p" "pc_termination (on_chunk rq ch m now p) = pc_termination p"
  "pc_is_settled (on_chunk rq ch m now p) = pc_is_settled p" "pc_aborted (on_chunk rq ch m now p) = pc_aborted p"
  "pc_released (on_chunk rq ch m now p) = pc_released p" "pc_force_timer (on_chunk rq ch m now p) = pc_force_timer p"
  "pc_exited (on_chunk rq ch m now p) = pc_exited p" "pc_exit_code (on_chunk rq ch m now p) = pc_exit_code p"
  "pc_signals (on_chunk rq ch m now p) = pc_signals p"
  by (simp_all add: on_chunk_def Let_def)

lemma on_chunk_stream: "stream_of c (on_chunk rq ch m now p) = stream_of c p \<or> c = ch \<and> stream_of c (on_chunk rq ch m now p) = Handling"
  by (cases c; cases ch) (simp_all add: on_chunk_def Let_def)

section \<open>The invariant\<close>

definition reported :: "process \<Rightarrow> stream_failure \<Rightarrow> bool" where
  "reported p failure \<longleftrightarrow> pc_stdout p = Broken failure \<or> pc_stderr p = Broken failure"

text \<open>What the code of an error says of the run.\<close>

fun accounts_for :: "process_code \<Rightarrow> process \<Rightarrow> bool" where
  "accounts_for ProcessCancelled p = pc_aborted p"
| "accounts_for IdleTimedOut p = (pc_termination p = Some IdleTimeout)"
| "accounts_for WallTimedOut p = (pc_termination p = Some WallTimeout)"
| "accounts_for OutputHandlerFailed p = (pc_termination p = None \<and> reported p HandlerFailure)"
| "accounts_for ExitFailed p = (pc_termination p = None \<and> (reported p ReadFailure \<or> (\<exists>code. pc_exited p = Some code \<and> code \<noteq> 0)))"
| "accounts_for _ p = False"

fun outcome_agrees :: "process_outcome \<Rightarrow> process \<Rightarrow> bool" where
  "outcome_agrees (Inl e) p = accounts_for (px_code e) p"
| "outcome_agrees (Inr r) p =
     (ps_exit_code r = 0 \<and> pc_exited p = Some 0 \<and> pc_stdout p = Ended \<and> pc_stderr p = Ended \<and> pc_termination p = None \<and> \<not> pc_aborted p)"

definition killed_or_gone :: "process \<Rightarrow> bool" where
  "killed_or_gone p \<longleftrightarrow> pc_exited p \<noteq> None \<or> SigKill \<in> set (pc_signals p)"

fun phase_ok :: "phase \<Rightarrow> process \<Rightarrow> bool" where
  "phase_ok Racing p = (\<not> pc_is_settled p \<and> (pc_released p \<longleftrightarrow> pc_termination p \<noteq> None) \<and> (pc_aborted p \<longrightarrow> pc_termination p \<noteq> None))"
| "phase_ok DrainTerminated p = (\<not> pc_is_settled p \<and> pc_termination p \<noteq> None)"
| "phase_ok (DrainFailed reason failure) p =
     (pc_is_settled p \<and> reason = pc_termination p \<and> reported p failure \<and> killed_or_gone p)"
| "phase_ok (Settled x) p = (pc_is_settled p \<and> outcome_agrees x p \<and> killed_or_gone p)"

definition signals_ok :: "process \<Rightarrow> bool" where
  "signals_ok p \<longleftrightarrow>
     (pc_termination p \<noteq> None \<longrightarrow> pc_exited p \<noteq> None \<or> SigTerm \<in> set (pc_signals p))
     \<and> (pc_termination p \<noteq> None \<longrightarrow> pc_force_timer p \<or> pc_is_settled p \<or> killed_or_gone p)
     \<and> (pc_exit_code p \<noteq> None \<longrightarrow> pc_exited p \<noteq> None)
     \<and> (SigTerm \<in> set (pc_signals p) \<or> pc_force_timer p \<longrightarrow> pc_termination p \<noteq> None)
     \<and> (pc_signals p = [] \<or> SigTerm \<notin> set (tl (pc_signals p)))
     \<and> (pc_termination p = None \<and> \<not> pc_is_settled p \<longrightarrow> pc_signals p = [])"

definition process_ok :: "process \<Rightarrow> bool" where
  "process_ok p \<longleftrightarrow> phase_ok (pc_phase p) p \<and> (pc_termination p = Some Cancelled \<longrightarrow> pc_aborted p) \<and> signals_ok p"

lemmas state_defs = process_ok_def signals_ok_def killed_or_gone_def

lemma signal_process_signals: "pc_signals (signal_process g p) = (if pc_exit_code p = None then pc_signals p @ [g] else pc_signals p)"
  by (simp add: signal_process_def)

lemma running_iff: "running p \<longleftrightarrow> (\<forall>x. pc_phase p \<noteq> Settled x)"
  by (simp add: running_def split: phase.split)

text \<open>A state that shows the same is as good.\<close>

definition same_run :: "process \<Rightarrow> process \<Rightarrow> bool" where
  "same_run p q \<longleftrightarrow>
     pc_phase q = pc_phase p \<and> pc_termination q = pc_termination p \<and> pc_is_settled q = pc_is_settled p \<and> pc_aborted q = pc_aborted p
     \<and> pc_released q = pc_released p \<and> pc_force_timer q = pc_force_timer p \<and> pc_exited q = pc_exited p
     \<and> pc_exit_code q = pc_exit_code p \<and> pc_signals q = pc_signals p
     \<and> (pc_stdout p = Ended \<longrightarrow> pc_stdout q = Ended) \<and> (pc_stderr p = Ended \<longrightarrow> pc_stderr q = Ended)
     \<and> (\<forall>f. reported p f \<longrightarrow> reported q f)"

lemma accounts_same: "same_run p q \<Longrightarrow> accounts_for code p \<Longrightarrow> accounts_for code q"
  by (cases code) (auto simp: same_run_def)

lemma outcome_same: "same_run p q \<Longrightarrow> outcome_agrees x p \<Longrightarrow> outcome_agrees x q"
  by (cases x) (auto simp: accounts_same, auto simp: same_run_def)

lemma process_ok_same: "same_run p q \<Longrightarrow> process_ok p \<Longrightarrow> process_ok q"
  using outcome_same [of p q] unfolding state_defs
  by (cases "pc_phase p") (auto simp: same_run_def killed_or_gone_def)

lemma chunk_same: "stream_of ch p = Reading \<Longrightarrow> same_run p (on_chunk rq ch m now p)"
  by (cases ch) (auto simp: same_run_def reported_def on_chunk_def Let_def)

lemma stream_same: "stream_of ch p = Reading \<or> stream_of ch p = Handling \<Longrightarrow> same_run p (set_stream ch x p)"
  by (cases ch) (auto simp: same_run_def reported_def)

lemma tick_same: "same_run p (on_idle_tick p)" "same_run p (note_heartbeat rq g now p)" "same_run p (p\<lparr>pc_idle_check_running := b\<rparr>)"
  by (auto simp: same_run_def on_idle_tick_def reported_def)

text \<open>The first termination of a run, and all that come after it.\<close>

lemma unterminated: "process_ok p \<Longrightarrow> pc_termination p = None \<Longrightarrow> \<not> pc_is_settled p \<Longrightarrow> pc_phase p = Racing \<and> pc_signals p = []"
  by (cases "pc_phase p") (simp_all add: state_defs)

lemma terminate_ok:
  assumes "process_ok p" and "r = Cancelled \<longrightarrow> pc_aborted p"
  shows "process_ok (terminate r p)"
proof (cases "pc_termination p = None \<and> \<not> pc_is_settled p")
  case True
  with assms unterminated [OF assms(1)] show ?thesis by (auto simp: state_defs terminate_effect)
next
  case False
  then have "terminate r p = p" by (auto simp: terminate_def)
  with assms show ?thesis by simp
qed

lemma abort_ok:
  assumes ok: "process_ok p" and "running p"
  shows "process_ok (on_abort p)"
proof (cases "pc_termination p = None \<and> \<not> pc_is_settled p")
  case True
  with ok unterminated [OF ok] show ?thesis by (auto simp: state_defs terminate_effect on_abort_def)
next
  case False
  then have "on_abort p = p\<lparr>pc_aborted := True\<rparr>" by (auto simp: on_abort_def terminate_def)
  with False assms show ?thesis by (cases "pc_phase p") (auto simp: state_defs running_iff reported_def)
qed

lemma outcome_cong:
  assumes "pc_aborted q = pc_aborted p" "pc_termination q = pc_termination p" "pc_stdout q = pc_stdout p" "pc_stderr q = pc_stderr p"
    "pc_exited q = pc_exited p \<or> pc_exited p = None"
  shows "outcome_agrees x p \<Longrightarrow> outcome_agrees x q"
proof (cases x)
  case (Inl e)
  then show "outcome_agrees x p \<Longrightarrow> outcome_agrees x q" using assms by (cases "px_code e") (auto simp: reported_def)
qed (use assms in auto)

lemma kill_signals:
  "set (pc_signals (signal_process SigKill p)) = set (pc_signals p) \<union> (if pc_exit_code p = None then {SigKill} else {})"
  "SigTerm \<notin> set (tl (pc_signals p)) \<Longrightarrow> SigTerm \<notin> set (tl (pc_signals (signal_process SigKill p)))"
  by (cases "pc_signals p"; simp add: signal_process_signals)+

lemma force_ok:
  assumes ok: "process_ok p" and "pc_force_timer p"
  shows "process_ok (on_force_timer p)"
proof -
  have gone: "killed_or_gone (on_force_timer p)"
    using ok by (auto simp: state_defs on_force_timer_def signal_process_signals)
  have "outcome_agrees x p \<Longrightarrow> outcome_agrees x (on_force_timer p)" for x
    by (rule outcome_cong [of _ p]) (simp_all add: on_force_timer_def)
  with ok gone have "phase_ok (pc_phase p) (on_force_timer p)"
    by (cases "pc_phase p") (simp_all add: process_ok_def on_force_timer_def reported_def)
  moreover have "signals_ok (on_force_timer p)"
    using assms gone kill_signals [of "p\<lparr>pc_force_timer := False\<rparr>"] unfolding process_ok_def signals_ok_def on_force_timer_def
    by (auto simp del: not_None_eq)
  ultimately show ?thesis using ok by (simp add: process_ok_def on_force_timer_def)
qed

lemma exits_ok:
  assumes ok: "process_ok p" and "pc_exited p = None"
  shows "process_ok (p\<lparr>pc_exited := Some code, pc_exit_code := shown\<rparr>)"
proof -
  let ?q = "p\<lparr>pc_exited := Some code, pc_exit_code := shown\<rparr>"
  have "outcome_agrees x p \<Longrightarrow> outcome_agrees x ?q" for x
    by (rule outcome_cong [of _ p]) (simp_all add: assms(2))
  with ok have "phase_ok (pc_phase p) ?q" by (cases "pc_phase p") (simp_all add: process_ok_def killed_or_gone_def reported_def)
  with ok show ?thesis by (simp add: state_defs)
qed

lemma settle_ok:
  assumes ok: "process_ok p" and x: "outcome_agrees x p" and gone: "killed_or_gone p"
  shows "process_ok (settle_run x p)"
proof -
  have "outcome_agrees x (settle_run x p)" using x by (rule outcome_cong [rotated 5]) (simp_all add: settle_run_def)
  with ok gone show ?thesis by (simp add: state_defs settle_run_def)
qed

lemma termination_agrees:
  "(case r of Cancelled \<Rightarrow> pc_aborted p | IdleTimeout \<Rightarrow> pc_termination p = Some IdleTimeout | WallTimeout \<Rightarrow> pc_termination p = Some WallTimeout)
     \<Longrightarrow> outcome_agrees (termination_error r rq code tail) p"
  by (cases r) (simp_all add: fail_with_def)

lemma completed_agrees:
  assumes "process_ok p" "pc_exited p = Some code" "pc_stdout p = Ended" "pc_stderr p = Ended"
  shows "outcome_agrees (completed_outcome rq code p) p"
proof (cases "pc_termination p")
  case None
  then show ?thesis using assms by (simp add: completed_outcome_def fail_with_def)
next
  case (Some r)
  moreover have "r = Cancelled \<Longrightarrow> pc_aborted p" using assms(1) Some by (simp add: process_ok_def)
  ultimately show ?thesis by (cases r) (auto simp: completed_outcome_def fail_with_def)
qed

lemma terminated_agrees:
  assumes "process_ok p" "pc_phase p = DrainTerminated"
  shows "outcome_agrees (terminated_outcome rq p) p"
proof -
  obtain r where r: "pc_termination p = Some r" using assms by (auto simp: process_ok_def)
  moreover have "r = Cancelled \<Longrightarrow> pc_aborted p" using assms(1) r by (simp add: process_ok_def)
  ultimately show ?thesis by (cases r) (auto simp: terminated_outcome_def fail_with_def)
qed

lemma failed_agrees:
  assumes "process_ok p" "pc_phase p = DrainFailed reason failure"
  shows "outcome_agrees (failed_outcome rq reason failure p) p"
proof (cases reason)
  case None
  with assms show ?thesis by (cases failure) (simp_all add: failed_outcome_def fail_with_def process_ok_def)
next
  case (Some r)
  with assms have "pc_termination p = Some r" "r = Cancelled \<Longrightarrow> pc_aborted p" by (simp_all add: process_ok_def)
  with Some show ?thesis by (cases r) (simp_all add: failed_outcome_def fail_with_def)
qed

lemma settled_kill_ok:
  assumes "signals_ok p" and "pc_is_settled q"
    and same: "pc_termination q = pc_termination p" "pc_exited q = pc_exited p" "pc_exit_code q = pc_exit_code p"
      "pc_signals q = pc_signals p" "pc_force_timer q = pc_force_timer p"
  shows "signals_ok (signal_process SigKill q)"
proof -
  let ?r = "signal_process SigKill q"
  have signals: "SigTerm \<in> set (pc_signals ?r) \<longleftrightarrow> SigTerm \<in> set (pc_signals p)"
    using kill_signals(1) [of q] by (simp add: same)
  have "SigTerm \<notin> set (tl (pc_signals ?r))" if "SigTerm \<notin> set (tl (pc_signals p))"
    using kill_signals(2) [of q] that by (simp add: same)
  moreover have "SigTerm \<notin> set (tl (pc_signals p))" using assms(1) by (auto simp: signals_ok_def)
  ultimately show ?thesis using assms(1,2) unfolding signals_ok_def signals by (simp add: same)
qed

lemma on_failure_ok:
  assumes ok: "process_ok p" and racing: "pc_phase p = Racing" and broken: "stream_of ch p = Broken failure"
  shows "process_ok (on_failure failure p)"
proof -
  have "reported (on_failure failure p) failure" using broken by (cases ch) (simp_all add: reported_def on_failure_def)
  moreover have gone: "killed_or_gone (on_failure failure p)"
    using ok by (auto simp: state_defs on_failure_def signal_process_signals)
  ultimately have "phase_ok (pc_phase (on_failure failure p)) (on_failure failure p)"
    using ok racing by (auto simp: process_ok_def on_failure_def split: option.split)
  moreover have "signals_ok (on_failure failure p)"
    unfolding on_failure_def by (rule settled_kill_ok [where p = p]) (use ok in \<open>simp_all add: process_ok_def\<close>)
  moreover have "pc_termination (on_failure failure p) = pc_termination p" "pc_aborted (on_failure failure p) = pc_aborted p"
    by (simp_all add: on_failure_def)
  ultimately show ?thesis using ok by (simp add: process_ok_def)
qed

lemma step_ok: "process_step rq p q \<Longrightarrow> process_ok p \<Longrightarrow> process_ok q"
proof (induction rule: process_step.induct)
  case (idle_check limit p signature now)
  have "process_ok (note_heartbeat rq signature now p)" using process_ok_same [OF tick_same(2)] idle_check by blast
  then have "process_ok (if b then terminate IdleTimeout (note_heartbeat rq signature now p) else note_heartbeat rq signature now p)" for b
    using terminate_ok by simp
  then show ?case
    unfolding on_heartbeat_signature_def Let_def using process_ok_same [OF tick_same(3)] idle_check by simp
next
  case (drained p)
  then have "killed_or_gone p" by (auto simp: state_defs tasks_settled_def)
  with drained show ?case using settle_ok terminated_agrees by blast
next
  case (drained_failed p reason failure)
  then have "killed_or_gone p" by (simp add: process_ok_def)
  with drained_failed show ?case using settle_ok failed_agrees by blast
next
  case (terminates p)
  then show ?case by (auto simp: state_defs)
next
  case (completes p code)
  then have "killed_or_gone p" by (simp add: killed_or_gone_def)
  with completes show ?case using settle_ok completed_agrees by blast
qed (auto intro: abort_ok terminate_ok force_ok exits_ok on_failure_ok process_ok_same [OF chunk_same] process_ok_same [OF stream_same]
    process_ok_same [OF tick_same(1)])

lemma start_ok: "process_ok (start_process now aborted)"
  by (auto simp: start_process_def state_defs terminate_effect Let_def)

lemma reachable_ok: "reachable_process rq p \<Longrightarrow> process_ok p"
  by (induction rule: reachable_process.induct) (auto intro: start_ok step_ok)

section \<open>Outcomes\<close>

text \<open>C9. The outcome of a run agrees with what ended it. A run that succeeds was neither cancelled nor
  terminated: its child exited with zero and both streams were read to the end. A run that fails names the
  cause: it was cancelled by its caller, its idle or wall time ran out and no other termination came
  first, its handler or a stream failed, or the child exited with another code.\<close>

theorem outcome_names_the_cause:
  assumes "reachable_process rq p" and "pc_phase p = Settled x"
  shows "case x of
      Inr r \<Rightarrow> ps_exit_code r = 0 \<and> pc_exited p = Some 0 \<and> pc_stdout p = Ended \<and> pc_stderr p = Ended
        \<and> pc_termination p = None \<and> \<not> pc_aborted p
    | Inl e \<Rightarrow> accounts_for (px_code e) p"
  using reachable_ok [OF assms(1)] assms(2) by (cases x) (simp_all add: process_ok_def)

definition sleep_request :: process_request where
  "sleep_request = \<lparr> rq_command = [''sleep''], rq_label = ''Sleep'', rq_idle_timeout = None, rq_wall_timeout = Some 5,
     rq_has_heartbeats = False, rq_max_output = None, rq_handles_output = True \<rparr>"

lemma sleep_completes:
  "\<exists>p. reachable_process sleep_request p \<and> pc_phase p = Settled (Inr \<lparr> ps_exit_code = 0, ps_output_tail = [] \<rparr>)"
proof -
  let ?p = "start_process 0 False"
  let ?q = "?p\<lparr>pc_exited := Some 0, pc_exit_code := Some 0\<rparr>"
  let ?r = "set_stream Stderr Ended (set_stream Stdout Ended ?q)"
  have "reachable_process sleep_request ?q"
    by (rule stepped [OF started process_step.exits]) (simp_all add: start_process_def)
  then have "reachable_process sleep_request (set_stream Stdout Ended ?q)"
    by (rule stepped [OF _ process_step.stream_ends]) (simp add: start_process_def)
  then have "reachable_process sleep_request ?r"
    by (rule stepped [OF _ process_step.stream_ends]) (simp add: start_process_def)
  then have "reachable_process sleep_request (settle_run (completed_outcome sleep_request 0 ?r) ?r)"
    by (rule stepped [OF _ process_step.completes]) (simp_all add: start_process_def)
  moreover have "completed_outcome sleep_request 0 ?r = Inr \<lparr> ps_exit_code = 0, ps_output_tail = [] \<rparr>"
    by (simp add: completed_outcome_def start_process_def)
  ultimately show ?thesis by (intro exI [of _ "settle_run (completed_outcome sleep_request 0 ?r) ?r"]) (simp add: settle_run_def)
qed

theorem outcome_names_the_cause_witness:
  "\<exists>p. reachable_process sleep_request p \<and> running p = False \<and> pc_exited p = Some 0 \<and> \<not> pc_aborted p"
proof -
  obtain p where p: "reachable_process sleep_request p" "pc_phase p = Settled (Inr \<lparr> ps_exit_code = 0, ps_output_tail = [] \<rparr>)"
    using sleep_completes by blast
  from outcome_names_the_cause [OF this] p show ?thesis by (intro exI [of _ p]) (simp add: running_iff)
qed

text \<open>C8. No child is given up alive: when a run settles, its child has exited or was sent a forced kill;
  a run that is terminated has first asked the child to stop, once, and before any forced kill.\<close>

theorem child_never_abandoned:
  assumes "reachable_process rq p"
  shows "(case pc_phase p of Settled x \<Rightarrow> pc_exited p \<noteq> None \<or> SigKill \<in> set (pc_signals p) | _ \<Rightarrow> True)
    \<and> (pc_signals p = [] \<or> SigTerm \<notin> set (tl (pc_signals p)))
    \<and> (pc_termination p = None \<or> pc_exited p \<noteq> None \<or> SigTerm \<in> set (pc_signals p))"
  using reachable_ok [OF assms] by (cases "pc_phase p") (auto simp: state_defs)

theorem child_never_abandoned_witness:
  "\<exists>p :: process. pc_phase p = Settled (Inr \<lparr> ps_exit_code = 0, ps_output_tail = [] \<rparr>) \<and> (pc_exited p \<noteq> None \<or> SigKill \<in> set (pc_signals p))"
proof -
  obtain p where p: "reachable_process sleep_request p" "pc_phase p = Settled (Inr \<lparr> ps_exit_code = 0, ps_output_tail = [] \<rparr>)"
    using sleep_completes by blast
  have "pc_exited p \<noteq> None \<or> SigKill \<in> set (pc_signals p)" using child_never_abandoned [OF p(1)] by (simp add: p(2))
  with p(2) show ?thesis by blast
qed

section \<open>Every run settles\<close>

text \<open>The steps a run takes without its child: timers and the function itself.\<close>

inductive own_step :: "process_request \<Rightarrow> process \<Rightarrow> process \<Rightarrow> bool" for rq where
  wall: "pc_phase p = Racing \<Longrightarrow> pc_termination p = None \<Longrightarrow> 0 < wall_timeout rq \<Longrightarrow> own_step rq p (terminate WallTimeout p)"
| force: "running p \<Longrightarrow> pc_force_timer p \<Longrightarrow> own_step rq p (on_force_timer p)"
| completes: "pc_phase p = Racing \<Longrightarrow> pc_exited p = Some code \<Longrightarrow> pc_stdout p = Ended \<Longrightarrow> pc_stderr p = Ended \<Longrightarrow>
    own_step rq p (settle_run (completed_outcome rq code p) p)"
| terminates: "pc_phase p = Racing \<Longrightarrow> pc_released p \<Longrightarrow> own_step rq p (p\<lparr>pc_phase := DrainTerminated\<rparr>)"
| fails: "pc_phase p = Racing \<Longrightarrow> stream_of ch p = Broken failure \<Longrightarrow> own_step rq p (on_failure failure p)"
| drained: "pc_phase p = DrainTerminated \<Longrightarrow> tasks_settled p \<or> \<not> pc_force_timer p \<Longrightarrow>
    own_step rq p (settle_run (terminated_outcome rq p) p)"
| drained_failed: "pc_phase p = DrainFailed reason failure \<Longrightarrow>
    own_step rq p (settle_run (failed_outcome rq reason failure p) p)"

lemma own_steps: "own_step rq p q \<Longrightarrow> process_step rq p q"
  by (induction rule: own_step.induct) (auto intro: process_step.intros simp: running_iff)

text \<open>Whatever the child, the caller and the timers do in between, the steps of the run lead to its end: as
  long as it has not settled it can take one, and after each it is still so.\<close>

inductive will_settle :: "process_request \<Rightarrow> process \<Rightarrow> bool" for rq where
  settled: "pc_phase p = Settled x \<Longrightarrow> will_settle rq p"
| moves: "own_step rq p q \<Longrightarrow> (\<And>r q. (process_step rq)\<^sup>*\<^sup>* p r \<Longrightarrow> own_step rq r q \<Longrightarrow> will_settle rq q) \<Longrightarrow> will_settle rq p"

fun phase_rank :: "phase \<Rightarrow> bool \<Rightarrow> nat" where
  "phase_rank Racing terminated = (if terminated then 6 else 8)"
| "phase_rank DrainTerminated terminated = 4"
| "phase_rank (DrainFailed reason failure) terminated = 4"
| "phase_rank (Settled x) terminated = 0"

definition distance :: "process \<Rightarrow> nat" where
  "distance p = phase_rank (pc_phase p) (pc_termination p \<noteq> None) + (if pc_force_timer p then 1 else 0)"

lemma own_step_nearer: "own_step rq p q \<Longrightarrow> process_ok p \<Longrightarrow> distance q < distance p"
proof (induction rule: own_step.induct)
  case (wall p)
  then have "\<not> pc_is_settled p" by (simp add: process_ok_def)
  with wall show ?case by (simp add: distance_def terminate_effect)
qed (auto simp: distance_def on_force_timer_def settle_run_def on_failure_def process_ok_def running_iff)

lemma terminate_distance: "process_ok p \<Longrightarrow> distance (terminate r p) \<le> distance p"
proof (cases "pc_termination p = None \<and> \<not> pc_is_settled p")
  case True
  assume "process_ok p"
  with True unterminated [of p] show ?thesis by (simp add: distance_def terminate_effect)
next
  case False
  then have "terminate r p = p" by (auto simp: terminate_def)
  then show ?thesis by simp
qed

lemma same_distance: "same_run p q \<Longrightarrow> distance q = distance p"
  by (simp add: same_run_def distance_def)

lemma aborted_distance: "process_ok p \<Longrightarrow> distance (on_abort p) \<le> distance p"
proof (cases "pc_termination p = None \<and> \<not> pc_is_settled p")
  case True
  assume "process_ok p"
  with True unterminated [of p] show ?thesis by (simp add: distance_def terminate_effect on_abort_def)
next
  case False
  then have "on_abort p = p\<lparr>pc_aborted := True\<rparr>" by (auto simp: on_abort_def terminate_def)
  then show ?thesis by (simp add: distance_def)
qed

text \<open>No step of anyone leads away from the end.\<close>

lemma step_not_farther: "process_step rq p q \<Longrightarrow> process_ok p \<Longrightarrow> distance q \<le> distance p"
proof (induction rule: process_step.induct)
  case (idle_check limit p signature now)
  have near: "distance (note_heartbeat rq signature now p) = distance p" by (rule same_distance [OF tick_same(2)])
  moreover have "process_ok (note_heartbeat rq signature now p)" using process_ok_same [OF tick_same(2)] idle_check by blast
  ultimately have "distance (if b then terminate IdleTimeout (note_heartbeat rq signature now p) else note_heartbeat rq signature now p) \<le> distance p" for b
    using terminate_distance [of "note_heartbeat rq signature now p"] by simp
  then show ?case unfolding on_heartbeat_signature_def Let_def using same_distance [OF tick_same(3)] by simp
next
  case (force_timer p)
  then show ?case by (simp add: distance_def on_force_timer_def)
next
  case (fails p ch failure)
  then show ?case by (simp add: distance_def on_failure_def)
qed (auto simp: aborted_distance terminate_distance same_distance [OF tick_same(1)] same_distance [OF chunk_same] same_distance [OF stream_same],
    auto simp: distance_def settle_run_def)

lemma steps_ok: "(process_step rq)\<^sup>*\<^sup>* p r \<Longrightarrow> process_ok p \<Longrightarrow> process_ok r \<and> distance r \<le> distance p"
  by (induction rule: rtranclp_induct) (auto dest: step_ok step_not_farther)

lemma own_step_exists:
  assumes ok: "process_ok p" and "0 < wall_timeout rq" and run: "running p"
  shows "\<exists>q. own_step rq p q"
proof (cases "pc_phase p")
  case Racing
  with assms show ?thesis by (cases "pc_termination p") (auto intro: own_step.intros simp: process_ok_def)
next
  case DrainTerminated
  with run show ?thesis by (cases "pc_force_timer p") (auto intro: own_step.intros)
qed (use run in \<open>auto intro: own_step.intros simp: running_iff\<close>)

lemma ok_settles: "process_ok p \<Longrightarrow> 0 < wall_timeout rq \<Longrightarrow> will_settle rq p"
proof (induction "distance p" arbitrary: p rule: less_induct)
  case less
  show ?case
  proof (cases "running p")
    case True
    then obtain q where "own_step rq p q" using own_step_exists less.prems by blast
    then show ?thesis
    proof (rule will_settle.moves)
      fix r q assume "(process_step rq)\<^sup>*\<^sup>* p r" and own: "own_step rq r q"
      with less.prems(1) have "process_ok r" "distance r \<le> distance p" using steps_ok by blast+
      then show "will_settle rq q"
        using less own own_step_nearer step_ok own_steps by (meson less_le_trans)
    qed
  qed (auto simp: running_iff intro: will_settle.settled)
qed

text \<open>C7. Every supervised run with a wall timeout settles, whatever its child does: from every reachable
  state the timers and the function itself can go on until an outcome is reached, and no output, exit,
  cancellation or idle check puts the end off.\<close>

theorem every_run_settles:
  assumes "reachable_process rq p" and "0 < wall_timeout rq"
  shows "will_settle rq p"
  using reachable_ok [OF assms(1)] assms(2) by (rule ok_settles)

theorem every_run_settles_witness: "will_settle sleep_request (start_process 0 False)"
  by (rule every_run_settles) (rule started, simp add: wall_timeout_def sleep_request_def)

section \<open>The output tail\<close>

text \<open>The tail that a run reports is the end of its output: the chunks appended one by one leave the
  last characters of the whole output, at most the limit, however it was cut into chunks.\<close>

theorem output_tail_exact:
  "foldl (append_tail limit) [] chunks = drop (length (concat chunks) - limit) (concat chunks)
   \<and> length (foldl (append_tail limit) [] chunks) \<le> limit"
proof -
  have step: "append_tail n (drop (length s - n) s) c = drop (length (s @ c) - n) (s @ c)" for n and s c :: string
    by (cases "length s \<le> n") (auto simp: append_tail_def Let_def add.commute)
  have "foldl (append_tail limit) [] chunks = drop (length (concat chunks) - limit) (concat chunks)"
  proof (induction chunks rule: rev_induct)
    case (snoc c chunks)
    then show ?case using step [of limit "concat chunks" c] by simp
  qed simp
  then show ?thesis by simp
qed

lemma output_limit_bounds: "1000 \<le> normalize_output_limit v \<and> normalize_output_limit v \<le> 1000000"
  by (auto simp: normalize_output_limit_def default_output_chars_def max_output_chars_def nat_le_iff le_nat_iff
      split: option.split jsnum.split)

end
