(* ===== verification/Evidence_Data.thy ===== *)
theory Evidence_Data
  imports Results Js_Arithmetic
begin

text \<open>
  The evidence of a component, \<open>src/server/component-evidence/\<close>: what the extraction from a datasheet reports
  about the part, its package, its pins and its copper pads, with the sources of every fact
  (\<open>contract.ts\<close>, \<open>types.ts\<close>), and the normal forms that pins and names are compared in.
\<close>

section \<open>The contract\<close>

datatype evidence_status = Resolved | Unresolved

datatype evidence_method = PdfText | PdfVisual | Calculated | PackageStandard

datatype evidence_confidence = HighConfidence | MediumConfidence | LowConfidence

datatype drawing_orientation = PcbTop | PackageTop | PackageBottom | SideView | UnknownView

datatype pin_role =
    PowerInput | PowerOutput | GroundPin | InputPin | OutputPin | Bidirectional | PassivePin | NoConnect | OtherRole

datatype pad_kind = Smt | PlatedHole

fun evidence_status_text :: "evidence_status \<Rightarrow> string" where
  "evidence_status_text Resolved = ''resolved''"
| "evidence_status_text Unresolved = ''unresolved''"

fun method_text :: "evidence_method \<Rightarrow> string" where
  "method_text PdfText = ''pdf_text''"
| "method_text PdfVisual = ''pdf_visual''"
| "method_text Calculated = ''calculated''"
| "method_text PackageStandard = ''package_standard''"

fun confidence_text :: "evidence_confidence \<Rightarrow> string" where
  "confidence_text HighConfidence = ''high''"
| "confidence_text MediumConfidence = ''medium''"
| "confidence_text LowConfidence = ''low''"

fun orientation_text :: "drawing_orientation \<Rightarrow> string" where
  "orientation_text PcbTop = ''pcb_top''"
| "orientation_text PackageTop = ''package_top''"
| "orientation_text PackageBottom = ''package_bottom''"
| "orientation_text SideView = ''side''"
| "orientation_text UnknownView = ''unknown''"

fun role_text :: "pin_role \<Rightarrow> string" where
  "role_text PowerInput = ''power_input''"
| "role_text PowerOutput = ''power_output''"
| "role_text GroundPin = ''ground''"
| "role_text InputPin = ''input''"
| "role_text OutputPin = ''output''"
| "role_text Bidirectional = ''bidirectional''"
| "role_text PassivePin = ''passive''"
| "role_text NoConnect = ''no_connect''"
| "role_text OtherRole = ''other''"

fun kind_text :: "pad_kind \<Rightarrow> string" where
  "kind_text Smt = ''smt''"
| "kind_text PlatedHole = ''plated_hole''"

definition evidence_statuses :: "evidence_status list" where
  "evidence_statuses = [Resolved, Unresolved]"

definition evidence_methods :: "evidence_method list" where
  "evidence_methods = [PdfText, PdfVisual, Calculated, PackageStandard]"

definition evidence_confidences :: "evidence_confidence list" where
  "evidence_confidences = [HighConfidence, MediumConfidence, LowConfidence]"

definition drawing_orientations :: "drawing_orientation list" where
  "drawing_orientations = [PcbTop, PackageTop, PackageBottom, SideView, UnknownView]"

definition pin_roles :: "pin_role list" where
  "pin_roles = [PowerInput, PowerOutput, GroundPin, InputPin, OutputPin, Bidirectional, PassivePin, NoConnect, OtherRole]"

definition pad_kinds :: "pad_kind list" where
  "pad_kinds = [Smt, PlatedHole]"

section \<open>The data\<close>

text \<open>Pages and resolutions are numbers of JSON; a page is a whole number.\<close>

record evidence_source =
  es_page :: rat
  es_figure :: "string option"
  es_method :: evidence_method
  es_confidence :: evidence_confidence
  es_image :: "string option"
  es_render_dpi :: "rat option"
  es_note :: "string option"

record 'a evidence_field =
  ef_value :: 'a
  ef_sources :: "evidence_source list"

record electrical_attributes =
  ea_open_drain :: "bool option"

record pin_evidence =
  pin_number :: string
  pin_labels :: "string list"
  pin_role_of :: pin_role
  pin_attributes :: "electrical_attributes option"
  pin_description :: "string option"
  pin_sources :: "evidence_source list"

text \<open>The pad of a plan, \<open>src/server/job-artifact-validator/footprint-plan-validation.ts\<close>, and the pad of the
  evidence, which extends it. A pad without a pin is mechanical.\<close>

record footprint_pad =
  pad_pin :: "string option"
  pad_kind_of :: pad_kind
  pad_x :: rat
  pad_y :: rat
  pad_width :: rat
  pad_height :: rat
  pad_hole_width :: "rat option"
  pad_hole_height :: "rat option"

record evidence_pad = footprint_pad +
  pad_sources :: "evidence_source list"

record component_evidence =
  ce_status :: evidence_status
  ce_part_number :: "string evidence_field"
  ce_ordering_code :: "string evidence_field option"
  ce_package_name :: "string evidence_field"
  ce_package_code :: "string evidence_field option"
  ce_pin_count :: "rat evidence_field"
  ce_pins :: "pin_evidence list"
  ce_orientation :: "drawing_orientation evidence_field"
  ce_pads :: "evidence_pad list"
  ce_ambiguities :: "string list"

section \<open>Normal forms\<close>

text \<open>\<open>toLowerCase\<close> on the characters below 256.\<close>

definition lower_latin :: "char \<Rightarrow> char" where
  "lower_latin c =
     (if is_upper c \<or> char_between CHR 0xC0 CHR 0xDE c \<and> c \<noteq> CHR 0xD7 then char_of (of_char c + 32 :: nat) else c)"

definition lower_text :: "string \<Rightarrow> string" where
  "lower_text s = map lower_latin s"

definition lower_alnum :: "char \<Rightarrow> bool" where
  "lower_alnum c \<longleftrightarrow> is_lower c \<or> is_digit c"

definition normalize_text :: "string \<Rightarrow> string" where
  "normalize_text s = filter lower_alnum (lower_text (js_trim s))"

text \<open>The rest of the pattern \<open>/^pin(?=[a-z]*\d+$)/\<close>.\<close>

definition pin_suffix :: "string \<Rightarrow> bool" where
  "pin_suffix s \<longleftrightarrow> dropWhile is_lower s \<noteq> [] \<and> list_all is_digit (dropWhile is_lower s)"

definition normalize_pin :: "string \<Rightarrow> string" where
  "normalize_pin s =
     (let t = lower_text (js_trim s) in
      if take 3 t = ''pin'' \<and> pin_suffix (drop 3 t) then drop 3 t else t)"

text \<open>\<open>toUpperCase\<close> followed by the removal of everything but capital letters and digits: one character
  below 256 becomes two letters, and the other foreign ones are removed whatever they become.\<close>

definition identity_char :: "char \<Rightarrow> string" where
  "identity_char c =
     (if is_lower c then [char_of (of_char c - 32 :: nat)]
      else if c = CHR 0xDF then ''SS''
      else if is_upper c \<or> is_digit c then [c] else [])"

definition part_identity :: "string \<Rightarrow> string" where
  "part_identity s = concat (map identity_char (js_trim s))"

section \<open>Representation at the boundary\<close>

text \<open>\<open>canonicalize-component-evidence.ts\<close>. A property that is written with an undefined value is left out
  here; the text of the result and the checks that follow do not tell the difference.\<close>

definition max_safe_number :: rat where
  "max_safe_number = 2 ^ 53 - 1"

definition canonical_pin_identifier :: "json option \<Rightarrow> json option" where
  "canonical_pin_identifier v =
     (case v of
        Some (JNum (Fin r)) \<Rightarrow>
          if r = of_int \<lfloor>r\<rfloor> \<and> r \<le> max_safe_number \<and> 0 \<le> r then Some (JStr (number_text (Fin r))) else v
      | _ \<Rightarrow> v)"

definition put_defined :: "string \<Rightarrow> json option \<Rightarrow> (string \<times> json) list \<Rightarrow> (string \<times> json) list" where
  "put_defined k v m = (case v of None \<Rightarrow> m | Some x \<Rightarrow> oput k x m)"

definition item_path :: "string \<Rightarrow> nat \<Rightarrow> string" where
  "item_path s i = s @ ''['' @ nat_str i @ '']''"

definition canonical_pin :: "nat \<Rightarrow> json \<Rightarrow> json \<times> string list" where
  "canonical_pin i pin =
     (case pin of
        JObj m \<Rightarrow>
          (let number = canonical_pin_identifier (oget m ''number'') in
           (JObj (put_defined ''number'' number m),
            if number \<noteq> oget m ''number'' then [item_path ''pinout.pins'' i @ ''.number: integer -> string''] else []))
      | _ \<Rightarrow> (pin, []))"

definition canonical_kind :: "json option \<Rightarrow> json option" where
  "canonical_kind v =
     (case v of Some (JStr s) \<Rightarrow> if lower_text s = ''smd'' then Some (JStr ''smt'') else v | _ \<Rightarrow> v)"

definition canonical_pad :: "nat \<Rightarrow> json \<Rightarrow> json \<times> string list" where
  "canonical_pad i pad =
     (case pad of
        JObj m \<Rightarrow>
          (let pin = canonical_pin_identifier (oget m ''pin''); kind = canonical_kind (oget m ''kind'') in
           (JObj (put_defined ''kind'' kind (put_defined ''pin'' pin m)),
            (if pin \<noteq> oget m ''pin'' then [item_path ''footprint.pads'' i @ ''.pin: integer -> string''] else [])
            @ (if kind \<noteq> oget m ''kind'' then [item_path ''footprint.pads'' i @ ''.kind: smd -> smt''] else [])))
      | _ \<Rightarrow> (pad, []))"

text \<open>The elements of an array with their numbers, each with the changes made to it.\<close>

definition canonical_items :: "(nat \<Rightarrow> json \<Rightarrow> json \<times> string list) \<Rightarrow> json list \<Rightarrow> json list \<times> string list" where
  "canonical_items f xs =
     (map (\<lambda>(i, x). fst (f i x)) (enumerate 0 xs), concat (map (\<lambda>(i, x). snd (f i x)) (enumerate 0 xs)))"

definition canonical_section ::
  "string \<Rightarrow> string \<Rightarrow> (nat \<Rightarrow> json \<Rightarrow> json \<times> string list) \<Rightarrow> (string \<times> json) list \<Rightarrow> (string \<times> json) list \<times> string list" where
  "canonical_section part items f m =
     (case oget m part of
        Some (JObj p) \<Rightarrow>
          (case oget p items of
             Some (JArr xs) \<Rightarrow>
               (oput part (JObj (oput items (JArr (fst (canonical_items f xs))) p)) m, snd (canonical_items f xs))
           | _ \<Rightarrow> (m, []))
      | _ \<Rightarrow> (m, []))"

definition canonicalize_component_evidence :: "json option \<Rightarrow> json option \<times> string list" where
  "canonicalize_component_evidence v =
     (case v of
        Some (JObj m) \<Rightarrow>
          (case canonical_section ''pinout'' ''pins'' canonical_pin m of (m1, changes1) \<Rightarrow>
             case canonical_section ''footprint'' ''pads'' canonical_pad m1 of (m2, changes2) \<Rightarrow>
               (Some (JObj m2), changes1 @ changes2))
      | _ \<Rightarrow> (v, []))"

end
