(* ===== verification/Evidence_Checks.thy ===== *)
theory Evidence_Checks
  imports Evidence_Data
begin

text \<open>
  The checks of parsed evidence, \<open>src/server/component-evidence/\<close>: the agreement of its pads with those of a
  footprint plan (\<open>get-pad-agreement-errors.ts\<close>, \<open>get-footprint-evidence-errors.ts\<close>), the plan made from it
  (\<open>create-footprint-plan-from-evidence.ts\<close>) and the reasons for which it blocks the component
  (\<open>get-component-evidence-blocking-reasons.ts\<close>). Distances are sums of rounded differences.
\<close>

section \<open>Agreement of pads\<close>

definition close_enough :: "rat \<Rightarrow> rat \<Rightarrow> rat \<Rightarrow> bool" where
  "close_enough tol left right \<longleftrightarrow> num_le (num_abs (num_sub (Fin left) (Fin right))) (Fin tol)"

definition length_difference :: "rat \<Rightarrow> rat \<Rightarrow> jsnum" where
  "length_difference a b = num_abs (num_sub (Fin a) (Fin b))"

definition pad_distance :: "'a footprint_pad_scheme \<Rightarrow> 'b footprint_pad_scheme \<Rightarrow> jsnum" where
  "pad_distance p e =
     num_add (num_add (num_add (length_difference (pad_x p) (pad_x e)) (length_difference (pad_y p) (pad_y e)))
       (length_difference (pad_width p) (pad_width e))) (length_difference (pad_height p) (pad_height e))"

definition same_pin :: "string option \<Rightarrow> string option \<Rightarrow> bool" where
  "same_pin p q \<longleftrightarrow>
     (case (p, q) of (None, None) \<Rightarrow> True | (Some a, Some b) \<Rightarrow> normalize_pin a = normalize_pin b | _ \<Rightarrow> False)"

definition pads_correspond :: "'a footprint_pad_scheme \<Rightarrow> 'b footprint_pad_scheme \<Rightarrow> bool" where
  "pads_correspond p e \<longleftrightarrow> same_pin (pad_pin p) (pad_pin e) \<and> pad_kind_of p = pad_kind_of e"

definition pad_title :: "'a footprint_pad_scheme \<Rightarrow> string" where
  "pad_title p = (case pad_pin p of None \<Rightarrow> ''unassigned mechanical pad'' | Some k \<Rightarrow> ''pin '' @ k)"

definition report :: "bool \<Rightarrow> string \<Rightarrow> string list" where
  "report b message = (if b then [message] else [])"

definition holes_agree :: "rat \<Rightarrow> rat option \<Rightarrow> rat option \<Rightarrow> bool" where
  "holes_agree tol a b \<longleftrightarrow> (case (a, b) of (Some x, Some y) \<Rightarrow> close_enough tol x y | _ \<Rightarrow> False)"

definition field_difference :: "rat \<Rightarrow> 'a footprint_pad_scheme \<Rightarrow> string \<Rightarrow> rat \<Rightarrow> rat \<Rightarrow> string list" where
  "field_difference tol e name evidence_value plan_value =
     report (\<not> close_enough tol evidence_value plan_value)
       (pad_title e @ '' '' @ name @ '' differs: evidence '' @ number_text (Fin evidence_value) @ '' mm, comparison ''
         @ number_text (Fin plan_value) @ '' mm'')"

definition pad_differences :: "rat \<Rightarrow> 'a footprint_pad_scheme \<Rightarrow> 'b footprint_pad_scheme \<Rightarrow> string list" where
  "pad_differences tol e p =
     (if pad_kind_of e = PlatedHole
      then report (\<not> holes_agree tol (pad_hole_width e) (pad_hole_width p))
             (pad_title e @ '' hole width differs between evidence and plan'')
           @ report (\<not> holes_agree tol (pad_hole_height e) (pad_hole_height p))
             (pad_title e @ '' hole height differs between evidence and plan'')
      else [])
     @ field_difference tol e ''x'' (pad_x e) (pad_x p) @ field_difference tol e ''y'' (pad_y e) (pad_y p)
     @ field_difference tol e ''width'' (pad_width e) (pad_width p)
     @ field_difference tol e ''height'' (pad_height e) (pad_height p)"

definition missing_pad :: "'a footprint_pad_scheme \<Rightarrow> string" where
  "missing_pad e =
     (case pad_pin e of
        None \<Rightarrow> ''plan is missing unassigned '' @ kind_text (pad_kind_of e) @ '' mechanical pad''
      | Some k \<Rightarrow> ''plan is missing '' @ kind_text (pad_kind_of e) @ '' pad for pin '' @ k)"

definition unexpected_pad :: "'a footprint_pad_scheme \<Rightarrow> string" where
  "unexpected_pad p =
     (case pad_pin p of
        None \<Rightarrow> ''plan has unexpected unassigned '' @ kind_text (pad_kind_of p) @ '' mechanical pad''
      | Some k \<Rightarrow> ''plan has unexpected '' @ kind_text (pad_kind_of p) @ '' pad for pin '' @ k)"

text \<open>The candidates of a pad, the nearest first; a difference that is not a number sorts as zero.\<close>

definition candidates :: "'b footprint_pad_scheme list \<Rightarrow> 'a footprint_pad_scheme \<Rightarrow> nat list \<Rightarrow> nat list" where
  "candidates plan e unmatched =
     sort_by (\<lambda>i j. num_sign (num_sub (pad_distance (plan ! i) e) (pad_distance (plan ! j) e)))
       (filter (\<lambda>i. pads_correspond (plan ! i) e) unmatched)"

fun compare_pads ::
  "rat \<Rightarrow> 'b footprint_pad_scheme list \<Rightarrow> 'a footprint_pad_scheme list \<Rightarrow> nat list \<Rightarrow> string list" where
  "compare_pads tol plan [] unmatched = map (\<lambda>i. unexpected_pad (plan ! i)) unmatched"
| "compare_pads tol plan (e # es) unmatched =
     (case candidates plan e unmatched of
        [] \<Rightarrow> missing_pad e # compare_pads tol plan es unmatched
      | i # _ \<Rightarrow> pad_differences tol e (plan ! i) @ compare_pads tol plan es (remove1 i unmatched))"

definition get_pad_agreement_errors ::
  "'a footprint_pad_scheme list \<Rightarrow> 'b footprint_pad_scheme list \<Rightarrow> rat \<Rightarrow> string list" where
  "get_pad_agreement_errors evidence plan tol =
     report (length evidence \<noteq> length plan)
       (''evidence has '' @ nat_str (length evidence) @ '' pads, but plan has '' @ nat_str (length plan))
     @ compare_pads tol plan evidence [0..<length plan]"

section \<open>The plan made from the evidence\<close>

record footprint_plan =
  pl_references :: "(rat \<times> string option) list"
  pl_pads :: "footprint_pad list"

definition footprint_sources :: "component_evidence \<Rightarrow> evidence_source list" where
  "footprint_sources e = ef_sources (ce_orientation e) @ concat (map pad_sources (ce_pads e))"

definition or_empty :: "string option \<Rightarrow> string" where
  "or_empty v = (case v of None \<Rightarrow> [] | Some s \<Rightarrow> s)"

definition source_reference :: "evidence_source \<Rightarrow> rat \<times> string option" where
  "source_reference s = (es_page s, if or_empty (es_figure s) = [] then None else es_figure s)"

definition reference_key :: "evidence_source \<Rightarrow> string" where
  "reference_key s = number_text (Fin (es_page s)) @ [CHR 0x00] @ or_empty (es_figure s)"

definition plan_references :: "evidence_source list \<Rightarrow> (rat \<times> string option) list" where
  "plan_references ss = map snd (foldl (\<lambda>m s. oput (reference_key s) (source_reference s) m) [] ss)"

definition compare_references :: "(string \<Rightarrow> string \<Rightarrow> int) \<Rightarrow> rat \<times> string option \<Rightarrow> rat \<times> string option \<Rightarrow> int" where
  "compare_references collate a b =
     (let d = num_sign (num_sub (Fin (fst a)) (Fin (fst b))) in
      if d \<noteq> 0 then d else collate (or_empty (snd a)) (or_empty (snd b)))"

definition create_footprint_plan :: "(string \<Rightarrow> string \<Rightarrow> int) \<Rightarrow> component_evidence \<Rightarrow> footprint_plan" where
  "create_footprint_plan collate e =
     \<lparr> pl_references = sort_by (compare_references collate) (plan_references (footprint_sources e)),
       pl_pads = map footprint_pad.truncate (ce_pads e) \<rparr>"

definition pad_tolerance :: rat where
  "pad_tolerance = rounded (1 / 1000)"

definition get_footprint_evidence_errors :: "component_evidence \<Rightarrow> footprint_plan \<Rightarrow> string list" where
  "get_footprint_evidence_errors e plan =
     (let pages = js_set (concat (map (\<lambda>p. map es_page (pad_sources p)) (ce_pads e))) in
      get_pad_agreement_errors (ce_pads e) (pl_pads plan) pad_tolerance
      @ report (pages \<noteq> [] \<and> \<not> list_ex (\<lambda>r. fst r \<in> set pages) (pl_references plan))
          ''footprint plan does not cite any page used by the pad evidence'')"

section \<open>Blocking reasons\<close>

definition reliable :: "evidence_source \<Rightarrow> bool" where
  "reliable s \<longleftrightarrow> es_confidence s = HighConfidence \<or> es_confidence s = MediumConfidence"

definition has_reliable_source :: "evidence_source list \<Rightarrow> bool" where
  "has_reliable_source ss \<longleftrightarrow> list_ex reliable ss"

definition has_reliable_direct_source :: "evidence_source list \<Rightarrow> bool" where
  "has_reliable_direct_source ss \<longleftrightarrow>
     list_ex (\<lambda>s. (es_method s = PdfText \<or> es_method s = PdfVisual) \<and> reliable s) ss"

definition is_server_rendered :: "evidence_source \<Rightarrow> bool" where
  "is_server_rendered s \<longleftrightarrow>
     es_method s = PdfVisual \<and> es_render_dpi s = Some 200
     \<and> (es_image s = Some ''visual-reference/land-pattern.png''
        \<or> es_image s = Some (''visual-reference/source-page-'' @ number_text (Fin (es_page s)) @ ''.png''))"

definition reliable_visual_pages :: "component_evidence \<Rightarrow> rat list" where
  "reliable_visual_pages e =
     js_set (concat (map (\<lambda>s. if is_server_rendered s \<and> reliable s then [es_page s] else []) (footprint_sources e)))"

definition pad_label :: "nat \<Rightarrow> evidence_pad \<Rightarrow> string" where
  "pad_label i p =
     ''pad '' @ nat_str (i + 1) @ '' ('' @ (case pad_pin p of None \<Rightarrow> ''mechanical'' | Some k \<Rightarrow> k) @ '')''"

definition status_reasons :: "component_evidence \<Rightarrow> string list" where
  "status_reasons e =
     (if ce_status e \<noteq> Resolved
      then ''evidence extraction is unresolved'' # map (\<lambda>a. ''unresolved ambiguity: '' @ a) (ce_ambiguities e)
      else [])"

definition count_reasons :: "component_evidence \<Rightarrow> string list" where
  "count_reasons e =
     report (ef_value (ce_pin_count e) \<noteq> of_nat (length (ce_pins e)))
       (''package pin count is '' @ number_text (Fin (ef_value (ce_pin_count e))) @ '', but the pin table has ''
         @ nat_str (length (ce_pins e)) @ '' entries'')"

definition evidence_pin_numbers :: "component_evidence \<Rightarrow> string list" where
  "evidence_pin_numbers e = js_set (map (\<lambda>p. normalize_pin (pin_number p)) (ce_pins e))"

definition padded_pins :: "component_evidence \<Rightarrow> string list" where
  "padded_pins e =
     js_set (concat (map (\<lambda>p. case pad_pin p of None \<Rightarrow> [] | Some k \<Rightarrow> [normalize_pin k]) (ce_pads e)))"

definition unknown_pin_reasons :: "component_evidence \<Rightarrow> string list" where
  "unknown_pin_reasons e =
     concat (map (\<lambda>p. case pad_pin p of
         None \<Rightarrow> []
       | Some k \<Rightarrow> report (normalize_pin k \<notin> set (evidence_pin_numbers e))
           (''footprint pad references unknown electrical pin '' @ k
             @ ''; electrically bonded copper, including exposed or thermal pads, must reuse its documented physical pin number, while pin:null is reserved for copper proven to be mechanically present and electrically unassigned''))
       (ce_pads e))"

definition unpadded_pin_reasons :: "component_evidence \<Rightarrow> string list" where
  "unpadded_pin_reasons e =
     concat (map (\<lambda>p. report (normalize_pin (pin_number p) \<notin> set (padded_pins e))
       (''pin '' @ pin_number p @ '' has no copper pad in the footprint evidence'')) (ce_pins e))"

definition geometry_method :: "evidence_method \<Rightarrow> bool" where
  "geometry_method m \<longleftrightarrow> m = PdfVisual \<or> m = Calculated \<or> m = PackageStandard"

definition derived_method :: "evidence_method \<Rightarrow> bool" where
  "derived_method m \<longleftrightarrow> m = Calculated \<or> m = PackageStandard"

definition pad_reasons :: "rat list \<Rightarrow> nat \<Rightarrow> evidence_pad \<Rightarrow> string list" where
  "pad_reasons pages i p =
     report (\<not> list_ex (\<lambda>s. geometry_method (es_method s)) (pad_sources p))
       (pad_label i p @ '' is not tied to visual, calculated, or package-standard geometry evidence'')
     @ concat (map (\<lambda>s. report (derived_method (es_method s) \<and> es_page s \<notin> set pages)
         (pad_label i p @ '' '' @ method_text (es_method s) @ '' geometry on page '' @ number_text (Fin (es_page s))
           @ '' has no medium/high-confidence pdf_visual footprint anchor on that page'')) (pad_sources p))"

definition orientation_reasons :: "component_evidence \<Rightarrow> string list" where
  "orientation_reasons e =
     report (ef_value (ce_orientation e) \<noteq> PcbTop)
       (''land-pattern orientation is '' @ orientation_text (ef_value (ce_orientation e)) @ '', not an approved PCB-top view'')
     @ report (\<not> list_ex is_server_rendered (ef_sources (ce_orientation e)))
         ''PCB-top orientation is not tied to a server-rendered footprint reference image''"

definition optional_sources :: "string \<Rightarrow> 'a evidence_field option \<Rightarrow> (string \<times> evidence_source list) list" where
  "optional_sources label f = (case f of None \<Rightarrow> [] | Some x \<Rightarrow> [(label, ef_sources x)])"

definition direct_facts :: "component_evidence \<Rightarrow> (string \<times> evidence_source list) list" where
  "direct_facts e =
     (''part number'', ef_sources (ce_part_number e))
     # optional_sources ''ordering code'' (ce_ordering_code e)
     @ (''package name'', ef_sources (ce_package_name e))
     # optional_sources ''package code'' (ce_package_code e)
     @ (''package pin count'', ef_sources (ce_pin_count e))
     # map (\<lambda>p. (''pin '' @ pin_number p, pin_sources p)) (ce_pins e)"

definition geometry_facts :: "component_evidence \<Rightarrow> (string \<times> evidence_source list) list" where
  "geometry_facts e =
     (''drawing orientation'', ef_sources (ce_orientation e))
     # map (\<lambda>(i, p). (pad_label i p, pad_sources p)) (enumerate 0 (ce_pads e))"

definition get_blocking_reasons :: "component_evidence \<Rightarrow> string list" where
  "get_blocking_reasons e =
     status_reasons e @ count_reasons e @ unknown_pin_reasons e @ unpadded_pin_reasons e
     @ concat (map (\<lambda>(i, p). pad_reasons (reliable_visual_pages e) i p) (enumerate 0 (ce_pads e)))
     @ orientation_reasons e
     @ concat (map (\<lambda>(label, ss). report (\<not> has_reliable_direct_source ss)
         (label @ '' must cite medium/high-confidence pdf_text or pdf_visual evidence'')) (direct_facts e))
     @ concat (map (\<lambda>(label, ss). report (\<not> has_reliable_source ss) (label @ '' has only low-confidence evidence''))
         (geometry_facts e))"

end
