(* ===== verification/Evidence_Parser.thy ===== *)
theory Evidence_Parser
  imports Evidence_Data
begin

text \<open>
  The parser of the evidence of a component, \<open>src/server/component-evidence/parse-component-evidence.ts\<close>. A
  thrown error is the left side of a sum; the first one ends the parse, so the order of the checks is
  that of the code.
\<close>

section \<open>Checks\<close>

definition demand :: "bool \<Rightarrow> string \<Rightarrow> string + unit" where
  "demand b message = (if b then Inr () else Inl message)"

lemma demand_Inr [simp]: "demand b message = Inr u \<longleftrightarrow> b"
  by (simp add: demand_def)

definition assert_only_keys :: "(string \<times> json) list \<Rightarrow> string list \<Rightarrow> string \<Rightarrow> string + unit" where
  "assert_only_keys m allowed label =
     (let unexpected = sort (filter (\<lambda>k. k \<notin> set allowed) (okeys m)) in
      demand (unexpected = []) (label @ '' contains unsupported fields: '' @ join_with '', '' unexpected))"

definition required_text :: "json option \<Rightarrow> string \<Rightarrow> string + string" where
  "required_text v label =
     (case string_value v of
        Some s \<Rightarrow> if js_trim s = [] then Inl (label @ '' must be a non-empty string'') else Inr (js_trim s)
      | None \<Rightarrow> Inl (label @ '' must be a non-empty string''))"

definition required_finite_number :: "json option \<Rightarrow> string \<Rightarrow> string + rat" where
  "required_finite_number v label =
     (case num_value v of Some (Fin x) \<Rightarrow> Inr x | _ \<Rightarrow> Inl (label @ '' must be a finite number''))"

definition when_defined :: "('v option \<Rightarrow> string \<Rightarrow> string + 'a) \<Rightarrow> 'v option \<Rightarrow> string \<Rightarrow> string + 'a option" where
  "when_defined p v label = (case v of None \<Rightarrow> Inr None | Some x \<Rightarrow> ok_then (p v label) (\<lambda>y. Inr (Some y)))"

text \<open>A member of a list of names.\<close>

definition named :: "('a \<Rightarrow> string) \<Rightarrow> 'a list \<Rightarrow> json option \<Rightarrow> 'a option" where
  "named name xs v = (case string_value v of None \<Rightarrow> None | Some s \<Rightarrow> find (\<lambda>x. name x = s) xs)"

definition required_name :: "('a \<Rightarrow> string) \<Rightarrow> 'a list \<Rightarrow> json option \<Rightarrow> string \<Rightarrow> string + 'a" where
  "required_name name xs v message = (case named name xs v of None \<Rightarrow> Inl message | Some x \<Rightarrow> Inr x)"

text \<open>A loop over an array with the numbers of its elements.\<close>

definition parse_items :: "(nat \<Rightarrow> json \<Rightarrow> string + 'a) \<Rightarrow> json list \<Rightarrow> string + 'a list" where
  "parse_items p xs = map_results (\<lambda>(i, x). p i x) (enumerate 0 xs)"

section \<open>Sources and fields\<close>

definition one_based_page :: "json option \<Rightarrow> rat option" where
  "one_based_page v = (case num_value v of Some (Fin r) \<Rightarrow> if r = of_int \<lfloor>r\<rfloor> \<and> 1 \<le> r then Some r else None | _ \<Rightarrow> None)"

definition workspace_image :: "string \<Rightarrow> bool" where
  "workspace_image s \<longleftrightarrow>
     take 1 s \<noteq> ''/'' \<and> ''..'' \<notin> set (split_char CHR ''/'' (map (\<lambda>c. if c = CHR 0x5C then CHR ''/'' else c) s))"

definition source_checks :: "string \<Rightarrow> evidence_source \<Rightarrow> string + unit" where
  "source_checks label s =
     ok_then (demand (\<not> (es_method s = PdfVisual \<and> (es_image s = None \<or> es_render_dpi s \<noteq> Some 200)))
       (label @ '' must record an image rendered at exactly 200 DPI'')) (\<lambda>_.
     ok_then (demand (\<not> (es_method s \<in> {Calculated, PackageStandard} \<and> es_note s = None))
       (label @ '' must explain its '' @ method_text (es_method s) @ '' source in note'')) (\<lambda>_.
     demand (case es_image s of None \<Rightarrow> True | Some picture \<Rightarrow> workspace_image picture)
       (label @ ''.image must be a relative path inside the evidence workspace'')))"

definition parse_evidence_source :: "string \<Rightarrow> nat \<Rightarrow> json \<Rightarrow> string + evidence_source" where
  "parse_evidence_source label0 i v =
     (let label = item_path label0 i; get = field (Some v) in
      case (if is_record (Some v) then one_based_page (get ''page'') else None) of
        None \<Rightarrow> Inl (label @ ''.page must be a positive PDF page number'')
      | Some page \<Rightarrow>
          ok_then (assert_only_keys (record_entries (Some v))
            [''page'', ''figure'', ''method'', ''confidence'', ''image'', ''render_dpi'', ''note''] label) (\<lambda>_.
          ok_then (required_name method_text evidence_methods (get ''method'') (label @ ''.method is invalid'')) (\<lambda>mt.
          ok_then (required_name confidence_text evidence_confidences (get ''confidence'') (label @ ''.confidence is invalid'')) (\<lambda>cf.
          ok_then (when_defined required_text (get ''figure'') (label @ ''.figure'')) (\<lambda>figure.
          ok_then (when_defined required_text (get ''image'') (label @ ''.image'')) (\<lambda>picture.
          ok_then (when_defined required_finite_number (get ''render_dpi'') (label @ ''.render_dpi'')) (\<lambda>dpi.
          ok_then (when_defined required_text (get ''note'') (label @ ''.note'')) (\<lambda>note.
            let s = \<lparr> es_page = page, es_figure = figure, es_method = mt, es_confidence = cf, es_image = picture,
                      es_render_dpi = dpi, es_note = note \<rparr> in
            ok_then (source_checks label s) (\<lambda>_. Inr s)))))))))"

definition parse_sources :: "json option \<Rightarrow> string \<Rightarrow> string + evidence_source list" where
  "parse_sources v label =
     (case array_value v of
        Some xs \<Rightarrow>
          if xs = [] then Inl (label @ '' must cite at least one evidence source'') else parse_items (parse_evidence_source label) xs
      | None \<Rightarrow> Inl (label @ '' must cite at least one evidence source''))"

definition parse_field ::
  "json option \<Rightarrow> string \<Rightarrow> (json option \<Rightarrow> string \<Rightarrow> string + 'a) \<Rightarrow> string + 'a evidence_field" where
  "parse_field v label p =
     (if \<not> is_record v then Inl (label @ '' must contain value and sources'')
      else
        ok_then (assert_only_keys (record_entries v) [''value'', ''sources''] label) (\<lambda>_.
        ok_then (p (field v ''value'') (label @ ''.value'')) (\<lambda>x.
        ok_then (parse_sources (field v ''sources'') (label @ ''.sources'')) (\<lambda>ss.
          Inr \<lparr> ef_value = x, ef_sources = ss \<rparr>))))"

section \<open>Pads\<close>

definition plated_hole_ok :: "evidence_pad \<Rightarrow> bool" where
  "plated_hole_ok p \<longleftrightarrow>
     (case (pad_hole_width p, pad_hole_height p) of (Some w, Some h) \<Rightarrow> 0 < w \<and> 0 < h | _ \<Rightarrow> False)"

definition pin_or_null :: "json option \<Rightarrow> string \<Rightarrow> string + string option" where
  "pin_or_null v label = (if v = Some JNull then Inr None else ok_then (required_text v label) (\<lambda>s. Inr (Some s)))"

definition parse_pad :: "nat \<Rightarrow> json \<Rightarrow> string + evidence_pad" where
  "parse_pad i v =
     (let label = item_path ''component evidence footprint.pads'' i; get = field (Some v) in
      case (if is_record (Some v) then named kind_text pad_kinds (get ''kind'') else None) of
        None \<Rightarrow> Inl (label @ ''.kind must be smt or plated_hole'')
      | Some kind \<Rightarrow>
          ok_then (assert_only_keys (record_entries (Some v))
            [''pin'', ''kind'', ''x'', ''y'', ''width'', ''height'', ''hole_width'', ''hole_height'', ''sources''] label) (\<lambda>_.
          ok_then (pin_or_null (get ''pin'') (label @ ''.pin'')) (\<lambda>pin.
          ok_then (required_finite_number (get ''x'') (label @ ''.x'')) (\<lambda>x.
          ok_then (required_finite_number (get ''y'') (label @ ''.y'')) (\<lambda>y.
          ok_then (required_finite_number (get ''width'') (label @ ''.width'')) (\<lambda>w.
          ok_then (required_finite_number (get ''height'') (label @ ''.height'')) (\<lambda>h.
          ok_then (when_defined required_finite_number (get ''hole_width'') (label @ ''.hole_width'')) (\<lambda>hw.
          ok_then (when_defined required_finite_number (get ''hole_height'') (label @ ''.hole_height'')) (\<lambda>hh.
          ok_then (parse_sources (get ''sources'') (label @ ''.sources'')) (\<lambda>ss.
            let p = \<lparr> pad_pin = pin, pad_kind_of = kind, pad_x = x, pad_y = y, pad_width = w, pad_height = h,
                      pad_hole_width = hw, pad_hole_height = hh, pad_sources = ss \<rparr> in
            ok_then (demand (0 < w \<and> 0 < h) (label @ '' dimensions must be positive'')) (\<lambda>_.
            ok_then (demand (kind = PlatedHole \<longrightarrow> plated_hole_ok p) (label @ '' must include positive hole dimensions'')) (\<lambda>_.
              Inr p))))))))))))"

section \<open>Pins\<close>

definition parse_attributes :: "json option \<Rightarrow> pin_role \<Rightarrow> string \<Rightarrow> string + electrical_attributes" where
  "parse_attributes v role label =
     (if \<not> is_record v then Inl (label @ ''.electrical_attributes must be an object'')
      else
        ok_then (assert_only_keys (record_entries v) [''open_drain''] (label @ ''.electrical_attributes'')) (\<lambda>_.
        let drain = field v ''open_drain'' in
        ok_then (demand (drain = None \<or> bool_value drain \<noteq> None)
          (label @ ''.electrical_attributes.open_drain must be boolean'')) (\<lambda>_.
        ok_then (demand (\<not> (drain = Some (JBool True) \<and> role \<noteq> OutputPin \<and> role \<noteq> Bidirectional))
          (label @ ''.electrical_attributes.open_drain requires an output or bidirectional role'')) (\<lambda>_.
          Inr \<lparr> ea_open_drain = bool_value drain \<rparr>))))"

definition parse_pin :: "string list \<Rightarrow> nat \<Rightarrow> json \<Rightarrow> string + pin_evidence" where
  "parse_pin seen i v =
     (let label = item_path ''component evidence pinout.pins'' i; get = field (Some v) in
      case array_value (get ''labels'') of
        None \<Rightarrow> Inl (label @ '' must contain a number, labels, role, and sources'')
      | Some labels \<Rightarrow>
          ok_then (demand (is_record (Some v) \<and> labels \<noteq> []) (label @ '' must contain a number, labels, role, and sources'')) (\<lambda>_.
          ok_then (assert_only_keys (record_entries (Some v))
            [''number'', ''labels'', ''role'', ''electrical_attributes'', ''description'', ''sources''] label) (\<lambda>_.
          ok_then (required_text (get ''number'') (label @ ''.number'')) (\<lambda>number.
          ok_then (demand (normalize_pin number \<notin> set seen) (''component evidence pin '' @ number @ '' is duplicated'')) (\<lambda>_.
          ok_then (required_name role_text pin_roles (get ''role'') (label @ ''.role is invalid'')) (\<lambda>role.
          ok_then (when_defined (\<lambda>a. parse_attributes a role) (get ''electrical_attributes'') label) (\<lambda>attributes.
          ok_then (parse_items (\<lambda>j l. required_text (Some l) (item_path (label @ ''.labels'') j)) labels) (\<lambda>ls.
          ok_then (when_defined required_text (get ''description'') (label @ ''.description'')) (\<lambda>description.
          ok_then (parse_sources (get ''sources'') (label @ ''.sources'')) (\<lambda>ss.
            Inr \<lparr> pin_number = number, pin_labels = ls, pin_role_of = role, pin_attributes = attributes,
                  pin_description = description, pin_sources = ss \<rparr>))))))))))"

fun parse_pins :: "string list \<Rightarrow> nat \<Rightarrow> json list \<Rightarrow> string + pin_evidence list" where
  "parse_pins seen i [] = Inr []"
| "parse_pins seen i (v # vs) =
     ok_then (parse_pin seen i v) (\<lambda>p.
     ok_then (parse_pins (normalize_pin (pin_number p) # seen) (Suc i) vs) (\<lambda>ps. Inr (p # ps)))"

section \<open>The evidence\<close>

definition parse_pin_count :: "json option \<Rightarrow> string \<Rightarrow> string + rat" where
  "parse_pin_count v label =
     (case one_based_page v of
        None \<Rightarrow> Inl ''component evidence package.pin_count.value must be a positive integer''
      | Some n \<Rightarrow> Inr n)"

definition parse_orientation :: "json option \<Rightarrow> string \<Rightarrow> string + drawing_orientation" where
  "parse_orientation v label = required_name orientation_text drawing_orientations v (label @ '' is invalid'')"

definition extends_part :: "string \<Rightarrow> string \<Rightarrow> bool" where
  "extends_part part code \<longleftrightarrow> part_identity code \<noteq> part_identity part \<and> prefix (part_identity part) (part_identity code)"

definition pins_of :: "evidence_status \<Rightarrow> json option \<Rightarrow> json list option" where
  "pins_of st v = (case array_value v of Some xs \<Rightarrow> if st = Resolved \<and> xs = [] then None else Some xs | None \<Rightarrow> None)"

definition parse_identity :: "(string \<Rightarrow> json option) \<Rightarrow> string + string evidence_field \<times> string evidence_field option" where
  "parse_identity get =
     ok_then (parse_field (get ''part_number'') ''component evidence part_number'' required_text) (\<lambda>part.
     ok_then (when_defined (\<lambda>v l. parse_field v l required_text) (get ''ordering_code'') ''component evidence ordering_code'') (\<lambda>code.
     ok_then (demand (case code of None \<Rightarrow> True | Some c \<Rightarrow> extends_part (ef_value part) (ef_value c))
       ''component evidence ordering_code must be a distinct exact orderable that extends part_number'') (\<lambda>_.
       Inr (part, code))))"

definition parse_contents :: "evidence_status \<Rightarrow> (string \<Rightarrow> json option) \<Rightarrow> string + component_evidence" where
  "parse_contents st get =
     (let package = get ''package''; footprint = get ''footprint'' in
      case pins_of st (field (get ''pinout'') ''pins'') of
        None \<Rightarrow> Inl ''component evidence must contain a complete pin table''
      | Some pin_values \<Rightarrow>
          ok_then (parse_pins [] 0 pin_values) (\<lambda>pins.
          case pins_of st (field footprint ''pads'') of
            None \<Rightarrow> Inl ''component evidence must contain every copper pad''
          | Some pad_values \<Rightarrow>
              ok_then (parse_field (field package ''pin_count'') ''component evidence package.pin_count'' parse_pin_count) (\<lambda>count.
              ok_then (parse_field (field footprint ''drawing_orientation'')
                ''component evidence footprint.drawing_orientation'' parse_orientation) (\<lambda>orientation.
              case array_value (get ''unresolved_ambiguities'') of
                None \<Rightarrow> Inl ''component evidence unresolved_ambiguities must be an array''
              | Some ambiguity_values \<Rightarrow>
                  ok_then (parse_identity get) (\<lambda>(part, code).
                  ok_then (parse_field (field package ''name'') ''component evidence package.name'' required_text) (\<lambda>name.
                  ok_then (when_defined (\<lambda>v l. parse_field v l required_text) (field package ''code'')
                    ''component evidence package.code'') (\<lambda>package_code.
                  ok_then (parse_items parse_pad pad_values) (\<lambda>pads.
                  ok_then (parse_items (\<lambda>i v. required_text (Some v)
                    (item_path ''component evidence unresolved_ambiguities'' i)) ambiguity_values) (\<lambda>ambiguities.
                    Inr \<lparr> ce_status = st, ce_part_number = part, ce_ordering_code = code, ce_package_name = name,
                          ce_package_code = package_code, ce_pin_count = count, ce_pins = pins,
                          ce_orientation = orientation, ce_pads = pads, ce_ambiguities = ambiguities \<rparr>)))))))))"

definition evidence_keys :: "string list" where
  "evidence_keys = [''version'', ''status'', ''part_number'', ''ordering_code'', ''package'', ''pinout'', ''footprint'',
     ''unresolved_ambiguities'']"

definition parse_canonical_evidence :: "json option \<Rightarrow> string + component_evidence" where
  "parse_canonical_evidence v =
     ok_then (if is_record v then assert_only_keys (record_entries v) evidence_keys ''component evidence'' else Inr ()) (\<lambda>_.
     case (if field v ''version'' = Some (JNum (Fin 1)) then named evidence_status_text evidence_statuses (field v ''status'') else None) of
       None \<Rightarrow> Inl ''component-evidence.json must have version 1 and a valid status''
     | Some st \<Rightarrow>
         let package = field v ''package''; pinout = field v ''pinout''; footprint = field v ''footprint'' in
         ok_then (demand (is_record package) ''component evidence package must be an object'') (\<lambda>_.
         ok_then (demand (is_record pinout) ''component evidence pinout must be an object'') (\<lambda>_.
         ok_then (demand (is_record footprint \<and> field footprint ''view'' = Some (JStr ''pcb_top'')
             \<and> field footprint ''units'' = Some (JStr ''mm''))
           ''component evidence footprint must use view \"pcb_top\" and units \"mm\"'') (\<lambda>_.
         ok_then (assert_only_keys (record_entries package) [''name'', ''code'', ''pin_count''] ''component evidence package'') (\<lambda>_.
         ok_then (assert_only_keys (record_entries pinout) [''pins''] ''component evidence pinout'') (\<lambda>_.
         ok_then (assert_only_keys (record_entries footprint) [''view'', ''units'', ''drawing_orientation'', ''pads'']
           ''component evidence footprint'') (\<lambda>_.
           parse_contents st (field v))))))))"

definition parse_component_evidence :: "json option \<Rightarrow> string + component_evidence" where
  "parse_component_evidence v = parse_canonical_evidence (fst (canonicalize_component_evidence v))"

end
