(* ===== verification/Evidence_Parsed.thy ===== *)
theory Evidence_Parsed
  imports Evidence_Parser
begin

text \<open>
  What the parser of evidence accepts: it returns only well-formed evidence, it reads every
  well-formed evidence back from its JSON, and the canonical representation it works on is reached in
  one step.
\<close>

section \<open>Well-formed evidence\<close>

definition proper_text :: "string \<Rightarrow> bool" where
  "proper_text s \<longleftrightarrow> s \<noteq> [] \<and> js_trim s = s"

definition whole_page :: "rat \<Rightarrow> bool" where
  "whole_page r \<longleftrightarrow> r = of_int \<lfloor>r\<rfloor> \<and> 1 \<le> r"

definition proper_source :: "evidence_source \<Rightarrow> bool" where
  "proper_source s \<longleftrightarrow>
     whole_page (es_page s) \<and> pred_option proper_text (es_figure s) \<and> pred_option proper_text (es_image s)
     \<and> pred_option proper_text (es_note s) \<and> pred_option workspace_image (es_image s)
     \<and> (es_method s = PdfVisual \<longrightarrow> es_image s \<noteq> None \<and> es_render_dpi s = Some 200)
     \<and> (es_method s \<in> {Calculated, PackageStandard} \<longrightarrow> es_note s \<noteq> None)"

definition proper_sources :: "evidence_source list \<Rightarrow> bool" where
  "proper_sources ss \<longleftrightarrow> ss \<noteq> [] \<and> list_all proper_source ss"

definition proper_field :: "('a \<Rightarrow> bool) \<Rightarrow> 'a evidence_field \<Rightarrow> bool" where
  "proper_field P f \<longleftrightarrow> P (ef_value f) \<and> proper_sources (ef_sources f)"

definition proper_pad :: "evidence_pad \<Rightarrow> bool" where
  "proper_pad p \<longleftrightarrow>
     pred_option proper_text (pad_pin p) \<and> 0 < pad_width p \<and> 0 < pad_height p
     \<and> (pad_kind_of p = PlatedHole \<longrightarrow> plated_hole_ok p) \<and> proper_sources (pad_sources p)"

definition proper_pin :: "pin_evidence \<Rightarrow> bool" where
  "proper_pin p \<longleftrightarrow>
     proper_text (pin_number p) \<and> pin_labels p \<noteq> [] \<and> list_all proper_text (pin_labels p)
     \<and> pred_option proper_text (pin_description p) \<and> proper_sources (pin_sources p)
     \<and> (\<forall>a. pin_attributes p = Some a \<and> ea_open_drain a = Some True \<longrightarrow> pin_role_of p \<in> {OutputPin, Bidirectional})"

definition proper_evidence :: "component_evidence \<Rightarrow> bool" where
  "proper_evidence e \<longleftrightarrow>
     proper_field proper_text (ce_part_number e) \<and> pred_option (proper_field proper_text) (ce_ordering_code e)
     \<and> pred_option (\<lambda>c. extends_part (ef_value (ce_part_number e)) (ef_value c)) (ce_ordering_code e)
     \<and> proper_field proper_text (ce_package_name e) \<and> pred_option (proper_field proper_text) (ce_package_code e)
     \<and> proper_field whole_page (ce_pin_count e) \<and> proper_field (\<lambda>_. True) (ce_orientation e)
     \<and> list_all proper_pin (ce_pins e) \<and> distinct (map (normalize_pin \<circ> pin_number) (ce_pins e))
     \<and> list_all proper_pad (ce_pads e) \<and> list_all proper_text (ce_ambiguities e)
     \<and> (ce_status e = Resolved \<longrightarrow> ce_pins e \<noteq> [] \<and> ce_pads e \<noteq> [])"

section \<open>The JSON of evidence\<close>

definition entry :: "string \<Rightarrow> ('a \<Rightarrow> json) \<Rightarrow> 'a option \<Rightarrow> (string \<times> json) list" where
  "entry k f v = (case v of None \<Rightarrow> [] | Some x \<Rightarrow> [(k, f x)])"

definition number_json :: "rat \<Rightarrow> json" where
  "number_json x = JNum (Fin x)"

definition source_json :: "evidence_source \<Rightarrow> json" where
  "source_json s = JObj
     ([(''page'', number_json (es_page s)), (''method'', JStr (method_text (es_method s))),
       (''confidence'', JStr (confidence_text (es_confidence s)))]
      @ entry ''figure'' JStr (es_figure s) @ entry ''image'' JStr (es_image s)
      @ entry ''render_dpi'' number_json (es_render_dpi s) @ entry ''note'' JStr (es_note s))"

definition sources_json :: "evidence_source list \<Rightarrow> json" where
  "sources_json ss = JArr (map source_json ss)"

definition field_json :: "('a \<Rightarrow> json) \<Rightarrow> 'a evidence_field \<Rightarrow> json" where
  "field_json f x = JObj [(''value'', f (ef_value x)), (''sources'', sources_json (ef_sources x))]"

definition pad_json :: "evidence_pad \<Rightarrow> json" where
  "pad_json p = JObj
     ([(''pin'', case pad_pin p of None \<Rightarrow> JNull | Some s \<Rightarrow> JStr s), (''kind'', JStr (kind_text (pad_kind_of p))),
       (''x'', number_json (pad_x p)), (''y'', number_json (pad_y p)), (''width'', number_json (pad_width p)),
       (''height'', number_json (pad_height p))]
      @ entry ''hole_width'' number_json (pad_hole_width p) @ entry ''hole_height'' number_json (pad_hole_height p)
      @ [(''sources'', sources_json (pad_sources p))])"

definition attributes_json :: "electrical_attributes \<Rightarrow> json" where
  "attributes_json a = JObj (entry ''open_drain'' JBool (ea_open_drain a))"

definition pin_json :: "pin_evidence \<Rightarrow> json" where
  "pin_json p = JObj
     ([(''number'', JStr (pin_number p)), (''labels'', JArr (map JStr (pin_labels p))),
       (''role'', JStr (role_text (pin_role_of p)))]
      @ entry ''electrical_attributes'' attributes_json (pin_attributes p)
      @ entry ''description'' JStr (pin_description p) @ [(''sources'', sources_json (pin_sources p))])"

definition evidence_json :: "component_evidence \<Rightarrow> json" where
  "evidence_json e = JObj
     ([(''version'', number_json 1), (''status'', JStr (evidence_status_text (ce_status e))),
       (''part_number'', field_json JStr (ce_part_number e))]
      @ entry ''ordering_code'' (field_json JStr) (ce_ordering_code e)
      @ [(''package'', JObj ([(''name'', field_json JStr (ce_package_name e))]
            @ entry ''code'' (field_json JStr) (ce_package_code e)
            @ [(''pin_count'', field_json number_json (ce_pin_count e))])),
         (''pinout'', JObj [(''pins'', JArr (map pin_json (ce_pins e)))]),
         (''footprint'', JObj [(''view'', JStr ''pcb_top''), (''units'', JStr ''mm''),
            (''drawing_orientation'', field_json (\<lambda>x. JStr (orientation_text x)) (ce_orientation e)),
            (''pads'', JArr (map pad_json (ce_pads e)))]),
         (''unresolved_ambiguities'', JArr (map JStr (ce_ambiguities e)))])"

section \<open>The pieces of the parser\<close>

text \<open>A trimmed text neither starts nor ends with white space.\<close>

lemma trimmed_ends: "js_trim s \<noteq> [] \<Longrightarrow> \<not> is_space (hd (js_trim s)) \<and> \<not> is_space (last (js_trim s))"
proof -
  assume n: "js_trim s \<noteq> []"
  let ?d = "dropWhile is_space s"
  obtain us where "rev ?d = us @ dropWhile is_space (rev ?d)" by (metis takeWhile_dropWhile_id)
  then have "?d = js_trim s @ rev us" by (metis js_trim_def rev_append rev_rev_ident)
  with n have "hd (js_trim s) = hd ?d" "?d \<noteq> []" by (metis hd_append2, auto)
  moreover have "last (js_trim s) = hd (dropWhile is_space (rev ?d))" "dropWhile is_space (rev ?d) \<noteq> []"
    using n by (simp_all only: js_trim_def last_rev rev_is_Nil_conv not_False_eq_True)
  ultimately show ?thesis by (metis hd_dropWhile)
qed

lemma js_trim_idem [simp]: "js_trim (js_trim s) = js_trim s"
proof (cases "js_trim s = []")
  case False
  let ?t = "js_trim s"
  from trimmed_ends [OF False] False have "dropWhile is_space ?t = ?t" "dropWhile is_space (rev ?t) = rev ?t"
    by (simp_all add: dropWhile_eq_self_iff hd_rev)
  then show ?thesis by (simp add: js_trim_def [of "js_trim s"])
next
  case True
  have "js_trim [] = []" by (simp add: js_trim_def)
  then show ?thesis by (simp only: True)
qed

lemma assert_only_keys_Inr [simp]: "assert_only_keys m allowed label = Inr u \<longleftrightarrow> set (okeys m) \<subseteq> set allowed"
proof -
  have "sort (filter (\<lambda>k. k \<notin> set allowed) (okeys m)) = [] \<longleftrightarrow> set (okeys m) \<subseteq> set allowed"
    by (simp only: filter_empty_conv set_empty [symmetric] set_sort) auto
  then show ?thesis by (simp add: assert_only_keys_def Let_def)
qed

lemma required_text_Inr [simp]: "required_text v label = Inr s \<longleftrightarrow> (\<exists>t. v = Some (JStr t) \<and> s = js_trim t \<and> s \<noteq> [])"
  by (auto simp: required_text_def split: option.splits)

lemma required_finite_Inr [simp]: "required_finite_number v label = Inr x \<longleftrightarrow> v = Some (number_json x)"
  by (auto simp: required_finite_number_def number_json_def split: option.splits jsnum.splits)

lemma when_defined_Inr: "when_defined p v label = Inr r \<longleftrightarrow>
    (case v of None \<Rightarrow> r = None | Some x \<Rightarrow> (\<exists>y. p (Some x) label = Inr y \<and> r = Some y))"
  by (auto simp: when_defined_def ok_then_Inr split: option.splits)

lemma named_Some: "named name xs v = Some x \<Longrightarrow> v = Some (JStr (name x)) \<and> x \<in> set xs"
  by (auto simp: named_def find_Some_iff split: option.splits)

lemma required_name_Inr: "required_name name xs v message = Inr x \<longleftrightarrow> named name xs v = Some x"
  by (auto simp: required_name_def split: option.splits)

lemma parse_items_Inr: "parse_items p xs = Inr ys \<longleftrightarrow>
    length ys = length xs \<and> (\<forall>i < length xs. p i (xs ! i) = Inr (ys ! i))"
  by (auto simp: parse_items_def map_results_Inr list_all2_conv_all_nth nth_enumerate_eq)

lemma parse_items_map: "(\<And>i x. x \<in> set xs \<Longrightarrow> p i (f x) = Inr x) \<Longrightarrow> parse_items p (map f xs) = Inr xs"
  by (simp add: parse_items_Inr)

lemma parse_items_all: "parse_items p xs = Inr ys \<Longrightarrow> (\<And>i x y. p i x = Inr y \<Longrightarrow> P y) \<Longrightarrow> list_all P ys"
  by (metis parse_items_Inr list_all_length)

lemma entry_lookup [simp]: "oget (entry k f v) l = (if l = k then map_option f v else None)"
  by (auto simp: entry_def split: option.splits)

lemma entry_front: "l \<notin> fst ` set m \<Longrightarrow> oget (entry l f v @ m) l = map_option f v"
  by (cases v) (simp_all add: entry_def image_iff map_of_eq_None_iff)

lemma entry_back: "l \<noteq> k \<Longrightarrow> oget (entry k f v @ m) l = oget m l"
  by (simp add: entry_def split: option.split)

lemma entry_keys [simp]: "l \<in> fst ` set (entry k f v) \<longleftrightarrow> l = k \<and> v \<noteq> None"
    "fst ` set (entry k f v) \<subseteq> A \<longleftrightarrow> (v \<noteq> None \<longrightarrow> k \<in> A)"
  by (auto simp: entry_def split: option.splits)

lemma named_method [simp]: "named method_text evidence_methods (Some (JStr (method_text x))) = Some x"
  by (cases x) (simp_all add: named_def evidence_methods_def)

lemma named_confidence [simp]: "named confidence_text evidence_confidences (Some (JStr (confidence_text x))) = Some x"
  by (cases x) (simp_all add: named_def evidence_confidences_def)

lemma named_orientation [simp]: "named orientation_text drawing_orientations (Some (JStr (orientation_text x))) = Some x"
  by (cases x) (simp_all add: named_def drawing_orientations_def)

lemma named_role [simp]: "named role_text pin_roles (Some (JStr (role_text x))) = Some x"
  by (cases x) (simp_all add: named_def pin_roles_def)

lemma named_kind [simp]: "named kind_text pad_kinds (Some (JStr (kind_text x))) = Some x"
  by (cases x) (simp_all add: named_def pad_kinds_def)

lemma named_status [simp]: "named evidence_status_text evidence_statuses (Some (JStr (evidence_status_text x))) = Some x"
  by (cases x) (simp_all add: named_def evidence_statuses_def)

lemma one_based_page_Some [simp]: "one_based_page v = Some r \<longleftrightarrow> v = Some (number_json r) \<and> whole_page r"
  by (auto simp: one_based_page_def number_json_def whole_page_def split: option.splits jsnum.splits)

lemma proper_trim: "s \<noteq> [] \<Longrightarrow> s = js_trim t \<Longrightarrow> proper_text s"
  by (simp add: proper_text_def)


lemma read_text: "proper_text s \<Longrightarrow> required_text (Some (JStr s)) label = Inr s"
  by (simp add: proper_text_def)

lemma read_number: "required_finite_number (Some (number_json x)) label = Inr x"
  by simp

lemma read_optional:
  "(\<And>x. v = Some x \<Longrightarrow> p (Some (f x)) label = Inr x) \<Longrightarrow> when_defined p (map_option f v) label = Inr v"
  by (cases v) (simp_all add: when_defined_def)

lemma read_optional_text: "pred_option proper_text v \<Longrightarrow> when_defined required_text (map_option JStr v) label = Inr v"
  by (rule read_optional) (auto simp: proper_text_def)

lemma read_optional_number: "when_defined required_finite_number (map_option number_json v) label = Inr v"
  by (rule read_optional) simp

lemma read_name: "named name xs v = Some x \<Longrightarrow> required_name name xs v message = Inr x"
  by (simp add: required_name_Inr)

lemma demand_met: "b \<Longrightarrow> demand b message = Inr ()"
  by simp

lemma only_keys: "set (okeys m) \<subseteq> set allowed \<Longrightarrow> assert_only_keys m allowed label = Inr ()"
  by simp

lemma some_then_Inr: "(case x of None \<Rightarrow> Inl m | Some y \<Rightarrow> f y) = Inr z \<longleftrightarrow> (\<exists>y. x = Some y \<and> f y = Inr z)"
  by (cases x) simp_all

lemma if_some: "(if b then x else None) = Some y \<longleftrightarrow> b \<and> x = Some y"
  by simp

lemma read_page: "whole_page r \<Longrightarrow> one_based_page (Some (number_json r)) = Some r"
  by simp

lemma optional_text_Inr: "when_defined required_text v label = Inr r \<Longrightarrow> pred_option proper_text r"
  by (auto simp: when_defined_Inr proper_text_def split: option.splits)

lemma pair_then_Inr: "(case x of (a, b) \<Rightarrow> f a b) = Inr z \<longleftrightarrow> (\<exists>a b. x = (a, b) \<and> f a b = Inr z)"
  by (cases x) simp

lemmas parser_Inr = pair_then_Inr Let_def some_then_Inr if_some ok_then_Inr demand_Inr assert_only_keys_Inr required_name_Inr

section \<open>Sources\<close>

lemma source_checks_Inr: "source_checks label s = Inr u \<longleftrightarrow>
    (es_method s = PdfVisual \<longrightarrow> es_image s \<noteq> None \<and> es_render_dpi s = Some 200)
    \<and> (es_method s \<in> {Calculated, PackageStandard} \<longrightarrow> es_note s \<noteq> None) \<and> pred_option workspace_image (es_image s)"
  unfolding source_checks_def ok_then_Inr demand_Inr by (cases "es_image s") auto

lemma parsed_source:
  assumes "parse_evidence_source label i v = Inr s"
  shows "proper_source s"
proof -
  from assms obtain page mt cf figure picture dpi remark where
    parts: "one_based_page (field (Some v) ''page'') = Some page" "\<exists>l. when_defined required_text (field (Some v) ''figure'') l = Inr figure"
      "\<exists>l. when_defined required_text (field (Some v) ''image'') l = Inr picture"
      "\<exists>l. when_defined required_text (field (Some v) ''note'') l = Inr remark"
    and s: "s = \<lparr> es_page = page, es_figure = figure, es_method = mt, es_confidence = cf, es_image = picture,
                      es_render_dpi = dpi, es_note = remark \<rparr>" and checks: "\<exists>l u. source_checks l s = Inr u"
    unfolding parse_evidence_source_def parser_Inr by blast
  from parts have "whole_page page" "pred_option proper_text figure" "pred_option proper_text picture"
      "pred_option proper_text remark" using optional_text_Inr by (auto simp del: required_text_Inr)
  with checks show ?thesis unfolding source_checks_Inr s proper_source_def by simp
qed

lemma source_read:
  assumes "proper_source s"
  shows "parse_evidence_source label i (source_json s) = Inr s"
proof -
  have "source_checks l s = Inr ()" for l using assms by (simp only: source_checks_Inr proper_source_def) simp
  then have "ok_then (source_checks l s) (\<lambda>_. Inr s) = Inr s" for l by simp
  with assms show ?thesis
    by (simp add: parse_evidence_source_def source_json_def proper_source_def Let_def entry_front entry_back only_keys read_page
        read_optional_text read_optional_number read_name image_Un del: map_of_append) (cases s, simp)
qed

lemma parsed_sources: "parse_sources v label = Inr ss \<Longrightarrow> proper_sources ss"
  using parse_items_all [where P = proper_source and p = "parse_evidence_source label" and ys = ss] parsed_source
  by (auto simp: parse_sources_def proper_sources_def split: option.splits if_splits) (auto simp: parse_items_Inr)

lemma sources_read: "proper_sources ss \<Longrightarrow> parse_sources (Some (sources_json ss)) label = Inr ss"
  by (auto simp: parse_sources_def sources_json_def proper_sources_def list_all_iff intro!: parse_items_map source_read)

lemma parsed_field:
  "parse_field v label p = Inr f \<Longrightarrow> (\<And>x l y. p x l = Inr y \<Longrightarrow> P y) \<Longrightarrow> proper_field P f"
  by (auto simp: parse_field_def proper_field_def ok_then_Inr parsed_sources split: if_splits)

lemma field_read:
  "proper_field P f \<Longrightarrow> (\<And>l x. P x \<Longrightarrow> p (Some (g x)) l = Inr x) \<Longrightarrow> parse_field (Some (field_json g f)) label p = Inr f"
  by (simp add: parse_field_def field_json_def proper_field_def only_keys sources_read)


section \<open>Pads and pins\<close>

lemma parsed_pad:
  assumes "parse_pad i v = Inr p"
  shows "proper_pad p"
proof -
  from assms obtain kind pin x y w h hw hh ss where
    parts: "\<exists>l. pin_or_null (field (Some v) ''pin'') l = Inr pin" "\<exists>l. parse_sources (field (Some v) ''sources'') l = Inr ss"
    and p: "p = \<lparr> pad_pin = pin, pad_kind_of = kind, pad_x = x, pad_y = y, pad_width = w, pad_height = h,
                      pad_hole_width = hw, pad_hole_height = hh, pad_sources = ss \<rparr>"
    and checks: "0 < w" "0 < h" "kind = PlatedHole \<longrightarrow> plated_hole_ok p"
    unfolding parse_pad_def parser_Inr by blast
  from parts have "pred_option proper_text pin" "proper_sources ss"
    by (auto simp: pin_or_null_def ok_then_Inr proper_text_def parsed_sources split: if_splits)
  with checks show ?thesis by (simp add: proper_pad_def p)
qed

lemma read_pin: "pred_option proper_text pin \<Longrightarrow> pin_or_null (Some (case pin of None \<Rightarrow> JNull | Some s \<Rightarrow> JStr s)) label = Inr pin"
  by (cases pin) (simp_all add: pin_or_null_def read_text del: required_text_Inr)

lemma pad_read:
  assumes "proper_pad p"
  shows "parse_pad i (pad_json p) = Inr p"
  using assms
  by (cases p)
    (simp add: parse_pad_def pad_json_def proper_pad_def Let_def entry_front entry_back only_keys read_pin read_number
      read_optional_number sources_read demand_met image_Un del: map_of_append)

lemma parsed_attributes:
  "parse_attributes v role label = Inr a \<Longrightarrow> ea_open_drain a = Some True \<Longrightarrow> role \<in> {OutputPin, Bidirectional}"
  by (auto simp: parse_attributes_def ok_then_Inr Let_def split: if_splits)

lemma attributes_read:
  "(ea_open_drain a = Some True \<Longrightarrow> role \<in> {OutputPin, Bidirectional}) \<Longrightarrow> parse_attributes (Some (attributes_json a)) role label = Inr a"
  by (cases "ea_open_drain a") (auto simp: parse_attributes_def attributes_json_def only_keys demand_def)

lemma parsed_labels: "parse_items (\<lambda>j l. required_text (Some l) (f j)) xs = Inr ls \<Longrightarrow> list_all proper_text ls"
  by (erule parse_items_all) (auto simp: proper_text_def)

lemma parsed_pin:
  assumes "parse_pin seen i v = Inr p"
  shows "proper_pin p \<and> normalize_pin (pin_number p) \<notin> set seen"
proof -
  from assms obtain labels number role attributes ls description ss where
    parts: "labels \<noteq> []" "\<exists>l. required_text (field (Some v) ''number'') l = Inr number"
      "\<exists>l. when_defined (\<lambda>a. parse_attributes a role) (field (Some v) ''electrical_attributes'') l = Inr attributes"
      "\<exists>f. parse_items (\<lambda>j l. required_text (Some l) (item_path f j)) labels = Inr ls"
      "\<exists>l. when_defined required_text (field (Some v) ''description'') l = Inr description"
      "\<exists>l. parse_sources (field (Some v) ''sources'') l = Inr ss" and fresh: "normalize_pin number \<notin> set seen"
    and p: "p = \<lparr> pin_number = number, pin_labels = ls, pin_role_of = role, pin_attributes = attributes,
                  pin_description = description, pin_sources = ss \<rparr>"
    unfolding parse_pin_def parser_Inr by blast
  from parts(3) have "\<forall>a. attributes = Some a \<and> ea_open_drain a = Some True \<longrightarrow> role \<in> {OutputPin, Bidirectional}"
    by (auto simp: when_defined_Inr split: option.splits dest: parsed_attributes)
  moreover from parts have "proper_text number" "ls \<noteq> []" "list_all proper_text ls" "pred_option proper_text description"
      "proper_sources ss"
    using parsed_labels optional_text_Inr parsed_sources by (auto simp: proper_text_def parse_items_Inr simp del: required_text_Inr)
      (auto simp: proper_text_def)
  ultimately show ?thesis using fresh by (simp add: proper_pin_def p)
qed

lemma labels_read: "list_all proper_text ls \<Longrightarrow> parse_items (\<lambda>j l. required_text (Some l) (f j)) (map JStr ls) = Inr ls"
  by (rule parse_items_map) (auto simp: list_all_iff read_text)

lemma pin_read:
  assumes "proper_pin p" and "normalize_pin (pin_number p) \<notin> set seen"
  shows "parse_pin seen i (pin_json p) = Inr p"
proof -
  have "when_defined (\<lambda>a. parse_attributes a (pin_role_of p)) (map_option attributes_json (pin_attributes p)) label = Inr (pin_attributes p)"
    for label using assms(1) by (intro read_optional attributes_read) (auto simp: proper_pin_def)
  with assms show ?thesis
    by (cases p) (simp add: parse_pin_def pin_json_def proper_pin_def Let_def entry_front entry_back only_keys read_text
        read_optional_text read_name labels_read sources_read demand_met image_Un del: map_of_append required_text_Inr)
qed

lemma parsed_pins: "parse_pins seen i vs = Inr ps \<Longrightarrow>
    length ps = length vs \<and> list_all proper_pin ps \<and> distinct (map (normalize_pin \<circ> pin_number) ps)
    \<and> set (map (normalize_pin \<circ> pin_number) ps) \<inter> set seen = {}"
proof (induction seen i vs arbitrary: ps rule: parse_pins.induct)
  case (2 seen i v vs)
  from "2.prems" obtain p qs where p: "parse_pin seen i v = Inr p" and
      qs: "parse_pins (normalize_pin (pin_number p) # seen) (Suc i) vs = Inr qs" and ps: "ps = p # qs"
    unfolding parse_pins.simps ok_then_Inr by blast
  from "2.IH" [OF qs] parsed_pin [OF p] show ?case by (auto simp: ps)
qed simp

lemma pins_read: "list_all proper_pin ps \<Longrightarrow> distinct (map (normalize_pin \<circ> pin_number) ps) \<Longrightarrow>
    set (map (normalize_pin \<circ> pin_number) ps) \<inter> set seen = {} \<Longrightarrow> parse_pins seen i (map pin_json ps) = Inr ps"
  by (induction ps arbitrary: seen i) (auto simp: pin_read)

section \<open>Evidence\<close>

lemma parsed_identity:
  "parse_identity get = Inr (part, code) \<Longrightarrow> proper_field proper_text part \<and> pred_option (proper_field proper_text) code
     \<and> pred_option (\<lambda>c. extends_part (ef_value part) (ef_value c)) code"
  unfolding parse_identity_def ok_then_Inr demand_Inr when_defined_Inr
  by (auto simp: proper_text_def elim!: parsed_field split: option.splits)

lemma parsed_contents:
  assumes "parse_contents st get = Inr e"
  shows "proper_evidence e"
proof -
  from assms obtain pin_values pins pad_values count orientation part code name package_code pads ambiguity_values ambiguities where
    lists: "pins_of st (field (get ''pinout'') ''pins'') = Some pin_values"
      "pins_of st (field (get ''footprint'') ''pads'') = Some pad_values"
    and fields: "\<exists>v l. parse_field v l parse_pin_count = Inr count" "\<exists>v l. parse_field v l parse_orientation = Inr orientation"
      "parse_identity get = Inr (part, code)" "\<exists>v l. parse_field v l required_text = Inr name"
      "\<exists>v l. when_defined (\<lambda>v l. parse_field v l required_text) v l = Inr package_code"
    and parts: "parse_pins [] 0 pin_values = Inr pins" "parse_items parse_pad pad_values = Inr pads"
      "\<exists>f. parse_items (\<lambda>i v. required_text (Some v) (item_path f i)) ambiguity_values = Inr ambiguities"
    and e: "e = \<lparr> ce_status = st, ce_part_number = part, ce_ordering_code = code, ce_package_name = name,
                          ce_package_code = package_code, ce_pin_count = count, ce_pins = pins,
                          ce_orientation = orientation, ce_pads = pads, ce_ambiguities = ambiguities \<rparr>"
    unfolding parse_contents_def parser_Inr by blast
  have "pred_option (proper_field proper_text) package_code" using fields(5)
    by (auto simp: when_defined_Inr proper_text_def elim!: parsed_field split: option.splits)
  moreover have "proper_field whole_page count" using fields(1)
    by (auto elim!: parsed_field simp: parse_pin_count_def split: option.splits)
  moreover have "proper_field proper_text name" "proper_field (\<lambda>_. True) orientation" using fields(2,4)
    by (auto elim!: parsed_field simp: proper_text_def)
  moreover have "length pads = length pad_values" "list_all proper_pad pads"
    using parts(2) parse_items_all [OF parts(2) parsed_pad] by (simp_all add: parse_items_Inr)
  moreover have "list_all proper_text ambiguities" using parts(3) parsed_labels by blast
  moreover have "st = Resolved \<longrightarrow> pin_values \<noteq> [] \<and> pad_values \<noteq> []"
    using lists by (auto simp: pins_of_def split: option.splits if_splits)
  ultimately show ?thesis using parsed_identity [OF fields(3)] parsed_pins [OF parts(1)] by (auto simp: proper_evidence_def e)
qed

lemma case_pred: "(case v of None \<Rightarrow> True | Some c \<Rightarrow> P c) \<longleftrightarrow> pred_option P v"
  by (cases v) simp_all

lemma contents_read:
  assumes "proper_evidence e"
  shows "parse_contents (ce_status e) (field (Some (evidence_json e))) = Inr e"
proof -
  have pins: "parse_pins [] 0 (map pin_json (ce_pins e)) = Inr (ce_pins e)"
    using assms by (intro pins_read) (simp_all add: proper_evidence_def)
  have pads: "parse_items parse_pad (map pad_json (ce_pads e)) = Inr (ce_pads e)"
    using assms by (intro parse_items_map pad_read) (simp add: proper_evidence_def list_all_iff)
  have plain: "proper_field proper_text f \<Longrightarrow> parse_field (Some (field_json JStr f)) l required_text = Inr f" for f l
    by (erule field_read) (rule read_text)
  have optional: "pred_option (proper_field proper_text) v \<Longrightarrow>
      when_defined (\<lambda>v l. parse_field v l required_text) (map_option (field_json JStr) v) l = Inr v" for v l
    by (rule read_optional) (simp add: plain)
  have orientation: "proper_field (\<lambda>_. True) f \<Longrightarrow>
      parse_field (Some (field_json (\<lambda>x. JStr (orientation_text x)) f)) l parse_orientation = Inr f" for f l
    by (erule field_read) (simp add: parse_orientation_def read_name)
  have count: "proper_field whole_page f \<Longrightarrow> parse_field (Some (field_json number_json f)) l parse_pin_count = Inr f" for f l
    by (erule field_read) (simp add: parse_pin_count_def read_page)
  show ?thesis using assms pins pads
    by (cases e) (simp add: parse_contents_def evidence_json_def proper_evidence_def Let_def entry_front entry_back pins_of_def
        parse_identity_def demand_met case_pred plain optional orientation count labels_read del: map_of_append required_text_Inr)
qed

section \<open>Canonical values\<close>

lemma oput_same: "oget m k = Some v \<Longrightarrow> oput k v m = m"
  by (induction m) (auto split: if_splits)

lemma put_defined_same: "put_defined k (oget m k) m = m"
  by (auto simp: put_defined_def oput_same split: option.split)

lemma oget_put_defined: "oget (put_defined k v m) l = (if l = k \<and> v \<noteq> None then v else oget m l)"
  by (auto simp: put_defined_def split: option.split)

lemma enumerate_id: "map (\<lambda>(i, x). x) (enumerate n xs) = xs"
  by (simp add: case_prod_unfold map_snd_enumerate flip: snd_def)

lemma canonical_identifier_idem [simp]: "canonical_pin_identifier (canonical_pin_identifier v) = canonical_pin_identifier v"
  by (auto simp: canonical_pin_identifier_def split: option.splits json.splits jsnum.splits)

lemma canonical_identifier_None [simp]: "canonical_pin_identifier v = None \<longleftrightarrow> v = None"
  by (auto simp: canonical_pin_identifier_def split: option.splits json.splits jsnum.splits)

lemma canonical_kind_None [simp]: "canonical_kind v = None \<longleftrightarrow> v = None"
  by (auto simp: canonical_kind_def split: option.splits json.splits)

lemma canonical_kind_idem [simp]: "canonical_kind (canonical_kind v) = canonical_kind v"
proof -
  have "lower_text ''smt'' \<noteq> ''smd''" by code_simp
  then show ?thesis by (auto simp: canonical_kind_def split: option.splits json.splits)
qed

lemma put_defined_twice [simp]: "put_defined k v (put_defined k v m) = put_defined k v m"
  by (simp add: put_defined_def split: option.split)

lemma put_defined_again: "k \<noteq> l \<Longrightarrow> put_defined k v (put_defined l w (put_defined k v m)) = put_defined l w (put_defined k v m)"
  by (auto simp: put_defined_def intro!: oput_same split: option.split)

lemma canonical_pin_idem: "canonical_pin i (fst (canonical_pin j v)) = (fst (canonical_pin j v), [])"
  by (cases v) (simp_all add: canonical_pin_def Let_def oget_put_defined)

lemma canonical_pad_idem: "canonical_pad i (fst (canonical_pad j v)) = (fst (canonical_pad j v), [])"
  by (cases v) (simp_all add: canonical_pad_def Let_def oget_put_defined put_defined_again)

lemma canonical_items_idem:
  assumes "\<And>i j v. f i (fst (f j v)) = (fst (f j v), [])"
  shows "canonical_items f (fst (canonical_items f xs)) = (fst (canonical_items f xs), [])"
proof -
  let ?g = "\<lambda>(i, x). fst (f i x)"
  let ?ys = "map ?g (enumerate 0 xs)"
  have "map ?g (enumerate 0 ?ys) = ?ys"
    by (rule nth_equalityI) (simp_all add: nth_enumerate_eq assms)
  moreover have "concat (map (\<lambda>(i, x). snd (f i x)) (enumerate 0 ?ys)) = []"
    by (auto simp: in_set_conv_nth nth_enumerate_eq assms)
  ultimately show ?thesis by (simp add: canonical_items_def)
qed

lemma canonical_section_lookup: "l \<noteq> part \<Longrightarrow> oget (fst (canonical_section part items f m)) l = oget m l"
  by (auto simp: canonical_section_def split: option.splits json.splits)

lemma canonical_section_idem:
  assumes "\<And>i j v. f i (fst (f j v)) = (fst (f j v), [])"
    and "oget m' part = oget (fst (canonical_section part items f m)) part"
  shows "canonical_section part items f m' = (m', [])"
proof (cases "\<exists>p xs. oget m part = Some (JObj p) \<and> oget p items = Some (JArr xs)")
  case True
  then obtain p xs where "oget m part = Some (JObj p)" "oget p items = Some (JArr xs)" by blast
  with assms(2) have "oget m' part = Some (JObj (oput items (JArr (fst (canonical_items f xs))) p))"
    by (simp add: canonical_section_def)
  then show ?thesis by (simp add: canonical_section_def canonical_items_idem [OF assms(1)] oput_same)
next
  case False
  with assms(2) have "oget m' part = oget m part" by (auto simp: canonical_section_def split: option.splits json.splits)
  with False show ?thesis by (auto simp: canonical_section_def split: option.splits json.splits)
qed

text \<open>The representation that the parser works on is canonical: canonicalizing it again changes nothing
  and reports no change.\<close>

theorem canonicalization_idempotent:
  "canonicalize_component_evidence (fst (canonicalize_component_evidence v)) = (fst (canonicalize_component_evidence v), [])"
proof (cases "\<exists>m. v = Some (JObj m)")
  case True
  then obtain m where v: "v = Some (JObj m)" by blast
  define m1 where "m1 = fst (canonical_section ''pinout'' ''pins'' canonical_pin m)"
  define m2 where "m2 = fst (canonical_section ''footprint'' ''pads'' canonical_pad m1)"
  have m2': "fst (canonicalize_component_evidence v) = Some (JObj m2)"
    by (simp add: v canonicalize_component_evidence_def m1_def m2_def case_prod_unfold)
  have "oget m2 ''pinout'' = oget m1 ''pinout''" unfolding m2_def by (rule canonical_section_lookup) simp
  then have "canonical_section ''pinout'' ''pins'' canonical_pin m2 = (m2, [])"
    by (intro canonical_section_idem [where m = m] canonical_pin_idem) (simp add: m1_def)
  moreover have "canonical_section ''footprint'' ''pads'' canonical_pad m2 = (m2, [])"
    by (intro canonical_section_idem [where m = m1] canonical_pad_idem) (simp add: m2_def)
  ultimately show ?thesis unfolding m2' by (simp add: canonicalize_component_evidence_def)
next
  case False
  then have same: "canonicalize_component_evidence v = (v, [])"
    by (cases v; cases "the v") (auto simp: canonicalize_component_evidence_def)
  show ?thesis unfolding same by (simp add: same)
qed

section \<open>The whole parser\<close>

lemma canonical_evidence_same: "canonicalize_component_evidence (Some (evidence_json e)) = (Some (evidence_json e), [])"
proof -
  have number: "oget (record_entries (Some (pin_json p))) ''number'' = Some (JStr (pin_number p))" for p
    by (simp add: pin_json_def)
  have pin: "canonical_pin i (pin_json p) = (pin_json p, [])" for i p
    using put_defined_same [of "''number''" "record_entries (Some (pin_json p))"] number [of p]
    by (simp add: canonical_pin_def pin_json_def canonical_pin_identifier_def Let_def del: map_of_append)
  have "lower_text (kind_text Smt) \<noteq> ''smd''" "lower_text (kind_text PlatedHole) \<noteq> ''smd''" by code_simp+
  then have kinds: "lower_text (kind_text k) \<noteq> ''smd''" for k by (cases k) simp_all
  have entries: "oget (record_entries (Some (pad_json p))) ''pin'' = Some (case pad_pin p of None \<Rightarrow> JNull | Some s \<Rightarrow> JStr s)"
      "oget (record_entries (Some (pad_json p))) ''kind'' = Some (JStr (kind_text (pad_kind_of p)))" for p
    by (simp_all add: pad_json_def)
  have pad: "canonical_pad i (pad_json p) = (pad_json p, [])" for i p
    using put_defined_same [of "''pin''" "record_entries (Some (pad_json p))"]
      put_defined_same [of "''kind''" "record_entries (Some (pad_json p))"] entries [of p]
    by (simp add: canonical_pad_def pad_json_def canonical_pin_identifier_def canonical_kind_def Let_def kinds
        del: map_of_append split: option.splits)
  have items: "canonical_items f (map g xs) = (map g xs, [])" if "\<And>i x. f i (g x) = (g x, [])" for f and g :: "'z \<Rightarrow> json" and xs
    by (auto simp: canonical_items_def in_set_conv_nth nth_enumerate_eq that intro!: nth_equalityI)
  show ?thesis
    by (simp add: canonicalize_component_evidence_def evidence_json_def canonical_section_def entry_front entry_back
        items pin pad oput_same del: map_of_append)
qed

lemma parsed_canonical: "parse_canonical_evidence v = Inr e \<Longrightarrow> proper_evidence e"
  unfolding parse_canonical_evidence_def parser_Inr by (auto elim: parsed_contents)

lemma canonical_read:
  assumes "proper_evidence e"
  shows "parse_canonical_evidence (Some (evidence_json e)) = Inr e"
proof -
  have top: "field (Some (evidence_json e)) ''version'' = Some (JNum (Fin 1))"
      "field (Some (evidence_json e)) ''status'' = Some (JStr (evidence_status_text (ce_status e)))"
      "set (okeys (record_entries (Some (evidence_json e)))) \<subseteq> set evidence_keys" "is_record (Some (evidence_json e))"
    by (auto simp: evidence_json_def number_json_def evidence_keys_def)
  obtain p where package: "field (Some (evidence_json e)) ''package'' = Some (JObj p)" "set (okeys p) \<subseteq> set [''name'', ''code'', ''pin_count'']"
    by (auto simp: evidence_json_def entry_front entry_back simp del: map_of_append)
  have pinout: "field (Some (evidence_json e)) ''pinout'' = Some (JObj [(''pins'', JArr (map pin_json (ce_pins e)))])"
    by (simp add: evidence_json_def entry_front entry_back del: map_of_append)
  obtain f where footprint: "field (Some (evidence_json e)) ''footprint'' = Some (JObj f)" "oget f ''view'' = Some (JStr ''pcb_top'')"
      "oget f ''units'' = Some (JStr ''mm'')" "set (okeys f) \<subseteq> set [''view'', ''units'', ''drawing_orientation'', ''pads'']"
    by (simp add: evidence_json_def entry_front entry_back del: map_of_append)
  show ?thesis
    unfolding parse_canonical_evidence_def Let_def top package pinout footprint
    using top package footprint contents_read [OF assms]
    by (simp add: only_keys demand_met del: set_map)
qed

text \<open>C12. Evidence that is parsed is well formed: its texts are trimmed and not empty, its pages are whole,
  every fact cites sources that carry what their method demands, the pins are distinct in normal
  form, pads have positive dimensions and plated holes their holes, an open drain is an output, the
  ordering code extends the part number, and resolved evidence has pins and pads.\<close>

theorem parsed_evidence_proper:
  "case parse_component_evidence v of Inl message \<Rightarrow> True | Inr e \<Rightarrow> proper_evidence e"
  by (simp add: parse_component_evidence_def parsed_canonical split: sum.split)

text \<open>C13. The JSON of evidence is read back as that evidence exactly when the evidence is well formed: the
  parser accepts nothing else and loses nothing.\<close>

theorem evidence_roundtrip:
  "parse_component_evidence (Some (evidence_json e)) = Inr e \<longleftrightarrow> proper_evidence e"
  using parsed_canonical canonical_read by (auto simp: parse_component_evidence_def canonical_evidence_same)

end
