(* ===== verification/Evidence_Checked.thy ===== *)
theory Evidence_Checked
  imports Evidence_Checks Evidence_Parsed
begin

text \<open>
  What the checks of evidence mean: pads that agree can be paired, the plan made from well-formed
  evidence agrees with it, and no reason to block is left exactly for evidence that is trustworthy.
\<close>

section \<open>Distances\<close>

lemma report_Nil [simp]: "report b message = [] \<longleftrightarrow> \<not> b"
  by (simp add: report_def)

lemma rounded_zero: "to_double 0 = Fin 0"
  by (simp add: to_double_def rounded_def)

lemma length_difference_self [simp]: "length_difference a a = Fin 0"
  by (simp add: length_difference_def num_sub_def rounded_zero)

lemma close_enough_self: "0 \<le> tol \<Longrightarrow> close_enough tol a a"
  by (simp add: close_enough_def num_sub_def rounded_zero num_le_def)

definition nonnegative :: "jsnum \<Rightarrow> bool" where
  "nonnegative v \<longleftrightarrow> (case v of Fin x \<Rightarrow> 0 \<le> x | PosInf \<Rightarrow> True | _ \<Rightarrow> False)"

lemma rounded_not_negative: "0 \<le> x \<Longrightarrow> 0 \<le> rounded x"
proof (cases "x = 0")
  case False
  assume "0 \<le> x"
  then have "(0 :: rat) \<le> of_int (round_even (x / ulp x))"
    using round_even_ge [of 0 "x / ulp x"] ulp_pos [of x] by (simp add: of_int_0_le_iff)
  then show ?thesis using ulp_pos [of x] by (simp add: rounded_def less_imp_le)
qed (simp add: rounded_def)

lemma to_double_nonneg: "0 \<le> x \<Longrightarrow> nonnegative (to_double x)"
  using rounded_not_negative [of x] by (auto simp: to_double_def nonnegative_def)

lemma length_difference_nonneg: "nonnegative (length_difference a b)"
  by (auto simp: length_difference_def num_sub_def nonnegative_def to_double_def)

lemma num_add_nonneg: "nonnegative a \<Longrightarrow> nonnegative b \<Longrightarrow> nonnegative (num_add a b)"
  using to_double_nonneg by (cases a; cases b) (auto simp: nonnegative_def)

lemma pad_distance_nonneg: "nonnegative (pad_distance p e)"
  by (simp add: pad_distance_def num_add_nonneg length_difference_nonneg)

lemma pad_distance_self: "pad_x p = pad_x e \<Longrightarrow> pad_y p = pad_y e \<Longrightarrow> pad_width p = pad_width e \<Longrightarrow>
    pad_height p = pad_height e \<Longrightarrow> pad_distance p e = Fin 0"
  by (simp add: pad_distance_def rounded_zero)

text \<open>Nothing sorts before a candidate at distance zero.\<close>

lemma nearest_first: "nonnegative d \<Longrightarrow> num_sign (num_sub (Fin 0) d) \<le> 0"
  using rounded_not_negative by (cases d) (force simp: num_sub_def nonnegative_def to_double_def rounded_minus)+

section \<open>Pairs of pads\<close>

definition pads_match :: "rat \<Rightarrow> 'a footprint_pad_scheme \<Rightarrow> 'b footprint_pad_scheme \<Rightarrow> bool" where
  "pads_match tol e p \<longleftrightarrow>
     same_pin (pad_pin p) (pad_pin e) \<and> pad_kind_of p = pad_kind_of e
     \<and> (pad_kind_of e = PlatedHole \<longrightarrow>
          holes_agree tol (pad_hole_width e) (pad_hole_width p) \<and> holes_agree tol (pad_hole_height e) (pad_hole_height p))
     \<and> close_enough tol (pad_x e) (pad_x p) \<and> close_enough tol (pad_y e) (pad_y p)
     \<and> close_enough tol (pad_width e) (pad_width p) \<and> close_enough tol (pad_height e) (pad_height p)"

lemma no_differences: "pad_differences tol e p = [] \<and> pads_correspond p e \<longleftrightarrow> pads_match tol e p"
  by (auto simp: pad_differences_def pads_match_def pads_correspond_def field_difference_def)

lemma candidates_in: "i \<in> set (candidates plan e unmatched) \<longleftrightarrow> i \<in> set unmatched \<and> pads_correspond (plan ! i) e"
  by (auto simp: candidates_def)

lemma compared_pads:
  assumes "compare_pads tol plan es unmatched = []"
  shows "\<exists>js. mset js = mset unmatched \<and> list_all2 (\<lambda>e j. pads_match tol e (plan ! j)) es js"
  using assms
proof (induction es arbitrary: unmatched)
  case (Cons e es)
  then obtain i rest where first: "candidates plan e unmatched = i # rest" by (auto split: list.splits)
  with candidates_in [of i plan e unmatched] have i: "i \<in> set unmatched" "pads_correspond (plan ! i) e" by simp_all
  from Cons.prems first have "pad_differences tol e (plan ! i) = []" "compare_pads tol plan es (remove1 i unmatched) = []"
    by simp_all
  with Cons.IH obtain js where "mset js = mset (remove1 i unmatched)" "list_all2 (\<lambda>e j. pads_match tol e (plan ! j)) es js"
    by blast
  with i \<open>pad_differences tol e (plan ! i) = []\<close> show ?case
    by (intro exI [of _ "i # js"]) (auto simp: no_differences [symmetric])
qed simp

text \<open>C26. Pads that are found to agree can be paired: every pad of the evidence has a pad of the plan of its
  own, on the same pin and of the same kind, whose position and size, and hole where there is one,
  are within the tolerance; and no pad of the plan is left over.\<close>

theorem agreeing_pads_paired:
  assumes "get_pad_agreement_errors evidence plan tol = []"
  shows "\<exists>paired. mset paired = mset plan \<and> list_all2 (pads_match tol) evidence paired"
proof -
  from assms have "compare_pads tol plan evidence [0..<length plan] = []" by (simp add: get_pad_agreement_errors_def)
  then obtain js where js: "mset js = mset [0..<length plan]" "list_all2 (\<lambda>e j. pads_match tol e (plan ! j)) evidence js"
    using compared_pads by blast
  from js(1) have "mset (map ((!) plan) js) = mset (map ((!) plan) [0..<length plan])" by (simp only: mset_map)
  then have "mset (map ((!) plan) js) = mset plan" by (simp only: map_nth)
  moreover from js(2) have "list_all2 (pads_match tol) evidence (map ((!) plan) js)" by (simp add: list_all2_map2)
  ultimately show ?thesis by blast
qed

definition square_pad :: "string \<Rightarrow> rat \<Rightarrow> footprint_pad" where
  "square_pad pin x = \<lparr> pad_pin = Some pin, pad_kind_of = Smt, pad_x = x, pad_y = 0, pad_width = 1, pad_height = 1,
     pad_hole_width = None, pad_hole_height = None \<rparr>"

theorem agreeing_pads_paired_witness:
  "\<exists>paired. mset paired = mset [square_pad ''PIN2'' 3, square_pad ''1'' 0]
     \<and> list_all2 (pads_match 0) [square_pad ''1'' 0, square_pad ''2'' 3] paired"
proof (rule agreeing_pads_paired)
  have pins: "normalize_pin ''PIN2'' = ''2''" "normalize_pin ''1'' = ''1''" "normalize_pin ''2'' = ''2''" by code_simp+
  have "[0..<2 :: nat] = [0, 1]" by (simp add: upt_rec)
  then show "get_pad_agreement_errors [square_pad ''1'' 0, square_pad ''2'' 3] [square_pad ''PIN2'' 3, square_pad ''1'' 0] 0 = []"
    by (simp add: get_pad_agreement_errors_def candidates_def sort_by_def pads_correspond_def same_pin_def pins square_pad_def
        report_def pad_differences_def field_difference_def close_enough_self)
qed

section \<open>The plan of the evidence\<close>

lemma insert_first: "(\<And>y. y \<in> set ys \<Longrightarrow> cmp x y \<le> 0) \<Longrightarrow> insert_by cmp x ys = x # ys"
  by (cases ys) simp_all

lemma sort_first: "(\<And>y. y \<in> set ys \<Longrightarrow> cmp x y \<le> 0) \<Longrightarrow> sort_by cmp (x # ys) = x # sort_by cmp ys"
  using insert_first [of "sort_by cmp ys" cmp x] by (simp add: sort_by_def) (simp flip: sort_by_def)

lemma same_pin_refl [simp]: "same_pin p p"
  by (cases p) (simp_all add: same_pin_def)

lemma truncate_fields [simp]:
  "pad_pin (footprint_pad.truncate p) = pad_pin p" "pad_kind_of (footprint_pad.truncate p) = pad_kind_of p"
  "pad_x (footprint_pad.truncate p) = pad_x p" "pad_y (footprint_pad.truncate p) = pad_y p"
  "pad_width (footprint_pad.truncate p) = pad_width p" "pad_height (footprint_pad.truncate p) = pad_height p"
  "pad_hole_width (footprint_pad.truncate p) = pad_hole_width p" "pad_hole_height (footprint_pad.truncate p) = pad_hole_height p"
  by (simp_all add: footprint_pad.truncate_def)

lemma pad_matches_itself:
  "0 \<le> tol \<Longrightarrow> (pad_kind_of p = PlatedHole \<Longrightarrow> plated_hole_ok p) \<Longrightarrow> pads_match tol p (footprint_pad.truncate p)"
  by (auto simp: pads_match_def close_enough_self holes_agree_def plated_hole_ok_def split: option.splits)

lemma itself_first:
  assumes "k < length ps"
  shows "\<exists>rest. candidates (map footprint_pad.truncate ps) (ps ! k) [k..<length ps] = k # rest"
proof -
  let ?plan = "map footprint_pad.truncate ps"
  let ?cmp = "\<lambda>i j. num_sign (num_sub (pad_distance (?plan ! i) (ps ! k)) (pad_distance (?plan ! j) (ps ! k)))"
  have "pad_distance (?plan ! k) (ps ! k) = Fin 0" using assms by (simp add: pad_distance_self)
  then have "?cmp k j \<le> 0" for j using nearest_first [OF pad_distance_nonneg] by simp
  moreover have "[k..<length ps] = k # [Suc k..<length ps]" using assms by (simp add: upt_conv_Cons)
  ultimately show ?thesis using assms sort_first [where cmp = ?cmp and x = k]
    by (simp add: candidates_def pads_correspond_def)
qed

lemma agrees_with_itself:
  assumes "list_all (\<lambda>p. pad_kind_of p = PlatedHole \<longrightarrow> plated_hole_ok p) ps" and "0 \<le> tol"
  shows "get_pad_agreement_errors ps (map footprint_pad.truncate ps) tol = []"
proof -
  let ?plan = "map footprint_pad.truncate ps"
  have "k \<le> length ps \<Longrightarrow> compare_pads tol ?plan (drop k ps) [k..<length ps] = []" for k
  proof (induction "length ps - k" arbitrary: k)
    case (Suc m)
    then have k: "k < length ps" by simp
    have "pads_match tol (ps ! k) (?plan ! k)" using assms k pad_matches_itself by (simp add: list_all_length)
    then have "pad_differences tol (ps ! k) (?plan ! k) = []" using no_differences by blast
    moreover have "[k..<length ps] = k # [Suc k..<length ps]" using k by (simp add: upt_conv_Cons)
    ultimately show ?case using itself_first [OF k] Suc k by (auto simp: Cons_nth_drop_Suc [symmetric] simp del: upt_Suc)
  qed simp
  from this [of 0] show ?thesis by (simp add: get_pad_agreement_errors_def)
qed

lemma rounded_tolerance: "0 \<le> pad_tolerance"
  by (simp add: pad_tolerance_def rounded_not_negative)

text \<open>Sources with the same page and figure share a reference, the last one's; the pads come last.\<close>

lemma reference_kept:
  "s \<in> set ys \<Longrightarrow> \<exists>s' \<in> set ys. oget (foldl (\<lambda>m s. oput (reference_key s) (source_reference s) m) m0 ys) (reference_key s)
     = Some (source_reference s')"
  by (induction ys rule: rev_induct) auto

lemma pad_page_cited:
  assumes "s \<in> set (concat (map pad_sources (ce_pads e)))"
  shows "\<exists>s' \<in> set (concat (map pad_sources (ce_pads e))). es_page s' \<in> fst ` set (plan_references (footprint_sources e))"
proof -
  let ?step = "\<lambda>m s. oput (reference_key s) (source_reference s) m"
  let ?m0 = "foldl ?step [] (ef_sources (ce_orientation e))"
  from reference_kept [OF assms, of ?m0] obtain s' where s': "s' \<in> set (concat (map pad_sources (ce_pads e)))"
    "oget (foldl ?step ?m0 (concat (map pad_sources (ce_pads e)))) (reference_key s) = Some (source_reference s')" by blast
  then have "source_reference s' \<in> set (plan_references (footprint_sources e))"
    unfolding plan_references_def footprint_sources_def foldl_append by (auto dest!: map_of_SomeD intro!: image_eqI)
  with s'(1) show ?thesis by (force simp: source_reference_def)
qed

text \<open>C15. The footprint plan that is made from parsed evidence agrees with it: every pad finds itself first,
  whatever other pads there are on its pin, and the plan cites a page of the pads.\<close>

theorem plan_of_evidence_agrees:
  "case parse_component_evidence v of
     Inl message \<Rightarrow> True
   | Inr e \<Rightarrow> get_footprint_evidence_errors e (create_footprint_plan collate e) = []"
proof (cases "parse_component_evidence v")
  case (Inr e)
  with parsed_evidence_proper [of v] have "proper_evidence e" by simp
  then have "list_all (\<lambda>p. pad_kind_of p = PlatedHole \<longrightarrow> plated_hole_ok p) (ce_pads e)"
    by (auto simp: proper_evidence_def proper_pad_def list_all_iff)
  note agrees = agrees_with_itself [OF this rounded_tolerance]
  define ss where "ss = concat (map pad_sources (ce_pads e))"
  have pages: "concat (map (\<lambda>p. map es_page (pad_sources p)) (ce_pads e)) = map es_page ss" by (simp add: ss_def map_concat comp_def)
  have empty: "js_set xs = [] \<longleftrightarrow> xs = []" for xs :: "rat list" by (metis set_js_set set_empty)
  have "ss \<noteq> [] \<Longrightarrow> list_ex (\<lambda>r. fst r \<in> es_page ` set ss) (plan_references (footprint_sources e))"
    using pad_page_cited [of "hd ss" e] by (force simp: ss_def [symmetric] list_ex_iff)
  with agrees show ?thesis
    by (auto simp: Inr get_footprint_evidence_errors_def create_footprint_plan_def pages empty list_ex_iff Let_def)
qed simp

section \<open>Trustworthy evidence\<close>

definition directly_supported :: "evidence_source list \<Rightarrow> bool" where
  "directly_supported ss \<longleftrightarrow> (\<exists>s \<in> set ss. es_method s \<in> {PdfText, PdfVisual} \<and> es_confidence s \<noteq> LowConfidence)"

definition supported :: "evidence_source list \<Rightarrow> bool" where
  "supported ss \<longleftrightarrow> (\<exists>s \<in> set ss. es_confidence s \<noteq> LowConfidence)"

text \<open>A source of a pad that was derived needs a rendered drawing on its page that can be trusted.\<close>

definition anchored :: "component_evidence \<Rightarrow> evidence_source \<Rightarrow> bool" where
  "anchored e s \<longleftrightarrow> (\<exists>a \<in> set (footprint_sources e). is_server_rendered a \<and> es_confidence a \<noteq> LowConfidence \<and> es_page a = es_page s)"

definition pad_geometry_sound :: "component_evidence \<Rightarrow> evidence_pad \<Rightarrow> bool" where
  "pad_geometry_sound e p \<longleftrightarrow>
     supported (pad_sources p) \<and> (\<exists>s \<in> set (pad_sources p). es_method s \<noteq> PdfText)
     \<and> (\<forall>s \<in> set (pad_sources p). es_method s \<in> {Calculated, PackageStandard} \<longrightarrow> anchored e s)"

definition trustworthy :: "component_evidence \<Rightarrow> bool" where
  "trustworthy e \<longleftrightarrow>
     ce_status e = Resolved \<and> ef_value (ce_pin_count e) = of_nat (length (ce_pins e))
     \<and> {normalize_pin k | k p. p \<in> set (ce_pads e) \<and> pad_pin p = Some k} = (normalize_pin \<circ> pin_number) ` set (ce_pins e)
     \<and> (\<forall>p \<in> set (ce_pads e). pad_geometry_sound e p)
     \<and> ef_value (ce_orientation e) = PcbTop \<and> (\<exists>s \<in> set (ef_sources (ce_orientation e)). is_server_rendered s)
     \<and> supported (ef_sources (ce_orientation e))
     \<and> directly_supported (ef_sources (ce_part_number e)) \<and> pred_option (directly_supported \<circ> ef_sources) (ce_ordering_code e)
     \<and> directly_supported (ef_sources (ce_package_name e)) \<and> pred_option (directly_supported \<circ> ef_sources) (ce_package_code e)
     \<and> directly_supported (ef_sources (ce_pin_count e)) \<and> (\<forall>p \<in> set (ce_pins e). directly_supported (pin_sources p))"

lemma reliable_iff: "reliable s \<longleftrightarrow> es_confidence s \<noteq> LowConfidence"
  by (cases "es_confidence s") (simp_all add: reliable_def)

lemma supported_iff: "has_reliable_source = supported" "has_reliable_direct_source = directly_supported"
  by (auto simp: fun_eq_iff has_reliable_source_def supported_def has_reliable_direct_source_def directly_supported_def
      reliable_iff list_ex_iff)

lemma anchored_iff: "anchored e s \<longleftrightarrow> es_page s \<in> set (reliable_visual_pages e)"
proof -
  have anchors: "set (concat (map (\<lambda>s. if c s then [es_page s] else []) ss)) = {es_page s | s. s \<in> set ss \<and> c s}" for c ss
    by (induction ss) auto
  show ?thesis unfolding reliable_visual_pages_def set_js_set anchors anchored_def reliable_iff mem_Collect_eq by metis
qed

lemma over_numbered: "concat (map (\<lambda>(i, p). f i p) (enumerate 0 ps)) = [] \<longleftrightarrow> (\<forall>i < length ps. f i (ps ! i) = [])"
  by (simp add: all_set_conv_all_nth nth_enumerate_eq)

lemma pad_reasons_Nil: "pad_reasons (reliable_visual_pages e) i p = [] \<longleftrightarrow>
    (\<exists>s \<in> set (pad_sources p). es_method s \<noteq> PdfText)
    \<and> (\<forall>s \<in> set (pad_sources p). es_method s \<in> {Calculated, PackageStandard} \<longrightarrow> anchored e s)"
proof -
  have "geometry_method m \<longleftrightarrow> m \<noteq> PdfText" for m by (cases m) (simp_all add: geometry_method_def)
  then show ?thesis by (auto simp: pad_reasons_def derived_method_def anchored_iff list_ex_iff)
qed

lemma pad_pins_iff: "unknown_pin_reasons e = [] \<and> unpadded_pin_reasons e = [] \<longleftrightarrow>
    {normalize_pin k | k p. p \<in> set (ce_pads e) \<and> pad_pin p = Some k} = (normalize_pin \<circ> pin_number) ` set (ce_pins e)"
proof -
  have padded: "set (padded_pins e) = {normalize_pin k | k p. p \<in> set (ce_pads e) \<and> pad_pin p = Some k}"
    by (force simp: padded_pins_def split: option.splits)
  have "unknown_pin_reasons e = [] \<longleftrightarrow> set (padded_pins e) \<subseteq> (normalize_pin \<circ> pin_number) ` set (ce_pins e)"
    unfolding padded by (fastforce simp: unknown_pin_reasons_def evidence_pin_numbers_def split: option.splits)
  moreover have "unpadded_pin_reasons e = [] \<longleftrightarrow> (normalize_pin \<circ> pin_number) ` set (ce_pins e) \<subseteq> set (padded_pins e)"
    by (auto simp: unpadded_pin_reasons_def)
  ultimately show ?thesis unfolding padded by blast
qed

text \<open>C14. There is no reason to block exactly when the evidence is trustworthy: it is resolved and counts its
  pins right, the pads carry exactly the pins, every pad rests on geometry whose derived values are
  anchored on their page, the drawing is a top view that the server rendered, and every fact has a
  source that is not of low confidence, read directly where it is not geometry.\<close>

theorem blocking_reasons_exact: "get_blocking_reasons e = [] \<longleftrightarrow> trustworthy e"
proof -
  have pads: "concat (map (\<lambda>(i, p). pad_reasons (reliable_visual_pages e) i p) (enumerate 0 (ce_pads e))) = []
      \<and> list_all (\<lambda>p. supported (pad_sources p)) (ce_pads e) \<longleftrightarrow> (\<forall>p \<in> set (ce_pads e). pad_geometry_sound e p)"
    unfolding over_numbered pad_reasons_Nil pad_geometry_sound_def list_all_length all_set_conv_all_nth by blast
  have direct: "concat (map (\<lambda>(label, ss). report (\<not> directly_supported ss) (g label)) (direct_facts e)) = []
      \<longleftrightarrow> directly_supported (ef_sources (ce_part_number e)) \<and> pred_option (directly_supported \<circ> ef_sources) (ce_ordering_code e)
     \<and> directly_supported (ef_sources (ce_package_name e)) \<and> pred_option (directly_supported \<circ> ef_sources) (ce_package_code e)
     \<and> directly_supported (ef_sources (ce_pin_count e)) \<and> (\<forall>p \<in> set (ce_pins e). directly_supported (pin_sources p))" for g
    by (cases "ce_ordering_code e"; cases "ce_package_code e") (simp_all add: direct_facts_def optional_sources_def)
  have geometry: "concat (map (\<lambda>(label, ss). report (\<not> supported ss) (g label)) (geometry_facts e)) = []
      \<longleftrightarrow> supported (ef_sources (ce_orientation e)) \<and> list_all (\<lambda>p. supported (pad_sources p)) (ce_pads e)" for g
    using over_numbered [of "\<lambda>i p. report (\<not> supported (pad_sources p)) (g (pad_label i p))" "ce_pads e"]
    by (simp add: geometry_facts_def comp_def case_prod_unfold list_all_length)
  have head: "status_reasons e = [] \<longleftrightarrow> ce_status e = Resolved" by (simp add: status_reasons_def)
  have count: "count_reasons e = [] \<longleftrightarrow> ef_value (ce_pin_count e) = of_nat (length (ce_pins e))" by (simp add: count_reasons_def)
  have view: "orientation_reasons e = [] \<longleftrightarrow> ef_value (ce_orientation e) = PcbTop
      \<and> (\<exists>s \<in> set (ef_sources (ce_orientation e)). is_server_rendered s)"
    by (simp add: orientation_reasons_def list_ex_iff)
  show ?thesis
    unfolding get_blocking_reasons_def append_is_Nil_conv supported_iff direct geometry trustworthy_def
      pads [symmetric] pad_pins_iff [symmetric] head count view by blast
qed

end
