(* ===== verification/Footprint_Catalog.thy ===== *)
theory Footprint_Catalog
  imports Evidence_Parsed
begin

text \<open>
  The catalog of the footprints of a component, \<open>src/server/component-evidence/component-footprint-catalog.ts\<close>: the
  signature of a copper pattern, which does not depend on how the drawing is turned, and the parser
  that merges the entries with the same signature. The comparison of texts by locale is a parameter.
\<close>

section \<open>The geometry of a pattern\<close>

definition num_round :: "jsnum \<Rightarrow> jsnum" where
  "num_round v = (case v of Fin x \<Rightarrow> Fin (of_int \<lfloor>x + 1 / 2\<rfloor>) | _ \<Rightarrow> v)"

definition geometry_quantum :: jsnum where
  "geometry_quantum = to_double (1 / 100)"

text \<open>Six decimals, read back as a number: a text beyond \<open>10 ^ 21\<close> keeps the value.\<close>

definition fixed_six :: "rat \<Rightarrow> rat" where
  "fixed_six x =
     (if 10 ^ 21 \<le> \<bar>x\<bar> then x
      else (let n = of_int \<lfloor>\<bar>x\<bar> * 10 ^ 6 + 1 / 2\<rfloor> / 10 ^ 6 in if x < 0 then - n else n))"

definition quantize :: "jsnum \<Rightarrow> jsnum" where
  "quantize v =
     (case num_mul (num_round (num_div v geometry_quantum)) geometry_quantum of
        Fin x \<Rightarrow> to_double (fixed_six x)
      | w \<Rightarrow> w)"

definition swapped_hole :: "rat option \<Rightarrow> rat option \<Rightarrow> rat option" where
  "swapped_hole own other = (case own of None \<Rightarrow> None | Some a \<Rightarrow> (case other of None \<Rightarrow> Some a | Some b \<Rightarrow> Some b))"

definition rotate_pad :: "'a footprint_pad_scheme \<Rightarrow> nat \<Rightarrow> footprint_pad" where
  "rotate_pad p quarter_turns =
     (let turn = quarter_turns mod 4; swap = (turn = 1 \<or> turn = 3) in
      \<lparr> pad_pin = map_option normalize_pin (pad_pin p),
        pad_kind_of = pad_kind_of p,
        pad_x = (if turn = 0 then pad_x p else if turn = 1 then - pad_y p else if turn = 2 then - pad_x p else pad_y p),
        pad_y = (if turn = 0 then pad_y p else if turn = 1 then pad_x p else if turn = 2 then - pad_y p else - pad_x p),
        pad_width = (if swap then pad_height p else pad_width p),
        pad_height = (if swap then pad_width p else pad_height p),
        pad_hole_width = (if swap then swapped_hole (pad_hole_width p) (pad_hole_height p) else pad_hole_width p),
        pad_hole_height = (if swap then swapped_hole (pad_hole_height p) (pad_hole_width p) else pad_hole_height p) \<rparr>)"

definition half :: "rat \<Rightarrow> jsnum" where
  "half w = num_div (Fin w) (Fin 2)"

definition center_of :: "jsnum list \<Rightarrow> jsnum list \<Rightarrow> jsnum" where
  "center_of lows highs = num_div (num_add (foldl num_min PosInf lows) (foldl num_max NegInf highs)) (Fin 2)"

definition json_number :: "jsnum \<Rightarrow> string" where
  "json_number v = (if is_finite_num v then number_text v else ''null'')"

definition json_pair :: "string \<Rightarrow> string \<Rightarrow> string" where
  "json_pair k v = json_quote k @ '':'' @ v"

definition hole_pair :: "string \<Rightarrow> rat option \<Rightarrow> string list" where
  "hole_pair k v = (case v of None \<Rightarrow> [] | Some x \<Rightarrow> [json_pair k (json_number (quantize (Fin x)))])"

definition pad_geometry_text :: "jsnum \<Rightarrow> jsnum \<Rightarrow> footprint_pad \<Rightarrow> string" where
  "pad_geometry_text center_x center_y p =
     ''{'' @ join_with '',''
       ([json_pair ''pin'' (case pad_pin p of None \<Rightarrow> ''null'' | Some k \<Rightarrow> json_quote k),
         json_pair ''kind'' (json_quote (kind_text (pad_kind_of p))),
         json_pair ''x'' (json_number (quantize (num_sub (Fin (pad_x p)) center_x))),
         json_pair ''y'' (json_number (quantize (num_sub (Fin (pad_y p)) center_y))),
         json_pair ''width'' (json_number (quantize (Fin (pad_width p)))),
         json_pair ''height'' (json_number (quantize (Fin (pad_height p))))]
        @ hole_pair ''hole_width'' (pad_hole_width p) @ hole_pair ''hole_height'' (pad_hole_height p)) @ ''}''"

definition normalized_geometry :: "(string \<Rightarrow> string \<Rightarrow> int) \<Rightarrow> component_evidence \<Rightarrow> nat \<Rightarrow> string" where
  "normalized_geometry collate e quarter_turns =
     (let rotated = map (\<lambda>p. rotate_pad p quarter_turns) (ce_pads e);
          center_x = center_of (map (\<lambda>p. num_sub (Fin (pad_x p)) (half (pad_width p))) rotated)
            (map (\<lambda>p. num_add (Fin (pad_x p)) (half (pad_width p))) rotated);
          center_y = center_of (map (\<lambda>p. num_sub (Fin (pad_y p)) (half (pad_height p))) rotated)
            (map (\<lambda>p. num_add (Fin (pad_y p)) (half (pad_height p))) rotated) in
      ''['' @ join_with '','' (sort_by collate (map (pad_geometry_text center_x center_y) rotated)) @ '']'')"

definition physical_footprint_signature :: "(string \<Rightarrow> string \<Rightarrow> int) \<Rightarrow> component_evidence \<Rightarrow> string" where
  "physical_footprint_signature collate e = hd (sort (map (normalized_geometry collate e) [0, 1, 2, 3]))"

section \<open>Entries\<close>

record footprint_variant =
  fv_id :: string
  fv_label :: string
  fv_aliases :: "string list"
  fv_ordering_codes :: "string list"
  fv_evidence :: component_evidence

record catalog_entry = footprint_variant +
  fv_signature :: string

record footprint_catalog =
  fc_default :: string
  fc_footprints :: "footprint_variant list"

definition footprint_id_pattern :: "string \<Rightarrow> bool" where
  "footprint_id_pattern s \<longleftrightarrow> list_all (\<lambda>seg. seg \<noteq> [] \<and> list_all lower_alnum seg) (split_char CHR ''-'' s)"

definition required_footprint_id :: "json option \<Rightarrow> string \<Rightarrow> string + string" where
  "required_footprint_id v label =
     ok_then (required_text v label) (\<lambda>k.
     ok_then (demand (footprint_id_pattern k) (label @ '' must be a lowercase hyphenated identifier'')) (\<lambda>_. Inr k))"

definition parse_text_array :: "(string \<Rightarrow> string \<Rightarrow> int) \<Rightarrow> json option \<Rightarrow> string \<Rightarrow> string + string list" where
  "parse_text_array collate v label =
     (case array_value v of
        None \<Rightarrow> Inl (label @ '' must be an array'')
      | Some xs \<Rightarrow>
          ok_then (parse_items (\<lambda>i x. required_text (Some x) (item_path label i)) xs) (\<lambda>texts.
            Inr (sort_by collate (js_set texts))))"

definition parse_optional_texts :: "(string \<Rightarrow> string \<Rightarrow> int) \<Rightarrow> json option \<Rightarrow> string \<Rightarrow> string + string list" where
  "parse_optional_texts collate v label = (if v = None then Inr [] else parse_text_array collate v label)"

definition cites_stencil :: "evidence_source \<Rightarrow> bool" where
  "cites_stencil s \<longleftrightarrow>
     sublist ''stencil'' (lower_text ((case es_figure s of None \<Rightarrow> [] | Some f \<Rightarrow> f) @ '' '' @ (case es_note s of None \<Rightarrow> [] | Some n \<Rightarrow> n)))"

definition copper_land_pattern :: "component_evidence \<Rightarrow> bool" where
  "copper_land_pattern e \<longleftrightarrow>
     \<not> list_ex cites_stencil (ef_sources (ce_orientation e) @ concat (map pad_sources (ce_pads e)))"

definition default_label :: "component_evidence \<Rightarrow> string" where
  "default_label e =
     (case ce_package_code e of None \<Rightarrow> ef_value (ce_package_name e) | Some c \<Rightarrow> ef_value c)
       @ '' '' @ [CHR 0xB7] @ '' '' @ number_text (Fin (ef_value (ce_pin_count e))) @ '' pins''"

definition evidence_aliases :: "string \<Rightarrow> component_evidence \<Rightarrow> string list" where
  "evidence_aliases k e =
     [k, ef_value (ce_package_name e)] @ (case ce_package_code e of None \<Rightarrow> [] | Some c \<Rightarrow> [ef_value c])"

definition evidence_ordering_codes :: "component_evidence \<Rightarrow> string list" where
  "evidence_ordering_codes e = (case ce_ordering_code e of None \<Rightarrow> [] | Some c \<Rightarrow> [ef_value c])"

definition parse_entry :: "(string \<Rightarrow> string \<Rightarrow> int) \<Rightarrow> nat \<Rightarrow> json \<Rightarrow> string + catalog_entry" where
  "parse_entry collate i v =
     (let label = item_path ''component footprint catalog footprints'' i; get = field (Some v) in
      ok_then (demand (is_record (Some v)) (label @ '' must be an object'')) (\<lambda>_.
      ok_then (assert_only_keys (record_entries (Some v))
        [''footprint_id'', ''label'', ''aliases'', ''ordering_codes'', ''component_evidence''] label) (\<lambda>_.
      ok_then (required_footprint_id (get ''footprint_id'') (label @ ''.footprint_id'')) (\<lambda>k.
      ok_then (parse_component_evidence (get ''component_evidence'')) (\<lambda>e.
      ok_then (demand (copper_land_pattern e)
        (label @ '' cites a stencil aperture drawing; footprints require PCB copper land patterns'')) (\<lambda>_.
      ok_then (if get ''label'' = None then Inr (default_label e) else required_text (get ''label'') (label @ ''.label'')) (\<lambda>title.
      ok_then (parse_optional_texts collate (get ''aliases'') (label @ ''.aliases'')) (\<lambda>aliases.
      ok_then (parse_optional_texts collate (get ''ordering_codes'') (label @ ''.ordering_codes'')) (\<lambda>codes.
        Inr \<lparr> fv_id = k, fv_label = title, fv_aliases = sort_by collate (js_set (evidence_aliases k e @ aliases)),
              fv_ordering_codes = sort_by collate (js_set (evidence_ordering_codes e @ codes)),
              fv_evidence = e, fv_signature = physical_footprint_signature collate e \<rparr>)))))))))"

section \<open>The catalog\<close>

text \<open>An entry joins the first group with its signature.\<close>

fun join_group :: "catalog_entry \<Rightarrow> catalog_entry list list \<Rightarrow> catalog_entry list list" where
  "join_group x [] = [[x]]"
| "join_group x (g # gs) =
     (if g \<noteq> [] \<and> fv_signature (hd g) = fv_signature x then (g @ [x]) # gs else g # join_group x gs)"

definition group_entries :: "catalog_entry list \<Rightarrow> catalog_entry list list" where
  "group_entries xs = foldl (\<lambda>gs x. join_group x gs) [] xs"

definition preferred_entry :: "(string \<Rightarrow> string \<Rightarrow> int) \<Rightarrow> string \<Rightarrow> catalog_entry list \<Rightarrow> catalog_entry" where
  "preferred_entry collate d g =
     (case find (\<lambda>x. fv_id x = d) g of
        Some x \<Rightarrow> x
      | None \<Rightarrow> hd (sort_by (\<lambda>x y. collate (fv_id x) (fv_id y)) g))"

definition variant_of_group :: "(string \<Rightarrow> string \<Rightarrow> int) \<Rightarrow> string \<Rightarrow> catalog_entry list \<Rightarrow> footprint_variant" where
  "variant_of_group collate d g =
     (let p = preferred_entry collate d g in
      \<lparr> fv_id = fv_id p, fv_label = fv_label p,
        fv_aliases = sort_by collate (js_set (concat (map fv_aliases g))),
        fv_ordering_codes = sort_by collate (js_set (concat (map fv_ordering_codes g))),
        fv_evidence = fv_evidence p \<rparr>)"

definition canonical_default :: "(string \<Rightarrow> string \<Rightarrow> int) \<Rightarrow> string \<Rightarrow> catalog_entry list list \<Rightarrow> string" where
  "canonical_default collate d gs =
     foldl (\<lambda>c g. if list_ex (\<lambda>x. fv_id x = d) g then fv_id (preferred_entry collate d g) else c) d gs"

definition compare_variants ::
  "(string \<Rightarrow> string \<Rightarrow> int) \<Rightarrow> string \<Rightarrow> footprint_variant \<Rightarrow> footprint_variant \<Rightarrow> int" where
  "compare_variants collate d x y =
     (if fv_id x = d then - 1 else if fv_id y = d then 1
      else if collate (fv_label x) (fv_label y) \<noteq> 0 then collate (fv_label x) (fv_label y)
      else collate (fv_id x) (fv_id y))"

definition max_footprint_variants :: nat where
  "max_footprint_variants = 24"

definition catalog_of_entries ::
  "(string \<Rightarrow> string \<Rightarrow> int) \<Rightarrow> string \<Rightarrow> catalog_entry list \<Rightarrow> string + footprint_catalog" where
  "catalog_of_entries collate d entries =
     (let ids = map fv_id entries in
      ok_then (demand (length (js_set ids) = length ids) ''component footprint catalog repeats footprint_id'') (\<lambda>_.
      case find (\<lambda>x. fv_id x = d) entries of
        None \<Rightarrow> Inl ''component footprint catalog default_footprint_id does not identify an entry''
      | Some default_entry \<Rightarrow>
          (let part = part_identity (ef_value (ce_part_number (fv_evidence default_entry))) in
           ok_then (demand (list_all (\<lambda>x. part_identity (ef_value (ce_part_number (fv_evidence x))) = part) entries)
             ''component footprint catalog entries must describe the same base component'') (\<lambda>_.
             let groups = group_entries entries; canonical = canonical_default collate d groups in
             Inr \<lparr> fc_default = canonical,
                   fc_footprints = sort_by (compare_variants collate canonical) (map (variant_of_group collate d) groups) \<rparr>))))"

definition parse_footprint_catalog :: "(string \<Rightarrow> string \<Rightarrow> int) \<Rightarrow> json option \<Rightarrow> string + footprint_catalog" where
  "parse_footprint_catalog collate v =
     ok_then (demand (is_record v \<and> field v ''version'' = Some (JNum (Fin 1)))
       ''component-footprint-catalog.json must be a version-1 artifact'') (\<lambda>_.
     ok_then (assert_only_keys (record_entries v) [''version'', ''default_footprint_id'', ''footprints'']
       ''component footprint catalog'') (\<lambda>_.
     ok_then (required_footprint_id (field v ''default_footprint_id'') ''component footprint catalog default_footprint_id'') (\<lambda>d.
     case (case array_value (field v ''footprints'') of
             Some xs \<Rightarrow> if xs = [] \<or> max_footprint_variants < length xs then None else Some xs
           | None \<Rightarrow> None) of
       None \<Rightarrow> Inl (''component footprint catalog must contain 1-'' @ nat_str max_footprint_variants @ '' entries'')
     | Some xs \<Rightarrow> ok_then (parse_items (parse_entry collate) xs) (catalog_of_entries collate d))))"

definition create_single_footprint_catalog ::
  "(string \<Rightarrow> string \<Rightarrow> int) \<Rightarrow> string option \<Rightarrow> component_evidence \<Rightarrow> string + footprint_catalog" where
  "create_single_footprint_catalog collate name e =
     (let k = (case name of None \<Rightarrow> ''default'' | Some k \<Rightarrow> k) in
      parse_footprint_catalog collate (Some (JObj
        [(''version'', JNum (Fin 1)), (''default_footprint_id'', JStr k),
         (''footprints'', JArr [JObj [(''footprint_id'', JStr k), (''component_evidence'', evidence_json e)]])])))"

definition get_default_footprint :: "footprint_catalog \<Rightarrow> string + footprint_variant" where
  "get_default_footprint c =
     (case find (\<lambda>x. fv_id x = fc_default c) (fc_footprints c) of
        None \<Rightarrow> Inl ''component footprint catalog has no default footprint''
      | Some x \<Rightarrow> Inr x)"

end
