(* ===== verification/Footprint_Merged.thy ===== *)
theory Footprint_Merged
  imports Footprint_Catalog
begin

text \<open>
  What the catalog of footprints promises: turning the drawing does not change the signature of a
  pattern; a catalog has its default, no two footprints of one pattern and no two of one name; it
  covers the patterns of all entries; and the catalog of a single evidence keeps the evidence.
\<close>

section \<open>Turning the drawing\<close>

definition turn_pad :: "evidence_pad \<Rightarrow> evidence_pad" where
  "turn_pad p = p \<lparr> pad_x := - pad_y p, pad_y := pad_x p, pad_width := pad_height p, pad_height := pad_width p,
     pad_hole_width := swapped_hole (pad_hole_width p) (pad_hole_height p),
     pad_hole_height := swapped_hole (pad_hole_height p) (pad_hole_width p) \<rparr>"

definition turn_drawing :: "component_evidence \<Rightarrow> component_evidence" where
  "turn_drawing e = e \<lparr> ce_pads := map turn_pad (ce_pads e) \<rparr>"

lemma swapped_twice [simp]: "swapped_hole (swapped_hole a b) (swapped_hole b a) = a"
  by (cases a; cases b) (simp_all add: swapped_hole_def)

lemma rotate_turned: "rotate_pad (turn_pad p) q = rotate_pad p (Suc q)"
proof -
  have "q mod 4 = 0 \<or> q mod 4 = 1 \<or> q mod 4 = 2 \<or> q mod 4 = 3" by presburger
  then show ?thesis by (elim disjE) (simp_all add: rotate_pad_def turn_pad_def Let_def mod_Suc)
qed

lemma geometry_turned: "normalized_geometry collate (turn_drawing e) q = normalized_geometry collate e (Suc q)"
  by (simp add: normalized_geometry_def turn_drawing_def rotate_turned comp_def)

lemma rotate_full: "rotate_pad p 4 = rotate_pad p 0"
  by (simp add: rotate_pad_def)

lemma geometry_full: "normalized_geometry collate e 4 = normalized_geometry collate e 0"
  by (simp add: normalized_geometry_def rotate_full)

text \<open>C29. The signature of a copper pattern does not depend on how the page is turned: with the rounding of
  its coordinates, the drawing turned by a quarter has the same signature.\<close>

theorem signature_of_turned_drawing:
  "physical_footprint_signature collate (turn_drawing e) = physical_footprint_signature collate e"
proof -
  let ?g = "normalized_geometry collate e"
  have "mset [?g 1, ?g 2, ?g 3, ?g 0] = mset [?g 0, ?g 1, ?g 2, ?g 3]" by simp
  then have "sort [?g 1, ?g 2, ?g 3, ?g 0] = sort [?g 0, ?g 1, ?g 2, ?g 3]"
    by (metis properties_for_sort mset_sort sorted_sort)
  moreover have "map (normalized_geometry collate (turn_drawing e)) [0, 1, 2, 3] = [?g 1, ?g 2, ?g 3, ?g 0]"
    using geometry_full [of collate e] by (simp add: geometry_turned numeral_2_eq_2 numeral_3_eq_3 eval_nat_numeral)
  ultimately show ?thesis by (simp only: physical_footprint_signature_def list.map)
qed

section \<open>Groups\<close>

definition same_signature :: "catalog_entry list \<Rightarrow> bool" where
  "same_signature g \<longleftrightarrow> g \<noteq> [] \<and> fv_signature ` set g = {fv_signature (hd g)}"

definition well_grouped :: "catalog_entry list list \<Rightarrow> bool" where
  "well_grouped gs \<longleftrightarrow> list_all same_signature gs \<and> distinct (map (\<lambda>g. fv_signature (hd g)) gs)"

lemma join_group_heads:
  "list_all same_signature gs \<Longrightarrow> map (\<lambda>g. fv_signature (hd g)) (join_group x gs) =
     (if fv_signature x \<in> set (map (\<lambda>g. fv_signature (hd g)) gs) then map (\<lambda>g. fv_signature (hd g)) gs
      else map (\<lambda>g. fv_signature (hd g)) gs @ [fv_signature x])"
  by (induction gs) (auto simp: same_signature_def)

lemma join_group_same: "list_all same_signature gs \<Longrightarrow> list_all same_signature (join_group x gs)"
  by (induction gs) (auto simp: same_signature_def)

lemma join_group_mset: "mset (concat (join_group x gs)) = add_mset x (mset (concat gs))"
  by (induction gs) simp_all

lemma grouped: "well_grouped (group_entries xs) \<and> mset (concat (group_entries xs)) = mset xs"
proof (induction xs rule: rev_induct)
  case (snoc x xs)
  have step: "group_entries (xs @ [x]) = join_group x (group_entries xs)" by (simp add: group_entries_def)
  from snoc show ?case
    by (simp add: step well_grouped_def join_group_same join_group_heads join_group_mset)
qed (simp add: group_entries_def well_grouped_def)

lemma group_count: "length (group_entries xs) \<le> length xs"
proof -
  have "length (join_group x gs) \<le> Suc (length gs)" for x gs by (induction gs) simp_all
  then show ?thesis unfolding group_entries_def by (induction xs rule: rev_induct) (simp_all, meson Suc_le_mono le_trans)
qed

section \<open>Entries and variants\<close>

lemma parsed_entry:
  assumes "parse_entry collate i v = Inr x"
  shows "proper_evidence (fv_evidence x) \<and> fv_signature x = physical_footprint_signature collate (fv_evidence x)"
proof -
  from assms obtain k e title aliases codes where e: "parse_component_evidence (field (Some v) ''component_evidence'') = Inr e"
    and x: "x = \<lparr> fv_id = k, fv_label = title, fv_aliases = sort_by collate (js_set (evidence_aliases k e @ aliases)),
              fv_ordering_codes = sort_by collate (js_set (evidence_ordering_codes e @ codes)),
              fv_evidence = e, fv_signature = physical_footprint_signature collate e \<rparr>"
    unfolding parse_entry_def parser_Inr by blast
  from e parsed_canonical have "proper_evidence e" by (simp add: parse_component_evidence_def)
  then show ?thesis by (simp add: x)
qed

lemma found: "find P xs = Some x \<Longrightarrow> x \<in> set xs \<and> P x"
  by (induction xs) (auto split: if_splits)

lemma sort_by_empty: "sort_by cmp xs = [] \<longleftrightarrow> xs = []"
  by (metis set_sort_by set_empty)

lemma preferred_member: "g \<noteq> [] \<Longrightarrow> preferred_entry collate d g \<in> set g"
proof (cases "find (\<lambda>x. fv_id x = d) g")
  case None
  assume "g \<noteq> []"
  then show ?thesis using hd_in_set [of "sort_by (\<lambda>x y. collate (fv_id x) (fv_id y)) g"]
    by (simp add: preferred_entry_def None sort_by_empty)
next
  case (Some x)
  then show ?thesis using found [OF Some] by (simp add: preferred_entry_def)
qed

lemma preferred_default:
  assumes "x \<in> set g" and "fv_id x = d"
  shows "fv_id (preferred_entry collate d g) = d"
proof (cases "find (\<lambda>x. fv_id x = d) g")
  case None
  with assms show ?thesis by (simp add: find_None_iff)
next
  case (Some y)
  then show ?thesis using found [OF Some] by (simp add: preferred_entry_def)
qed

lemma canonical_is_default: "canonical_default collate d gs = d"
proof -
  have "foldl (\<lambda>c g. if list_ex (\<lambda>x. fv_id x = d) g then fv_id (preferred_entry collate d g) else c) d gs = d"
    by (induction gs rule: rev_induct) (auto simp: list_ex_iff preferred_default)
  then show ?thesis by (simp add: canonical_default_def)
qed

lemma distinct_choices: "distinct (map f (concat gs)) \<Longrightarrow> (\<And>g. g \<in> set gs \<Longrightarrow> p g \<in> set g) \<Longrightarrow> distinct (map (\<lambda>g. f (p g)) gs)"
proof (induction gs)
  case (Cons g gs)
  have apart: "f ` set g \<inter> f ` set (concat gs) = {}" "distinct (map f (concat gs))" using Cons.prems(1) by simp_all
  have "p h \<in> set (concat gs)" if "h \<in> set gs" for h using Cons.prems(2) [of h] that by auto
  with apart(1) Cons.prems(2) [of g] have "f (p g) \<notin> (\<lambda>h. f (p h)) ` set gs" by (auto simp del: set_concat)
  moreover have "distinct (map (\<lambda>h. f (p h)) gs)" using Cons.IH apart(2) Cons.prems(2) by simp
  ultimately show ?case by simp
qed simp

lemma hd_sort_by:
  assumes "x \<in> set xs" and "\<And>y. cmp x y \<le> 0" and "\<And>y. y \<in> set xs \<Longrightarrow> y \<noteq> x \<Longrightarrow> 0 < cmp y x"
  shows "hd (sort_by cmp xs) = x"
  using assms
proof (induction xs)
  case (Cons z zs)
  show ?case
  proof (cases "z = x")
    case True
    then show ?thesis using Cons.prems(2) by (cases "foldr (insert_by cmp) zs []") (simp_all add: sort_by_def)
  next
    case False
    with Cons have "hd (sort_by cmp zs) = x" "sort_by cmp zs \<noteq> []" by (auto simp: sort_by_empty)
    moreover have "0 < cmp z x" using Cons.prems(3) [of z] False by simp
    ultimately show ?thesis by (cases "foldr (insert_by cmp) zs []") (simp_all add: sort_by_def)
  qed
qed simp

section \<open>The catalog\<close>

definition catalog_sound :: "(string \<Rightarrow> string \<Rightarrow> int) \<Rightarrow> footprint_catalog \<Rightarrow> bool" where
  "catalog_sound collate c \<longleftrightarrow>
     fc_footprints c \<noteq> [] \<and> length (fc_footprints c) \<le> max_footprint_variants
     \<and> get_default_footprint c = Inr (hd (fc_footprints c))
     \<and> distinct (map fv_id (fc_footprints c))
     \<and> distinct (map (physical_footprint_signature collate \<circ> fv_evidence) (fc_footprints c))
     \<and> list_all (proper_evidence \<circ> fv_evidence) (fc_footprints c)"

text \<open>An entry is covered by the footprint with its pattern, under its names and ordering codes.\<close>

definition catalog_covers :: "(string \<Rightarrow> string \<Rightarrow> int) \<Rightarrow> catalog_entry list \<Rightarrow> footprint_catalog \<Rightarrow> bool" where
  "catalog_covers collate entries c \<longleftrightarrow>
     (\<forall>x \<in> set entries. \<exists>y \<in> set (fc_footprints c).
        physical_footprint_signature collate (fv_evidence y) = fv_signature x
        \<and> set (fv_aliases x) \<subseteq> set (fv_aliases y) \<and> set (fv_ordering_codes x) \<subseteq> set (fv_ordering_codes y))"

lemma merged_catalog:
  assumes "catalog_of_entries collate d entries = Inr c"
    and entries: "\<And>x. x \<in> set entries \<Longrightarrow> proper_evidence (fv_evidence x) \<and> fv_signature x = physical_footprint_signature collate (fv_evidence x)"
    and "length entries \<le> max_footprint_variants"
  shows "catalog_sound collate c \<and> catalog_covers collate entries c \<and> fc_default c = d"
proof -
  define gs where "gs = group_entries entries"
  let ?v = "variant_of_group collate d" and ?p = "preferred_entry collate d"
  from assms(1) obtain x where ids: "distinct (map fv_id entries)" and "find (\<lambda>x. fv_id x = d) entries = Some x"
    and c: "c = \<lparr> fc_default = d, fc_footprints = sort_by (compare_variants collate d) (map ?v gs) \<rparr>"
    unfolding catalog_of_entries_def Let_def gs_def canonical_is_default some_then_Inr ok_then_Inr demand_Inr
      js_set_length_distinct by blast
  then have x: "x \<in> set entries" "fv_id x = d" using found [of "\<lambda>x. fv_id x = d" entries x] by simp_all
  have gs: "list_all same_signature gs" "distinct (map (\<lambda>g. fv_signature (hd g)) gs)" "mset (concat gs) = mset entries"
    using grouped [of entries] by (simp_all add: gs_def well_grouped_def)
  have group: "g \<noteq> []" "?p g \<in> set g" "set g \<subseteq> set entries" "y \<in> set g \<Longrightarrow> fv_signature y = fv_signature (hd g)" if "g \<in> set gs" for g y
    using that gs(1) mset_eq_setD [OF gs(3)] preferred_member [of g]
    by (auto simp: list_all_iff same_signature_def)
  have signature: "physical_footprint_signature collate (fv_evidence (?v g)) = fv_signature (hd g)"
    "proper_evidence (fv_evidence (?v g))" if "g \<in> set gs" for g
    using entries [of "?p g"] group(2,3) [OF that] group(4) [OF that group(2) [OF that]]
    by (simp_all add: variant_of_group_def Let_def subset_iff)
  have fields: "fc_footprints c = sort_by (compare_variants collate d) (map ?v gs)" "fc_default c = d" by (simp_all add: c)
  have "mset (map fv_id (concat gs)) = mset (map fv_id entries)" by (simp only: mset_map gs(3))
  then have "distinct (map fv_id (concat gs))" using ids mset_eq_imp_distinct_iff by blast
  then have "distinct (map (\<lambda>g. fv_id (?p g)) gs)" using group(2) by (rule distinct_choices)
  then have distinct_ids: "distinct (map fv_id (map ?v gs))" by (simp add: variant_of_group_def Let_def comp_def)
  have "map (physical_footprint_signature collate \<circ> fv_evidence) (map ?v gs) = map (\<lambda>g. fv_signature (hd g)) gs"
    using signature(1) by simp
  with gs(2) have distinct_signatures: "distinct (map (physical_footprint_signature collate \<circ> fv_evidence) (map ?v gs))" by (simp only:)
  from x(1) obtain g where g: "g \<in> set gs" "x \<in> set g" using mset_eq_setD [OF gs(3)] by auto
  then have default: "?v g \<in> set (map ?v gs)" by simp
  have default_id: "fv_id (?v g) = d" using preferred_default [OF g(2) x(2)] by (simp add: variant_of_group_def Let_def)
  have others: "y = ?v g" if "y \<in> set (map ?v gs)" "fv_id y = d" for y
    using that default default_id distinct_ids by (metis (mono_tags, lifting) distinct_map inj_onD)
  have first: "hd (fc_footprints c) = ?v g"
    unfolding fields by (rule hd_sort_by [OF default]) (use default_id others in \<open>auto simp: compare_variants_def\<close>)
  have nonempty: "fc_footprints c \<noteq> []" using g(1) by (auto simp: fields sort_by_empty)
  have found: "find (\<lambda>y. fv_id y = fc_default c) (fc_footprints c) = Some (hd (fc_footprints c))"
    using nonempty first default_id by (cases "fc_footprints c") (simp_all add: fields(2))
  have "length (fc_footprints c) = length gs" by (metis fields(1) length_map mset_map size_mset sort_by_mset)
  with group_count [of entries] assms(3) have count: "length (fc_footprints c) \<le> max_footprint_variants" by (simp add: gs_def)
  have sound: "catalog_sound collate c"
    unfolding catalog_sound_def get_default_footprint_def found
    using nonempty count distinct_ids distinct_signatures signature(2)
    by (simp add: fields set_map_sort_by list_all_iff del: map_map)
  have "catalog_covers collate entries c"
    unfolding catalog_covers_def
  proof (intro ballI)
    fix y assume "y \<in> set entries"
    then obtain h where h: "h \<in> set gs" "y \<in> set h" using mset_eq_setD [OF gs(3)] by auto
    then show "\<exists>z \<in> set (fc_footprints c). physical_footprint_signature collate (fv_evidence z) = fv_signature y
        \<and> set (fv_aliases y) \<subseteq> set (fv_aliases z) \<and> set (fv_ordering_codes y) \<subseteq> set (fv_ordering_codes z)"
      using signature(1) [OF h(1)] group(4) [OF h]
      by (intro bexI [of _ "?v h"]) (auto simp: fields variant_of_group_def Let_def)
  qed
  with sound show ?thesis by (simp add: fields)
qed

text \<open>C28. A catalog that is parsed is sound: its default is one of its footprints, the first; it has at most 24,
  no two with the same name or the same copper pattern, all with well-formed evidence; and every
  entry is covered by the footprint with its pattern, which keeps its names and ordering codes.\<close>

theorem parsed_catalog_sound:
  "case parse_footprint_catalog collate v of
     Inl message \<Rightarrow> True
   | Inr c \<Rightarrow>
       catalog_sound collate c
       \<and> (\<exists>xs entries. field v ''footprints'' = Some (JArr xs) \<and> parse_items (parse_entry collate) xs = Inr entries
            \<and> catalog_covers collate entries c)"
proof (cases "parse_footprint_catalog collate v")
  case (Inr c)
  then obtain d xs entries where parts: "parse_items (parse_entry collate) xs = Inr entries" "catalog_of_entries collate d entries = Inr c"
    and xs: "field v ''footprints'' = Some (JArr xs)" "length xs \<le> max_footprint_variants"
    unfolding parse_footprint_catalog_def parser_Inr by (auto split: option.splits if_splits)
  have each: "proper_evidence (fv_evidence x) \<and> fv_signature x = physical_footprint_signature collate (fv_evidence x)"
    if "x \<in> set entries" for x
    using that parts(1) parsed_entry by (auto simp: parse_items_Inr in_set_conv_nth)
  have "length entries \<le> max_footprint_variants" using parts(1) xs(2) by (simp add: parse_items_Inr)
  from merged_catalog [OF parts(2) each this] parts(1) xs(1) Inr show ?thesis by auto
qed simp

end
