(* ===== verification/Pin_Mapping.thy ===== *)
theory Pin_Mapping
  imports Evidence_Data
begin

text \<open>
  The numbers that the pins of a part get in the compiler of circuits, with a hint that carries the
  physical pin through it, \<open>src/server/component-evidence/tscircuit-pin-mapping.ts\<close>. The hint is the
  hexadecimal text of the bytes of the pin; what is decoded is a list of code points, since bytes
  may stand for characters that the model's strings do not have.
\<close>

section \<open>Bytes\<close>

definition utf8_bytes :: "nat \<Rightarrow> nat list" where
  "utf8_bytes c =
     (if c < 0x80 then [c]
      else if c < 0x800 then [0xC0 + c div 64, 0x80 + c mod 64]
      else if c < 0x10000 then [0xE0 + c div 4096, 0x80 + c div 64 mod 64, 0x80 + c mod 64]
      else [0xF0 + c div 262144, 0x80 + c div 4096 mod 64, 0x80 + c div 64 mod 64, 0x80 + c mod 64])"

definition continuation :: "nat \<Rightarrow> nat \<Rightarrow> nat \<Rightarrow> bool" where
  "continuation lo hi b \<longleftrightarrow> lo \<le> b \<and> b \<le> hi"

text \<open>The decoder with the option \<open>fatal\<close>: no overlong forms, no surrogates, nothing above the last code
  point, nothing cut short.\<close>

fun utf8_decode :: "nat list \<Rightarrow> nat list option" where
  "utf8_decode [] = Some []"
| "utf8_decode (b # bs) =
     (if b < 0x80 then map_option ((#) b) (utf8_decode bs)
      else if 0xC2 \<le> b \<and> b \<le> 0xDF then
        (case bs of
           c # cs \<Rightarrow>
             if continuation 0x80 0xBF c
             then map_option ((#) ((b - 0xC0) * 64 + (c - 0x80))) (utf8_decode cs) else None
         | _ \<Rightarrow> None)
      else if 0xE0 \<le> b \<and> b \<le> 0xEF then
        (case bs of
           c # d # ds \<Rightarrow>
             if continuation (if b = 0xE0 then 0xA0 else 0x80) (if b = 0xED then 0x9F else 0xBF) c
               \<and> continuation 0x80 0xBF d
             then map_option ((#) ((b - 0xE0) * 4096 + (c - 0x80) * 64 + (d - 0x80))) (utf8_decode ds) else None
         | _ \<Rightarrow> None)
      else if 0xF0 \<le> b \<and> b \<le> 0xF4 then
        (case bs of
           c # d # e # es \<Rightarrow>
             if continuation (if b = 0xF0 then 0x90 else 0x80) (if b = 0xF4 then 0x8F else 0xBF) c
               \<and> continuation 0x80 0xBF d \<and> continuation 0x80 0xBF e
             then map_option ((#) ((b - 0xF0) * 262144 + (c - 0x80) * 4096 + (d - 0x80) * 64 + (e - 0x80))) (utf8_decode es)
             else None
         | _ \<Rightarrow> None)
      else None)"

text \<open>A byte order mark at the start is dropped.\<close>

definition without_mark :: "nat list \<Rightarrow> nat list" where
  "without_mark cs = (case cs of c # rest \<Rightarrow> if c = 0xFEFF then rest else cs | [] \<Rightarrow> [])"

section \<open>Hints\<close>

definition hint_prefix :: string where
  "hint_prefix = ''__physical_pin__''"

definition byte_hex :: "nat \<Rightarrow> string" where
  "byte_hex b = [hex_digit (b div 16), hex_digit (b mod 16)]"

definition encode_physical_pin :: "string \<Rightarrow> string" where
  "encode_physical_pin s = concat (map byte_hex (concat (map utf8_bytes (map of_char s))))"

definition physical_pin_hint :: "string \<Rightarrow> string" where
  "physical_pin_hint s = hint_prefix @ encode_physical_pin s"

definition hex_value :: "char \<Rightarrow> nat option" where
  "hex_value c =
     (if is_digit c then Some (of_char c - 48)
      else if char_between CHR ''a'' CHR ''f'' c then Some (of_char c - 87)
      else if char_between CHR ''A'' CHR ''F'' c then Some (of_char c - 55)
      else None)"

fun hex_bytes :: "string \<Rightarrow> nat list option" where
  "hex_bytes [] = Some []"
| "hex_bytes [c] = None"
| "hex_bytes (c # d # s) =
     (case (hex_value c, hex_value d, hex_bytes s) of
        (Some x, Some y, Some bs) \<Rightarrow> Some ((16 * x + y) # bs)
      | _ \<Rightarrow> None)"

definition decode_physical_pin :: "string \<Rightarrow> nat list option" where
  "decode_physical_pin v =
     (if \<not> prefix hint_prefix v then None
      else
        (let encoded = drop (length hint_prefix) v in
         if encoded = [] then None
         else
           (case hex_bytes encoded of
              None \<Rightarrow> None
            | Some bs \<Rightarrow> map_option without_mark (utf8_decode bs))))"

fun physical_pin_from_hints :: "string list \<Rightarrow> nat list option" where
  "physical_pin_from_hints [] = None"
| "physical_pin_from_hints (h # hs) =
     (case decode_physical_pin h of Some p \<Rightarrow> Some p | None \<Rightarrow> physical_pin_from_hints hs)"

section \<open>Numbers\<close>

record pin_mapping =
  pm_physical_pin :: string
  pm_number :: jsnum
  pm_hint :: string

definition without_pin :: "string \<Rightarrow> string" where
  "without_pin s = (if lower_text (take 3 s) = ''pin'' then drop 3 s else s)"

definition positive_digits :: "string \<Rightarrow> bool" where
  "positive_digits s \<longleftrightarrow> s \<noteq> [] \<and> list_all is_digit s \<and> hd s \<noteq> CHR ''0''"

definition numeric_pin :: "string \<Rightarrow> jsnum option" where
  "numeric_pin number =
     (let digits = without_pin (js_trim number) in
      if positive_digits digits then Some (to_double (of_nat (digits_value digits))) else None)"

definition safe_integer :: "jsnum option \<Rightarrow> bool" where
  "safe_integer v = (case v of Some (Fin x) \<Rightarrow> x = of_int \<lfloor>x\<rfloor> \<and> \<bar>x\<bar> \<le> max_safe_number | _ \<Rightarrow> False)"

definition numeric_pins :: "component_evidence \<Rightarrow> jsnum option list" where
  "numeric_pins e = map (\<lambda>p. numeric_pin (pin_number p)) (ce_pins e)"

definition preserve_numeric_numbers :: "component_evidence \<Rightarrow> bool" where
  "preserve_numeric_numbers e \<longleftrightarrow>
     list_all safe_integer (numeric_pins e) \<and> length (js_set (numeric_pins e)) = length (numeric_pins e)"

definition create_pin_mappings :: "component_evidence \<Rightarrow> pin_mapping list" where
  "create_pin_mappings e =
     map (\<lambda>(i, p). \<lparr> pm_physical_pin = pin_number p,
         pm_number = (if preserve_numeric_numbers e then the (numeric_pins e ! i) else Fin (of_nat (i + 1))),
         pm_hint = physical_pin_hint (pin_number p) \<rparr>) (enumerate 0 (ce_pins e))"

declare utf8_decode.simps(2) [simp del]

section \<open>The hint is read back\<close>

lemma hex_digit_value: "n < 16 \<Longrightarrow> hex_value (hex_digit n) = Some n"
  by (auto simp: hex_value_def hex_digit_def is_digit_def char_between_def less_eq_char_def of_char_of)

lemma hex_bytes_append: "list_all (\<lambda>b. b < 256) bs \<Longrightarrow> hex_bytes (concat (map byte_hex bs)) = Some bs"
proof (induction bs)
  case (Cons b bs)
  then have "b div 16 < 16" "b mod 16 < 16" by (simp_all add: less_mult_imp_div_less)
  with Cons show ?case by (simp add: byte_hex_def hex_digit_value)
qed simp

lemma utf8_bytes_small: "c < 256 \<Longrightarrow> list_all (\<lambda>b. b < 256) (utf8_bytes c)"
  by (auto simp: utf8_bytes_def)

lemma utf8_decode_plain: "c < 0x80 \<Longrightarrow> utf8_decode (c # bs) = map_option ((#) c) (utf8_decode bs)"
  by (subst utf8_decode.simps) simp

lemma utf8_decode_pair: "0xC2 \<le> b \<Longrightarrow> b \<le> 0xDF \<Longrightarrow> continuation 0x80 0xBF c \<Longrightarrow>
    utf8_decode (b # c # bs) = map_option ((#) ((b - 0xC0) * 64 + (c - 0x80))) (utf8_decode bs)"
  by (subst utf8_decode.simps) simp

lemma utf8_decode_small:
  assumes "c < 256"
  shows "utf8_decode (utf8_bytes c @ bs) = map_option ((#) c) (utf8_decode bs)"
proof (cases "c < 0x80")
  case False
  then have "2 \<le> c div 64" using div_le_mono [of 128 c 64] by simp
  moreover have "c div 64 \<le> 3" using assms div_le_mono [of c 255 64] by simp
  ultimately have "utf8_decode ((0xC0 + c div 64) # (0x80 + c mod 64) # bs) = map_option ((#) c) (utf8_decode bs)"
    using mod_less_divisor [of 64 c]
    by (subst utf8_decode_pair) (simp_all add: continuation_def del: mod_less_divisor)
  with False assms show ?thesis by (simp add: utf8_bytes_def)
qed (simp add: utf8_bytes_def utf8_decode_plain)

lemma of_char_small: "of_char (c :: char) < (256 :: nat)"
  by (rule nat_of_char_less_256)

lemma utf8_text: "utf8_decode (concat (map utf8_bytes (map of_char s))) = Some (map of_char s)"
  by (induction s) (simp_all add: utf8_decode_small of_char_small)

lemma no_mark: "without_mark (map of_char s) = map of_char s"
proof (cases s)
  case (Cons c rest)
  have "of_char c \<noteq> (0xFEFF :: nat)" using of_char_small [of c] by linarith
  with Cons show ?thesis by (simp add: without_mark_def)
qed (simp add: without_mark_def)

lemma encode_empty: "encode_physical_pin s = [] \<longleftrightarrow> s = []"
  by (cases s) (auto simp: encode_physical_pin_def utf8_bytes_def byte_hex_def)

lemma hint_decoded: "decode_physical_pin (physical_pin_hint s) = (if s = [] then None else Some (map of_char s))"
proof -
  have "list_all (\<lambda>b. b < 256) (concat (map utf8_bytes (map of_char s)))"
    using utf8_bytes_small [OF of_char_small] by (auto simp: list_all_iff)
  then have "hex_bytes (encode_physical_pin s) = Some (concat (map utf8_bytes (map of_char s)))"
    by (simp only: encode_physical_pin_def hex_bytes_append)
  then show ?thesis
    by (simp add: decode_physical_pin_def physical_pin_hint_def Let_def encode_empty utf8_text no_mark del: map_map)
qed

section \<open>Numbers are positive\<close>

lemma digits_positive:
  assumes "positive_digits s"
  shows "1 \<le> digits_value s"
proof -
  from assms obtain c rest where s: "s = c # rest" "is_digit c" "c \<noteq> CHR ''0''" by (cases s) (auto simp: positive_digits_def)
  have "of_char CHR ''0'' = (48 :: nat)" by simp
  with s(3) have "of_char c \<noteq> (48 :: nat)" by (metis of_char_eq_iff)
  with s(2) have "1 \<le> digit_value c"
    by (simp add: is_digit_def char_between_def less_eq_char_def digit_value_def) linarith
  then have "1 \<le> digits_value [c]" by (simp add: digits_value_def)
  then have "1 \<le> digits_value [c] * 10 ^ length rest" using mult_le_mono [of 1 "digits_value [c]" 1 "10 ^ length rest"] by simp
  moreover have "digits_value s = digits_value [c] * 10 ^ length rest + digits_value rest"
    using digits_value_append [of "[c]" rest] s(1) by simp
  ultimately show ?thesis by linarith
qed

lemma safe_number:
  assumes "safe_integer (numeric_pin s)"
  shows "\<exists>n > 0. numeric_pin s = Some (Fin (of_nat n))"
proof -
  from assms obtain x where x: "numeric_pin s = Some (Fin x)" "x = of_int \<lfloor>x\<rfloor>"
    by (auto simp: safe_integer_def split: option.splits jsnum.splits)
  from x(1) obtain d where d: "positive_digits d" "to_double (of_nat (digits_value d)) = Fin x"
    by (auto simp: numeric_pin_def Let_def split: if_splits)
  have "grid 1" unfolding grid_def by (rule exI [of _ 1], rule exI [of _ 0]) simp
  moreover have "(1 :: rat) \<le> of_nat (digits_value d)" using digits_positive [OF d(1)] by simp
  ultimately have "1 \<le> x" using rounded_above to_double_Fin [OF d(2)] by blast
  then have "0 < \<lfloor>x\<rfloor>" by simp
  then have "0 < nat \<lfloor>x\<rfloor>" "of_nat (nat \<lfloor>x\<rfloor>) = x" using x(2) by simp_all
  with x(1) show ?thesis by metis
qed

text \<open>C31. The pins of a part keep apart through the compiler of circuits: their mappings are in the order of
  the pins, no two have the same number, the numbers are whole and positive, and the hint of each
  is decoded to the physical pin itself.\<close>

theorem pin_mappings_faithful:
  "map pm_physical_pin (create_pin_mappings e) = map pin_number (ce_pins e)
   \<and> distinct (map pm_number (create_pin_mappings e))
   \<and> set (map pm_number (create_pin_mappings e)) \<subseteq> {Fin (of_nat n) | n. 0 < n}
   \<and> map (\<lambda>m. decode_physical_pin (pm_hint m)) (create_pin_mappings e)
     = map (\<lambda>p. if pin_number p = [] then None else Some (map of_char (pin_number p))) (ce_pins e)"
proof -
  have ordered: "map pm_physical_pin (create_pin_mappings e) = map pin_number (ce_pins e)"
    "map (\<lambda>m. decode_physical_pin (pm_hint m)) (create_pin_mappings e)
     = map (\<lambda>p. if pin_number p = [] then None else Some (map of_char (pin_number p))) (ce_pins e)"
    by (auto simp: create_pin_mappings_def nth_enumerate_eq hint_decoded intro!: nth_equalityI)
  show ?thesis
  proof (cases "preserve_numeric_numbers e")
    case True
    then have pins: "list_all safe_integer (numeric_pins e)" "distinct (numeric_pins e)"
      by (simp_all add: preserve_numeric_numbers_def js_set_length_distinct)
    have numbers: "map pm_number (create_pin_mappings e) = map the (numeric_pins e)"
      using True by (auto simp: create_pin_mappings_def nth_enumerate_eq numeric_pins_def intro!: nth_equalityI)
    have each: "\<exists>n > 0. v = Some (Fin (of_nat n))" if "v \<in> set (numeric_pins e)" for v
      using pins(1) that safe_number by (auto simp: numeric_pins_def list_all_iff)
    then have "distinct (map the (numeric_pins e))"
      using pins(2) by (auto simp: distinct_map intro!: inj_onI dest!: each)
    moreover have "set (map the (numeric_pins e)) \<subseteq> {Fin (of_nat n) | n. 0 < n}" using each by fastforce
    ultimately show ?thesis using ordered by (simp only: numbers)
  next
    case False
    have numbers: "map pm_number (create_pin_mappings e) = map (\<lambda>i. Fin (of_nat (Suc i))) [0..<length (ce_pins e)]"
      using False by (auto simp: create_pin_mappings_def nth_enumerate_eq intro!: nth_equalityI)
    have "distinct (map (\<lambda>i. Fin (of_nat (Suc i))) [0..<length (ce_pins e)])" by (simp add: distinct_map inj_on_def)
    moreover have "set (map (\<lambda>i. Fin (of_nat (Suc i))) [0..<length (ce_pins e)]) \<subseteq> {Fin (of_nat n) | n. 0 < n}"
      by (auto simp del: of_nat_Suc)
    ultimately show ?thesis using ordered by (simp only: numbers)
  qed
qed

end
