(* ===== verification/Pinout_Agreement.thy ===== *)
theory Pinout_Agreement
  imports Pin_Mapping Evidence_Checks
begin

text \<open>
  The agreement of a compiled circuit with the pins of the evidence,
  \<open>src/server/component-evidence/get-pinout-evidence-errors.ts\<close>, and the normal form of electrical pin labels,
  \<open>src/server/pin-label-normalization.ts\<close>. The circuit is the JSON that the compiler of circuits returns.
\<close>

section \<open>Electrical labels\<close>

text \<open>The compatibility form of the characters below 256; what leaves that range is no letter and no digit
  and separates, like the blank it is replaced by here.\<close>

definition compatible_char :: "char \<Rightarrow> string" where
  "compatible_char c =
     (if c = CHR 0xAA then ''a'' else if c = CHR 0xBA then ''o''
      else if c = CHR 0xB9 then ''1'' else if c = CHR 0xB2 then ''2'' else if c = CHR 0xB3 then ''3''
      else if c = CHR 0xBC then ''1/4'' else if c = CHR 0xBD then ''1/2'' else if c = CHR 0xBE then ''3/4''
      else if c \<in> set [CHR 0xA0, CHR 0xA8, CHR 0xAF, CHR 0xB4, CHR 0xB5, CHR 0xB8] then '' ''
      else [c])"

definition spell_plus :: "string \<Rightarrow> string" where
  "spell_plus s = concat (map (\<lambda>c. if c = CHR ''+'' then '' pos '' else [c]) s)"

definition spell_final_minus :: "string \<Rightarrow> string" where
  "spell_final_minus s = (if s \<noteq> [] \<and> last s = CHR ''-'' then butlast s @ '' neg '' else s)"

definition label_tokens :: "string \<Rightarrow> string list" where
  "label_tokens s = filter (\<lambda>t. t \<noteq> []) (split_char CHR '' '' (map (\<lambda>c. if lower_alnum c then c else CHR '' '') s))"

definition token_form :: "nat \<Rightarrow> nat \<Rightarrow> string \<Rightarrow> string" where
  "token_form n i t =
     (if t \<in> set [''negative'', ''neg'', ''minus''] then ''neg''
      else if t \<in> set [''positive'', ''pos'', ''plus''] then ''pos''
      else if i + 1 = n \<and> 1 < n \<and> t = ''n'' then ''neg''
      else if i + 1 = n \<and> 1 < n \<and> t = ''p'' then ''pos''
      else t)"

definition normalize_electrical_pin_label :: "string \<Rightarrow> string" where
  "normalize_electrical_pin_label s =
     (let tokens = label_tokens (spell_final_minus (spell_plus (lower_text (concat (map compatible_char (js_trim s)))))) in
      concat (map (\<lambda>(i, t). token_form (length tokens) i t) (enumerate 0 tokens)))"

section \<open>Ports\<close>

definition elements_of_type :: "string \<Rightarrow> json list \<Rightarrow> json list" where
  "elements_of_type ty circuit = filter (\<lambda>el. field (Some el) ''type'' = Some (JStr ty)) circuit"

definition as_string_array :: "json option \<Rightarrow> string list" where
  "as_string_array v =
     (case array_value v of
        None \<Rightarrow> []
      | Some xs \<Rightarrow> concat (map (\<lambda>x. case x of JStr s \<Rightarrow> [s] | _ \<Rightarrow> []) xs))"

text \<open>\<open>String\<close> of a value of JSON.\<close>

fun js_string :: "json \<Rightarrow> string" where
  "js_string JNull = ''null''"
| "js_string (JBool b) = (if b then ''true'' else ''false'')"
| "js_string (JNum x) = number_text x"
| "js_string (JStr s) = s"
| "js_string (JArr xs) = join_with '','' (map (\<lambda>x. if x = JNull then [] else js_string x) xs)"
| "js_string (JObj m) = ''[object Object]''"

definition port_hints :: "json \<Rightarrow> string list" where
  "port_hints port = as_string_array (field (Some port) ''port_hints'')"

definition number_aliases :: "json \<Rightarrow> string list" where
  "number_aliases port =
     (case field (Some port) ''pin_number'' of
        Some (JNum x) \<Rightarrow> number_text x
      | Some (JStr s) \<Rightarrow> s
      | _ \<Rightarrow> []) # port_hints port"

definition exact_candidates :: "json list \<Rightarrow> pin_evidence \<Rightarrow> nat list \<Rightarrow> nat list" where
  "exact_candidates ports p unmatched =
     filter (\<lambda>i. physical_pin_hint (pin_number p) \<in> set (port_hints (ports ! i))) unmatched"

definition port_candidates :: "json list \<Rightarrow> pin_evidence \<Rightarrow> nat list \<Rightarrow> nat list" where
  "port_candidates ports p unmatched =
     (if exact_candidates ports p unmatched \<noteq> [] then exact_candidates ports p unmatched
      else filter (\<lambda>i. list_ex (\<lambda>a. normalize_pin a = normalize_pin (pin_number p)) (number_aliases (ports ! i))) unmatched)"

definition actual_labels :: "json \<Rightarrow> string list" where
  "actual_labels port =
     map normalize_electrical_pin_label
       ((case field (Some port) ''name'' of Some (JStr s) \<Rightarrow> s | _ \<Rightarrow> []) # port_hints port)"

definition flag :: "json \<Rightarrow> string \<Rightarrow> bool" where
  "flag port attribute \<longleftrightarrow> field (Some port) attribute = Some (JBool True)"

definition bool_text :: "bool \<Rightarrow> string" where
  "bool_text b = (if b then ''true'' else ''false'')"

definition role_errors :: "pin_evidence \<Rightarrow> json \<Rightarrow> string \<Rightarrow> bool \<Rightarrow> string list" where
  "role_errors p port attribute expected =
     report (flag port attribute \<noteq> expected)
       (''pin '' @ pin_number p @ '' role '' @ role_text (pin_role_of p) @ '' requires '' @ attribute @ ''=''
         @ bool_text expected @ '', found '' @ bool_text (flag port attribute))"

definition open_drain_expected :: "pin_evidence \<Rightarrow> bool" where
  "open_drain_expected p \<longleftrightarrow> (case pin_attributes p of Some a \<Rightarrow> ea_open_drain a = Some True | None \<Rightarrow> False)"

definition open_drain_errors :: "pin_evidence \<Rightarrow> json \<Rightarrow> string \<Rightarrow> string list" where
  "open_drain_errors p port attribute =
     report (flag port attribute \<noteq> open_drain_expected p)
       (''pin '' @ pin_number p @ '' open-drain evidence requires '' @ attribute @ ''='' @ bool_text (open_drain_expected p)
         @ '', found '' @ bool_text (flag port attribute))"

definition port_errors :: "pin_evidence \<Rightarrow> json \<Rightarrow> string list" where
  "port_errors p port =
     report (\<not> list_all (\<lambda>l. normalize_electrical_pin_label l \<in> set (actual_labels port)) (pin_labels p))
       (''pin '' @ pin_number p @ '' labels '' @ join_with ''/'' (pin_labels p) @ '' are absent from its Circuit JSON port'')
     @ role_errors p port ''requires_power'' (pin_role_of p = PowerInput)
     @ role_errors p port ''provides_power'' (pin_role_of p = PowerOutput)
     @ role_errors p port ''requires_ground'' (pin_role_of p = GroundPin)
     @ open_drain_errors p port ''can_use_open_drain'' @ open_drain_errors p port ''is_using_open_drain''"

definition defined_value :: "json option \<Rightarrow> json option" where
  "defined_value v = (if v = Some JNull then None else v)"

definition unexpected_port :: "nat \<Rightarrow> json \<Rightarrow> string" where
  "unexpected_port i port =
     ''Circuit JSON has unexpected source port '' @
       (case defined_value (field (Some port) ''name'') of
          Some v \<Rightarrow> js_string v
        | None \<Rightarrow>
            (case defined_value (field (Some port) ''pin_number'') of
               Some v \<Rightarrow> js_string v
             | None \<Rightarrow> nat_str (i + 1)))"

fun compare_pins :: "json list \<Rightarrow> pin_evidence list \<Rightarrow> nat list \<Rightarrow> string list" where
  "compare_pins ports [] unmatched = map (\<lambda>i. unexpected_port i (ports ! i)) unmatched"
| "compare_pins ports (p # ps) unmatched =
     (case port_candidates ports p unmatched of
        [i] \<Rightarrow> port_errors p (ports ! i) @ compare_pins ports ps (remove1 i unmatched)
      | is \<Rightarrow> (''evidence pin '' @ pin_number p @ '' resolved to '' @ nat_str (length is) @ '' Circuit JSON ports'')
                # compare_pins ports ps unmatched)"

definition expected_part_number :: "component_evidence \<Rightarrow> string" where
  "expected_part_number e = (case ce_ordering_code e of Some c \<Rightarrow> ef_value c | None \<Rightarrow> ef_value (ce_part_number e))"

definition actual_part_number :: "json \<Rightarrow> string" where
  "actual_part_number el = (case field (Some el) ''manufacturer_part_number'' of Some (JStr s) \<Rightarrow> s | _ \<Rightarrow> [])"

definition component_errors :: "component_evidence \<Rightarrow> json list \<Rightarrow> string list" where
  "component_errors e components =
     (case components of
        [el] \<Rightarrow>
          report (normalize_text (actual_part_number el) \<noteq> normalize_text (expected_part_number e))
            (''component manufacturer part number ''
              @ (if actual_part_number el = [] then ''is missing'' else actual_part_number el)
              @ ''; expected '' @ expected_part_number e)
      | _ \<Rightarrow> [''expected exactly one Circuit JSON source component, found '' @ nat_str (length components)])"

definition get_pinout_evidence_errors :: "component_evidence \<Rightarrow> json list \<Rightarrow> string list" where
  "get_pinout_evidence_errors e circuit =
     (let ports = elements_of_type ''source_port'' circuit in
      component_errors e (elements_of_type ''source_component'' circuit)
      @ compare_pins ports (ce_pins e) [0..<length ports])"

section \<open>Agreement\<close>

text \<open>A port serves a pin: it is identified by the hint or by a number, it carries every label of the pin,
  it is powered as the role of the pin says, and it is an open drain as the evidence says.\<close>

definition serves :: "pin_evidence \<Rightarrow> json \<Rightarrow> bool" where
  "serves p port \<longleftrightarrow>
     (physical_pin_hint (pin_number p) \<in> set (port_hints port)
      \<or> (\<exists>a \<in> set (number_aliases port). normalize_pin a = normalize_pin (pin_number p)))
     \<and> normalize_electrical_pin_label ` set (pin_labels p) \<subseteq> set (actual_labels port)
     \<and> flag port ''requires_power'' = (pin_role_of p = PowerInput)
     \<and> flag port ''provides_power'' = (pin_role_of p = PowerOutput)
     \<and> flag port ''requires_ground'' = (pin_role_of p = GroundPin)
     \<and> flag port ''can_use_open_drain'' = open_drain_expected p
     \<and> flag port ''is_using_open_drain'' = open_drain_expected p"

lemma report_none: "report b message = [] \<longleftrightarrow> \<not> b"
  by (simp add: report_def)

lemma port_candidates_in: "i \<in> set (port_candidates ports p unmatched) \<Longrightarrow> i \<in> set unmatched \<and>
    (physical_pin_hint (pin_number p) \<in> set (port_hints (ports ! i))
     \<or> (\<exists>a \<in> set (number_aliases (ports ! i)). normalize_pin a = normalize_pin (pin_number p)))"
  by (auto simp: port_candidates_def exact_candidates_def list_ex_iff split: if_splits)

lemma port_errors_none: "port_errors p port = [] \<Longrightarrow>
    physical_pin_hint (pin_number p) \<in> set (port_hints port)
      \<or> (\<exists>a \<in> set (number_aliases port). normalize_pin a = normalize_pin (pin_number p)) \<Longrightarrow> serves p port"
  unfolding port_errors_def role_errors_def open_drain_errors_def append_is_Nil_conv report_none
  by (simp add: serves_def list_all_iff image_subset_iff)

lemma compared_pins:
  "compare_pins ports ps unmatched = [] \<Longrightarrow> \<exists>js. mset js = mset unmatched \<and> list_all2 (\<lambda>p j. serves p (ports ! j)) ps js"
proof (induction ps arbitrary: unmatched)
  case (Cons p ps)
  then obtain i where i: "port_candidates ports p unmatched = [i]" by (auto split: list.splits)
  with Cons.prems have none: "port_errors p (ports ! i) = []" "compare_pins ports ps (remove1 i unmatched) = []" by simp_all
  have "i \<in> set unmatched" "serves p (ports ! i)"
    using port_candidates_in [of i ports p unmatched] port_errors_none [OF none(1)] by (simp_all add: i)
  moreover from Cons.IH [OF none(2)] obtain js where "mset js = mset (remove1 i unmatched)"
      "list_all2 (\<lambda>p j. serves p (ports ! j)) ps js" by blast
  ultimately show ?case by (intro exI [of _ "i # js"]) simp
qed simp

text \<open>C27. A circuit without errors has the part and its pins: one component with the part number of the
  evidence, and for every pin a port of its own that serves it, with none left over.\<close>

theorem pinout_agreement_sound:
  assumes "get_pinout_evidence_errors e circuit = []"
  shows "\<exists>el paired. elements_of_type ''source_component'' circuit = [el]
    \<and> normalize_text (actual_part_number el) = normalize_text (expected_part_number e)
    \<and> mset paired = mset (elements_of_type ''source_port'' circuit) \<and> list_all2 serves (ce_pins e) paired"
proof -
  let ?ports = "elements_of_type ''source_port'' circuit"
  from assms have none: "component_errors e (elements_of_type ''source_component'' circuit) = []"
      "compare_pins ?ports (ce_pins e) [0..<length ?ports] = []"
    by (simp_all add: get_pinout_evidence_errors_def Let_def)
  from none(1) obtain el where el: "elements_of_type ''source_component'' circuit = [el]"
      "normalize_text (actual_part_number el) = normalize_text (expected_part_number e)"
    by (auto simp: component_errors_def report_none split: list.splits)
  from compared_pins [OF none(2)] obtain js where js: "mset js = mset [0..<length ?ports]"
      "list_all2 (\<lambda>p j. serves p (?ports ! j)) (ce_pins e) js" by blast
  from js(1) have "mset (map ((!) ?ports) js) = mset (map ((!) ?ports) [0..<length ?ports])" by (simp only: mset_map)
  then have "mset (map ((!) ?ports) js) = mset ?ports" by (simp only: map_nth)
  moreover from js(2) have "list_all2 serves (ce_pins e) (map ((!) ?ports) js)" by (simp add: list_all2_map2)
  ultimately show ?thesis using el by blast
qed

definition sample_part :: component_evidence where
  "sample_part = \<lparr> ce_status = Resolved, ce_part_number = \<lparr> ef_value = ''AB-1'', ef_sources = [] \<rparr>, ce_ordering_code = None,
     ce_package_name = \<lparr> ef_value = ''SOT'', ef_sources = [] \<rparr>, ce_package_code = None,
     ce_pin_count = \<lparr> ef_value = 2, ef_sources = [] \<rparr>,
     ce_pins = [\<lparr> pin_number = ''1'', pin_labels = [''IN-''], pin_role_of = InputPin, pin_attributes = None,
        pin_description = None, pin_sources = [] \<rparr>,
       \<lparr> pin_number = ''2'', pin_labels = [''GND''], pin_role_of = GroundPin, pin_attributes = None,
        pin_description = None, pin_sources = [] \<rparr>],
     ce_orientation = \<lparr> ef_value = PcbTop, ef_sources = [] \<rparr>, ce_pads = [], ce_ambiguities = [] \<rparr>"

definition sample_circuit :: "json list" where
  "sample_circuit =
     [JObj [(''type'', JStr ''source_component''), (''manufacturer_part_number'', JStr ''ab1'')],
      JObj [(''type'', JStr ''source_port''), (''name'', JStr ''GND''), (''pin_number'', JStr ''2''), (''requires_ground'', JBool True)],
      JObj [(''type'', JStr ''source_port''), (''name'', JStr ''IN_NEG''), (''port_hints'', JArr [JStr (physical_pin_hint ''1'')])]]"

theorem pinout_agreement_sound_witness:
  "\<exists>el paired. elements_of_type ''source_component'' sample_circuit = [el]
    \<and> normalize_text (actual_part_number el) = normalize_text (expected_part_number sample_part)
    \<and> mset paired = mset (elements_of_type ''source_port'' sample_circuit) \<and> list_all2 serves (ce_pins sample_part) paired"
  by (rule pinout_agreement_sound) code_simp

text \<open>Only a final hyphen is a minus: a leading one is lost, so a negative and a bare rating look the same.\<close>

lemma leading_minus_lost: "normalize_electrical_pin_label ''-5V'' = normalize_electrical_pin_label ''5V''"
  by code_simp

end
