(* ===== verification/Schematic_Plan.thy ===== *)
theory Schematic_Plan
  imports Evidence_Data
begin

text \<open>
  The arrangement of the pins of a part around its schematic symbol,
  \<open>src/server/component-schematic-plan/create-component-schematic-plan.ts\<close>: supplies on top, grounds below,
  inputs on the left, outputs on the right, and the others left and right in turn. The collator that
  orders pin numbers belongs to the host and is a parameter.
\<close>

section \<open>The plan\<close>

record schematic_sides =
  side_left :: "pin_evidence list"
  side_right :: "pin_evidence list"
  side_top :: "pin_evidence list"
  side_bottom :: "pin_evidence list"
  side_flexible :: "pin_evidence list"

record schematic_plan =
  sp_left :: "string list"
  sp_right :: "string list"
  sp_top :: "string list"
  sp_bottom :: "string list"

definition sort_pins :: "(string \<Rightarrow> string \<Rightarrow> int) \<Rightarrow> pin_evidence list \<Rightarrow> pin_evidence list" where
  "sort_pins collate ps = sort_by (\<lambda>p q. collate (pin_number p) (pin_number q)) ps"

definition place_pin :: "pin_evidence \<Rightarrow> schematic_sides \<Rightarrow> schematic_sides" where
  "place_pin p s =
     (if pin_role_of p = PowerInput then s \<lparr> side_top := side_top s @ [p] \<rparr>
      else if pin_role_of p = GroundPin then s \<lparr> side_bottom := side_bottom s @ [p] \<rparr>
      else if pin_role_of p = InputPin \<or> pin_role_of p = NoConnect then s \<lparr> side_left := side_left s @ [p] \<rparr>
      else if pin_role_of p = OutputPin \<or> pin_role_of p = PowerOutput \<or> pin_role_of p = Bidirectional
        then s \<lparr> side_right := side_right s @ [p] \<rparr>
      else s \<lparr> side_flexible := side_flexible s @ [p] \<rparr>)"

definition place_flexible :: "nat \<times> pin_evidence \<Rightarrow> schematic_sides \<Rightarrow> schematic_sides" where
  "place_flexible ip s =
     (if fst ip mod 2 = 0 then s \<lparr> side_left := side_left s @ [snd ip] \<rparr>
      else s \<lparr> side_right := side_right s @ [snd ip] \<rparr>)"

definition no_sides :: schematic_sides where
  "no_sides = \<lparr> side_left = [], side_right = [], side_top = [], side_bottom = [], side_flexible = [] \<rparr>"

definition arranged_sides :: "(string \<Rightarrow> string \<Rightarrow> int) \<Rightarrow> pin_evidence list \<Rightarrow> schematic_sides" where
  "arranged_sides collate ps =
     (let s = fold place_pin (sort_pins collate ps) no_sides in fold place_flexible (enumerate 0 (side_flexible s)) s)"

definition create_schematic_plan :: "(string \<Rightarrow> string \<Rightarrow> int) \<Rightarrow> component_evidence \<Rightarrow> schematic_plan" where
  "create_schematic_plan collate e =
     (let s = arranged_sides collate (ce_pins e) in
      \<lparr> sp_left = map pin_number (sort_pins collate (side_left s)),
        sp_right = map pin_number (sort_pins collate (side_right s)),
        sp_top = map pin_number (sort_pins collate (side_top s)),
        sp_bottom = map pin_number (sort_pins collate (side_bottom s)) \<rparr>)"

section \<open>Where the pins go\<close>

definition flexible_role :: "pin_role \<Rightarrow> bool" where
  "flexible_role r \<longleftrightarrow> r = PassivePin \<or> r = OtherRole"

lemma mset_sort_pins [simp]: "mset (sort_pins collate ps) = mset ps" "set (sort_pins collate ps) = set ps"
  by (simp_all add: sort_pins_def)

lemma placed_pins:
  "fold place_pin ps s =
     \<lparr> side_left = side_left s @ filter (\<lambda>p. pin_role_of p \<in> {InputPin, NoConnect}) ps,
       side_right = side_right s @ filter (\<lambda>p. pin_role_of p \<in> {OutputPin, PowerOutput, Bidirectional}) ps,
       side_top = side_top s @ filter (\<lambda>p. pin_role_of p = PowerInput) ps,
       side_bottom = side_bottom s @ filter (\<lambda>p. pin_role_of p = GroundPin) ps,
       side_flexible = side_flexible s @ filter (\<lambda>p. flexible_role (pin_role_of p)) ps \<rparr>"
proof (induction ps arbitrary: s)
  case (Cons p ps)
  then show ?case by (cases "pin_role_of p") (simp_all add: place_pin_def flexible_role_def)
qed simp

text \<open>The flexible pins with even numbers, and those with odd ones.\<close>

fun every_other :: "'a list \<Rightarrow> 'a list" where
  "every_other [] = []"
| "every_other [x] = [x]"
| "every_other (x # y # zs) = x # every_other zs"

lemma every_other_tl: "every_other (x # xs) = x # every_other (tl xs)"
  by (cases xs) simp_all

lemma place_flexible_even: "place_flexible (n, p) s =
    (if even n then s \<lparr> side_left := side_left s @ [p] \<rparr> else s \<lparr> side_right := side_right s @ [p] \<rparr>)"
  by (simp add: place_flexible_def even_iff_mod_2_eq_zero)

lemma placed_flexible:
  "fold place_flexible (enumerate n ps) s =
     (if even n then s \<lparr> side_left := side_left s @ every_other ps, side_right := side_right s @ every_other (tl ps) \<rparr>
      else s \<lparr> side_left := side_left s @ every_other (tl ps), side_right := side_right s @ every_other ps \<rparr>)"
proof (induction ps arbitrary: n s)
  case (Cons p ps)
  then show ?case by (simp add: place_flexible_even every_other_tl)
qed simp

lemma every_other_mset: "mset (every_other xs) + mset (every_other (tl xs)) = mset xs"
  by (induction xs rule: every_other.induct) (simp_all add: every_other_tl)

lemma every_other_length: "length (every_other xs) = (length xs + 1) div 2"
  by (induction xs rule: every_other.induct) simp_all

lemma arranged:
  fixes collate ps
  defines "qs \<equiv> sort_pins collate ps"
  defines "flexible \<equiv> filter (\<lambda>p. flexible_role (pin_role_of p)) qs"
  shows "side_left (arranged_sides collate ps) = filter (\<lambda>p. pin_role_of p \<in> {InputPin, NoConnect}) qs @ every_other flexible"
    and "side_right (arranged_sides collate ps)
      = filter (\<lambda>p. pin_role_of p \<in> {OutputPin, PowerOutput, Bidirectional}) qs @ every_other (tl flexible)"
    and "side_top (arranged_sides collate ps) = filter (\<lambda>p. pin_role_of p = PowerInput) qs"
    and "side_bottom (arranged_sides collate ps) = filter (\<lambda>p. pin_role_of p = GroundPin) qs"
  by (simp_all add: arranged_sides_def Let_def placed_pins placed_flexible no_sides_def qs_def flexible_def)

lemma roles_split:
  "mset ps = filter_mset (\<lambda>p. pin_role_of p \<in> {InputPin, NoConnect}) (mset ps)
     + filter_mset (\<lambda>p. pin_role_of p \<in> {OutputPin, PowerOutput, Bidirectional}) (mset ps)
     + filter_mset (\<lambda>p. pin_role_of p = PowerInput) (mset ps) + filter_mset (\<lambda>p. pin_role_of p = GroundPin) (mset ps)
     + filter_mset (\<lambda>p. flexible_role (pin_role_of p)) (mset ps)"
proof (induction ps)
  case (Cons p ps)
  then show ?case by (cases "pin_role_of p") (simp_all add: flexible_role_def)
qed simp

text \<open>C30. Every pin of the evidence is placed on the symbol, exactly once: the supplies on top, the grounds
  below, inputs and unconnected pins on the left, outputs on the right; the pins with no side of
  their own are shared out evenly, one more on the left when their number is odd.\<close>

theorem every_pin_placed:
  "mset (sp_left (create_schematic_plan collate e) @ sp_right (create_schematic_plan collate e)
      @ sp_top (create_schematic_plan collate e) @ sp_bottom (create_schematic_plan collate e)) = mset (map pin_number (ce_pins e))
   \<and> mset (sp_top (create_schematic_plan collate e)) = mset (map pin_number (filter (\<lambda>p. pin_role_of p = PowerInput) (ce_pins e)))
   \<and> mset (sp_bottom (create_schematic_plan collate e)) = mset (map pin_number (filter (\<lambda>p. pin_role_of p = GroundPin) (ce_pins e)))
   \<and> (\<exists>l r. mset l + mset r = mset (map pin_number (filter (\<lambda>p. flexible_role (pin_role_of p)) (ce_pins e)))
        \<and> length l = length r + length (l @ r) mod 2
        \<and> mset (sp_left (create_schematic_plan collate e))
            = mset (map pin_number (filter (\<lambda>p. pin_role_of p \<in> {InputPin, NoConnect}) (ce_pins e))) + mset l
        \<and> mset (sp_right (create_schematic_plan collate e))
            = mset (map pin_number (filter (\<lambda>p. pin_role_of p \<in> {OutputPin, PowerOutput, Bidirectional}) (ce_pins e))) + mset r)"
proof -
  let ?ps = "ce_pins e" and ?plan = "create_schematic_plan collate e"
  define flexible where "flexible = filter (\<lambda>p. flexible_role (pin_role_of p)) (sort_pins collate ?ps)"
  let ?l = "every_other flexible" and ?r = "every_other (tl flexible)"
  have sides: "mset (sp_left ?plan) = image_mset pin_number (filter_mset (\<lambda>p. pin_role_of p \<in> {InputPin, NoConnect}) (mset ?ps) + mset ?l)"
    "mset (sp_right ?plan) = image_mset pin_number (filter_mset (\<lambda>p. pin_role_of p \<in> {OutputPin, PowerOutput, Bidirectional}) (mset ?ps) + mset ?r)"
    "mset (sp_top ?plan) = image_mset pin_number (filter_mset (\<lambda>p. pin_role_of p = PowerInput) (mset ?ps))"
    "mset (sp_bottom ?plan) = image_mset pin_number (filter_mset (\<lambda>p. pin_role_of p = GroundPin) (mset ?ps))"
    by (simp_all add: create_schematic_plan_def Let_def arranged flexible_def mset_filter)
  have flexible: "mset ?l + mset ?r = filter_mset (\<lambda>p. flexible_role (pin_role_of p)) (mset ?ps)"
    by (simp add: every_other_mset) (simp add: flexible_def mset_filter)
  have shared: "image_mset pin_number (mset ?l) + image_mset pin_number (mset ?r)
      = image_mset pin_number (filter_mset (\<lambda>p. flexible_role (pin_role_of p)) (mset ?ps))"
    by (simp only: image_mset_union [symmetric] flexible)
  have "length ?l = length ?r + length flexible mod 2" and "length (?l @ ?r) = length flexible"
    by (cases flexible, simp_all add: every_other_length, presburger+)
  then have balance: "length ?l = length ?r + length (?l @ ?r) mod 2" by simp
  have "mset (sp_left ?plan @ sp_right ?plan @ sp_top ?plan @ sp_bottom ?plan) = image_mset pin_number (mset ?ps)"
    unfolding mset_append sides image_mset_union [symmetric]
    by (rule arg_cong [where f = "image_mset pin_number"], subst (5) roles_split, simp only: flexible [symmetric] ac_simps)
  moreover have "\<exists>l r. mset l + mset r = mset (map pin_number (filter (\<lambda>p. flexible_role (pin_role_of p)) ?ps))
        \<and> length l = length r + length (l @ r) mod 2
        \<and> mset (sp_left ?plan) = mset (map pin_number (filter (\<lambda>p. pin_role_of p \<in> {InputPin, NoConnect}) ?ps)) + mset l
        \<and> mset (sp_right ?plan)
            = mset (map pin_number (filter (\<lambda>p. pin_role_of p \<in> {OutputPin, PowerOutput, Bidirectional}) ?ps)) + mset r"
    using balance shared by (intro exI [of _ "map pin_number ?l"] exI [of _ "map pin_number ?r"]) (simp add: sides)
  ultimately show ?thesis by (simp add: sides)
qed

end
