(* ===== verification/Spec2Isabelle.thy ===== *)
theory Spec2Isabelle
  imports Pipeline_Trace Task_Input_Files Job_Store_Guarantees Model_Run_Guarantees Model_Run_Status Api_Runners
    Spice_Scored Process_Guarantees Evidence_Checked Footprint_Merged Pinout_Agreement Schematic_Plan
begin

text \<open>
  A verification library for the server of datasheet-to-tscircuit, a TypeScript program that turns a
  component datasheet into a circuit component and a simulation model. All paths below are relative
  to the directory of the program's own source (\<open>src/\<close>).

  \<^bold>\<open>The program.\<close> A request to the HTTP server (\<open>server/job-api\<close>, \<open>server/model-run-api\<close>) creates, retries, extends,
  cancels or deletes a job or a model run. Its record lives in one of two stores
  (\<open>server/job-store.ts\<close>, \<open>server/model-run-store.ts\<close>), which grant executions and leases, own the abort
  controllers, tell subscribers, append to bounded logs and write a checkpoint of every visible
  change (\<open>server/infrastructure/persistence\<close>). A request that is accepted starts a runner, which is a
  pipeline: \<open>runPipeline\<close> of \<open>server/pipeline\<close> executes stages with declared dependencies, records events
  and snapshots, and publishes a projection of its state without private paths. The stages start
  supervised processes (\<open>server/infrastructure/process\<close>), and the stages of a simulation model read
  what an agent wrote: validation plans, which are parsed, checked, compiled to netlists and
  scored (\<open>server/spice-validation\<close>). The stages of a component decide on the evidence
  that was extracted from the datasheet (\<open>server/component-evidence\<close>) and lay out
  its schematic (\<open>server/component-schematic-plan\<close>).

  \<^bold>\<open>The theories\<close>, from the bottom up.

  \<^item> \<open>Prelude\<close>, \<open>Json\<close>, \<open>Paths\<close>: ordered maps, sets built from arrays, characters, numerals; values read from
    JSON text; the POSIX path functions. The locale \<open>keyed_table\<close> is the contract of an ordered map.
  \<^item> \<open>Run_Monad\<close>, \<open>Run_Logic\<close>: the asynchronous code is a computation from a state to a return or a throw
    together with the state left behind; the contracts of handlers are put together from those of their steps.
  \<^item> \<open>Js_Number\<close>, \<open>Graph_Search\<close>: doubles as rationals with rounding to nearest, ties to even, and their
    shortest decimal text; the stack search over adjacency maps.
  \<^item> \<open>Pipeline_Types\<close>, \<open>Pipeline_Error\<close>, \<open>Pipeline_Definition\<close>, \<open>Pipeline_Runner\<close>: the files \<open>shared/pipeline-types.ts\<close>,
    \<open>server/pipeline/pipeline-error.ts\<close> and \<open>server/pipeline/pipeline-runner.ts\<close>. What a run awaits (clock,
    signal, disk, stage, snapshot, observer) is an environment whose every operation may throw.
    \<open>Pipeline_Frames\<close> says which variables each piece leaves alone; \<open>Pipeline_Steps\<close> and \<open>Pipeline_Runs\<close> are the
    abstract run, an inductive relation over results, flags and calls, that the engine is shown to
    simulate; \<open>Pipeline_Liveness\<close>, \<open>Pipeline_Guarantees\<close> and \<open>Pipeline_Trace\<close> state what a caller and a
    reader of \<open>events.ndjson\<close> may rely on.
  \<^item> \<open>Public_Snapshot\<close>: projection, redaction and the parser of \<open>server/pipeline/public-snapshot.ts\<close>.
  \<^item> \<open>Task_Input\<close>, \<open>Task_Input_Files\<close>: the retained input of a task, \<open>server/pipeline/task-input.ts\<close> and
    \<open>task-input-files.ts\<close>.
  \<^item> \<open>Atomic_Write\<close>, \<open>Bounded_Log\<close>: \<open>atomic-write.ts\<close> and \<open>bounded-log.ts\<close>, with any system call failing. The locale
    \<open>checkpoint_writer\<close> is the contract the stores rely on; it is interpreted on the two writers of the server.
  \<^item> \<open>Store_Base\<close>, \<open>Subscribers\<close>, \<open>Job_Data\<close>, \<open>Job_Store\<close>, \<open>Model_Run_Data\<close>, \<open>Model_Run_Store\<close>: the records, the two
    stores and their observers, with shared objects known by numbers since the code compares them by
    identity. \<open>Job_Store_Frames\<close>, \<open>Job_Store_Safety\<close>, \<open>Job_Store_Guarantees\<close> and the three theories of
    model runs of the same names hold the invariants, the exclusion of executions and the agreement
    of the checkpoints with the records. \<open>Model_Run_Status\<close> is the view a client shows.
  \<^item> \<open>Server_Api\<close>, \<open>Job_Api\<close>, \<open>Job_Retry\<close>, \<open>Job_Deletion\<close>, \<open>Model_Run_Api\<close>, \<open>Api_Runners\<close>: the request handlers over
    both stores. A handler runs alone between its awaits; at an await a schedule chooses the result
    and the operations that other code performs meanwhile.
  \<^item> \<open>Process_Run\<close>, \<open>Process_Guarantees\<close>: a supervised child process as a step relation between the handlers of
    \<open>process-runner.ts\<close>, the child, the timers and the caller.
  \<^item> \<open>Spice_Plan\<close>, \<open>Spice_Parser\<close>, \<open>Spice_Connectivity\<close>, \<open>Spice_Compiler\<close>, \<open>Spice_Scoring\<close>: the data of a validation plan,
    the parsers of its analyses and elements, the checks of its connections, the compiler to a
    netlist and the judgement of a simulated series. \<open>Spice_Connected\<close>, \<open>Spice_Compiled\<close>, \<open>Spice_Netlist\<close>,
    \<open>Spice_Parsed\<close>, \<open>Spice_Scored\<close> and \<open>Spice_Guarantees\<close> hold their theorems.

  \<^item> \<open>Evidence_Data\<close>, \<open>Evidence_Parser\<close>, \<open>Evidence_Checks\<close>: the evidence of a component, its canonical representation, its
    parser, the agreement of pads, the plan made from it and the reasons to block. \<open>Evidence_Parsed\<close> and
    \<open>Evidence_Checked\<close> hold their theorems. \<open>Footprint_Catalog\<close> and \<open>Footprint_Merged\<close>: the signature of a copper
    pattern and the catalog that merges footprints by it. \<open>Pin_Mapping\<close>: the numbers and hints of pins for the
    compiler of circuits. \<open>Pinout_Agreement\<close>: electrical labels (\<open>server/pin-label-normalization.ts\<close>) and the
    agreement of a compiled circuit with the pins. \<open>Schematic_Plan\<close>: the pins around the symbol.
    \<open>Results\<close> and \<open>Js_Arithmetic\<close>, shared with the validation plans, are code that throws, stable
    sorting and the arithmetic of doubles.

  \<^bold>\<open>What the lemmas show.\<close> The engine: a run returns, settles every stage, calls a stage at most once, in
  order, with the final outputs of its dependencies, and never takes back a committed result. The
  stores: their invariants in every reachable state, at most one execution of a job or a run,
  cancellation that reaches the signal, changes that are visible only with their checkpoint. The
  handlers: one runner for each accepted request, one active retry, and a deletion that leaves
  nothing halfway. Persistence: a reader sees the old checkpoint or the new one; logs stay within
  their bound. Processes: every run settles, no child is abandoned, the outcome names its cause.
  Validation plans: the checks accept exactly the well connected cases, what the parsers and the
  checks accept compiles, the netlist is the documented topology, numbers survive printing and
  reading, and a verdict is never silent. Evidence: the parser accepts exactly the well-formed
  evidence, no reason to block is left exactly for trustworthy evidence, agreement of pads and of
  ports is a pairing, a turned drawing has the same signature, merged footprints lose nothing, and
  every pin is placed once and keeps its identity.

  \<^bold>\<open>Bounds and termination.\<close> No definition runs on fuel that could run out unnoticed: recursions are structural or have a
  measure, the stack search counts the nodes not yet visited, and the text of a number tries up to
  1800 digits, more than any double has in its exact decimal expansion, so that a text is always
  found. The limits of the code (log bytes, events, points of an analysis, effort, text lengths)
  are its constants.

  \<^bold>\<open>Parameters.\<close> The clock, random identifiers, failures of the disk, the schedule at awaits, the reactions of
  subscribers, the digest of a file, the comparison of names by locale, the host's logarithm and
  square root, and whatever a child process does are arguments of the definitions; what is assumed
  of them is a premise of the theorem that needs it. Strings are lists of characters below 256; white
  space, letter case and compatibility forms are those of these characters.

  \<^bold>\<open>Not modelled.\<close> The stages that prompt an agent and the instrumentation of that agent, a third-party
  program (\<open>server/component-workflow\<close>, \<open>server/model-workflow\<close>, \<open>server/infrastructure/agent\<close>): the engine takes
  a stage as a parameter, and the handlers record that a runner was launched. The staging of
  directories and the copying and hashing of artifacts (\<open>server/infrastructure/artifacts\<close>,
  \<open>artifact-snapshot.ts\<close>), restoring jobs from disk, routes that serve files or streams, and the evidence that a
  retry reads: file-system input and output, an awaited operation here. The compiler of
  circuits and the simulator with the reader of its raw files, which are external programs. The
  check of a drawn schematic against its plan, whose pins are decoded to characters outside the
  model. The parsers of validation cases and observations, and \<open>server/modeling\<close>, whose requirements they compare
  with. The web client, the command line, scripts and tests.
\<close>

end
